(* ===== verification/Go_Prelude.thy ===== *)
theory Go_Prelude
  imports Main "HOL-Library.AList" "HOL-Library.Char_ord" "HOL-Library.List_Lexorder"
    "HOL-Library.Product_Lexorder" "HOL-Library.Multiset"
begin

text \<open>
  What the components share of the Go language and of its standard library: strings as byte
  lists with the functions of the packages strings, strconv and fmt that the sources call,
  64-bit and 32-bit integers with their wrap-around, and the generic lemmas on lists and sorting
  the component proofs rest on.

  A Go string is a \<^typ>\<open>string\<close>, a list of bytes. The order on strings is the bytewise
  lexicographic order (theories List\_Lexorder and Char\_ord), the one that slices.Sort,
  sort.Strings and strings.Compare use; equal strings are the same value, so the stability of a
  sort of strings is not observable and \<^const>\<open>sort\<close> stands for all of them.
\<close>

named_theorems go_str \<open>rewrite rules on Go strings\<close>
named_theorems go_num \<open>rewrite rules on decimal numerals\<close>

section \<open>Machine integers\<close>

text \<open>Go's int and int64: two's complement on 64 bits; int32 conversion truncates.\<close>

definition wrap64 :: "int \<Rightarrow> int" where
  "wrap64 x = (x + 2 ^ 63) mod 2 ^ 64 - 2 ^ 63"

definition wrap32 :: "int \<Rightarrow> int" where
  "wrap32 x = (x + 2 ^ 31) mod 2 ^ 32 - 2 ^ 31"

definition fits64 :: "int \<Rightarrow> bool" where
  "fits64 x \<longleftrightarrow> - (2 ^ 63) \<le> x \<and> x < 2 ^ 63"

definition fits32 :: "int \<Rightarrow> bool" where
  "fits32 x \<longleftrightarrow> - (2 ^ 31) \<le> x \<and> x < 2 ^ 31"

section \<open>Decimal numerals\<close>

definition isDigitChar :: "char \<Rightarrow> bool" where
  "isDigitChar c \<longleftrightarrow> 48 \<le> (of_char c :: nat) \<and> (of_char c :: nat) \<le> 57"

definition digitVal :: "char \<Rightarrow> nat" where
  "digitVal c = of_char c - 48"

definition digitChar :: "nat \<Rightarrow> char" where
  "digitChar d = char_of (48 + d)"

text \<open>The value of a string of digits, most significant first, and strconv.Itoa.\<close>

definition digitsVal :: "string \<Rightarrow> nat" where
  "digitsVal s = foldl (\<lambda>a c. 10 * a + digitVal c) 0 s"

fun natToDigits :: "nat \<Rightarrow> string" where
  "natToDigits n = (if n < 10 then [digitChar n] else natToDigits (n div 10) @ [digitChar (n mod 10)])"

declare natToDigits.simps [simp del]

definition itoa :: "int \<Rightarrow> string" where
  "itoa i = (if i < 0 then CHR ''-'' # natToDigits (nat (- i)) else natToDigits (nat i))"

text \<open>The verb \<open>%0*d\<close> of fmt.Sprintf: the sign counts towards the width.\<close>

definition padZero :: "nat \<Rightarrow> string \<Rightarrow> string" where
  "padZero w s = replicate (w - length s) (CHR ''0'') @ s"

definition sprintf0d :: "nat \<Rightarrow> int \<Rightarrow> string" where
  "sprintf0d w i =
     (if i < 0 then CHR ''-'' # padZero (w - 1) (natToDigits (nat (- i)))
      else padZero w (natToDigits (nat i)))"

text \<open>
  strconv.ParseInt with base 10: an optional sign, at least one digit, nothing else, and the
  value within the given number of bits; Atoi is the 64-bit case.
\<close>

definition parseUnsigned :: "string \<Rightarrow> int option" where
  "parseUnsigned s = (if s \<noteq> [] \<and> list_all isDigitChar s then Some (int (digitsVal s)) else None)"

definition parseSigned :: "string \<Rightarrow> int option" where
  "parseSigned s =
     (case s of
        [] \<Rightarrow> None
      | c # cs \<Rightarrow>
          if c = CHR ''-'' then map_option uminus (parseUnsigned cs)
          else if c = CHR ''+'' then parseUnsigned cs
          else parseUnsigned s)"

definition parseInt32 :: "string \<Rightarrow> int option" where
  "parseInt32 s = (case parseSigned s of None \<Rightarrow> None | Some i \<Rightarrow> if fits32 i then Some i else None)"

definition atoi :: "string \<Rightarrow> int option" where
  "atoi s = (case parseSigned s of None \<Rightarrow> None | Some i \<Rightarrow> if fits64 i then Some i else None)"

section \<open>Package strings\<close>

definition hasPrefix :: "string \<Rightarrow> string \<Rightarrow> bool" where
  "hasPrefix s p \<longleftrightarrow> take (length p) s = p"

definition hasSuffix :: "string \<Rightarrow> string \<Rightarrow> bool" where
  "hasSuffix s p \<longleftrightarrow> length p \<le> length s \<and> drop (length s - length p) s = p"

definition trimPrefix :: "string \<Rightarrow> string \<Rightarrow> string" where
  "trimPrefix s p = (if hasPrefix s p then drop (length p) s else s)"

fun contains :: "string \<Rightarrow> string \<Rightarrow> bool" where
  "contains [] p = (p = [])"
| "contains (c # s) p = (hasPrefix (c # s) p \<or> contains s p)"

text \<open>strings.Index and strings.LastIndex of a one-byte string; \<open>None\<close> stands for -1.\<close>

fun indexByte :: "char \<Rightarrow> string \<Rightarrow> nat option" where
  "indexByte c [] = None"
| "indexByte c (x # s) = (if x = c then Some 0 else map_option Suc (indexByte c s))"

fun lastIndex :: "char \<Rightarrow> string \<Rightarrow> nat option" where
  "lastIndex c [] = None"
| "lastIndex c (x # s) =
     (case lastIndex c s of Some i \<Rightarrow> Some (Suc i) | None \<Rightarrow> if x = c then Some 0 else None)"

fun strJoin :: "string \<Rightarrow> string list \<Rightarrow> string" where
  "strJoin sep [] = []"
| "strJoin sep [x] = x"
| "strJoin sep (x # y # zs) = x @ sep @ strJoin sep (y # zs)"

text \<open>strings.Split on a one-byte separator, and strings.SplitN with limit 2.\<close>

fun strSplit :: "char \<Rightarrow> string \<Rightarrow> string list" where
  "strSplit c [] = [[]]"
| "strSplit c (x # s) =
     (if x = c then [] # strSplit c s
      else (case strSplit c s of [] \<Rightarrow> [[x]] | p # ps \<Rightarrow> (x # p) # ps))"

definition strSplitN2 :: "char \<Rightarrow> string \<Rightarrow> string list" where
  "strSplitN2 c s = (case indexByte c s of None \<Rightarrow> [s] | Some i \<Rightarrow> [take i s, drop (Suc i) s])"

text \<open>
  strings.TrimSpace: the white space of unicode.IsSpace, each as its UTF-8 byte sequence (ASCII
  white space, U+0085, U+00A0, U+1680, U+2000 to U+200A, U+2028, U+2029, U+202F, U+205F, U+3000).
\<close>

definition spaceSeqs :: "string list" where
  "spaceSeqs =
     [[CHR 0x09], [CHR 0x0A], [CHR 0x0B], [CHR 0x0C], [CHR 0x0D], [CHR 0x20],
      [CHR 0xC2, CHR 0x85], [CHR 0xC2, CHR 0xA0], [CHR 0xE1, CHR 0x9A, CHR 0x80],
      [CHR 0xE2, CHR 0x80, CHR 0x80], [CHR 0xE2, CHR 0x80, CHR 0x81],
      [CHR 0xE2, CHR 0x80, CHR 0x82], [CHR 0xE2, CHR 0x80, CHR 0x83],
      [CHR 0xE2, CHR 0x80, CHR 0x84], [CHR 0xE2, CHR 0x80, CHR 0x85],
      [CHR 0xE2, CHR 0x80, CHR 0x86], [CHR 0xE2, CHR 0x80, CHR 0x87],
      [CHR 0xE2, CHR 0x80, CHR 0x88], [CHR 0xE2, CHR 0x80, CHR 0x89],
      [CHR 0xE2, CHR 0x80, CHR 0x8A], [CHR 0xE2, CHR 0x80, CHR 0xA8],
      [CHR 0xE2, CHR 0x80, CHR 0xA9], [CHR 0xE2, CHR 0x80, CHR 0xAF],
      [CHR 0xE2, CHR 0x81, CHR 0x9F], [CHR 0xE3, CHR 0x80, CHR 0x80]]"

function dropSeqs :: "string list \<Rightarrow> string \<Rightarrow> string" where
  "dropSeqs seqs s =
     (case find (\<lambda>p. p \<noteq> [] \<and> hasPrefix s p) seqs of
        None \<Rightarrow> s
      | Some p \<Rightarrow> if s = [] then s else dropSeqs seqs (drop (length p) s))"
  by pat_completeness auto
termination
  by (relation "measure (\<lambda>(seqs, s). length s)") (auto simp: find_Some_iff)

declare dropSeqs.simps [simp del]

definition trimLeftSpace :: "string \<Rightarrow> string" where
  "trimLeftSpace s = dropSeqs spaceSeqs s"

definition trimRightSpace :: "string \<Rightarrow> string" where
  "trimRightSpace s = rev (dropSeqs (map rev spaceSeqs) (rev s))"

definition trimSpace :: "string \<Rightarrow> string" where
  "trimSpace s = trimRightSpace (trimLeftSpace s)"

section \<open>Lemmas on numerals\<close>

lemma wrap64_id [simp]: "fits64 x \<Longrightarrow> wrap64 x = x"
  by (simp add: wrap64_def fits64_def)

lemma wrap32_id [simp]: "fits32 x \<Longrightarrow> wrap32 x = x"
  by (simp add: wrap32_def fits32_def)

lemma fits64_wrap64: "fits64 (wrap64 x)"
  by (simp add: wrap64_def fits64_def)

lemma of_char_digitChar: "d < 10 \<Longrightarrow> (of_char (digitChar d) :: nat) = 48 + d"
  by (simp add: digitChar_def)

lemma digitVal_digitChar [go_num]: "d < 10 \<Longrightarrow> digitVal (digitChar d) = d"
  by (simp add: digitVal_def of_char_digitChar)

lemma isDigitChar_digitChar [go_num]: "d < 10 \<Longrightarrow> isDigitChar (digitChar d)"
  by (simp add: isDigitChar_def of_char_digitChar)

lemma digitChar_digitVal [go_num]: "isDigitChar c \<Longrightarrow> digitChar (digitVal c) = c"
  by (simp add: isDigitChar_def digitVal_def digitChar_def)

lemma digitVal_less: "isDigitChar c \<Longrightarrow> digitVal c < 10"
  by (auto simp: isDigitChar_def digitVal_def)

lemma digitVal_zero: "isDigitChar c \<Longrightarrow> digitVal c = 0 \<longleftrightarrow> c = CHR ''0''"
proof -
  assume c: "isDigitChar c"
  have "(of_char (digitChar 0) :: nat) = of_char (CHR ''0'')" by (simp add: of_char_digitChar)
  then have "digitChar 0 = CHR ''0''" by (simp only: of_char_eq_iff)
  moreover have "digitVal (CHR ''0'') = 0" by (simp add: digitVal_def)
  ultimately show ?thesis using digitChar_digitVal [OF c] by metis
qed

lemma digitsVal_Nil [simp]: "digitsVal [] = 0"
  by (simp add: digitsVal_def)

lemma digitsVal_snoc [simp]: "digitsVal (s @ [c]) = 10 * digitsVal s + digitVal c"
  by (simp add: digitsVal_def)

lemma digitsVal_zeros: "digitsVal (replicate k (CHR ''0'') @ s) = digitsVal s"
proof -
  have "digitsVal (replicate k (CHR ''0'')) = 0"
  proof (induction k)
    case (Suc k)
    have "replicate (Suc k) (CHR ''0'') = replicate k (CHR ''0'') @ [CHR ''0'']"
      by (simp add: replicate_append_same)
    with Suc show ?case by (simp add: digitVal_def del: replicate_Suc)
  qed simp
  then show ?thesis by (simp add: digitsVal_def)
qed

lemma natToDigits_neq_Nil [simp]: "natToDigits n \<noteq> []"
  by (subst natToDigits.simps) simp

lemma natToDigits_digits: "list_all isDigitChar (natToDigits n)"
proof (induction n rule: natToDigits.induct)
  case (1 n)
  then show ?case
    by (subst natToDigits.simps) (auto simp: go_num)
qed

lemma digitsVal_natToDigits [simp]: "digitsVal (natToDigits n) = n"
proof (induction n rule: natToDigits.induct)
  case (1 n)
  show ?case
  proof (cases "n < 10")
    case True
    then show ?thesis
      using digitsVal_snoc [of "[]" "digitChar n"] by (simp add: natToDigits.simps [of n] go_num)
  next
    case False
    with 1 show ?thesis by (simp add: natToDigits.simps [of n] go_num)
  qed
qed

lemma natToDigits_inject [simp]: "natToDigits m = natToDigits n \<longleftrightarrow> m = n"
  by (metis digitsVal_natToDigits)

lemma digitsVal_pos: "list_all isDigitChar s \<Longrightarrow> s \<noteq> [] \<Longrightarrow> hd s \<noteq> CHR ''0'' \<Longrightarrow> 0 < digitsVal s"
proof (induction s rule: rev_induct)
  case (snoc c s)
  show ?case
  proof (cases "s = []")
    case True
    with snoc.prems show ?thesis
      using digitsVal_snoc [of "[]" c] digitVal_zero [of c] by auto
  next
    case False
    with snoc show ?thesis by simp
  qed
qed simp

lemma natToDigits_digitsVal:
  assumes "list_all isDigitChar s" "s \<noteq> []" "length s > 1 \<longrightarrow> hd s \<noteq> CHR ''0''"
  shows "natToDigits (digitsVal s) = s"
  using assms
proof (induction s rule: rev_induct)
  case (snoc c s)
  then have c: "isDigitChar c" by simp
  show ?case
  proof (cases "s = []")
    case True
    with c show ?thesis
      using digitsVal_snoc [of "[]" c] digitVal_less [OF c]
      by (simp add: natToDigits.simps [of "digitVal c"] go_num)
  next
    case False
    with snoc.prems have hd: "hd s \<noteq> CHR ''0''" and s: "list_all isDigitChar s" by auto
    from snoc.IH s False hd have IH: "natToDigits (digitsVal s) = s" by blast
    from digitsVal_pos [OF s False hd] digitVal_less [OF c]
    have "\<not> 10 * digitsVal s + digitVal c < 10"
      and "(10 * digitsVal s + digitVal c) div 10 = digitsVal s"
      and "(10 * digitsVal s + digitVal c) mod 10 = digitVal c" by auto
    with IH c show ?thesis
      by (simp add: natToDigits.simps [of "10 * digitsVal s + digitVal c"] go_num)
  qed
qed simp

lemma natToDigits_length_mono: "m \<le> n \<Longrightarrow> length (natToDigits m) \<le> length (natToDigits n)"
proof (induction n arbitrary: m rule: natToDigits.induct)
  case (1 n)
  show ?case
  proof (cases "m < 10")
    case True
    then show ?thesis
      by (simp add: natToDigits.simps [of m]) (metis Suc_leI length_greater_0_conv natToDigits_neq_Nil)
  next
    case False
    with "1.prems" have "\<not> n < 10" "m div 10 \<le> n div 10" by (auto simp: div_le_mono)
    with 1 False show ?thesis
      by (simp add: natToDigits.simps [of m] natToDigits.simps [of n])
  qed
qed

lemma digit_string_zeros:
  "list_all isDigitChar s \<Longrightarrow> s \<noteq> [] \<Longrightarrow> padZero (length s) (natToDigits (digitsVal s)) = s"
proof (induction s)
  case (Cons c s)
  show ?case
  proof (cases "c = CHR ''0'' \<and> s \<noteq> []")
    case True
    have "digitsVal (c # s) = digitsVal s"
      using True digitsVal_zeros [of 1 s] by simp
    with Cons True have IH: "padZero (length s) (natToDigits (digitsVal (c # s))) = s" by simp
    then have "length (natToDigits (digitsVal (c # s))) \<le> length s"
      by (metis length_append le_add2 padZero_def)
    with IH True show ?thesis by (simp add: padZero_def Suc_diff_le)
  next
    case False
    with Cons.prems have "natToDigits (digitsVal (c # s)) = c # s"
      by (intro natToDigits_digitsVal) auto
    then show ?thesis by (simp add: padZero_def)
  qed
qed simp

lemma digitsVal_padZero [simp]: "digitsVal (padZero w s) = digitsVal s"
  by (simp add: padZero_def digitsVal_zeros)

lemma list_all_digits_padZero: "list_all isDigitChar s \<Longrightarrow> list_all isDigitChar (padZero w s)"
  by (auto simp: padZero_def list_all_iff isDigitChar_def)

lemma padZero_widen:
  assumes "m \<le> n"
  shows "padZero (length (padZero w (natToDigits m))) (natToDigits n) = padZero w (natToDigits n)"
  using natToDigits_length_mono [OF assms] by (auto simp: padZero_def max_def)

lemma parseUnsigned_digits [simp]:
  "list_all isDigitChar s \<Longrightarrow> s \<noteq> [] \<Longrightarrow> parseUnsigned s = Some (int (digitsVal s))"
  by (simp add: parseUnsigned_def)

lemma parseSigned_digits [simp]:
  "list_all isDigitChar s \<Longrightarrow> s \<noteq> [] \<Longrightarrow> parseSigned s = Some (int (digitsVal s))"
  by (cases s) (auto simp: parseSigned_def isDigitChar_def)

lemma atoi_digits:
  "list_all isDigitChar s \<Longrightarrow> s \<noteq> [] \<Longrightarrow>
   atoi s = (if int (digitsVal s) < 2 ^ 63 then Some (int (digitsVal s)) else None)"
  by (simp add: atoi_def fits64_def)

lemma parseInt32_digits:
  "list_all isDigitChar s \<Longrightarrow> s \<noteq> [] \<Longrightarrow>
   parseInt32 s = (if int (digitsVal s) < 2 ^ 31 then Some (int (digitsVal s)) else None)"
  by (simp add: parseInt32_def fits32_def)

section \<open>Lemmas on strings\<close>

lemma hasPrefix_append [simp]: "hasPrefix (p @ s) p"
  by (simp add: hasPrefix_def)

lemma hasPrefix_Nil [simp]: "hasPrefix s []"
  by (simp add: hasPrefix_def)

lemma hasPrefix_iff: "hasPrefix s p \<longleftrightarrow> (\<exists>r. s = p @ r)"
  by (metis append_take_drop_id hasPrefix_append hasPrefix_def)

lemma hasPrefix_Cons_Cons [simp]: "hasPrefix (c # s) (d # p) \<longleftrightarrow> c = d \<and> hasPrefix s p"
  by (auto simp: hasPrefix_def)

lemma trimPrefix_append [simp]: "trimPrefix (p @ s) p = s"
  by (simp add: trimPrefix_def)

lemma append_trimPrefix: "hasPrefix s p \<Longrightarrow> p @ trimPrefix s p = s"
  by (auto simp: hasPrefix_iff)

lemma lastIndex_None: "lastIndex c s = None \<longleftrightarrow> c \<notin> set s"
  by (induction s) (auto split: option.splits)

lemma lastIndex_absent [simp]: "c \<notin> set s \<Longrightarrow> lastIndex c s = None"
  by (simp add: lastIndex_None)

lemma lastIndex_split: "c \<notin> set t \<Longrightarrow> lastIndex c (s @ c # t) = Some (length s)"
  by (induction s) auto

lemma lastIndex_Some: "lastIndex c s = Some i \<longleftrightarrow> (\<exists>t u. s = t @ c # u \<and> length t = i \<and> c \<notin> set u)"
proof
  assume i: "lastIndex c s = Some i"
  then have "c \<in> set s" by (metis lastIndex_None option.distinct(1))
  then obtain t u where s: "s = t @ c # u" "c \<notin> set u" by (meson split_list_last)
  with i lastIndex_split [of c u t] show "\<exists>t u. s = t @ c # u \<and> length t = i \<and> c \<notin> set u" by auto
qed (auto simp: lastIndex_split)

lemma indexByte_None: "indexByte c s = None \<longleftrightarrow> c \<notin> set s"
  by (induction s) auto

lemma indexByte_absent [simp]: "c \<notin> set s \<Longrightarrow> indexByte c s = None"
  by (simp add: indexByte_None)

lemma indexByte_split: "c \<notin> set s \<Longrightarrow> indexByte c (s @ c # t) = Some (length s)"
  by (induction s) auto

lemma strSplitN2_split: "c \<notin> set s \<Longrightarrow> strSplitN2 c (s @ c # t) = [s, t]"
  by (simp add: strSplitN2_def indexByte_split)

lemma strSplit_neq_Nil [simp]: "strSplit c s \<noteq> []"
  by (induction s) (auto split: list.splits)

lemma strSplit_single [simp]: "c \<notin> set s \<Longrightarrow> strSplit c s = [s]"
  by (induction s) auto

lemma strSplit_append: "c \<notin> set s \<Longrightarrow> strSplit c (s @ c # t) = s # strSplit c t"
  by (induction s) auto

lemma strSplit_strJoin:
  "xs \<noteq> [] \<Longrightarrow> \<forall>x \<in> set xs. c \<notin> set x \<Longrightarrow> strSplit c (strJoin [c] xs) = xs"
  by (induction "[c]" xs rule: strJoin.induct) (auto simp: strSplit_append)

lemma set_strJoin: "set (strJoin sep xs) \<subseteq> set sep \<union> (\<Union>x \<in> set xs. set x)"
  by (induction sep xs rule: strJoin.induct) auto

lemma strJoin_Cons: "xs \<noteq> [] \<Longrightarrow> strJoin sep (x # xs) = x @ sep @ strJoin sep xs"
  by (cases xs) auto

text \<open>Printable ASCII bytes neither start nor end any white space sequence.\<close>

definition graphic :: "char \<Rightarrow> bool" where
  "graphic c \<longleftrightarrow> 33 \<le> (of_char c :: nat) \<and> (of_char c :: nat) < 127"

lemma dropSeqs_stop:
  assumes "\<And>p. p \<in> set seqs \<Longrightarrow> p \<noteq> [] \<Longrightarrow> \<not> graphic (hd p)" and "s = [] \<or> graphic (hd s)"
  shows "dropSeqs seqs s = s"
proof -
  have "\<not> (p \<noteq> [] \<and> hasPrefix s p)" if "p \<in> set seqs" for p
    using assms(1) [OF that] assms(2) by (cases p) (auto simp: hasPrefix_iff)
  then have "find (\<lambda>p. p \<noteq> [] \<and> hasPrefix s p) seqs = None"
    by (auto simp: find_None_iff)
  then show ?thesis by (simp add: dropSeqs.simps [of seqs s])
qed

lemma trimSpace_graphic:
  assumes "s = [] \<or> graphic (hd s) \<and> graphic (last s)"
  shows "trimSpace s = s"
proof -
  have space_ends: "list_all (\<lambda>p. \<not> graphic (hd p) \<and> \<not> graphic (last p)) spaceSeqs"
    by (simp add: spaceSeqs_def graphic_def)
  have l: "trimLeftSpace s = s" unfolding trimLeftSpace_def
  proof (rule dropSeqs_stop)
    show "s = [] \<or> graphic (hd s)" using assms by blast
  qed (use space_ends in \<open>auto simp: list_all_iff\<close>)
  have "dropSeqs (map rev spaceSeqs) (rev s) = rev s"
  proof (rule dropSeqs_stop)
    show "rev s = [] \<or> graphic (hd (rev s))" using assms by (auto simp: hd_rev)
  qed (use space_ends in \<open>auto simp: list_all_iff hd_rev\<close>)
  with l show ?thesis by (simp add: trimSpace_def trimRightSpace_def)
qed

section \<open>Lemmas on multisets and sorting\<close>

lemma mset_concat_map: "mset (concat (map f xs)) = \<Sum>\<^sub># (image_mset (\<lambda>x. mset (f x)) (mset xs))"
  by (induction xs) auto

lemma sort_perm: "mset xs = mset ys \<Longrightarrow> sort xs = sort ys"
  by (rule properties_for_sort) simp_all

lemma sort_same_set: "distinct xs \<Longrightarrow> distinct ys \<Longrightarrow> set xs = set ys \<Longrightarrow> sort xs = sort ys"
  by (rule sort_perm) (blast intro: set_eq_iff_mset_eq_distinct [THEN iffD1])

end
