(* ===== verification/Go_Maps.thy ===== *)
theory Go_Maps
  imports Go_Prelude
begin

text \<open>
  Go maps and sets. A map is an association list with distinct keys, a set (a map to the empty
  struct) a list without duplicates. A \<open>for range\<close> loop over a map visits its entries in an
  order the language leaves open: the model visits them in the order of the list, and a component
  whose result must not depend on that order proves that every permutation of the list gives an
  equivalent result. The locale \<open>range_loop\<close> states what a loop body has to satisfy for that.
\<close>

type_synonym ('k, 'v) gomap = "('k \<times> 'v) list"

named_theorems go_map \<open>rewrite rules on Go maps and sets\<close>

abbreviation wfMap :: "('k, 'v) gomap \<Rightarrow> bool" where
  "wfMap m \<equiv> distinct (map fst m)"

definition mapPut :: "'k \<Rightarrow> 'v \<Rightarrow> ('k, 'v) gomap \<Rightarrow> ('k, 'v) gomap" where
  "mapPut k v m = AList.update k v m"

definition mapDelete :: "'k \<Rightarrow> ('k, 'v) gomap \<Rightarrow> ('k, 'v) gomap" where
  "mapDelete k m = AList.delete k m"

text \<open>Reading a missing key gives the zero value: the nil slice, the empty string.\<close>

definition getList :: "('k, 'a list) gomap \<Rightarrow> 'k \<Rightarrow> 'a list" where
  "getList m k = (case map_of m k of None \<Rightarrow> [] | Some xs \<Rightarrow> xs)"

definition getStr :: "('k, string) gomap \<Rightarrow> 'k \<Rightarrow> string" where
  "getStr m k = (case map_of m k of None \<Rightarrow> [] | Some s \<Rightarrow> s)"

text \<open>The idioms \<open>m[k] = append(m[k], x)\<close> and \<open>set[x] = struct{}{}\<close>.\<close>

definition mapAppend :: "'k \<Rightarrow> 'a \<Rightarrow> ('k, 'a list) gomap \<Rightarrow> ('k, 'a list) gomap" where
  "mapAppend k x m = mapPut k (getList m k @ [x]) m"

definition setAdd :: "'a \<Rightarrow> 'a list \<Rightarrow> 'a list" where
  "setAdd x s = (if x \<in> set s then s else s @ [x])"

definition setOfList :: "'a list \<Rightarrow> 'a list" where
  "setOfList xs = fold setAdd xs []"

section \<open>Lemmas\<close>

lemma map_of_mapPut [go_map]: "map_of (mapPut k v m) = (map_of m)(k \<mapsto> v)"
  by (simp add: mapPut_def update_conv')

lemma map_of_mapDelete [go_map]: "map_of (mapDelete k m) = (map_of m)(k := None)"
  by (simp add: mapDelete_def delete_conv')

lemma wfMap_mapPut [simp, intro]: "wfMap m \<Longrightarrow> wfMap (mapPut k v m)"
  by (simp add: mapPut_def distinct_update)

lemma wfMap_mapDelete [simp, intro]: "wfMap m \<Longrightarrow> wfMap (mapDelete k m)"
  by (simp add: mapDelete_def distinct_delete)

lemma keys_mapPut [go_map]: "fst ` set (mapPut k v m) = insert k (fst ` set m)"
  by (simp add: mapPut_def dom_update)

lemma keys_mapDelete [go_map]: "fst ` set (mapDelete k m) = fst ` set m - {k}"
  using arg_cong [OF AList.delete_keys [of k m], of set] by (simp add: mapDelete_def)

lemma getList_Nil [simp]: "getList [] k = []"
  by (simp add: getList_def)

lemma getStr_mapPut [go_map]: "getStr (mapPut k v m) k' = (if k' = k then v else getStr m k')"
  by (simp add: getStr_def go_map)

lemma getList_mapPut [go_map]: "getList (mapPut k v m) k' = (if k' = k then v else getList m k')"
  by (simp add: getList_def go_map)

lemma getList_mapAppend [go_map]:
  "getList (mapAppend k x m) k' = (if k' = k then getList m k @ [x] else getList m k')"
  by (simp add: mapAppend_def go_map)

lemma wfMap_mapAppend [simp, intro]: "wfMap m \<Longrightarrow> wfMap (mapAppend k x m)"
  by (auto simp: mapAppend_def)

lemma keys_mapAppend [go_map]: "fst ` set (mapAppend k x m) = insert k (fst ` set m)"
  by (simp add: mapAppend_def go_map)

text \<open>Grouping: a loop of appends collects, under each key, the values of that key in order.\<close>

lemma getList_fold_append:
  "getList (fold (\<lambda>e. mapAppend (f e) (g e)) es m) k = getList m k @ map g (filter (\<lambda>e. f e = k) es)"
  by (induction es arbitrary: m) (auto simp: go_map)

lemma keys_fold_append:
  "fst ` set (fold (\<lambda>e. mapAppend (f e) (g e)) es m) = fst ` set m \<union> f ` set es"
  by (induction es arbitrary: m) (auto simp: go_map)

lemma wfMap_fold_append: "wfMap m \<Longrightarrow> wfMap (fold (\<lambda>e. mapAppend (f e) (g e)) es m)"
  by (induction es arbitrary: m) auto

text \<open>Grouping loses nothing: the groups, put together, hold exactly the values appended.\<close>

definition ungroup :: "('k \<Rightarrow> 'a \<Rightarrow> 'b) \<Rightarrow> ('k, 'a list) gomap \<Rightarrow> 'b list" where
  "ungroup h m = concat (map (\<lambda>(k, xs). map (h k) xs) m)"

lemma mset_ungroup_mapAppend:
  "wfMap m \<Longrightarrow> mset (ungroup h (mapAppend k x m)) = add_mset (h k x) (mset (ungroup h m))"
proof (induction m)
  case (Cons e m)
  obtain k' xs where e: "e = (k', xs)" by fastforce
  show ?case
  proof (cases "k' = k")
    case False
    then have "mapAppend k x (e # m) = e # mapAppend k x m"
      by (simp add: e mapAppend_def mapPut_def getList_def)
    with Cons e show ?thesis by (simp add: ungroup_def)
  qed (simp add: e mapAppend_def mapPut_def getList_def ungroup_def)
qed (simp add: mapAppend_def mapPut_def ungroup_def)

lemma mset_ungroup_fold:
  "wfMap m \<Longrightarrow> mset (ungroup h (fold (\<lambda>e. mapAppend (f e) (g e)) es m))
     = mset (map (\<lambda>e. h (f e) (g e)) es) + mset (ungroup h m)"
  by (induction es arbitrary: m) (auto simp: mset_ungroup_mapAppend)

lemma map_of_getList: "k \<in> fst ` set m \<Longrightarrow> map_of m k = Some (getList m k)"
  by (auto simp: getList_def split: option.splits dest: weak_map_of_SomeI simp: map_of_eq_None_iff)

lemma getList_entry: "(k, v) \<in> set m \<Longrightarrow> wfMap m \<Longrightarrow> getList m k = v"
  by (simp add: getList_def map_of_is_SomeI)

lemma set_setAdd [go_map]: "set (setAdd x s) = insert x (set s)"
  by (auto simp: setAdd_def)

lemma distinct_setAdd [simp, intro]: "distinct s \<Longrightarrow> distinct (setAdd x s)"
  by (simp add: setAdd_def)

lemma set_fold_setAdd: "set (fold setAdd xs s) = set xs \<union> set s"
  by (induction xs arbitrary: s) (auto simp: go_map)

lemma distinct_fold_setAdd: "distinct s \<Longrightarrow> distinct (fold setAdd xs s)"
  by (induction xs arbitrary: s) auto

lemma set_setOfList [simp]: "set (setOfList xs) = set xs"
  by (simp add: setOfList_def set_fold_setAdd)

lemma distinct_setOfList [simp]: "distinct (setOfList xs)"
  by (simp add: setOfList_def distinct_fold_setAdd)

text \<open>Two well-formed maps with the same entries are permutations of each other.\<close>

lemma map_of_perm: "mset m = mset m' \<Longrightarrow> wfMap m \<Longrightarrow> map_of m = map_of m'"
  by (metis distinct_map map_of_inject_set mset_eq_imp_distinct_iff mset_map set_mset_mset)

lemma wfMap_perm: "mset m = mset m' \<Longrightarrow> wfMap m \<longleftrightarrow> wfMap m'"
  by (metis mset_eq_imp_distinct_iff mset_map)

section \<open>Loops over maps\<close>

text \<open>
  The contract of a loop body that may visit the entries in any order: it respects an equivalence
  of states, and two visits of different entries commute up to that equivalence. Entries are
  different when their keys, given by \<open>key\<close>, are.
\<close>

locale range_loop =
  fixes step :: "'e \<Rightarrow> 's \<Rightarrow> 's" and eqv :: "'s \<Rightarrow> 's \<Rightarrow> bool" and key :: "'e \<Rightarrow> 'k"
  assumes eqv_refl: "eqv s s"
    and eqv_trans: "eqv s t \<Longrightarrow> eqv t u \<Longrightarrow> eqv s u"
    and step_cong: "eqv s t \<Longrightarrow> eqv (step x s) (step x t)"
    and step_commute: "key x \<noteq> key y \<Longrightarrow> eqv (step x (step y s)) (step y (step x s))"
begin

lemma fold_cong_eqv: "eqv s t \<Longrightarrow> eqv (fold step xs s) (fold step xs t)"
  by (induction xs arbitrary: s t) (auto intro: step_cong)

lemma fold_push_front:
  "key x \<notin> key ` set ys \<Longrightarrow> eqv (fold step (x # ys @ zs) s) (fold step (ys @ x # zs) s)"
proof (induction ys arbitrary: s)
  case Nil
  then show ?case by (simp add: eqv_refl)
next
  case (Cons y ys)
  then have "eqv (fold step (x # ys @ zs) (step y s)) (fold step (ys @ x # zs) (step y s))" by simp
  moreover have "eqv (fold step (ys @ zs) (step y (step x s))) (fold step (x # ys @ zs) (step y s))"
    using Cons.prems by (auto intro!: fold_cong_eqv step_commute)
  ultimately show ?case by (auto intro: eqv_trans)
qed

lemma fold_perm:
  "mset xs = mset ys \<Longrightarrow> distinct (map key xs) \<Longrightarrow> eqv (fold step xs s) (fold step ys s)"
proof (induction xs arbitrary: ys s)
  case Nil
  then show ?case by (simp add: eqv_refl)
next
  case (Cons x xs)
  then obtain us vs where ys: "ys = us @ x # vs"
    by (metis in_set_conv_decomp list.set_intros(1) mset_eq_setD)
  with Cons.prems have m: "mset xs = mset (us @ vs)" by simp
  then have "set (us @ vs) = set xs" by (metis mset_eq_setD)
  with Cons.prems have x: "key x \<notin> key ` set us" by auto
  from Cons.IH [OF m] Cons.prems
  have "eqv (fold step (x # xs) s) (fold step (x # us @ vs) s)" by simp
  moreover have "eqv (fold step (x # us @ vs) s) (fold step (us @ x # vs) s)"
    using x by (rule fold_push_front)
  ultimately show ?case unfolding ys by (rule eqv_trans)
qed

end

end
