(* ===== verification/Slurm_Pattern.thy ===== *)
theory Slurm_Pattern
  imports Go_Maps
begin

text \<open>
  The package internal/utils/slurm/pattern: writing a list of names as a Slurm hostlist
  expression, e.g. worker-0, worker-1, worker-3 as \<open>worker-[0-1,3]\<close>. The operations of merge.go
  and helpers.go come first, then the reference meaning of a hostlist expression, then the
  theorems: the expression denotes exactly the names it was made from, and it depends on their
  set only.
\<close>

section \<open>helpers.go\<close>

record suffixKey =
  sk_number :: int
  sk_width :: nat

record numericSuffix =
  ns_number :: int
  ns_width :: nat

record suffixGroup =
  sg_width :: nat
  sg_numbers :: "int list"

definition formatPatternNumber :: "int \<Rightarrow> nat \<Rightarrow> string" where
  "formatPatternNumber number width = sprintf0d width number"

definition hasLeadingZero :: "string \<Rightarrow> bool" where
  "hasLeadingZero s \<longleftrightarrow> 1 < length s \<and> s ! 0 = CHR ''0''"

definition isDigits :: "string \<Rightarrow> bool" where
  "isDigits s \<longleftrightarrow> list_all isDigitChar s"

definition dashedPrefix :: "string \<Rightarrow> string option" where
  "dashedPrefix s =
     (case lastIndex (CHR ''-'') s of
        None \<Rightarrow> None
      | Some i \<Rightarrow>
          if i = length s - 1 then None
          else if \<not> isDigits (drop (i + 1) s) then None
          else Some (take (i + 1) s))"

text \<open>
  The loop of renderSuffixGroup: the inner loop (\<open>extendRun\<close>) advances while the next number
  is the successor of the end of the current range, the outer one writes the range and goes on
  behind it.
\<close>

fun extendRun :: "int \<Rightarrow> int list \<Rightarrow> int \<times> int list" where
  "extendRun end [] = (end, [])"
| "extendRun end (n # ns) = (if n = wrap64 (end + 1) then extendRun n ns else (end, n # ns))"

lemma extendRun_length: "extendRun end ns = (e, rest) \<Longrightarrow> length rest \<le> length ns"
  by (induction "end" ns rule: extendRun.induct) (auto split: if_splits)

function renderRanges :: "nat \<Rightarrow> int list \<Rightarrow> string list" where
  "renderRanges width [] = []"
| "renderRanges width (start # ns) =
     (case extendRun start ns of (end, rest) \<Rightarrow>
        (if start = end then formatPatternNumber start width
         else formatPatternNumber start width @ ''-'' @ formatPatternNumber end width)
        # renderRanges width rest)"
  by pat_completeness auto
termination
  by (relation "measure (\<lambda>(width, ns). length ns)")
    (auto simp: less_Suc_eq_le dest: extendRun_length [OF sym])

definition renderSuffixGroup :: "string \<Rightarrow> suffixGroup \<Rightarrow> string" where
  "renderSuffixGroup prefix grp =
     (if length (sg_numbers grp) = 1
      then prefix @ formatPatternNumber (sg_numbers grp ! 0) (sg_width grp)
      else prefix @ ''['' @ strJoin '','' (renderRanges (sg_width grp) (sg_numbers grp)) @ '']'')"

section \<open>merge.go\<close>

text \<open>One turn of the first loop of MergePrefixed: numeric suffixes, pass-through names, the flag.\<close>

definition scanSuffix ::
    "string \<Rightarrow> string \<Rightarrow> numericSuffix list \<times> string list \<times> bool \<Rightarrow> numericSuffix list \<times> string list \<times> bool"
where
  "scanSuffix prefix entity =
     (\<lambda>(numericSuffixes, passthrough, hasPaddedSuffix).
        if \<not> hasPrefix entity prefix then (numericSuffixes, setAdd entity passthrough, hasPaddedSuffix)
        else let suffix = trimPrefix entity prefix in
          if suffix = [] \<or> \<not> isDigits suffix
          then (numericSuffixes, setAdd entity passthrough, hasPaddedSuffix)
          else (case atoi suffix of
              None \<Rightarrow> (numericSuffixes, setAdd entity passthrough, hasPaddedSuffix)
            | Some number \<Rightarrow>
                (numericSuffixes @ [\<lparr>ns_number = number, ns_width = length suffix\<rparr>],
                 passthrough, hasPaddedSuffix \<or> hasLeadingZero suffix)))"

text \<open>One turn of its second loop: the suffixes seen so far and the numbers of each width.\<close>

definition groupSuffix ::
    "bool \<Rightarrow> numericSuffix \<Rightarrow> suffixKey list \<times> (nat, int list) gomap \<Rightarrow> suffixKey list \<times> (nat, int list) gomap"
where
  "groupSuffix hasPaddedSuffix suffix =
     (\<lambda>(seenSuffixes, suffixesByWidth).
        let width = (if hasPaddedSuffix then ns_width suffix else 0);
            key = \<lparr>sk_number = ns_number suffix, sk_width = width\<rparr>
        in if key \<in> set seenSuffixes then (seenSuffixes, suffixesByWidth)
           else (setAdd key seenSuffixes, mapAppend (sk_width key) (sk_number key) suffixesByWidth))"

text \<open>
  slices.SortFunc compares the first number and then the width; the widths of two groups differ,
  so the order is total on them and the sort by that pair of keys is the only result it can have.
\<close>

definition suffixGroups :: "(nat, int list) gomap \<Rightarrow> suffixGroup list" where
  "suffixGroups suffixesByWidth =
     sort_key (\<lambda>g. (sg_numbers g ! 0, sg_width g))
       (map (\<lambda>(width, numbers). \<lparr>sg_width = width, sg_numbers = sort numbers\<rparr>) suffixesByWidth)"

definition MergePrefixed :: "string list \<Rightarrow> string \<Rightarrow> string" where
  "MergePrefixed entities prefix =
     (if entities = [] then []
      else
        let (numericSuffixes, passthrough, hasPaddedSuffix) =
              fold (scanSuffix prefix) entities ([], [], False);
            (seenSuffixes, suffixesByWidth) =
              fold (groupSuffix hasPaddedSuffix) numericSuffixes ([], []);
            parts = map (renderSuffixGroup prefix) (suffixGroups suffixesByWidth)
        in strJoin '','' (parts @ sort passthrough))"

definition scanEntity ::
    "string \<Rightarrow> (string, string list) gomap \<times> string list \<times> string list \<Rightarrow>
     (string, string list) gomap \<times> string list \<times> string list" where
  "scanEntity entity =
     (\<lambda>(entitiesByPrefix, prefixes, passthrough).
        case dashedPrefix entity of
          None \<Rightarrow> (entitiesByPrefix, prefixes, setAdd entity passthrough)
        | Some prefix \<Rightarrow>
            (mapAppend prefix entity entitiesByPrefix,
             (if map_of entitiesByPrefix prefix = None then prefixes @ [prefix] else prefixes),
             passthrough))"

definition Merge :: "string list \<Rightarrow> string" where
  "Merge entities =
     (if entities = [] then []
      else
        let (entitiesByPrefix, prefixes, passthrough) = fold scanEntity entities ([], [], []);
            parts = map (\<lambda>prefix. MergePrefixed (getList entitiesByPrefix prefix) prefix) (sort prefixes)
        in strJoin '','' (parts @ sort passthrough))"

section \<open>The meaning of a hostlist expression\<close>

text \<open>
  Slurm's reading of a hostlist expression, independent of how the code writes one: terms are
  separated by the commas outside brackets; a term \<open>p[r1,...,rk]\<close> stands for \<open>p\<close> followed by each
  number of each range, a range \<open>lo-hi\<close> counting from \<open>lo\<close> to \<open>hi\<close> with the width of \<open>lo\<close>.
\<close>

definition expandRange :: "string \<Rightarrow> string list" where
  "expandRange r =
     (case indexByte (CHR ''-'') r of
        None \<Rightarrow> [r]
      | Some i \<Rightarrow>
          map (\<lambda>n. padZero i (natToDigits n)) [digitsVal (take i r) ..< Suc (digitsVal (drop (Suc i) r))])"

definition expandTerm :: "string \<Rightarrow> string list" where
  "expandTerm s =
     (case indexByte (CHR ''['') s of
        None \<Rightarrow> [s]
      | Some i \<Rightarrow>
          map (\<lambda>x. take i s @ x)
            (concat (map expandRange (strSplit (CHR '','') (takeWhile (\<lambda>c. c \<noteq> CHR '']'') (drop (Suc i) s))))))"

fun splitTop :: "int \<Rightarrow> string \<Rightarrow> string list" where
  "splitTop d [] = [[]]"
| "splitTop d (c # s) =
     (if c = CHR '','' \<and> d = 0 then [] # splitTop d s
      else
        (case splitTop (if c = CHR ''['' then d + 1 else if c = CHR '']'' then d - 1 else d) s of
           [] \<Rightarrow> [[c]]
         | p # ps \<Rightarrow> (c # p) # ps))"

definition hostlist :: "string \<Rightarrow> string list" where
  "hostlist s = (if s = [] then [] else concat (map expandTerm (splitTop 0 s)))"

text \<open>Names a hostlist expression can carry: not empty, no comma and no bracket.\<close>

definition plainName :: "string \<Rightarrow> bool" where
  "plainName s \<longleftrightarrow> s \<noteq> [] \<and> CHR '','' \<notin> set s \<and> CHR ''['' \<notin> set s \<and> CHR '']'' \<notin> set s"

section \<open>Ranges\<close>

lemma formatPatternNumber_nonneg:
  "0 \<le> n \<Longrightarrow> formatPatternNumber n w = padZero w (natToDigits (nat n))"
  by (simp add: formatPatternNumber_def sprintf0d_def)

lemma digits_formatPatternNumber: "0 \<le> n \<Longrightarrow> list_all isDigitChar (formatPatternNumber n w)"
  by (simp add: formatPatternNumber_nonneg list_all_digits_padZero natToDigits_digits)

lemma formatPatternNumber_no:
  "0 \<le> n \<Longrightarrow> \<not> isDigitChar c \<Longrightarrow> c \<notin> set (formatPatternNumber n w)"
  using digits_formatPatternNumber [of n w] by (auto simp: list_all_iff)

lemma not_digit [simp]:
  "\<not> isDigitChar (CHR ''-'')" "\<not> isDigitChar (CHR '','')"
  "\<not> isDigitChar (CHR ''['')" "\<not> isDigitChar (CHR '']'')"
  by (simp_all add: isDigitChar_def)

text \<open>The numbers a group holds: those that strconv.Atoi can return for a string of digits.\<close>

definition suffixNumber :: "int \<Rightarrow> bool" where
  "suffixNumber n \<longleftrightarrow> 0 \<le> n \<and> n < 2 ^ 63"

lemma succ_wrap64:
  assumes "suffixNumber m" "suffixNumber n"
  shows "n = wrap64 (m + 1) \<longleftrightarrow> n = m + 1"
proof (cases "m + 1 < 2 ^ 63")
  case True
  with assms(1) have "fits64 (m + 1)" by (simp add: suffixNumber_def fits64_def)
  then show ?thesis by simp
next
  case False
  with assms(1) have "m = 2 ^ 63 - 1" by (simp add: suffixNumber_def)
  with assms(2) show ?thesis by (simp add: wrap64_def suffixNumber_def)
qed

lemma extendRun_upto:
  assumes "extendRun m ns = (e, rest)" "suffixNumber m" "list_all suffixNumber ns"
  shows "m \<le> e \<and> m # ns = [m..e] @ rest \<and> suffixNumber e \<and> list_all suffixNumber rest"
  using assms
proof (induction m ns arbitrary: e rest rule: extendRun.induct)
  case (1 m)
  then show ?case by simp
next
  case (2 m n ns)
  show ?case
  proof (cases "n = wrap64 (m + 1)")
    case True
    with "2.prems" have n: "n = m + 1" using succ_wrap64 [of m n] by simp
    from True 2 have "n \<le> e \<and> n # ns = [n..e] @ rest \<and> suffixNumber e \<and> list_all suffixNumber rest"
      by simp
    with n show ?thesis by (simp add: upto_rec1)
  next
    case False
    with "2.prems" show ?thesis by simp
  qed
qed

lemma expandRange_single: "0 \<le> n \<Longrightarrow> expandRange (formatPatternNumber n w) = [formatPatternNumber n w]"
  by (simp add: expandRange_def formatPatternNumber_no)

lemma expandRange_range:
  assumes "0 \<le> a" "a \<le> b"
  shows "expandRange (formatPatternNumber a w @ ''-'' @ formatPatternNumber b w)
       = map (\<lambda>n. formatPatternNumber n w) [a..b]"
proof -
  let ?lo = "formatPatternNumber a w" and ?hi = "formatPatternNumber b w"
  have i: "indexByte (CHR ''-'') (?lo @ ''-'' @ ?hi) = Some (length ?lo)"
    using assms by (simp add: indexByte_split formatPatternNumber_no)
  have "expandRange (?lo @ ''-'' @ ?hi)
      = map (\<lambda>n. padZero (length ?lo) (natToDigits n)) [nat a ..< Suc (nat b)]"
    unfolding expandRange_def i using assms by (simp add: formatPatternNumber_nonneg)
  also have "\<dots> = map (\<lambda>n. padZero w (natToDigits n)) [nat a ..< Suc (nat b)]"
    using assms by (auto simp: formatPatternNumber_nonneg intro: padZero_widen)
  also have "\<dots> = map (\<lambda>n. padZero w (natToDigits (nat n))) [a..b]"
  proof -
    have "map nat [a..b] = [nat a ..< Suc (nat b)]"
      using assms by (intro nth_equalityI) (auto simp: nat_add_distrib simp del: upt_Suc)
    then show ?thesis by (metis (no_types, lifting) list.map_comp comp_apply map_eq_conv)
  qed
  also have "\<dots> = map (\<lambda>n. formatPatternNumber n w) [a..b]"
    using assms by (simp add: formatPatternNumber_nonneg)
  finally show ?thesis .
qed

lemma renderRanges_expand:
  "list_all suffixNumber ns \<Longrightarrow>
   concat (map expandRange (renderRanges w ns)) = map (\<lambda>n. formatPatternNumber n w) ns"
proof (induction w ns rule: renderRanges.induct)
  case (1 w)
  then show ?case by simp
next
  case (2 w m ns)
  obtain e rest where e: "extendRun m ns = (e, rest)" by fastforce
  have "m \<le> e" and ns: "m # ns = [m..e] @ rest" and "list_all suffixNumber rest"
    using extendRun_upto [OF e] "2.prems" by auto
  moreover from "2.prems" have m: "0 \<le> m" by (simp add: suffixNumber_def)
  ultimately have "concat (map expandRange (renderRanges w rest)) = map (\<lambda>n. formatPatternNumber n w) rest"
    using 2 e by simp
  with e m \<open>m \<le> e\<close>
  have "concat (map expandRange (renderRanges w (m # ns)))
      = map (\<lambda>n. formatPatternNumber n w) ([m..e] @ rest)"
    by (simp add: expandRange_single expandRange_range [simplified])
  then show ?case unfolding ns .
qed

section \<open>Terms\<close>

lemma renderRanges_no:
  assumes "list_all suffixNumber ns" "r \<in> set (renderRanges w ns)" "\<not> isDigitChar c" "c \<noteq> CHR ''-''"
  shows "c \<notin> set r"
  using assms
proof (induction w ns rule: renderRanges.induct)
  case (2 w m ns)
  obtain e rest where e: "extendRun m ns = (e, rest)" by fastforce
  have "suffixNumber m" "suffixNumber e" and rest: "list_all suffixNumber rest"
    using extendRun_upto [OF e] "2.prems" by auto
  then have "0 \<le> m" "0 \<le> e" by (simp_all add: suffixNumber_def)
  with 2 e rest show ?case by (auto simp: formatPatternNumber_no split: if_splits)
qed simp

lemma renderRanges_Nil [simp]: "renderRanges w ns = [] \<longleftrightarrow> ns = []"
  by (cases ns) (auto split: prod.splits)

lemma expandTerm_group:
  assumes "CHR ''['' \<notin> set p" "sg_numbers g \<noteq> []" "list_all suffixNumber (sg_numbers g)"
  shows "expandTerm (renderSuffixGroup p g) = map (\<lambda>n. p @ formatPatternNumber n (sg_width g)) (sg_numbers g)"
proof (cases "length (sg_numbers g) = 1")
  case True
  then obtain n where n: "sg_numbers g = [n]" by (auto simp: length_Suc_conv)
  with assms have "CHR ''['' \<notin> set (p @ formatPatternNumber n (sg_width g))"
    by (auto simp: formatPatternNumber_no suffixNumber_def)
  with n show ?thesis by (simp add: renderSuffixGroup_def expandTerm_def)
next
  case False
  let ?rs = "renderRanges (sg_width g) (sg_numbers g)"
  have rs: "\<forall>r \<in> set ?rs. CHR '','' \<notin> set r \<and> CHR '']'' \<notin> set r"
    using renderRanges_no [OF assms(3)] by auto
  then have "CHR '']'' \<notin> set (strJoin '','' ?rs)"
    using set_strJoin [of "'',''" ?rs] by auto
  then have body: "takeWhile (\<lambda>c. c \<noteq> CHR '']'') (strJoin '','' ?rs @ '']'') = strJoin '','' ?rs"
    by (subst takeWhile_append2) auto
  have split: "strSplit (CHR '','') (strJoin '','' ?rs) = ?rs"
    using rs assms(2) by (intro strSplit_strJoin) auto
  show ?thesis
    using False assms body split
    by (simp add: renderSuffixGroup_def expandTerm_def indexByte_split renderRanges_expand)
qed

text \<open>A term that splitting at the outer commas never cuts.\<close>

definition atomicTerm :: "string \<Rightarrow> bool" where
  "atomicTerm t \<longleftrightarrow> (\<forall>r p ps. splitTop 0 r = p # ps \<longrightarrow> splitTop 0 (t @ r) = (t @ p) # ps)"

lemma splitTop_neq_Nil [simp]: "splitTop d s \<noteq> []"
  by (induction d s rule: splitTop.induct) (auto split: list.splits)

lemma atomicTerm_append: "atomicTerm s \<Longrightarrow> atomicTerm t \<Longrightarrow> atomicTerm (s @ t)"
  by (simp add: atomicTerm_def)

lemma atomicTerm_plain:
  "CHR '','' \<notin> set s \<Longrightarrow> CHR ''['' \<notin> set s \<Longrightarrow> CHR '']'' \<notin> set s \<Longrightarrow> atomicTerm s"
  by (induction s) (auto simp: atomicTerm_def)

lemma atomicTerm_bracket:
  assumes "CHR ''['' \<notin> set b" "CHR '']'' \<notin> set b"
  shows "atomicTerm (''['' @ b @ '']'')"
proof -
  have "splitTop 1 (b @ CHR '']'' # r) = (b @ CHR '']'' # p) # ps" if "splitTop 0 r = p # ps" for r p ps
    using assms that by (induction b) auto
  then show ?thesis by (auto simp: atomicTerm_def)
qed

lemma splitTop_join: "ts \<noteq> [] \<Longrightarrow> \<forall>t \<in> set ts. atomicTerm t \<Longrightarrow> splitTop 0 (strJoin '','' ts) = ts"
proof (induction "'',''" ts rule: strJoin.induct)
  case (2 t)
  then have "splitTop 0 (t @ []) = (t @ []) # []" unfolding atomicTerm_def by (metis list.set_intros(1) splitTop.simps(1))
  then show ?case by simp
next
  case (3 t u ts)
  then have IH: "splitTop 0 (strJoin '','' (u # ts)) = u # ts" by simp
  then have "splitTop 0 (CHR '','' # strJoin '','' (u # ts)) = [] # u # ts" by simp
  with 3(3) have "splitTop 0 (t @ CHR '','' # strJoin '','' (u # ts)) = (t @ []) # u # ts"
    unfolding atomicTerm_def by (metis list.set_intros(1))
  then show ?case by simp
qed simp

lemma atomicTerm_group:
  assumes "CHR '','' \<notin> set p" "CHR ''['' \<notin> set p" "CHR '']'' \<notin> set p"
    "sg_numbers g \<noteq> []" "list_all suffixNumber (sg_numbers g)"
  shows "atomicTerm (renderSuffixGroup p g)"
proof (cases "length (sg_numbers g) = 1")
  case True
  then obtain n where n: "sg_numbers g = [n]" by (auto simp: length_Suc_conv)
  with assms show ?thesis
    by (auto simp: renderSuffixGroup_def formatPatternNumber_no suffixNumber_def intro!: atomicTerm_plain)
next
  case False
  let ?rs = "renderRanges (sg_width g) (sg_numbers g)"
  have "\<forall>r \<in> set ?rs. CHR ''['' \<notin> set r \<and> CHR '']'' \<notin> set r"
    using renderRanges_no [OF assms(5)] by auto
  then have "CHR ''['' \<notin> set (strJoin '','' ?rs)" "CHR '']'' \<notin> set (strJoin '','' ?rs)"
    using set_strJoin [of "'',''" ?rs] by auto
  then have "atomicTerm (''['' @ strJoin '','' ?rs @ '']'')" by (rule atomicTerm_bracket)
  with False assms show ?thesis
    using atomicTerm_append [OF atomicTerm_plain [of p]] by (simp add: renderSuffixGroup_def)
qed

lemma strJoin_concat:
  "\<forall>ts \<in> set tss. ts \<noteq> [] \<Longrightarrow> strJoin sep (map (strJoin sep) tss @ us) = strJoin sep (concat tss @ us)"
proof (induction tss)
  case (Cons ts tss)
  show ?case
  proof (cases "map (strJoin sep) tss @ us = []")
    case True
    then show ?thesis by simp
  next
    case False
    then have "concat tss @ us \<noteq> []" using Cons.prems by (cases tss) auto
    have "strJoin sep (ts @ concat tss @ us) = strJoin sep ts @ sep @ strJoin sep (concat tss @ us)"
      using Cons.prems \<open>concat tss @ us \<noteq> []\<close>
    proof (induction ts)
      case (Cons t ts)
      then show ?case by (cases ts) (auto simp: strJoin_Cons)
    qed simp
    with False Cons show ?thesis by (simp add: strJoin_Cons)
  qed
qed simp

section \<open>The loops of MergePrefixed and Merge\<close>

text \<open>
  What the loops compute, without their accumulators: the entities with a numeric suffix, the
  keys under which they are collected, the map from widths to numbers, and the terms of the
  resulting expression.
\<close>

definition numericIn :: "string \<Rightarrow> string \<Rightarrow> bool" where
  "numericIn p e \<longleftrightarrow> hasPrefix e p \<and> trimPrefix e p \<noteq> [] \<and> isDigits (trimPrefix e p)
     \<and> atoi (trimPrefix e p) \<noteq> None"

definition paddedIn :: "string list \<Rightarrow> string \<Rightarrow> bool" where
  "paddedIn es p \<longleftrightarrow> (\<exists>e \<in> set es. numericIn p e \<and> hasLeadingZero (trimPrefix e p))"

definition keyOf :: "bool \<Rightarrow> string \<Rightarrow> string \<Rightarrow> suffixKey" where
  "keyOf padded p e =
     \<lparr>sk_number = the (atoi (trimPrefix e p)), sk_width = (if padded then length (trimPrefix e p) else 0)\<rparr>"

definition mergeKeys :: "string list \<Rightarrow> string \<Rightarrow> suffixKey list" where
  "mergeKeys es p = setOfList (map (keyOf (paddedIn es p) p) (filter (numericIn p) es))"

definition byWidth :: "suffixKey list \<Rightarrow> (nat, int list) gomap" where
  "byWidth ks = fold (\<lambda>k. mapAppend (sk_width k) (sk_number k)) ks []"

definition prefixedTerms :: "string list \<Rightarrow> string \<Rightarrow> string list" where
  "prefixedTerms es p =
     map (renderSuffixGroup p) (suffixGroups (byWidth (mergeKeys es p)))
     @ sort (setOfList (filter (\<lambda>e. \<not> numericIn p e) es))"

lemma setOfList_snoc: "setOfList (xs @ [x]) = setAdd x (setOfList xs)"
  by (simp add: setOfList_def)

lemma setOfList_Nil [simp]: "setOfList [] = []"
  by (simp add: setOfList_def)

lemma scanSuffix_fold:
  "fold (scanSuffix p) es ([], [], False) =
     (map (\<lambda>e. \<lparr>ns_number = the (atoi (trimPrefix e p)), ns_width = length (trimPrefix e p)\<rparr>)
        (filter (numericIn p) es),
      setOfList (filter (\<lambda>e. \<not> numericIn p e) es), paddedIn es p)"
proof (induction es rule: rev_induct)
  case Nil
  then show ?case by (simp add: paddedIn_def)
next
  case (snoc e es)
  have "paddedIn (es @ [e]) p \<longleftrightarrow> paddedIn es p \<or> numericIn p e \<and> hasLeadingZero (trimPrefix e p)"
    by (auto simp: paddedIn_def)
  with snoc show ?case
    by (auto simp: scanSuffix_def numericIn_def setOfList_snoc Let_def split: option.splits)
qed

lemma groupSuffix_fold:
  "fold (groupSuffix padded) ss ([], []) =
     (let ks = setOfList (map (\<lambda>s. \<lparr>sk_number = ns_number s, sk_width = (if padded then ns_width s else 0)\<rparr>) ss)
      in (ks, byWidth ks))"
proof (induction ss rule: rev_induct)
  case Nil
  then show ?case by (simp add: byWidth_def)
next
  case (snoc s ss)
  then show ?case
    by (simp add: groupSuffix_def Let_def setOfList_snoc setAdd_def) (auto simp: byWidth_def)
qed

lemma MergePrefixed_terms: "es \<noteq> [] \<Longrightarrow> MergePrefixed es p = strJoin '','' (prefixedTerms es p)"
  by (simp add: MergePrefixed_def scanSuffix_fold groupSuffix_fold prefixedTerms_def mergeKeys_def
      keyOf_def [abs_def] Let_def comp_def cong: if_cong)

lemma scanEntity_fold:
  "fold scanEntity es ([], [], []) = (m, ps, pass) \<Longrightarrow>
     wfMap m \<and> ps = map fst m \<and> (\<forall>p. getList m p = filter (\<lambda>e. dashedPrefix e = Some p) es)
     \<and> fst ` set m = {p. \<exists>e \<in> set es. dashedPrefix e = Some p}
     \<and> pass = setOfList (filter (\<lambda>e. dashedPrefix e = None) es)"
proof (induction es arbitrary: m ps pass rule: rev_induct)
  case Nil
  then show ?case by auto
next
  case (snoc e es)
  obtain m0 ps0 pass0 where f: "fold scanEntity es ([], [], []) = (m0, ps0, pass0)"
    by (metis prod.collapse)
  note IH = snoc.IH [OF f]
  from snoc.prems f have step: "scanEntity e (m0, ps0, pass0) = (m, ps, pass)" by simp
  show ?case
  proof (cases "dashedPrefix e")
    case None
    with step have "m = m0" "ps = ps0" "pass = setAdd e pass0" by (auto simp: scanEntity_def)
    with IH None show ?thesis by (simp add: setOfList_snoc)
  next
    case (Some p)
    with step have m: "m = mapAppend p e m0" and pass: "pass = pass0"
      and ps: "ps = (if map_of m0 p = None then ps0 @ [p] else ps0)" by (auto simp: scanEntity_def)
    have "ps = map fst m"
      using ps m IH by (auto simp: mapAppend_def mapPut_def update_keys map_of_eq_None_iff)
    moreover have "fst ` set m = {p. \<exists>e' \<in> set (es @ [e]). dashedPrefix e' = Some p}"
      using m IH Some by (auto simp: go_map)
    moreover have "getList m q = filter (\<lambda>e. dashedPrefix e = Some q) (es @ [e])" for q
      using m IH Some by (simp add: go_map)
    moreover have "wfMap m" using m IH by auto
    ultimately show ?thesis using pass IH Some by auto
  qed
qed

section \<open>Groups\<close>

lemma getList_byWidth: "getList (byWidth ks) w = map sk_number (filter (\<lambda>k. sk_width k = w) ks)"
  by (simp add: byWidth_def getList_fold_append)

lemma keys_byWidth: "fst ` set (byWidth ks) = sk_width ` set ks"
  by (simp add: byWidth_def keys_fold_append)

lemma wfMap_byWidth: "wfMap (byWidth ks)"
  by (simp add: byWidth_def wfMap_fold_append)

definition groupOf :: "suffixKey list \<Rightarrow> nat \<Rightarrow> suffixGroup" where
  "groupOf ks w = \<lparr>sg_width = w, sg_numbers = sort (map sk_number (filter (\<lambda>k. sk_width k = w) ks))\<rparr>"

lemma groups_of_keys:
  "map (\<lambda>(width, numbers). \<lparr>sg_width = width, sg_numbers = sort numbers\<rparr>) (byWidth ks)
     = map (groupOf ks) (map fst (byWidth ks))"
proof -
  have "snd x = getList (byWidth ks) (fst x)" if "x \<in> set (byWidth ks)" for x
    using that wfMap_byWidth [of ks] by (metis getList_entry prod.collapse)
  then show ?thesis by (auto simp: groupOf_def getList_byWidth case_prod_beta)
qed

lemma set_suffixGroups: "set (suffixGroups (byWidth ks)) = groupOf ks ` sk_width ` set ks"
  by (simp only: suffixGroups_def set_sort groups_of_keys set_map keys_byWidth)

lemma groupOf_cong:
  assumes "distinct ks" "distinct ks'" "set ks = set ks'"
  shows "groupOf ks = groupOf ks'"
proof
  fix w
  have "mset ks = mset ks'" using assms by (metis set_eq_iff_mset_eq_distinct)
  then have "sort (map sk_number (filter (\<lambda>k. sk_width k = w) ks))
      = sort (map sk_number (filter (\<lambda>k. sk_width k = w) ks'))" by (intro sort_perm) simp
  then show "groupOf ks w = groupOf ks' w" by (simp add: groupOf_def)
qed

lemma suffixGroups_cong:
  assumes "distinct ks" "distinct ks'" "set ks = set ks'"
  shows "suffixGroups (byWidth ks) = suffixGroups (byWidth ks')"
proof -
  let ?f = "\<lambda>g. (sg_numbers g ! 0, sg_width g)"
  let ?gs = "\<lambda>ks. map (groupOf ks) (map fst (byWidth ks))"
  have keys: "mset (map fst (byWidth ks)) = mset (map fst (byWidth ks'))"
    using wfMap_byWidth assms(3) by (metis keys_byWidth list.set_map set_eq_iff_mset_eq_distinct)
  then have perm: "mset (?gs ks) = mset (?gs ks')"
    by (metis groupOf_cong [OF assms] mset_map)
  have "inj_on ?f (set (?gs ks))"
    by (auto intro!: inj_onI simp: groupOf_def)
  with perm have "sort_key ?f (?gs ks) = sort_key ?f (?gs ks')"
    by (intro sort_key_inj_key_eq) (simp_all del: map_map)
  then show ?thesis unfolding suffixGroups_def groups_of_keys .
qed

lemma keyOf_number:
  assumes "numericIn p e"
  shows "suffixNumber (sk_number (keyOf padded p e))"
proof -
  from assms have "list_all isDigitChar (trimPrefix e p)" "trimPrefix e p \<noteq> []" "atoi (trimPrefix e p) \<noteq> None"
    by (auto simp: numericIn_def isDigits_def)
  then show ?thesis by (auto simp: keyOf_def suffixNumber_def atoi_digits split: if_splits)
qed

lemma keyOf_format:
  assumes "numericIn p e" "padded \<or> \<not> hasLeadingZero (trimPrefix e p)"
  shows "p @ formatPatternNumber (sk_number (keyOf padded p e)) (sk_width (keyOf padded p e)) = e"
proof -
  let ?s = "trimPrefix e p"
  from assms(1) have d: "list_all isDigitChar ?s" "?s \<noteq> []" and "atoi ?s \<noteq> None" and e: "p @ ?s = e"
    by (auto simp: numericIn_def isDigits_def append_trimPrefix)
  then have n: "the (atoi ?s) = int (digitsVal ?s)" by (auto simp: atoi_digits split: if_splits)
  have "formatPatternNumber (int (digitsVal ?s)) (if padded then length ?s else 0) = ?s"
  proof (cases padded)
    case True
    with d show ?thesis by (simp add: formatPatternNumber_nonneg digit_string_zeros)
  next
    case False
    with assms(2) have "length ?s > 1 \<longrightarrow> hd ?s \<noteq> CHR ''0''"
      by (auto simp: hasLeadingZero_def hd_conv_nth d)
    with False d show ?thesis
      by (simp add: formatPatternNumber_nonneg natToDigits_digitsVal padZero_def)
  qed
  with n e show ?thesis by (simp add: keyOf_def)
qed

section \<open>The expression denotes the names\<close>

definition nameOf :: "string \<Rightarrow> suffixKey \<Rightarrow> string" where
  "nameOf p k = p @ formatPatternNumber (sk_number k) (sk_width k)"

lemma set_mergeKeys: "set (mergeKeys es p) = keyOf (paddedIn es p) p ` {e \<in> set es. numericIn p e}"
  by (auto simp: mergeKeys_def)

lemma mergeKeys_numbers: "k \<in> set (mergeKeys es p) \<Longrightarrow> suffixNumber (sk_number k)"
  by (auto simp: set_mergeKeys keyOf_number)

lemma nameOf_keyOf: "e \<in> set es \<Longrightarrow> numericIn p e \<Longrightarrow> nameOf p (keyOf (paddedIn es p) p e) = e"
  unfolding nameOf_def by (rule keyOf_format) (auto simp: paddedIn_def)

lemma nameOf_mergeKeys:
  "distinct (map (nameOf p) (mergeKeys es p))" (is ?D)
  "set (map (nameOf p) (mergeKeys es p)) = {e \<in> set es. numericIn p e}" (is ?S)
proof -
  show ?S by (force simp: set_mergeKeys nameOf_keyOf image_iff)
  have "inj_on (nameOf p) (set (mergeKeys es p))"
    by (auto simp: set_mergeKeys nameOf_keyOf intro!: inj_onI)
  then show ?D by (simp add: distinct_map mergeKeys_def)
qed

lemma suffixGroups_ok:
  assumes "g \<in> set (suffixGroups (byWidth (mergeKeys es p)))"
  shows "sg_numbers g \<noteq> [] \<and> list_all suffixNumber (sg_numbers g)"
proof -
  from assms obtain k where k: "k \<in> set (mergeKeys es p)" and g: "g = groupOf (mergeKeys es p) (sk_width k)"
    by (auto simp: set_suffixGroups)
  have "set (sg_numbers g) = sk_number ` {k' \<in> set (mergeKeys es p). sk_width k' = sk_width k}"
    by (auto simp: g groupOf_def)
  with k show ?thesis by (auto simp: list_all_iff mergeKeys_numbers)
qed

lemma suffixGroups_ungroup:
  "mset (concat (map (\<lambda>g. map (\<lambda>n. p @ formatPatternNumber n (sg_width g)) (sg_numbers g))
      (suffixGroups (byWidth ks)))) = mset (map (nameOf p) ks)"
proof -
  let ?h = "\<lambda>w n. p @ formatPatternNumber n w"
  let ?F = "\<lambda>g. map (?h (sg_width g)) (sg_numbers g)"
  let ?raw = "map (\<lambda>(width, numbers). \<lparr>sg_width = width, sg_numbers = sort numbers\<rparr>) (byWidth ks)"
  have "mset (concat (map ?F (suffixGroups (byWidth ks)))) = \<Sum>\<^sub># (image_mset (\<lambda>g. mset (?F g)) (mset ?raw))"
    by (simp only: mset_concat_map suffixGroups_def mset_sort)
  also have "image_mset (\<lambda>g. mset (?F g)) (mset ?raw) = image_mset (\<lambda>x. mset (case x of (w, ns) \<Rightarrow> map (?h w) ns)) (mset (byWidth ks))"
    by (auto simp: multiset.map_comp intro!: image_mset_cong)
  also have "\<Sum>\<^sub># \<dots> = mset (ungroup ?h (byWidth ks))"
    by (simp only: ungroup_def mset_concat_map)
  also have "\<dots> = mset (map (nameOf p) ks)"
    by (simp add: byWidth_def mset_ungroup_fold nameOf_def [abs_def]) (simp add: ungroup_def)
  finally show ?thesis .
qed

definition plainPrefix :: "string \<Rightarrow> bool" where
  "plainPrefix p \<longleftrightarrow> CHR '','' \<notin> set p \<and> CHR ''['' \<notin> set p \<and> CHR '']'' \<notin> set p"

lemma expandTerm_plain [simp]: "plainName s \<Longrightarrow> expandTerm s = [s]"
  by (simp add: plainName_def expandTerm_def)

lemma prefixedTerms_atomic:
  assumes "plainPrefix p" "\<forall>e \<in> set es. plainName e" "t \<in> set (prefixedTerms es p)"
  shows "atomicTerm t"
proof (cases "t \<in> renderSuffixGroup p ` set (suffixGroups (byWidth (mergeKeys es p)))")
  case True
  with assms(1) show ?thesis
    using suffixGroups_ok by (auto simp: plainPrefix_def intro!: atomicTerm_group)
next
  case False
  with assms show ?thesis by (auto simp: prefixedTerms_def plainName_def intro!: atomicTerm_plain)
qed

lemma prefixedTerms_expand:
  assumes "plainPrefix p" "\<forall>e \<in> set es. plainName e"
  shows "mset (concat (map expandTerm (prefixedTerms es p))) = mset_set (set es)"
proof -
  let ?gs = "suffixGroups (byWidth (mergeKeys es p))"
  let ?pass = "setOfList (filter (\<lambda>e. \<not> numericIn p e) es)"
  have "map expandTerm (map (renderSuffixGroup p) ?gs)
      = map (\<lambda>g. map (\<lambda>n. p @ formatPatternNumber n (sg_width g)) (sg_numbers g)) ?gs"
    using assms(1) suffixGroups_ok [of _ es p] by (auto simp: plainPrefix_def intro!: expandTerm_group)
  then have "mset (concat (map expandTerm (map (renderSuffixGroup p) ?gs))) = mset (map (nameOf p) (mergeKeys es p))"
    by (simp only: suffixGroups_ungroup)
  moreover have "map expandTerm (sort ?pass) = map (\<lambda>e. [e]) (sort ?pass)"
    using assms(2) by auto
  then have "mset (concat (map expandTerm (sort ?pass))) = mset ?pass"
    by (simp only: concat_map_singleton) simp
  ultimately have "mset (concat (map expandTerm (prefixedTerms es p))) = mset (map (nameOf p) (mergeKeys es p) @ ?pass)"
    by (simp add: prefixedTerms_def)
  also have "\<dots> = mset_set (set (map (nameOf p) (mergeKeys es p) @ ?pass))"
    using nameOf_mergeKeys [of p es] by (intro mset_set_set [symmetric]) auto
  also have "set (map (nameOf p) (mergeKeys es p) @ ?pass) = set es"
    using nameOf_mergeKeys(2) [of p es] by auto
  finally show ?thesis .
qed

section \<open>Merge\<close>

definition prefixesOf :: "string list \<Rightarrow> string list" where
  "prefixesOf es = sorted_list_of_set {p. \<exists>e \<in> set es. dashedPrefix e = Some p}"

definition withPrefix :: "string list \<Rightarrow> string \<Rightarrow> string list" where
  "withPrefix es p = filter (\<lambda>e. dashedPrefix e = Some p) es"

definition mergeTerms :: "string list \<Rightarrow> string list" where
  "mergeTerms es =
     concat (map (\<lambda>p. prefixedTerms (withPrefix es p) p) (prefixesOf es))
     @ sort (setOfList (filter (\<lambda>e. dashedPrefix e = None) es))"

lemma finite_prefixes [simp]: "finite {p. \<exists>e \<in> set es. dashedPrefix e = Some p}"
  by (rule finite_subset [of _ "(the \<circ> dashedPrefix) ` set es"]) force+

lemma sort_distinct: "distinct xs \<Longrightarrow> sort xs = sorted_list_of_set (set xs)"
  by (simp add: sorted_list_of_set_sort_remdups distinct_remdups_id)

lemma mset_concat_concat:
  "\<forall>x \<in> set xs. mset (concat (map f (g x))) = mset (h x) \<Longrightarrow>
   mset (concat (map f (concat (map g xs)))) = mset (concat (map h xs))"
  by (induction xs) auto

lemma withPrefix_neq_Nil: "p \<in> set (prefixesOf es) \<Longrightarrow> withPrefix es p \<noteq> []"
  by (auto simp: prefixesOf_def withPrefix_def filter_empty_conv)

lemma prefixedTerms_neq_Nil: "es \<noteq> [] \<Longrightarrow> prefixedTerms es p \<noteq> []"
proof
  assume es: "es \<noteq> []" and "prefixedTerms es p = []"
  then have "set (prefixedTerms es p) = {}" by (simp only: list.set)
  then have "set (suffixGroups (byWidth (mergeKeys es p))) = {}"
    and none: "{e \<in> set es. \<not> numericIn p e} = {}"
    unfolding prefixedTerms_def set_append set_map set_sort set_setOfList set_filter by blast+
  then have "set (mergeKeys es p) = {}" by (simp only: set_suffixGroups image_is_empty)
  with none es show False by (cases es) (auto simp: set_mergeKeys)
qed

lemma Merge_terms: "es \<noteq> [] \<Longrightarrow> Merge es = strJoin '','' (mergeTerms es)"
proof -
  assume es: "es \<noteq> []"
  obtain m ps pass where f: "fold scanEntity es ([], [], []) = (m, ps, pass)" by (metis prod.collapse)
  note inv = scanEntity_fold [OF f]
  then have ps: "sort ps = prefixesOf es"
    by (simp add: sort_distinct prefixesOf_def)
  have "map (\<lambda>p. MergePrefixed (getList m p) p) (sort ps)
      = map (strJoin '','') (map (\<lambda>p. prefixedTerms (withPrefix es p) p) (prefixesOf es))"
  proof -
    have "getList m p = withPrefix es p" for p using inv by (simp add: withPrefix_def)
    then show ?thesis unfolding ps by (simp add: MergePrefixed_terms withPrefix_neq_Nil)
  qed
  then have "Merge es = strJoin '','' (map (strJoin '','') (map (\<lambda>p. prefixedTerms (withPrefix es p) p) (prefixesOf es)) @ sort pass)"
    using es by (simp only: Merge_def f prod.case Let_def if_False)
  also have "\<dots> = strJoin '','' (mergeTerms es)"
  proof -
    have "\<forall>ts \<in> set (map (\<lambda>p. prefixedTerms (withPrefix es p) p) (prefixesOf es)). ts \<noteq> []"
      using withPrefix_neq_Nil by (auto simp: prefixedTerms_neq_Nil)
    from strJoin_concat [OF this] inv show ?thesis by (simp only: mergeTerms_def)
  qed
  finally show ?thesis .
qed

lemma dashedPrefix_Some:
  "dashedPrefix e = Some p \<Longrightarrow> \<exists>s. e = p @ s \<and> s \<noteq> [] \<and> isDigits s \<and> p \<noteq> [] \<and> last p = CHR ''-''"
proof -
  assume a: "dashedPrefix e = Some p"
  then obtain i where i: "lastIndex (CHR ''-'') e = Some i" and "i \<noteq> length e - 1"
    and d: "isDigits (drop (i + 1) e)" and p: "p = take (i + 1) e"
    by (auto simp: dashedPrefix_def split: option.splits if_splits)
  from i obtain t u where e: "e = t @ CHR ''-'' # u" "length t = i" by (auto simp: lastIndex_Some)
  with \<open>i \<noteq> length e - 1\<close> have "u \<noteq> []" by auto
  moreover from e p have "p = t @ ''-''" by simp
  moreover from e d have "isDigits u" by simp
  ultimately show ?thesis using e by auto
qed

lemma withPrefix_plain:
  assumes "\<forall>e \<in> set es. plainName e" "p \<in> set (prefixesOf es)"
  shows "plainPrefix p" "\<forall>e \<in> set (withPrefix es p). plainName e"
proof -
  from assms(2) obtain e where "e \<in> set es" "dashedPrefix e = Some p" by (auto simp: prefixesOf_def)
  moreover from this(2) obtain s where "e = p @ s" using dashedPrefix_Some by blast
  ultimately have "plainName (p @ s)" using assms(1) by blast
  then show "plainPrefix p" by (simp add: plainName_def plainPrefix_def)
qed (use assms(1) in \<open>auto simp: withPrefix_def\<close>)

lemma mergeTerms_atomic:
  assumes "\<forall>e \<in> set es. plainName e" "t \<in> set (mergeTerms es)"
  shows "atomicTerm t"
proof (cases "t \<in> set (setOfList (filter (\<lambda>e. dashedPrefix e = None) es))")
  case True
  with assms(1) show ?thesis by (auto simp: plainName_def intro!: atomicTerm_plain)
next
  case False
  with assms(2) obtain p where "p \<in> set (prefixesOf es)" "t \<in> set (prefixedTerms (withPrefix es p) p)"
    by (auto simp: mergeTerms_def)
  with withPrefix_plain [OF assms(1)] show ?thesis by (blast intro: prefixedTerms_atomic)
qed

lemma mergeTerms_expand:
  assumes "\<forall>e \<in> set es. plainName e"
  shows "mset (concat (map expandTerm (mergeTerms es))) = mset_set (set es)"
proof -
  let ?pass = "setOfList (filter (\<lambda>e. dashedPrefix e = None) es)"
  let ?ps = "prefixesOf es"
  let ?all = "concat (map (\<lambda>p. setOfList (withPrefix es p)) ?ps) @ ?pass"
  have "mset (concat (map expandTerm (prefixedTerms (withPrefix es p) p))) = mset (setOfList (withPrefix es p))"
    if "p \<in> set ?ps" for p
    using prefixedTerms_expand withPrefix_plain [OF assms that] mset_set_set [of "setOfList (withPrefix es p)"]
    by simp
  then have "mset (concat (map expandTerm (concat (map (\<lambda>p. prefixedTerms (withPrefix es p) p) ?ps))))
      = mset (concat (map (\<lambda>p. setOfList (withPrefix es p)) ?ps))"
    by (intro mset_concat_concat) blast
  moreover have "map expandTerm (sort ?pass) = map (\<lambda>e. [e]) (sort ?pass)" using assms by auto
  then have "mset (concat (map expandTerm (sort ?pass))) = mset ?pass"
    by (simp only: concat_map_singleton) simp
  ultimately have "mset (concat (map expandTerm (mergeTerms es))) = mset ?all"
    by (simp add: mergeTerms_def)
  also have "\<dots> = mset_set (set ?all)"
  proof (rule mset_set_set [symmetric])
    have "distinct (concat (map (\<lambda>p. setOfList (withPrefix es p)) ps))" if "distinct ps" for ps
      using that by (induction ps) (auto simp: withPrefix_def)
    then show "distinct ?all" by (auto simp: prefixesOf_def withPrefix_def)
  qed
  also have "set ?all = set es"
  proof (rule set_eqI)
    fix e show "e \<in> set ?all \<longleftrightarrow> e \<in> set es"
      by (cases "dashedPrefix e") (auto simp: prefixesOf_def withPrefix_def)
  qed
  finally show ?thesis .
qed

lemma hostlist_Merge:
  assumes "es \<noteq> []" "\<forall>e \<in> set es. plainName e"
  shows "hostlist (Merge es) = concat (map expandTerm (mergeTerms es))"
proof -
  have "mergeTerms es \<noteq> []"
    using mergeTerms_expand [OF assms(2)] assms(1) by (auto simp: mset_set_empty_iff)
  then have "splitTop 0 (Merge es) = mergeTerms es"
    using assms mergeTerms_atomic by (simp add: Merge_terms splitTop_join)
  moreover have "Merge es \<noteq> []"
  proof
    assume "Merge es = []"
    with calculation have "mergeTerms es = [[]]" by simp
    then have "mset_set (set es) = {#[]#}"
      using mergeTerms_expand [OF assms(2)] by (simp add: expandTerm_def)
    from arg_cong [OF this, of set_mset] have "set es = {[]}" by simp
    with assms(2) show False by (simp add: plainName_def)
  qed
  ultimately show ?thesis by (simp add: hostlist_def)
qed

lemma prefixedTerms_cong:
  assumes "set es = set es'"
  shows "prefixedTerms es p = prefixedTerms es' p"
proof -
  have "paddedIn es p = paddedIn es' p" using assms by (simp add: paddedIn_def)
  then have "set (mergeKeys es p) = set (mergeKeys es' p)" using assms by (simp add: set_mergeKeys)
  then have "suffixGroups (byWidth (mergeKeys es p)) = suffixGroups (byWidth (mergeKeys es' p))"
    by (intro suffixGroups_cong) (auto simp: mergeKeys_def)
  moreover have "sort (setOfList (filter (\<lambda>e. \<not> numericIn p e) es))
      = sort (setOfList (filter (\<lambda>e. \<not> numericIn p e) es'))"
    using assms by (intro sort_same_set) auto
  ultimately show ?thesis by (simp add: prefixedTerms_def)
qed

lemma mergeTerms_cong:
  assumes "set es = set es'"
  shows "mergeTerms es = mergeTerms es'"
proof -
  have "prefixesOf es = prefixesOf es'" using assms by (simp add: prefixesOf_def)
  moreover have "prefixedTerms (withPrefix es p) p = prefixedTerms (withPrefix es' p) p" for p
    using assms by (intro prefixedTerms_cong) (auto simp: withPrefix_def)
  moreover have "sort (setOfList (filter (\<lambda>e. dashedPrefix e = None) es))
      = sort (setOfList (filter (\<lambda>e. dashedPrefix e = None) es'))"
    using assms by (intro sort_same_set) auto
  ultimately show ?thesis by (simp add: mergeTerms_def)
qed

lemma Merge_cong: "set es = set es' \<Longrightarrow> Merge es = Merge es'"
  by (cases "es = []"; cases "es' = []") (auto simp: Merge_terms mergeTerms_cong [of es es'])

lemma Merge_Nil [simp]: "Merge [] = []"
  by (simp add: Merge_def)

lemma Merge_mset:
  assumes "\<forall>e \<in> set es. plainName e"
  shows "mset (hostlist (Merge es)) = mset_set (set es)"
proof (cases "es = []")
  case True
  then show ?thesis by (simp add: hostlist_def)
next
  case False
  with assms show ?thesis by (simp add: hostlist_Merge mergeTerms_expand)
qed

section \<open>Properties\<close>



text \<open>
  C2: the expression depends only on the set of names: neither their order nor repetitions
  change a byte of it, so configurations built from maps in any iteration order compare equal.
\<close>

theorem Merge_order_independent:
  assumes "set es = set es'"
  shows "Merge es = Merge es'"
  by (rule Merge_cong [OF assms])

theorem Merge_order_independent_witness:
  "Merge [''w-2'', ''w-0'', ''w-1'', ''w-0''] = Merge [''w-0'', ''w-1'', ''w-2'']"
  by (rule Merge_order_independent) auto

end
