(* ===== verification/Topology_Graph.thy ===== *)
theory Topology_Graph
  imports Slurm_Pattern
begin

text \<open>
  The tree topology of internal/controller/topologyconfcontroller: switch\_name.go and
  topology\_graph.go. The operations come first; then the edges of the graph as a set, which the
  loops are shown to compute whatever the iteration order of the maps; then the properties:
  every Slurm node is placed, consistent labels give a forest in which every node sits below the
  root of its own fabric, and every switch that a line refers to has a line of its own.
\<close>

section \<open>switch\_name.go\<close>

definition maxSafeTrailingDigits :: nat where
  "maxSafeTrailingDigits = 18"

definition slurmNameTerminator :: string where
  "slurmNameTerminator = ''_''"

text \<open>The loop counts down the index; \<open>i\<close> is one more than the index it looks at.\<close>

fun trailingLoop :: "string \<Rightarrow> nat \<Rightarrow> nat \<Rightarrow> nat" where
  "trailingLoop name 0 cnt = cnt"
| "trailingLoop name (Suc i) cnt =
     (if \<not> isDigitChar (name ! i) then cnt else trailingLoop name i (cnt + 1))"

definition trailingDigitCount :: "string \<Rightarrow> nat" where
  "trailingDigitCount name = trailingLoop name (length name) 0"

definition slurmSafeSwitchName :: "string \<Rightarrow> string" where
  "slurmSafeSwitchName name =
     (if trailingDigitCount name \<le> maxSafeTrailingDigits then name else name @ slurmNameTerminator)"

section \<open>topology\_graph.go\<close>

type_synonym nodeTopologyLabels = "(string, string) gomap"

record topologyGraph =
  children :: "(string, string list) gomap"

definition newTopologyGraph :: topologyGraph where
  "newTopologyGraph = \<lparr>children = []\<rparr>"

definition AddEdge :: "string \<Rightarrow> string \<Rightarrow> topologyGraph \<Rightarrow> topologyGraph" where
  "AddEdge parent child g =
     (let cs = (if map_of (children g) parent = None then mapPut parent [] (children g) else children g)
      in g\<lparr>children := mapPut parent (setAdd child (getList cs parent)) cs\<rparr>)"

definition defaultFabric :: string where
  "defaultFabric = ''root''"

definition fabricOf :: "(string, string) gomap \<Rightarrow> string \<Rightarrow> string" where
  "fabricOf fabricByNode node =
     (let fabric = getStr fabricByNode node in if fabric \<noteq> [] then fabric else defaultFabric)"

definition unknownSwitchName :: "string \<Rightarrow> string" where
  "unknownSwitchName fabric = (if fabric = defaultFabric then ''unknown'' else fabric @ ''.unknown'')"

text \<open>One turn of the loop of RenderConfigLines: the line of a switch, none for an entry without children.\<close>

definition renderSwitchLine :: "topologyGraph \<Rightarrow> string \<times> string list \<Rightarrow> string option" where
  "renderSwitchLine g = (\<lambda>(parent, childrenSet).
     if childrenSet = [] then None
     else
       let hasGrandChildren = list_ex (\<lambda>child. getList (children g) child \<noteq> []) childrenSet;
           cs = sort childrenSet
       in if hasGrandChildren
          then Some (''SwitchName='' @ slurmSafeSwitchName parent @ '' Switches=''
                 @ Merge (map slurmSafeSwitchName cs))
          else Some (''SwitchName='' @ slurmSafeSwitchName parent @ '' Nodes='' @ strJoin '','' cs))"

definition graphConfigLines :: "topologyGraph \<Rightarrow> string list" where
  "graphConfigLines g = sort (List.map_filter (renderSwitchLine g) (children g))"

datatype pathError = NoLabels | MissingLabel string

definition tierKey :: "nat \<Rightarrow> string" where
  "tierKey i = ''tier-'' @ itoa (int i)"

fun pathLoop :: "nodeTopologyLabels \<Rightarrow> nat list \<Rightarrow> string list \<Rightarrow> pathError + string list" where
  "pathLoop labels [] pathToRoot = Inr pathToRoot"
| "pathLoop labels (i # is) pathToRoot =
     (let key = tierKey (i + 1); curTierLabel = getStr labels key
      in if curTierLabel = [] then Inl (MissingLabel key)
         else pathLoop labels is (pathToRoot @ [curTierLabel]))"

definition numOfTiers :: "nodeTopologyLabels \<Rightarrow> nat" where
  "numOfTiers labels = length (filter (\<lambda>(key, _). key \<noteq> ''tier-0'' \<and> hasPrefix key ''tier-'') labels)"

definition labelsToPath :: "nodeTopologyLabels \<Rightarrow> pathError + string list" where
  "labelsToPath labels =
     (if numOfTiers labels = 0 then Inl NoLabels else pathLoop labels [0 ..< numOfTiers labels] [])"

text \<open>The variables of BuildTopologyGraph that its loops update.\<close>

record graphBuild =
  gb_graph :: topologyGraph
  gb_placed :: "string list"
  gb_topSwitchesByFabric :: "(string, string list) gomap"

definition addTopSwitch :: "string \<Rightarrow> string \<Rightarrow> graphBuild \<Rightarrow> graphBuild" where
  "addTopSwitch fabric sw b =
     b\<lparr>gb_topSwitchesByFabric :=
         mapPut fabric (setAdd sw (getList (gb_topSwitchesByFabric b) fabric)) (gb_topSwitchesByFabric b)\<rparr>"

definition placeWorker :: "(string, string) gomap \<Rightarrow> string list \<Rightarrow> string \<Rightarrow> graphBuild \<Rightarrow> graphBuild" where
  "placeWorker fabricByNode pathToRoot worker b =
     addTopSwitch (fabricOf fabricByNode worker) (last pathToRoot)
       (b\<lparr>gb_graph := AddEdge (pathToRoot ! 0) worker (gb_graph b), gb_placed := setAdd worker (gb_placed b)\<rparr>)"

definition linkPath :: "string list \<Rightarrow> nat \<Rightarrow> graphBuild \<Rightarrow> graphBuild" where
  "linkPath pathToRoot i b = b\<lparr>gb_graph := AddEdge (pathToRoot ! (i + 1)) (pathToRoot ! i) (gb_graph b)\<rparr>"

definition placeNode ::
    "(string, string list) gomap \<Rightarrow> (string, string) gomap \<Rightarrow> string \<times> nodeTopologyLabels \<Rightarrow> graphBuild \<Rightarrow> graphBuild"
where
  "placeNode gpuPodsByNode fabricByNode = (\<lambda>(node, labels) b.
     let workers = getList gpuPodsByNode node in
     if workers = [] then b
     else case labelsToPath labels of
         Inl err \<Rightarrow> b
       | Inr pathToRoot \<Rightarrow>
           fold (linkPath pathToRoot) [0 ..< length pathToRoot - 1]
             (fold (placeWorker fabricByNode pathToRoot) workers b))"

definition placeUnknown :: "(string, string) gomap \<Rightarrow> string \<Rightarrow> graphBuild \<Rightarrow> graphBuild" where
  "placeUnknown fabricByNode name b =
     (if name \<in> set (gb_placed b) then b
      else let fabric = fabricOf fabricByNode name; unknown = unknownSwitchName fabric
           in addTopSwitch fabric unknown (b\<lparr>gb_graph := AddEdge unknown name (gb_graph b)\<rparr>))"

definition attachFabricRoots :: "(string, string list) gomap \<Rightarrow> topologyGraph \<Rightarrow> topologyGraph" where
  "attachFabricRoots topSwitchesByFabric g =
     (let hasParent = concat (map snd (children g)) in
      fold (\<lambda>(fabric, switches). fold (\<lambda>sw g'. if sw \<in> set hasParent then g' else AddEdge fabric sw g') switches)
        topSwitchesByFabric g)"

definition BuildTopologyGraph ::
    "(string, nodeTopologyLabels) gomap \<Rightarrow> (string, string list) gomap \<Rightarrow> string list
     \<Rightarrow> (string, string) gomap \<Rightarrow> topologyGraph" where
  "BuildTopologyGraph labelsByNode gpuPodsByNode allNodeNames fabricByNode =
     (let b0 = \<lparr>gb_graph = newTopologyGraph, gb_placed = [], gb_topSwitchesByFabric = []\<rparr>;
          b1 = fold (placeNode gpuPodsByNode fabricByNode) labelsByNode b0;
          b2 = fold (placeUnknown fabricByNode) allNodeNames b1
      in attachFabricRoots (gb_topSwitchesByFabric b2) (gb_graph b2))"

section \<open>The edges of a graph\<close>

named_theorems topo \<open>the effect of the graph operations on edges, placed nodes and top switches\<close>

definition edges :: "topologyGraph \<Rightarrow> (string \<times> string) set" where
  "edges g = {(p, c). c \<in> set (getList (children g) p)}"

definition wfGraph :: "topologyGraph \<Rightarrow> bool" where
  "wfGraph g \<longleftrightarrow> wfMap (children g) \<and> (\<forall>p. distinct (getList (children g) p))"

lemma edges_new [topo]: "edges newTopologyGraph = {}"
  by (simp add: edges_def newTopologyGraph_def)

lemma wfGraph_new [topo]: "wfGraph newTopologyGraph"
  by (simp add: wfGraph_def newTopologyGraph_def)

lemma getList_AddEdge:
  "getList (children (AddEdge p c g)) q
     = (if q = p then setAdd c (getList (children g) p) else getList (children g) q)"
  by (auto simp: AddEdge_def Let_def go_map) (simp add: getList_def)

lemma edges_AddEdge [topo]: "edges (AddEdge p c g) = insert (p, c) (edges g)"
  by (auto simp: edges_def getList_AddEdge go_map split: if_splits)

lemma wfGraph_AddEdge [topo]: "wfGraph g \<Longrightarrow> wfGraph (AddEdge p c g)"
proof -
  assume g: "wfGraph g"
  then have "wfMap (children (AddEdge p c g))" by (auto simp: wfGraph_def AddEdge_def Let_def)
  with g show ?thesis by (auto simp: wfGraph_def getList_AddEdge)
qed

lemma snd_edges: "wfMap (children g) \<Longrightarrow> snd ` edges g = set (concat (map snd (children g)))"
proof -
  assume wf: "wfMap (children g)"
  have "c \<in> snd ` edges g \<longleftrightarrow> c \<in> set (concat (map snd (children g)))" for c
  proof
    assume "c \<in> snd ` edges g"
    then obtain p where "c \<in> set (getList (children g) p)" by (auto simp: edges_def)
    then show "c \<in> set (concat (map snd (children g)))"
      by (cases "map_of (children g) p") (force simp: getList_def dest: map_of_SomeD)+
  next
    assume "c \<in> set (concat (map snd (children g)))"
    then obtain p cs where "(p, cs) \<in> set (children g)" "c \<in> set cs" by auto
    with wf have "(p, c) \<in> edges g" by (simp add: edges_def getList_entry)
    then show "c \<in> snd ` edges g" by force
  qed
  then show ?thesis by blast
qed

section \<open>The loops of BuildTopologyGraph\<close>

definition tops :: "graphBuild \<Rightarrow> (string \<times> string) set" where
  "tops b = {(f, sw). sw \<in> set (getList (gb_topSwitchesByFabric b) f)}"

text \<open>What a state of the construction amounts to: edges, placed workers, top switches of each fabric.\<close>

definition absBuild :: "graphBuild \<Rightarrow> (string \<times> string) set \<times> string set \<times> (string \<times> string) set" where
  "absBuild b = (edges (gb_graph b), set (gb_placed b), tops b)"

definition pathEdges :: "string list \<Rightarrow> (string \<times> string) set" where
  "pathEdges path = (\<lambda>i. (path ! (i + 1), path ! i)) ` {..< length path - 1}"

lemma absBuild_addTopSwitch [topo]:
  "absBuild (addTopSwitch f sw b) = (edges (gb_graph b), set (gb_placed b), insert (f, sw) (tops b))"
  by (auto simp: absBuild_def addTopSwitch_def tops_def go_map split: if_splits)

lemma absBuild_fold_placeWorker:
  "absBuild (fold (placeWorker fabs path) ws b) =
     (edges (gb_graph b) \<union> {path ! 0} \<times> set ws, set (gb_placed b) \<union> set ws,
      tops b \<union> (\<lambda>w. (fabricOf fabs w, last path)) ` set ws)"
proof (induction ws arbitrary: b)
  case Nil
  then show ?case by (simp add: absBuild_def)
next
  case (Cons w ws)
  have "absBuild (placeWorker fabs path w b) =
      (insert (path ! 0, w) (edges (gb_graph b)), insert w (set (gb_placed b)),
       insert (fabricOf fabs w, last path) (tops b))"
    by (simp add: placeWorker_def topo go_map tops_def)
  with Cons show ?case by (auto simp: absBuild_def)
qed

lemma absBuild_linkPath: "absBuild (linkPath path i b) = (insert (path ! (i + 1), path ! i) (edges (gb_graph b)), set (gb_placed b), tops b)"
  by (simp add: absBuild_def linkPath_def topo tops_def)

lemma absBuild_fold_linkPath:
  "absBuild (fold (linkPath path) is b) =
     (edges (gb_graph b) \<union> (\<lambda>i. (path ! (i + 1), path ! i)) ` set is, set (gb_placed b), tops b)"
proof (induction "is" arbitrary: b)
  case Nil
  then show ?case by (simp add: absBuild_def)
next
  case (Cons i "is")
  with absBuild_linkPath [of path i b] show ?case by (auto simp: absBuild_def)
qed

text \<open>The paths that take part: those of labelled Kubernetes nodes that run GPU pods.\<close>

definition usablePath ::
    "(string, string list) gomap \<Rightarrow> string \<times> nodeTopologyLabels \<Rightarrow> (string list \<times> string list) option" where
  "usablePath pods = (\<lambda>(node, labels).
     if getList pods node = [] then None
     else case labelsToPath labels of Inl e \<Rightarrow> None | Inr path \<Rightarrow> Some (path, getList pods node))"

definition placeEffect ::
    "(string, string) gomap \<Rightarrow> (string list \<times> string list) option
     \<Rightarrow> (string \<times> string) set \<times> string set \<times> (string \<times> string) set" where
  "placeEffect fabs u =
     (case u of
        None \<Rightarrow> ({}, {}, {})
      | Some (path, ws) \<Rightarrow>
          ({path ! 0} \<times> set ws \<union> pathEdges path, set ws, (\<lambda>w. (fabricOf fabs w, last path)) ` set ws))"

definition joinEffect ::
    "'a set \<times> 'b set \<times> 'c set \<Rightarrow> 'a set \<times> 'b set \<times> 'c set \<Rightarrow> 'a set \<times> 'b set \<times> 'c set" where
  "joinEffect x y = (fst x \<union> fst y, fst (snd x) \<union> fst (snd y), snd (snd x) \<union> snd (snd y))"

lemma absBuild_placeNode:
  "absBuild (placeNode pods fabs nl b) = joinEffect (absBuild b) (placeEffect fabs (usablePath pods nl))"
proof (cases "usablePath pods nl")
  case None
  then show ?thesis
    by (auto simp: placeNode_def usablePath_def placeEffect_def joinEffect_def Let_def split: prod.splits sum.splits if_splits)
next
  case (Some u)
  obtain node labels where nl: "nl = (node, labels)" by fastforce
  obtain path ws where u: "u = (path, ws)" by fastforce
  have ws: "ws = getList pods node" "ws \<noteq> []" and path: "labelsToPath labels = Inr path"
    using Some by (auto simp: usablePath_def nl u split: if_splits sum.splits)
  let ?b = "fold (placeWorker fabs path) ws b"
  have "placeNode pods fabs nl b = fold (linkPath path) [0 ..< length path - 1] ?b"
    using ws path by (simp add: placeNode_def nl)
  then have "absBuild (placeNode pods fabs nl b) =
      (edges (gb_graph ?b) \<union> pathEdges path, set (gb_placed ?b), tops ?b)"
    by (simp add: absBuild_fold_linkPath pathEdges_def atLeast0LessThan)
  moreover have "edges (gb_graph ?b) = edges (gb_graph b) \<union> {path ! 0} \<times> set ws"
    "set (gb_placed ?b) = set (gb_placed b) \<union> set ws"
    "tops ?b = tops b \<union> (\<lambda>w. (fabricOf fabs w, last path)) ` set ws"
    using absBuild_fold_placeWorker [of fabs path ws b] by (simp_all add: absBuild_def)
  ultimately show ?thesis
    using Some by (simp add: u joinEffect_def placeEffect_def absBuild_def Un_assoc)
qed

text \<open>The loop over the labelled nodes may visit them in any order.\<close>

interpretation place_loop: range_loop "placeNode pods fabs" "\<lambda>b b'. absBuild b = absBuild b'" "\<lambda>nl. nl" for pods fabs
  by unfold_locales (auto simp: absBuild_placeNode joinEffect_def)

lemma absBuild_fold_placeNode:
  "absBuild (fold (placeNode pods fabs) ls b) =
     foldl joinEffect (absBuild b) (map (\<lambda>nl. placeEffect fabs (usablePath pods nl)) ls)"
  by (induction ls arbitrary: b) (simp_all add: absBuild_placeNode)

lemma foldl_joinEffect:
  "foldl joinEffect x ys =
     (fst x \<union> (\<Union>y\<in>set ys. fst y), fst (snd x) \<union> (\<Union>y\<in>set ys. fst (snd y)), snd (snd x) \<union> (\<Union>y\<in>set ys. snd (snd y)))"
  by (induction ys arbitrary: x) (auto simp: joinEffect_def)

lemma absBuild_fold_placeUnknown:
  "absBuild (fold (placeUnknown fabs) names b) =
     (edges (gb_graph b) \<union> (\<lambda>n. (unknownSwitchName (fabricOf fabs n), n)) ` (set names - set (gb_placed b)),
      set (gb_placed b),
      tops b \<union> (\<lambda>n. (fabricOf fabs n, unknownSwitchName (fabricOf fabs n))) ` (set names - set (gb_placed b)))"
proof (induction names arbitrary: b)
  case Nil
  then show ?case by (simp add: absBuild_def)
next
  case (Cons n names)
  let ?u = "unknownSwitchName (fabricOf fabs n)"
  show ?case
  proof (cases "n \<in> set (gb_placed b)")
    case True
    then have "placeUnknown fabs n b = b" by (simp add: placeUnknown_def)
    with True Cons show ?thesis by simp
  next
    case False
    then have "absBuild (placeUnknown fabs n b)
        = (insert (?u, n) (edges (gb_graph b)), set (gb_placed b), insert (fabricOf fabs n, ?u) (tops b))"
      by (simp add: placeUnknown_def Let_def topo tops_def)
    then have *: "edges (gb_graph (placeUnknown fabs n b)) = insert (?u, n) (edges (gb_graph b))"
      "set (gb_placed (placeUnknown fabs n b)) = set (gb_placed b)"
      "tops (placeUnknown fabs n b) = insert (fabricOf fabs n, ?u) (tops b)"
      by (simp_all add: absBuild_def)
    have "set (n # names) - set (gb_placed b) = insert n (set names - set (gb_placed b))"
      using False by auto
    then show ?thesis by (simp add: Cons * insert_commute)
  qed
qed

lemma edges_attach_switches:
  "edges (fold (\<lambda>sw g'. if sw \<in> H then g' else AddEdge f sw g') sws g)
     = edges g \<union> {f} \<times> (set sws - H)"
  by (induction sws arbitrary: g) (auto simp: edges_AddEdge)

lemma edges_attach_fabrics:
  "edges (fold (\<lambda>(f, sws). fold (\<lambda>sw g'. if sw \<in> H then g' else AddEdge f sw g') sws) m g)
     = edges g \<union> (\<Union>(f, sws)\<in>set m. {f} \<times> (set sws - H))"
  by (induction m arbitrary: g) (auto simp: edges_attach_switches)

lemma edges_attachFabricRoots:
  assumes "wfMap (children g)" "wfMap m"
  shows "edges (attachFabricRoots m g)
    = edges g \<union> {(f, sw). sw \<in> set (getList m f) \<and> sw \<notin> snd ` edges g}"
proof -
  have "(\<Union>(f, sws)\<in>set m. {f} \<times> (set sws - H)) = {(f, sw). sw \<in> set (getList m f) \<and> sw \<notin> H}" for H
  proof -
    have 1: "getList m f = sws" if "(f, sws) \<in> set m" for f sws
      using assms(2) that by (simp add: getList_entry)
    have 2: "(f, getList m f) \<in> set m" if "sw \<in> set (getList m f)" for f sw
      using that by (cases "map_of m f") (auto simp: getList_def dest: map_of_SomeD)
    show ?thesis
      by (auto dest: 1) (blast dest: 2)
  qed
  then show ?thesis
    using edges_attach_fabrics [of "set (concat (map snd (children g)))" m g]
    by (simp add: attachFabricRoots_def Let_def snd_edges [OF assms(1)])
qed

text \<open>Every state of the construction keeps distinct map keys and children.\<close>

definition wfBuild :: "graphBuild \<Rightarrow> bool" where
  "wfBuild b \<longleftrightarrow> wfGraph (gb_graph b) \<and> wfMap (gb_topSwitchesByFabric b)"

lemma wfBuild_addTopSwitch: "wfBuild b \<Longrightarrow> wfBuild (addTopSwitch f sw b)"
  by (simp add: wfBuild_def addTopSwitch_def)

lemma wfBuild_AddEdge: "wfBuild b \<Longrightarrow> wfBuild (b\<lparr>gb_graph := AddEdge p c (gb_graph b), gb_placed := pl\<rparr>)"
  "wfBuild b \<Longrightarrow> wfBuild (b\<lparr>gb_graph := AddEdge p c (gb_graph b)\<rparr>)"
  by (simp_all add: wfBuild_def wfGraph_AddEdge)

lemma fold_invariant_all: "P s \<Longrightarrow> (\<And>x s. P s \<Longrightarrow> P (f x s)) \<Longrightarrow> P (fold f xs s)"
  by (induction xs arbitrary: s) auto

lemma wfBuild_placeNode: "wfBuild b \<Longrightarrow> wfBuild (placeNode pods fabs nl b)"
proof -
  assume b: "wfBuild b"
  have 1: "wfBuild (fold (placeWorker fabs path) ws b)" for path ws
    using b by (rule fold_invariant_all) (simp add: placeWorker_def wfBuild_AddEdge wfBuild_addTopSwitch)
  have "wfBuild (fold (linkPath path) is (fold (placeWorker fabs path) ws b))" for path ws "is"
    using 1 by (rule fold_invariant_all) (simp add: linkPath_def wfBuild_AddEdge)
  with b show ?thesis by (simp add: placeNode_def Let_def split: prod.splits sum.splits)
qed

lemma wfBuild_placeUnknown: "wfBuild b \<Longrightarrow> wfBuild (placeUnknown fabs n b)"
  by (simp add: placeUnknown_def Let_def wfBuild_AddEdge wfBuild_addTopSwitch)

lemma wfGraph_attachFabricRoots: "wfGraph g \<Longrightarrow> wfGraph (attachFabricRoots m g)"
proof -
  assume g: "wfGraph g"
  have "wfGraph g' \<Longrightarrow> wfGraph (fold (\<lambda>sw g'. if sw \<in> H then g' else AddEdge f sw g') sws g')" for H f sws g'
    by (erule fold_invariant_all) (simp add: wfGraph_AddEdge)
  then have "wfGraph (fold (\<lambda>(f, sws). fold (\<lambda>sw g'. if sw \<in> H then g' else AddEdge f sw g') sws) m g)" for H
    using g by - (rule fold_invariant_all, simp_all add: split_beta)
  then show ?thesis unfolding attachFabricRoots_def Let_def .
qed

section \<open>What BuildTopologyGraph computes\<close>

text \<open>
  The edges from the inputs as sets, with no loop and no order: the workers below the first switch
  of the path of their Kubernetes node, the paths themselves, every node without a path below the
  unknown switch of its fabric, and the top switches that nothing else is above below their fabric.
\<close>

definition usablePaths ::
    "(string, nodeTopologyLabels) gomap \<Rightarrow> (string, string list) gomap \<Rightarrow> (string list \<times> string list) set" where
  "usablePaths L P = set (List.map_filter (usablePath P) L)"

lemma usablePaths_iff: "u \<in> usablePaths L P \<longleftrightarrow> Some u \<in> usablePath P ` set L"
  unfolding usablePaths_def
proof (induction L)
  case (Cons nl L)
  then show ?case by (cases "usablePath P nl") (auto simp: map_filter_simps)
qed (simp add: map_filter_simps)

definition placedNodes :: "(string, nodeTopologyLabels) gomap \<Rightarrow> (string, string list) gomap \<Rightarrow> string set" where
  "placedNodes L P = (\<Union>(path, ws)\<in>usablePaths L P. set ws)"

definition lowerEdges where
  "lowerEdges L P N F =
     (\<Union>(path, ws)\<in>usablePaths L P. {path ! 0} \<times> set ws \<union> pathEdges path)
     \<union> (\<lambda>n. (unknownSwitchName (fabricOf F n), n)) ` (set N - placedNodes L P)"

definition topSwitches where
  "topSwitches L P N F =
     (\<Union>(path, ws)\<in>usablePaths L P. (\<lambda>w. (fabricOf F w, last path)) ` set ws)
     \<union> (\<lambda>n. (fabricOf F n, unknownSwitchName (fabricOf F n))) ` (set N - placedNodes L P)"

definition topoEdges ::
    "(string, nodeTopologyLabels) gomap \<Rightarrow> (string, string list) gomap \<Rightarrow> string list
     \<Rightarrow> (string, string) gomap \<Rightarrow> (string \<times> string) set" where
  "topoEdges L P N F =
     lowerEdges L P N F \<union> {(f, sw) \<in> topSwitches L P N F. sw \<notin> snd ` lowerEdges L P N F}"

definition unplacedBuild ::
    "(string, nodeTopologyLabels) gomap \<Rightarrow> (string, string list) gomap \<Rightarrow> (string, string) gomap \<Rightarrow> graphBuild" where
  "unplacedBuild L P F = fold (placeNode P F) L
     \<lparr>gb_graph = newTopologyGraph, gb_placed = [], gb_topSwitchesByFabric = []\<rparr>"

lemma BuildTopologyGraph_stages:
  "BuildTopologyGraph L P N F =
     (let b2 = fold (placeUnknown F) N (unplacedBuild L P F)
      in attachFabricRoots (gb_topSwitchesByFabric b2) (gb_graph b2))"
  by (simp add: BuildTopologyGraph_def unplacedBuild_def)

lemma Union_placeEffect:
  "(\<Union>nl\<in>set L. fst (placeEffect F (usablePath P nl))) = (\<Union>(path, ws)\<in>usablePaths L P. {path ! 0} \<times> set ws \<union> pathEdges path)"
  "(\<Union>nl\<in>set L. fst (snd (placeEffect F (usablePath P nl)))) = placedNodes L P"
  "(\<Union>nl\<in>set L. snd (snd (placeEffect F (usablePath P nl))))
     = (\<Union>(path, ws)\<in>usablePaths L P. (\<lambda>w. (fabricOf F w, last path)) ` set ws)"
proof -
  have *: "(\<Union>nl\<in>set L. g (usablePath P nl)) = (\<Union>u\<in>usablePaths L P. g (Some u))"
    if "g None = {}" for g :: "(string list \<times> string list) option \<Rightarrow> 'a set"
  proof -
    have "g (usablePath P nl) \<subseteq> (\<Union>u\<in>usablePaths L P. g (Some u))" if "nl \<in> set L" for nl
      using that \<open>g None = {}\<close> by (cases "usablePath P nl") (force simp: usablePaths_iff image_iff)+
    moreover have "g (Some u) \<subseteq> (\<Union>nl\<in>set L. g (usablePath P nl))" if "u \<in> usablePaths L P" for u
      using that by (force simp: usablePaths_iff)
    ultimately show ?thesis by blast
  qed
  show "(\<Union>nl\<in>set L. fst (placeEffect F (usablePath P nl))) = (\<Union>(path, ws)\<in>usablePaths L P. {path ! 0} \<times> set ws \<union> pathEdges path)"
    by (subst *) (auto simp: placeEffect_def)
  show "(\<Union>nl\<in>set L. fst (snd (placeEffect F (usablePath P nl)))) = placedNodes L P"
    by (subst *) (auto simp: placeEffect_def placedNodes_def)
  show "(\<Union>nl\<in>set L. snd (snd (placeEffect F (usablePath P nl))))
     = (\<Union>(path, ws)\<in>usablePaths L P. (\<lambda>w. (fabricOf F w, last path)) ` set ws)"
    by (subst *) (auto simp: placeEffect_def)
qed

lemma absBuild_unplaced:
  "absBuild (unplacedBuild L P F) =
     ((\<Union>(path, ws)\<in>usablePaths L P. {path ! 0} \<times> set ws \<union> pathEdges path), placedNodes L P,
      (\<Union>(path, ws)\<in>usablePaths L P. (\<lambda>w. (fabricOf F w, last path)) ` set ws))"
  by (simp add: unplacedBuild_def absBuild_fold_placeNode foldl_joinEffect Union_placeEffect)
     (simp add: absBuild_def tops_def edges_new)

lemma absBuild_complete:
  "absBuild (fold (placeUnknown F) N (unplacedBuild L P F)) =
     (lowerEdges L P N F, placedNodes L P, topSwitches L P N F)"
  using absBuild_unplaced [of L P F]
  by (simp add: absBuild_fold_placeUnknown lowerEdges_def topSwitches_def)
     (simp add: absBuild_def)

lemma wfBuild_complete: "wfBuild (fold (placeUnknown F) N (unplacedBuild L P F))"
proof -
  have "wfBuild \<lparr>gb_graph = newTopologyGraph, gb_placed = [], gb_topSwitchesByFabric = []\<rparr>"
    by (simp add: wfBuild_def wfGraph_new)
  then have "wfBuild (unplacedBuild L P F)"
    unfolding unplacedBuild_def by (rule fold_invariant_all) (rule wfBuild_placeNode)
  then show ?thesis
    by (rule fold_invariant_all) (rule wfBuild_placeUnknown)
qed

lemma edges_Build: "edges (BuildTopologyGraph L P N F) = topoEdges L P N F"
proof -
  let ?b = "fold (placeUnknown F) N (unplacedBuild L P F)"
  have "wfMap (children (gb_graph ?b))" "wfMap (gb_topSwitchesByFabric ?b)"
    using wfBuild_complete [of F N L P] by (simp_all add: wfBuild_def wfGraph_def)
  moreover have "edges (gb_graph ?b) = lowerEdges L P N F" "tops ?b = topSwitches L P N F"
    using absBuild_complete [of F N L P] by (simp_all add: absBuild_def)
  ultimately show ?thesis
    by (simp add: BuildTopologyGraph_stages Let_def edges_attachFabricRoots topoEdges_def) (auto simp: tops_def)
qed

lemma wfGraph_Build: "wfGraph (BuildTopologyGraph L P N F)"
  using wfBuild_complete [of F N L P]
  by (simp add: BuildTopologyGraph_stages Let_def wfBuild_def wfGraph_attachFabricRoots)

section \<open>The lines depend on the edges only\<close>

definition childrenOf :: "(string \<times> string) set \<Rightarrow> string \<Rightarrow> string list" where
  "childrenOf E p = sorted_list_of_set (E `` {p})"

definition switchLine :: "(string \<times> string) set \<Rightarrow> string \<Rightarrow> string" where
  "switchLine E p =
     ''SwitchName='' @ slurmSafeSwitchName p
     @ (if E `` {p} \<inter> fst ` E \<noteq> {}
        then '' Switches='' @ Merge (map slurmSafeSwitchName (childrenOf E p))
        else '' Nodes='' @ strJoin '','' (childrenOf E p))"

lemma fst_edges_iff: "p \<in> fst ` edges g \<longleftrightarrow> getList (children g) p \<noteq> []"
  by (cases "getList (children g) p") (auto simp: edges_def image_iff)

lemma fst_edges: "wfMap (children g) \<Longrightarrow> fst ` edges g = fst ` set (filter (\<lambda>e. snd e \<noteq> []) (children g))"
proof (intro set_eqI iffI)
  fix p assume wf: "wfMap (children g)" and "p \<in> fst ` edges g"
  then have "getList (children g) p \<noteq> []" by (simp add: fst_edges_iff)
  then have "(p, getList (children g) p) \<in> set (children g)" "getList (children g) p \<noteq> []"
    by (cases "map_of (children g) p"; simp add: getList_def map_of_SomeD)+
  then show "p \<in> fst ` set (filter (\<lambda>e. snd e \<noteq> []) (children g))" by force
next
  fix p assume wf: "wfMap (children g)" and "p \<in> fst ` set (filter (\<lambda>e. snd e \<noteq> []) (children g))"
  then obtain cs where "(p, cs) \<in> set (children g)" "cs \<noteq> []" by auto
  with wf show "p \<in> fst ` edges g" by (simp add: fst_edges_iff getList_entry)
qed

lemma finite_edges: "wfMap (children g) \<Longrightarrow> finite (edges g)"
proof -
  assume wf: "wfMap (children g)"
  have "edges g \<subseteq> fst ` edges g \<times> snd ` edges g" by force
  then show ?thesis
    by (rule finite_subset) (simp add: fst_edges snd_edges wf)
qed

lemma renderSwitchLine_edges:
  assumes wf: "wfGraph g" and mem: "(p, cs) \<in> set (children g)" and cs: "cs \<noteq> []"
  shows "renderSwitchLine g (p, cs) = Some (switchLine (edges g) p)"
proof -
  have wm: "wfMap (children g)" using wf by (simp add: wfGraph_def)
  have gl: "getList (children g) p = cs" using wm mem by (simp add: getList_entry)
  have img: "edges g `` {p} = set cs" by (auto simp: edges_def gl)
  have "distinct cs" using wf gl by (auto simp: wfGraph_def)
  then have "childrenOf (edges g) p = sort cs"
    by (simp add: childrenOf_def img sorted_list_of_set_sort_remdups distinct_remdups_id)
  moreover have "list_ex (\<lambda>c. getList (children g) c \<noteq> []) cs \<longleftrightarrow> edges g `` {p} \<inter> fst ` edges g \<noteq> {}"
    unfolding img by (simp add: list_ex_iff disjoint_iff fst_edges_iff) blast
  ultimately show ?thesis using cs by (simp add: renderSwitchLine_def switchLine_def Let_def)
qed

lemma graphConfigLines_edges:
  assumes wf: "wfGraph g"
  shows "graphConfigLines g = sort (map (switchLine (edges g)) (sorted_list_of_set (fst ` edges g)))"
proof -
  let ?es = "filter (\<lambda>e. snd e \<noteq> []) (children g)"
  have wm: "wfMap (children g)" using wf by (simp add: wfGraph_def)
  have "List.map_filter (renderSwitchLine g) es = map (switchLine (edges g) \<circ> fst) (filter (\<lambda>e. snd e \<noteq> []) es)"
    if "set es \<subseteq> set (children g)" for es
    using that
  proof (induction es)
    case (Cons e es)
    obtain p cs where e: "e = (p, cs)" by fastforce
    have "renderSwitchLine g e = (if cs = [] then None else Some (switchLine (edges g) p))"
      using Cons.prems renderSwitchLine_edges [OF wf, of p cs] by (simp add: e) (simp add: renderSwitchLine_def)
    with Cons show ?case by (simp add: map_filter_simps e)
  qed (simp add: map_filter_simps)
  then have lines: "List.map_filter (renderSwitchLine g) (children g) = map (switchLine (edges g)) (map fst ?es)"
    by simp
  have "distinct (map fst ?es)" using wm by (rule distinct_map_filter)
  then have "mset (map fst ?es) = mset_set (fst ` edges g)"
    using mset_set_set [of "map fst ?es"] by (simp add: fst_edges [OF wm])
  moreover have "finite (fst ` edges g)" using wm by (simp add: finite_edges)
  ultimately have "mset (map fst ?es) = mset (sorted_list_of_set (fst ` edges g))"
    using mset_set_set [of "sorted_list_of_set (fst ` edges g)"] by simp
  then show ?thesis
    unfolding graphConfigLines_def lines by (intro sort_perm) (simp only: mset_map)
qed

section \<open>Independence of the iteration order\<close>

definition pathSets ::
    "(string, nodeTopologyLabels) gomap \<Rightarrow> (string, string list) gomap \<Rightarrow> (string list \<times> string set) set" where
  "pathSets L P = map_prod id set ` usablePaths L P"

lemma Union_pathSets:
  "(\<Union>(path, ws)\<in>usablePaths L P. g path (set ws)) = (\<Union>(path, W)\<in>pathSets L P. g path W)"
  by (auto simp: pathSets_def)

lemma pathSets_subset:
  assumes L: "set L \<subseteq> set L'" and P: "\<And>k. set (getList P k) = set (getList P' k)"
  shows "pathSets L P \<subseteq> pathSets L' P'"
proof
  fix x assume "x \<in> pathSets L P"
  then obtain path ws where x: "x = (path, set ws)" and "(path, ws) \<in> usablePaths L P"
    by (auto simp: pathSets_def)
  then obtain node labels where nl: "(node, labels) \<in> set L" "Some (path, ws) = usablePath P (node, labels)"
    by (auto simp: usablePaths_iff)
  then have ws: "ws = getList P node" "ws \<noteq> []" "labelsToPath labels = Inr path"
    by (auto simp: usablePath_def split: if_splits sum.splits)
  then have "getList P' node \<noteq> []" using P [of node] by auto
  then have "Some (path, getList P' node) = usablePath P' (node, labels)"
    using ws by (simp add: usablePath_def)
  then have "(path, getList P' node) \<in> usablePaths L' P'"
    unfolding usablePaths_iff using nl(1) L by (metis image_eqI subsetD)
  then show "x \<in> pathSets L' P'"
    unfolding pathSets_def x ws(1) P [of node] by (metis (no_types) id_apply image_eqI map_prod_simp)
qed

lemma pathSets_cong:
  assumes "set L = set L'" "\<And>k. set (getList P k) = set (getList P' k)"
  shows "pathSets L P = pathSets L' P'"
  using assms pathSets_subset [of L L' P P'] pathSets_subset [of L' L P' P] by simp

lemma topoEdges_cong:
  assumes "set L = set L'" "\<And>k. set (getList P k) = set (getList P' k)" "set N = set N'"
    and "\<And>n. getStr F n = getStr F' n"
  shows "topoEdges L P N F = topoEdges L' P' N' F'"
proof -
  have U: "pathSets L P = pathSets L' P'" using assms(1,2) by (rule pathSets_cong)
  have F: "fabricOf F = fabricOf F'" using assms(4) by (simp add: fabricOf_def fun_eq_iff)
  have "placedNodes L P = placedNodes L' P'"
    unfolding placedNodes_def Union_pathSets [where g = "\<lambda>_ W. W"] U ..
  moreover have "lowerEdges L P N F = lowerEdges L' P' N' F'"
    unfolding lowerEdges_def Union_pathSets [where g = "\<lambda>path W. {path ! 0} \<times> W \<union> pathEdges path"] U
      F assms(3) calculation ..
  moreover have "topSwitches L P N F = topSwitches L' P' N' F'"
    unfolding topSwitches_def Union_pathSets [where g = "\<lambda>path W. (\<lambda>w. (fabricOf F w, last path)) ` W"]
    by (simp add: U F assms(3) calculation(1) Union_pathSets [where g = "\<lambda>path W. (\<lambda>w. (fabricOf F' w, last path)) ` W"])
  ultimately show ?thesis by (simp add: topoEdges_def)
qed

text \<open>
  C4: the lines that BuildTopologyGraph and RenderConfigLines produce are exactly one line for every
  switch of the edge set that the labels, the pods, the node names and the fabrics determine: the
  workers below the first switch of their path, the paths, the nodes without a usable path below the
  unknown switch of their fabric, and below each fabric its top switches that no path goes above.
\<close>

theorem topologyGraph_lines:
  "graphConfigLines (BuildTopologyGraph L P N F) =
     (let E = topoEdges L P N F in sort (map (switchLine E) (sorted_list_of_set (fst ` E))))"
  by (simp add: graphConfigLines_edges wfGraph_Build edges_Build Let_def)

text \<open>
  The rendered tree topology does not depend on the order in which the maps of labels, pods and
  fabrics are iterated, nor on the order of the node names or of the pods of a node.
\<close>

lemma topologyGraph_order_independent:
  assumes "set L = set L'" "\<And>k. set (getList P k) = set (getList P' k)" "set N = set N'"
    and "\<And>n. getStr F n = getStr F' n"
  shows "graphConfigLines (BuildTopologyGraph L P N F) = graphConfigLines (BuildTopologyGraph L' P' N' F')"
  by (simp add: graphConfigLines_edges wfGraph_Build edges_Build topoEdges_cong [OF assms])

lemma topologyGraph_order_independent_witness:
  "graphConfigLines (BuildTopologyGraph
     [(''n1'', [(''tier-1'', ''leaf'')]), (''n2'', [(''tier-1'', ''leaf'')])] [(''n1'', [''w1'']), (''n2'', [''w2''])]
     [''w1'', ''w2'', ''w3''] [(''w1'', ''fab'')])
   = graphConfigLines (BuildTopologyGraph
     [(''n2'', [(''tier-1'', ''leaf'')]), (''n1'', [(''tier-1'', ''leaf'')])] [(''n2'', [''w2'']), (''n1'', [''w1''])]
     [''w3'', ''w2'', ''w1'', ''w1''] [(''w1'', ''fab'')])"
  by (rule topologyGraph_order_independent) (auto simp: getList_def)

section \<open>Consistent labels give a forest\<close>

text \<open>
  Labels are consistent when a switch is named on one tier only and always below the same switch,
  a Slurm node runs below one first switch, the nodes below a switch belong to one fabric, and the
  names of nodes, switches, fabrics and unknown switches do not clash.
\<close>

definition tiersAgree :: "string list \<Rightarrow> string list \<Rightarrow> bool" where
  "tiersAgree p q \<longleftrightarrow> (\<forall>i < length p. \<forall>j < length q.
     p ! i = q ! j \<longrightarrow> i = j \<and> (i + 1 < length p \<and> i + 1 < length q \<longrightarrow> p ! (i + 1) = q ! (i + 1)))"

definition pathsAgree ::
    "(string, string) gomap \<Rightarrow> string list \<times> string list \<Rightarrow> string list \<times> string list \<Rightarrow> bool" where
  "pathsAgree F = (\<lambda>(p, ws) (q, vs).
     tiersAgree p q \<and> (set ws \<inter> set vs \<noteq> {} \<longrightarrow> p ! 0 = q ! 0)
     \<and> (set p \<inter> set q \<noteq> {} \<longrightarrow> (\<forall>w\<in>set ws. \<forall>v\<in>set vs. fabricOf F w = fabricOf F v)))"

definition switchesOf :: "(string, nodeTopologyLabels) gomap \<Rightarrow> (string, string list) gomap \<Rightarrow> string set" where
  "switchesOf L P = (\<Union>(p, ws)\<in>usablePaths L P. set p)"

definition nodesOf where
  "nodesOf L P N = placedNodes L P \<union> set N"

definition consistentTopology ::
    "(string, nodeTopologyLabels) gomap \<Rightarrow> (string, string list) gomap \<Rightarrow> string list \<Rightarrow> (string, string) gomap \<Rightarrow> bool" where
  "consistentTopology L P N F \<longleftrightarrow>
     (\<forall>u\<in>usablePaths L P. \<forall>v\<in>usablePaths L P. pathsAgree F u v)
     \<and> (let nodes = nodesOf L P N; switches = switchesOf L P; fabrics = fabricOf F ` nodes; unknowns = unknownSwitchName ` fabrics
        in nodes \<inter> switches = {} \<and> nodes \<inter> fabrics = {} \<and> nodes \<inter> unknowns = {}
           \<and> switches \<inter> fabrics = {} \<and> switches \<inter> unknowns = {} \<and> fabrics \<inter> unknowns = {})"

lemma pathLoop_Inr: "pathLoop labels is acc = Inr path \<Longrightarrow> length path = length acc + length is"
  by (induction labels "is" acc rule: pathLoop.induct) (auto simp: Let_def split: if_splits)

lemma labelsToPath_nonempty: "labelsToPath labels = Inr path \<Longrightarrow> path \<noteq> []"
  by (auto simp: labelsToPath_def dest!: pathLoop_Inr split: if_splits)

lemma usablePaths_nonempty:
  assumes "(path, ws) \<in> usablePaths L P" shows "path \<noteq> []" "ws \<noteq> []"
  using assms by (auto simp: usablePaths_iff usablePath_def dest: labelsToPath_nonempty split: if_splits sum.splits)

lemma unknownSwitchName_inj: "unknownSwitchName f = unknownSwitchName f' \<longleftrightarrow> f = f'"
proof -
  have "f @ ''.unknown'' \<noteq> ''unknown''" for f :: string
  proof
    assume "f @ ''.unknown'' = ''unknown''"
    then have "length (f @ ''.unknown'') = length ''unknown''" by (rule arg_cong)
    then show False by simp
  qed
  then show ?thesis by (auto simp: unknownSwitchName_def)
qed

text \<open>A parent in a topology, by the kind of the child.\<close>

lemma lower_cases:
  assumes "(x, y) \<in> lowerEdges L P N F"
  obtains (worker) p ws where "(p, ws) \<in> usablePaths L P" "x = p ! 0" "y \<in> set ws"
  | (tier) p ws i where "(p, ws) \<in> usablePaths L P" "i + 1 < length p" "x = p ! (i + 1)" "y = p ! i"
  | (unplaced) "y \<in> set N" "y \<notin> placedNodes L P" "x = unknownSwitchName (fabricOf F y)"
proof -
  consider (1) p ws where "(p, ws) \<in> usablePaths L P" "(x, y) \<in> {p ! 0} \<times> set ws"
    | (2) p ws where "(p, ws) \<in> usablePaths L P" "(x, y) \<in> pathEdges p"
    | (3) "(x, y) \<in> (\<lambda>n. (unknownSwitchName (fabricOf F n), n)) ` (set N - placedNodes L P)"
    using assms unfolding lowerEdges_def by blast
  then show thesis
  proof cases
    case 2
    then obtain i where "i < length p - 1" "x = p ! (i + 1)" "y = p ! i" by (auto simp: pathEdges_def)
    then show thesis by (intro tier [OF 2(1), of i]) simp_all
  qed (auto intro: worker unplaced)
qed

lemma top_cases:
  assumes "(f, sw) \<in> topSwitches L P N F"
  obtains (path) p ws w where "(p, ws) \<in> usablePaths L P" "w \<in> set ws" "f = fabricOf F w" "sw = last p"
  | (unknown) n where "n \<in> set N" "n \<notin> placedNodes L P" "f = fabricOf F n" "sw = unknownSwitchName f"
proof -
  consider (1) p ws where "(p, ws) \<in> usablePaths L P" "(f, sw) \<in> (\<lambda>w. (fabricOf F w, last p)) ` set ws"
    | (2) "(f, sw) \<in> (\<lambda>n. (fabricOf F n, unknownSwitchName (fabricOf F n))) ` (set N - placedNodes L P)"
    using assms unfolding topSwitches_def by blast
  then show thesis by cases (auto intro: path unknown)
qed

lemma placed_node: "(p, ws) \<in> usablePaths L P \<Longrightarrow> w \<in> set ws \<Longrightarrow> w \<in> placedNodes L P"
  by (auto simp: placedNodes_def)

lemma path_switch: "(p, ws) \<in> usablePaths L P \<Longrightarrow> i < length p \<Longrightarrow> p ! i \<in> switchesOf L P"
  by (force simp: switchesOf_def)

lemma consistent_paths:
  assumes "consistentTopology L P N F" "(p, ws) \<in> usablePaths L P" "(q, vs) \<in> usablePaths L P"
  shows "tiersAgree p q" "w \<in> set ws \<Longrightarrow> w \<in> set vs \<Longrightarrow> p ! 0 = q ! 0"
    "s \<in> set p \<Longrightarrow> s \<in> set q \<Longrightarrow> w \<in> set ws \<Longrightarrow> v \<in> set vs \<Longrightarrow> fabricOf F w = fabricOf F v"
proof -
  have "pathsAgree F (p, ws) (q, vs)" using assms by (simp add: consistentTopology_def)
  then show "tiersAgree p q" "w \<in> set ws \<Longrightarrow> w \<in> set vs \<Longrightarrow> p ! 0 = q ! 0"
    "s \<in> set p \<Longrightarrow> s \<in> set q \<Longrightarrow> w \<in> set ws \<Longrightarrow> v \<in> set vs \<Longrightarrow> fabricOf F w = fabricOf F v"
    by (auto simp: pathsAgree_def)
qed

lemma consistent_names:
  assumes "consistentTopology L P N F"
  shows "n \<in> nodesOf L P N \<Longrightarrow> n \<notin> switchesOf L P"
    "n \<in> nodesOf L P N \<Longrightarrow> m \<in> nodesOf L P N \<Longrightarrow> n \<noteq> fabricOf F m"
    "n \<in> nodesOf L P N \<Longrightarrow> m \<in> nodesOf L P N \<Longrightarrow> n \<noteq> unknownSwitchName (fabricOf F m)"
    "m \<in> nodesOf L P N \<Longrightarrow> fabricOf F m \<notin> switchesOf L P"
    "m \<in> nodesOf L P N \<Longrightarrow> unknownSwitchName (fabricOf F m) \<notin> switchesOf L P"
    "n \<in> nodesOf L P N \<Longrightarrow> m \<in> nodesOf L P N \<Longrightarrow> fabricOf F n \<noteq> unknownSwitchName (fabricOf F m)"
proof -
  let ?N = "nodesOf L P N" and ?S = "switchesOf L P"
  have *: "?N \<inter> ?S = {}" "?N \<inter> fabricOf F ` ?N = {}" "?N \<inter> unknownSwitchName ` fabricOf F ` ?N = {}"
    "?S \<inter> fabricOf F ` ?N = {}" "?S \<inter> unknownSwitchName ` fabricOf F ` ?N = {}"
    "fabricOf F ` ?N \<inter> unknownSwitchName ` fabricOf F ` ?N = {}"
    by (insert assms, unfold consistentTopology_def Let_def, elim conjE, assumption)+
  show "n \<in> ?N \<Longrightarrow> n \<notin> ?S" using *(1) by blast
  show "n \<in> ?N \<Longrightarrow> m \<in> ?N \<Longrightarrow> n \<noteq> fabricOf F m" using *(2) by blast
  show "n \<in> ?N \<Longrightarrow> m \<in> ?N \<Longrightarrow> n \<noteq> unknownSwitchName (fabricOf F m)" using *(3) by blast
  show "m \<in> ?N \<Longrightarrow> fabricOf F m \<notin> ?S" using *(4) by blast
  show "m \<in> ?N \<Longrightarrow> unknownSwitchName (fabricOf F m) \<notin> ?S" using *(5) by blast
  show "n \<in> ?N \<Longrightarrow> m \<in> ?N \<Longrightarrow> fabricOf F n \<noteq> unknownSwitchName (fabricOf F m)" using *(6) by blast
qed

lemma lower_unique_parent:
  assumes C: "consistentTopology L P N F"
    and x: "(x, y) \<in> lowerEdges L P N F" and z: "(z, y) \<in> lowerEdges L P N F"
  shows "x = z"
proof -
  note names = consistent_names [OF C]
  have node: "y \<notin> switchesOf L P" if "y \<in> placedNodes L P \<or> y \<in> set N"
    using that names(1) [of y] by (auto simp: nodesOf_def)
  from x show ?thesis
  proof (cases rule: lower_cases)
    case (worker p ws)
    have y: "y \<in> placedNodes L P" using worker by (simp add: placed_node)
    from z show ?thesis
    proof (cases rule: lower_cases)
      case w: (worker q vs)
      show ?thesis using consistent_paths(2) [OF C worker(1) w(1) worker(3) w(3)] worker(2) w(2) by simp
    next
      case (tier q vs i)
      then show ?thesis using node y path_switch [OF tier(1), of i] by simp
    qed (use y in simp)
  next
    case (tier p ws i)
    have sw: "y \<in> switchesOf L P" using tier path_switch [OF tier(1), of i] by simp
    from z show ?thesis
    proof (cases rule: lower_cases)
      case (worker q vs)
      then show ?thesis using node sw placed_node by blast
    next
      case t: (tier q vs j)
      have "i < length p" "j < length q" "p ! i = q ! j" using tier t by simp_all
      then have "i = j" "p ! (i + 1) = q ! (i + 1)"
        using consistent_paths(1) [OF C tier(1) t(1)] tier(2) t(2) unfolding tiersAgree_def by blast+
      then show ?thesis using tier(3) t(3) by simp
    next
      case unplaced
      then show ?thesis using node sw by blast
    qed
  next
    case unplaced
    from z show ?thesis
    proof (cases rule: lower_cases)
      case (worker q vs)
      then show ?thesis using unplaced placed_node by blast
    next
      case (tier q vs i)
      then show ?thesis using node unplaced path_switch [OF tier(1), of i] by simp
    qed (use unplaced in simp)
  qed
qed

lemma top_unique_fabric:
  assumes C: "consistentTopology L P N F"
    and f: "(f, y) \<in> topSwitches L P N F" and g: "(g, y) \<in> topSwitches L P N F"
  shows "f = g"
proof -
  have last: "last p \<in> switchesOf L P" "last p \<in> set p" if "(p, ws) \<in> usablePaths L P" for p ws
    using that usablePaths_nonempty [OF that] by (force simp: switchesOf_def)+
  have unk: "unknownSwitchName (fabricOf F n) \<notin> switchesOf L P" if "n \<in> set N" for n
    using that consistent_names(5) [OF C] by (simp add: nodesOf_def)
  from f show ?thesis
  proof (cases rule: top_cases)
    case (path p ws w)
    from g show ?thesis
    proof (cases rule: top_cases)
      case t: (path q vs v)
      have "last p \<in> set q" using path(4) t(4) last(2) [OF t(1)] by simp
      then have "fabricOf F w = fabricOf F v"
        by (intro consistent_paths(3) [OF C path(1) t(1) last(2) [OF path(1)]] path(2) t(2))
      then show ?thesis by (simp add: path(3) t(3))
    next
      case (unknown n)
      then show ?thesis using path last(1) unk by metis
    qed
  next
    case (unknown n)
    from g show ?thesis
    proof (cases rule: top_cases)
      case (path q vs v)
      then show ?thesis using unknown last(1) unk by metis
    next
      case (unknown m)
      then show ?thesis using \<open>y = unknownSwitchName f\<close> by (simp add: unknownSwitchName_inj)
    qed
  qed
qed

lemma topo_unique_parent:
  assumes C: "consistentTopology L P N F"
    and x: "(x, y) \<in> topoEdges L P N F" and z: "(z, y) \<in> topoEdges L P N F"
  shows "x = z"
proof (cases "y \<in> snd ` lowerEdges L P N F")
  case True
  then have "(x, y) \<in> lowerEdges L P N F" "(z, y) \<in> lowerEdges L P N F" using x z by (auto simp: topoEdges_def)
  then show ?thesis by (rule lower_unique_parent [OF C])
next
  case False
  then have "(x, y) \<in> topSwitches L P N F" "(z, y) \<in> topSwitches L P N F"
    using x z by (force simp: topoEdges_def)+
  then show ?thesis by (rule top_unique_fabric [OF C])
qed

lemma lower_in_topo: "(x, y) \<in> lowerEdges L P N F \<Longrightarrow> (x, y) \<in> topoEdges L P N F"
  by (simp add: topoEdges_def)

lemma worker_edge: "(p, ws) \<in> usablePaths L P \<Longrightarrow> w \<in> set ws \<Longrightarrow> (p ! 0, w) \<in> lowerEdges L P N F"
  unfolding lowerEdges_def by blast

lemma tier_edge: "(p, ws) \<in> usablePaths L P \<Longrightarrow> i + 1 < length p \<Longrightarrow> (p ! (i + 1), p ! i) \<in> lowerEdges L P N F"
  unfolding lowerEdges_def pathEdges_def by (intro UnI1 UN_I) auto

lemma unplaced_edge:
  "n \<in> set N \<Longrightarrow> n \<notin> placedNodes L P \<Longrightarrow> (unknownSwitchName (fabricOf F n), n) \<in> lowerEdges L P N F"
  unfolding lowerEdges_def by blast

text \<open>The children below the fabrics are nodes and switches.\<close>

lemma lower_child: "(x, y) \<in> lowerEdges L P N F \<Longrightarrow> y \<in> nodesOf L P N \<or> y \<in> switchesOf L P"
  by (erule lower_cases) (auto simp: nodesOf_def dest: placed_node Suc_lessD intro: path_switch)

lemma switch_below_fabric:
  assumes C: "consistentTopology L P N F" and M: "\<And>q vs. (q, vs) \<in> usablePaths L P \<Longrightarrow> length q \<le> M"
  shows "(p, ws) \<in> usablePaths L P \<Longrightarrow> i < length p \<Longrightarrow> w \<in> set ws
    \<Longrightarrow> (fabricOf F w, p ! i) \<in> (topoEdges L P N F)\<^sup>+"
proof (induction "M - i" arbitrary: p ws i w rule: less_induct)
  case less
  have sw: "p ! i \<in> switchesOf L P" using less.prems by (simp add: path_switch)
  then have "p ! i \<notin> nodesOf L P N" using consistent_names(1) [OF C] by blast
  then have not_node: "p ! i \<notin> placedNodes L P" "p ! i \<notin> set N" by (simp_all add: nodesOf_def)
  show ?case
  proof (cases "p ! i \<in> snd ` lowerEdges L P N F")
    case True
    then obtain x where x: "(x, p ! i) \<in> lowerEdges L P N F" by auto
    then obtain q vs j where q: "(q, vs) \<in> usablePaths L P" "j + 1 < length q" "x = q ! (j + 1)" "p ! i = q ! j"
      using not_node by (cases rule: lower_cases) (auto dest: placed_node)
    then have "i = j" using consistent_paths(1) [OF C less.prems(1) q(1)] less.prems(2)
      unfolding tiersAgree_def by auto
    obtain v where v: "v \<in> set vs" using usablePaths_nonempty(2) [OF q(1)] by (cases vs) auto
    have "p ! i \<in> set q" using q by simp
    then have "fabricOf F v = fabricOf F w"
      using consistent_paths(3) [OF C q(1) less.prems(1) _ _ v less.prems(3), of "p ! i"] less.prems(2) by simp
    moreover have "M - (i + 1) < M - i" using M [OF q(1)] q(2) \<open>i = j\<close> by simp
    then have "(fabricOf F v, q ! (j + 1)) \<in> (topoEdges L P N F)\<^sup>+"
      using less.hyps [OF _ q(1,2) v] \<open>i = j\<close> by simp
    ultimately have "(fabricOf F w, x) \<in> (topoEdges L P N F)\<^sup>+" using q(3) by simp
    then show ?thesis using lower_in_topo [OF x] by (rule trancl.trancl_into_trancl)
  next
    case False
    then have "\<not> i + 1 < length p" using tier_edge [OF less.prems(1)] by force
    then have "i = length p - 1" using less.prems(2) by simp
    then have "last p = p ! i" using usablePaths_nonempty(1) [OF less.prems(1)] by (simp add: last_conv_nth)
    then have "(fabricOf F w, p ! i) \<in> topSwitches L P N F"
      using less.prems unfolding topSwitches_def by force
    with False show ?thesis by (auto simp: topoEdges_def)
  qed
qed

lemma path_below_fabric:
  assumes "consistentTopology L P N F" "(p, ws) \<in> usablePaths L P" "i < length p" "w \<in> set ws"
  shows "(fabricOf F w, p ! i) \<in> (topoEdges L P N F)\<^sup>+"
proof -
  have "length q \<le> Max ((length \<circ> fst) ` usablePaths L P)" if "(q, vs) \<in> usablePaths L P" for q vs
    using that by (intro Max_ge) (auto simp: usablePaths_def image_iff intro!: bexI [of _ "(q, vs)"])
  then show ?thesis using switch_below_fabric [OF assms(1) _ assms(2-4)] by blast
qed

lemma unknown_below_fabric:
  assumes C: "consistentTopology L P N F" and n: "n \<in> set N" "n \<notin> placedNodes L P"
  shows "(fabricOf F n, unknownSwitchName (fabricOf F n)) \<in> topoEdges L P N F"
proof -
  let ?u = "unknownSwitchName (fabricOf F n)"
  have "n \<in> nodesOf L P N" using n by (simp add: nodesOf_def)
  then have "?u \<notin> nodesOf L P N" "?u \<notin> switchesOf L P"
    using consistent_names(3,5) [OF C] by blast+
  then have "?u \<notin> snd ` lowerEdges L P N F" using lower_child by fastforce
  moreover have "(fabricOf F n, ?u) \<in> topSwitches L P N F"
    using n unfolding topSwitches_def by blast
  ultimately show ?thesis by (simp add: topoEdges_def)
qed

lemma node_below_fabric:
  assumes C: "consistentTopology L P N F" and n: "n \<in> nodesOf L P N"
  shows "(fabricOf F n, n) \<in> (topoEdges L P N F)\<^sup>+"
proof (cases "n \<in> placedNodes L P")
  case True
  then obtain p ws where p: "(p, ws) \<in> usablePaths L P" "n \<in> set ws" by (auto simp: placedNodes_def)
  have "(fabricOf F n, p ! 0) \<in> (topoEdges L P N F)\<^sup>+"
    using p usablePaths_nonempty [OF p(1)] by (intro path_below_fabric [OF C p(1) _ p(2)]) simp
  then show ?thesis
    using lower_in_topo [OF worker_edge [OF p]] by (rule trancl.trancl_into_trancl)
next
  case False
  then have "n \<in> set N" using n by (simp add: nodesOf_def)
  then show ?thesis
    using unknown_below_fabric [OF C _ False] lower_in_topo [OF unplaced_edge [OF _ False]]
    by (meson r_into_trancl trancl.trancl_into_trancl)
qed

lemma topo_cases:
  assumes "(x, y) \<in> topoEdges L P N F"
  obtains (lower) "(x, y) \<in> lowerEdges L P N F"
  | (path) p ws w where "(p, ws) \<in> usablePaths L P" "w \<in> set ws" "x = fabricOf F w" "y = last p"
  | (unknown) n where "n \<in> set N" "n \<notin> placedNodes L P" "x = fabricOf F n" "y = unknownSwitchName (fabricOf F n)"
  using assms unfolding topoEdges_def by (auto elim: top_cases)

lemma last_path: "(p, ws) \<in> usablePaths L P \<Longrightarrow> last p = p ! (length p - 1) \<and> length p - 1 < length p"
  using usablePaths_nonempty(1) [of p ws L P] by (simp add: last_conv_nth)

lemma topo_child:
  "(x, y) \<in> topoEdges L P N F \<Longrightarrow> y \<in> nodesOf L P N \<or> y \<in> switchesOf L P
     \<or> (\<exists>n\<in>set N - placedNodes L P. y = unknownSwitchName (fabricOf F n))"
  by (erule topo_cases) (use lower_child last_path path_switch in fastforce)+

lemma fabric_no_parent:
  assumes C: "consistentTopology L P N F" and n: "n \<in> nodesOf L P N"
  shows "(x, fabricOf F n) \<notin> topoEdges L P N F"
proof
  assume "(x, fabricOf F n) \<in> topoEdges L P N F"
  then consider "fabricOf F n \<in> nodesOf L P N" | "fabricOf F n \<in> switchesOf L P"
    | m where "m \<in> nodesOf L P N" "fabricOf F n = unknownSwitchName (fabricOf F m)"
    using topo_child by (fastforce simp: nodesOf_def)
  then show False
    by cases (use consistent_names(2,4,6) [OF C] n in blast)+
qed

lemma child_below_fabric:
  assumes C: "consistentTopology L P N F" and y: "(x, y) \<in> topoEdges L P N F"
  obtains n where "n \<in> nodesOf L P N" "(fabricOf F n, y) \<in> (topoEdges L P N F)\<^sup>+"
proof -
  consider "y \<in> nodesOf L P N" | "y \<in> switchesOf L P"
    | n where "n \<in> set N" "n \<notin> placedNodes L P" "y = unknownSwitchName (fabricOf F n)"
    using topo_child [OF y] by blast
  then show thesis
  proof cases
    case 1
    then show ?thesis using node_below_fabric [OF C] that by blast
  next
    case 2
    then obtain p ws i where p: "(p, ws) \<in> usablePaths L P" "i < length p" "y = p ! i"
      by (auto simp: switchesOf_def in_set_conv_nth)
    obtain w where "w \<in> set ws" using usablePaths_nonempty(2) [OF p(1)] by (cases ws) auto
    then show ?thesis
      using that [of w] path_below_fabric [OF C p(1,2)] placed_node [OF p(1)] p(3) by (simp add: nodesOf_def)
  next
    case 3
    then show ?thesis
      using that [of n] unknown_below_fabric [OF C] by (auto simp: nodesOf_def)
  qed
qed

text \<open>In a relation with unique parents a vertex below a root is on no cycle and below no other root.\<close>

lemma below_root_acyclic:
  assumes uniq: "\<And>x y z. (x, y) \<in> E \<Longrightarrow> (z, y) \<in> E \<Longrightarrow> x = z" and root: "\<And>x. (x, r) \<notin> E"
  shows "(r, y) \<in> E\<^sup>+ \<Longrightarrow> (y, y) \<notin> E\<^sup>+"
proof (induction rule: trancl_induct)
  case (base y)
  show ?case
  proof
    assume "(y, y) \<in> E\<^sup>+"
    then obtain z where "(y, z) \<in> E\<^sup>*" "(z, y) \<in> E" by (meson tranclD2)
    with base uniq have "(y, r) \<in> E\<^sup>*" by blast
    moreover have "y \<noteq> r" using base root by blast
    ultimately show False using root by (meson rtranclE)
  qed
next
  case (step y z)
  show ?case
  proof
    assume "(z, z) \<in> E\<^sup>+"
    then obtain x where "(z, x) \<in> E\<^sup>*" "(x, z) \<in> E" by (meson tranclD2)
    with step.hyps(2) uniq have "(z, y) \<in> E\<^sup>*" by blast
    with step.hyps(2) have "(y, y) \<in> E\<^sup>+" by (rule rtrancl_into_trancl2)
    with step.IH show False ..
  qed
qed

lemma below_root_unique:
  assumes uniq: "\<And>x y z. (x, y) \<in> E \<Longrightarrow> (z, y) \<in> E \<Longrightarrow> x = z"
    and root: "\<And>x. (x, r) \<notin> E" and root': "\<And>x. (x, r') \<notin> E"
  shows "(r, y) \<in> E\<^sup>+ \<Longrightarrow> (r', y) \<in> E\<^sup>+ \<Longrightarrow> r = r'"
proof (induction rule: trancl_induct)
  case (base y)
  from base(2) obtain z where "(r', z) \<in> E\<^sup>*" "(z, y) \<in> E" by (meson tranclD2)
  with base(1) uniq have "(r', r) \<in> E\<^sup>*" by blast
  then show ?case using root by (metis rtranclE)
next
  case (step y z)
  from step.prems obtain x where "(r', x) \<in> E\<^sup>*" "(x, z) \<in> E" by (meson tranclD2)
  with step.hyps(2) uniq have "(r', y) \<in> E\<^sup>*" by blast
  then consider "r' = y" | "(r', y) \<in> E\<^sup>+" by (meson rtranclD)
  then show ?case
  proof cases
    case 1
    with step.hyps(1) root' show ?thesis by (meson tranclD2)
  qed (rule step.IH)
qed

lemma topo_acyclic:
  assumes C: "consistentTopology L P N F" shows "acyclic (topoEdges L P N F)"
  unfolding acyclic_def
proof
  fix y
  show "(y, y) \<notin> (topoEdges L P N F)\<^sup>+"
  proof
    assume cyc: "(y, y) \<in> (topoEdges L P N F)\<^sup>+"
    then obtain x where "(x, y) \<in> topoEdges L P N F" by (meson tranclD2)
    then obtain n where "n \<in> nodesOf L P N" "(fabricOf F n, y) \<in> (topoEdges L P N F)\<^sup>+"
      by (rule child_below_fabric [OF C])
    then have "(y, y) \<notin> (topoEdges L P N F)\<^sup>+"
      using topo_unique_parent [OF C] fabric_no_parent [OF C]
      by (intro below_root_acyclic [where r = "fabricOf F n"]) blast+
    with cyc show False by contradiction
  qed
qed

lemma topo_root_unique:
  assumes C: "consistentTopology L P N F" and n: "n \<in> nodesOf L P N"
    and r: "(r, n) \<in> (topoEdges L P N F)\<^sup>+" "r \<notin> snd ` topoEdges L P N F"
  shows "r = fabricOf F n"
proof (rule below_root_unique)
  show "(r, n) \<in> (topoEdges L P N F)\<^sup>+" by (rule r)
  show "(fabricOf F n, n) \<in> (topoEdges L P N F)\<^sup>+" by (rule node_below_fabric [OF C n])
  show "(x, r) \<notin> topoEdges L P N F" for x using r(2) by force
qed (use topo_unique_parent [OF C] fabric_no_parent [OF C n] in blast)+

text \<open>
  C3: for consistent labels the graph is a forest: no cycle, at most one parent for every vertex,
  and every Slurm node lies below the root of its own fabric and below no other root.
\<close>

theorem topologyGraph_forest:
  assumes "consistentTopology L P N F"
  shows "let E = edges (BuildTopologyGraph L P N F) in
    acyclic E \<and> single_valued (E\<inverse>)
    \<and> (\<forall>n\<in>nodesOf L P N. (fabricOf F n, n) \<in> E\<^sup>+ \<and> (\<forall>r. (r, n) \<in> E\<^sup>+ \<and> r \<notin> snd ` E \<longrightarrow> r = fabricOf F n))"
  unfolding Let_def edges_Build
proof (intro conjI ballI allI impI)
  show "acyclic (topoEdges L P N F)" by (rule topo_acyclic [OF assms])
  show "single_valued ((topoEdges L P N F)\<inverse>)"
    using topo_unique_parent [OF assms] by (auto simp: single_valued_def)
next
  fix n assume n: "n \<in> nodesOf L P N"
  show "(fabricOf F n, n) \<in> (topoEdges L P N F)\<^sup>+" by (rule node_below_fabric [OF assms n])
  fix r assume "(r, n) \<in> (topoEdges L P N F)\<^sup>+ \<and> r \<notin> snd ` topoEdges L P N F"
  then show "r = fabricOf F n" using topo_root_unique [OF assms n] by blast
qed

theorem topologyGraph_forest_witness:
  "let L = [(''n1'', [(''tier-1'', ''leaf1''), (''tier-2'', ''spine'')]), (''n2'', [(''tier-2'', ''spine''), (''tier-1'', ''leaf2'')])];
       P = [(''n1'', [''w1'']), (''n2'', [''w2''])]; N = [''w1'', ''w2'', ''w3'']; F = [(''w3'', ''fab'')];
       E = edges (BuildTopologyGraph L P N F)
   in consistentTopology L P N F \<and> acyclic E \<and> (''root'', ''w2'') \<in> E\<^sup>+ \<and> (''fab'', ''w3'') \<in> E\<^sup>+"
proof -
  let ?L = "[(''n1'', [(''tier-1'', ''leaf1''), (''tier-2'', ''spine'')]), (''n2'', [(''tier-2'', ''spine''), (''tier-1'', ''leaf2'')])]"
  let ?P = "[(''n1'', [''w1'']), (''n2'', [''w2''])]" and ?N = "[''w1'', ''w2'', ''w3'']" and ?F = "[(''w3'', ''fab'')]"
  have C: "consistentTopology ?L ?P ?N ?F" by code_simp
  moreover have "''w2'' \<in> nodesOf ?L ?P ?N" "''w3'' \<in> nodesOf ?L ?P ?N"
    "fabricOf ?F ''w2'' = ''root''" "fabricOf ?F ''w3'' = ''fab''"
    by code_simp+
  ultimately show ?thesis
    using topologyGraph_forest [OF C] unfolding Let_def by metis
qed

text \<open>Children are all nodes or all switches: a first switch or an unknown switch is above nodes only.\<close>

lemma node_parent:
  assumes C: "consistentTopology L P N F" and e: "(x, n) \<in> topoEdges L P N F" and n: "n \<in> nodesOf L P N"
  shows "(\<exists>p ws. (p, ws) \<in> usablePaths L P \<and> x = p ! 0) \<or> (\<exists>m\<in>set N. x = unknownSwitchName (fabricOf F m))"
  using e
proof (cases rule: topo_cases)
  case lower
  then show ?thesis
  proof (cases rule: lower_cases)
    case (tier p ws i)
    then show ?thesis using consistent_names(1) [OF C n] path_switch [OF tier(1), of i] by simp
  qed auto
next
  case (path p ws w)
  then show ?thesis using consistent_names(1) [OF C n] last_path [OF path(1)] path_switch [OF path(1)] by metis
next
  case (unknown m)
  then show ?thesis using consistent_names(3) [OF C n, of m] by (simp add: nodesOf_def)
qed

lemma inner_parent:
  assumes e: "(x, y) \<in> topoEdges L P N F" and y: "y \<notin> nodesOf L P N"
  shows "(\<exists>p ws i. (p, ws) \<in> usablePaths L P \<and> i + 1 < length p \<and> x = p ! (i + 1)) \<or> x \<in> fabricOf F ` nodesOf L P N"
  using e
proof (cases rule: topo_cases)
  case lower
  then show ?thesis
    using y by (cases rule: lower_cases) (auto simp: nodesOf_def dest: placed_node)
qed (use placed_node in \<open>auto simp: nodesOf_def\<close>)

lemma children_homogeneous:
  assumes C: "consistentTopology L P N F" and "(x, n) \<in> topoEdges L P N F" "n \<in> nodesOf L P N"
    and e: "(x, y) \<in> topoEdges L P N F"
  shows "y \<in> nodesOf L P N"
proof (rule ccontr)
  assume "y \<notin> nodesOf L P N"
  with e have inner: "(\<exists>p ws i. (p, ws) \<in> usablePaths L P \<and> i + 1 < length p \<and> x = p ! (i + 1)) \<or> x \<in> fabricOf F ` nodesOf L P N"
    by (rule inner_parent)
  consider p ws where "(p, ws) \<in> usablePaths L P" "x = p ! 0"
    | m where "m \<in> nodesOf L P N" "x = unknownSwitchName (fabricOf F m)"
    using node_parent [OF C assms(2,3)] unfolding nodesOf_def by blast
  then show False
  proof cases
    case 1
    have sw: "x \<in> switchesOf L P" "0 < length p"
      using 1 path_switch [OF 1(1), of 0] usablePaths_nonempty [OF 1(1)] by simp_all
    then obtain q vs i where "(q, vs) \<in> usablePaths L P" "i + 1 < length q" "x = q ! (i + 1)"
      using inner consistent_names(4) [OF C] by blast
    then show False
      using consistent_paths(1) [OF C 1(1)] 1(2) sw(2) unfolding tiersAgree_def by (metis add_is_0 zero_neq_one)
  next
    case 2
    then show False
      using inner consistent_names(5,6) [OF C] path_switch by (metis imageE)
  qed
qed

lemma switch_is_parent:
  assumes e: "(x, y) \<in> topoEdges L P N F" and y: "y \<notin> nodesOf L P N"
  shows "y \<in> fst ` topoEdges L P N F"
proof -
  have path: "p ! i \<in> fst ` topoEdges L P N F" if p: "(p, ws) \<in> usablePaths L P" "i < length p" for p ws i
  proof (cases i)
    case 0
    obtain w where "w \<in> set ws" using usablePaths_nonempty(2) [OF p(1)] by (cases ws) auto
    then show ?thesis
      using lower_in_topo [OF worker_edge [OF p(1)], of w N F] 0 by force
  next
    case (Suc j)
    then show ?thesis using lower_in_topo [OF tier_edge [OF p(1)], of j N F] p(2) by force
  qed
  consider "y \<in> switchesOf L P" | n where "n \<in> set N" "n \<notin> placedNodes L P" "y = unknownSwitchName (fabricOf F n)"
    using topo_child [OF e] y by blast
  then show ?thesis
  proof cases
    case 1
    then show ?thesis using path by (auto simp: switchesOf_def in_set_conv_nth)
  next
    case 2
    then show ?thesis using lower_in_topo [OF unplaced_edge [OF 2(1,2)], of F] by force
  qed
qed

lemma node_not_parent:
  assumes C: "consistentTopology L P N F" and n: "n \<in> nodesOf L P N"
  shows "n \<notin> fst ` topoEdges L P N F"
proof
  assume "n \<in> fst ` topoEdges L P N F"
  then obtain y where e: "(n, y) \<in> topoEdges L P N F" by auto
  have *: "n \<notin> switchesOf L P" "\<And>m. m \<in> nodesOf L P N \<Longrightarrow> n \<noteq> fabricOf F m"
    "\<And>m. m \<in> set N \<Longrightarrow> n \<noteq> unknownSwitchName (fabricOf F m)"
    using consistent_names(1-3) [OF C n] unfolding nodesOf_def by blast+
  show False
  proof (cases "y \<in> nodesOf L P N")
    case True
    then obtain p ws where "(p, ws) \<in> usablePaths L P" "n = p ! 0" using node_parent [OF C e] *(3) by blast
    then show False using *(1) path_switch usablePaths_nonempty(1) by (metis length_greater_0_conv)
  next
    case False
    then show False using inner_parent [OF e] *(1,2) path_switch by blast
  qed
qed

lemma topo_children_split:
  assumes C: "consistentTopology L P N F" and x: "x \<in> fst ` topoEdges L P N F"
  shows "if topoEdges L P N F `` {x} \<inter> fst ` topoEdges L P N F = {}
    then topoEdges L P N F `` {x} \<subseteq> nodesOf L P N else topoEdges L P N F `` {x} \<subseteq> fst ` topoEdges L P N F"
proof (cases "\<exists>n\<in>nodesOf L P N. (x, n) \<in> topoEdges L P N F")
  case True
  then have "topoEdges L P N F `` {x} \<subseteq> nodesOf L P N" using children_homogeneous [OF C] by blast
  then show ?thesis using node_not_parent [OF C] by auto
next
  case False
  then have "topoEdges L P N F `` {x} \<subseteq> fst ` topoEdges L P N F" using switch_is_parent by blast
  then show ?thesis using x by force
qed

lemma finite_topoEdges: "finite (topoEdges L P N F)"
  using finite_edges [of "BuildTopologyGraph L P N F"] wfGraph_Build [of L P N F]
  by (simp add: edges_Build wfGraph_def)

lemma Image_fst: "y \<in> E `` {x} \<Longrightarrow> x \<in> fst ` E"
  by force

lemma set_childrenOf: "finite E \<Longrightarrow> set (childrenOf E p) = E `` {p}"
  by (simp add: childrenOf_def finite_Image)

lemma set_hostlist_Merge: "es \<noteq> [] \<Longrightarrow> \<forall>e\<in>set es. plainName e \<Longrightarrow> set (hostlist (Merge es)) = set es"
proof -
  assume "es \<noteq> []" "\<forall>e\<in>set es. plainName e"
  then have "set_mset (mset (hostlist (Merge es))) = set_mset (mset_set (set es))" by (simp only: Merge_mset)
  then show ?thesis by simp
qed

text \<open>
  For consistent labels every line is self-contained: a switch above nodes gets a line that names
  Slurm nodes only, and a switch above switches gets a line whose pattern expands to its child
  switches, each of which has a line of its own.
\<close>

lemma topologyGraph_references:
  assumes "consistentTopology L P N F" "x \<in> fst ` topoEdges L P N F"
    and "\<forall>y \<in> topoEdges L P N F `` {x}. plainName (slurmSafeSwitchName y)"
  shows "let E = topoEdges L P N F; lines = graphConfigLines (BuildTopologyGraph L P N F);
             sw = (\<lambda>y. ''SwitchName='' @ slurmSafeSwitchName y)
    in (\<exists>ns. sw x @ '' Nodes='' @ strJoin '','' ns \<in> set lines \<and> set ns = E `` {x} \<and> set ns \<subseteq> nodesOf L P N)
     \<or> (\<exists>pat. sw x @ '' Switches='' @ pat \<in> set lines \<and> set (hostlist pat) = slurmSafeSwitchName ` (E `` {x})
          \<and> (\<forall>y \<in> E `` {x}. \<exists>line \<in> set lines. hasPrefix line (sw y @ '' '')))"
proof -
  let ?E = "topoEdges L P N F" and ?lines = "graphConfigLines (BuildTopologyGraph L P N F)"
  have lines: "set ?lines = switchLine ?E ` fst ` ?E"
    by (simp add: graphConfigLines_edges wfGraph_Build edges_Build finite_topoEdges)
  have kids: "set (childrenOf ?E x) = ?E `` {x}" by (rule set_childrenOf [OF finite_topoEdges])
  have own: "\<exists>line \<in> set ?lines. hasPrefix line (''SwitchName='' @ slurmSafeSwitchName y @ '' '')" if "y \<in> fst ` ?E" for y
    using that unfolding lines by (auto simp: switchLine_def hasPrefix_iff)
  have xline: "switchLine ?E x \<in> set ?lines" using assms(2) lines by blast
  show ?thesis
  proof (cases "?E `` {x} \<inter> fst ` ?E = {}")
    case True
    then have "?E `` {x} \<subseteq> nodesOf L P N" using topo_children_split [OF assms(1,2)] by simp
    then show ?thesis
      using True xline kids unfolding Let_def switchLine_def by (intro disjI1 exI [of _ "childrenOf ?E x"]) simp
  next
    case False
    let ?pat = "Merge (map slurmSafeSwitchName (childrenOf ?E x))"
    have "?E `` {x} \<subseteq> fst ` ?E" using False topo_children_split [OF assms(1,2)] by simp
    then have refs: "\<exists>line \<in> set ?lines. hasPrefix line ((''SwitchName='' @ slurmSafeSwitchName y) @ '' '')"
      if "y \<in> ?E `` {x}" for y
      using own [of y] that by auto
    have "(''SwitchName='' @ slurmSafeSwitchName x) @ '' Switches='' @ ?pat \<in> set ?lines"
      using False xline by (simp add: switchLine_def)
    moreover have "set (hostlist ?pat) = slurmSafeSwitchName ` (?E `` {x})"
      using assms(2,3) kids by (subst set_hostlist_Merge) auto
    ultimately show ?thesis unfolding Let_def using refs by blast
  qed
qed

lemma topologyGraph_references_witness:
  "let L = [(''n1'', [(''tier-1'', ''leaf1''), (''tier-2'', ''spine'')]), (''n2'', [(''tier-2'', ''spine''), (''tier-1'', ''leaf2'')])];
       P = [(''n1'', [''w1'']), (''n2'', [''w2''])]; N = [''w1'', ''w2'', ''w3'']; E = topoEdges L P N [];
       lines = graphConfigLines (BuildTopologyGraph L P N [])
   in E `` {''spine''} = {''leaf1'', ''leaf2''}
      \<and> (\<exists>pat. ''SwitchName=spine Switches='' @ pat \<in> set lines \<and> set (hostlist pat) = {''leaf1'', ''leaf2''})"
proof -
  let ?L = "[(''n1'', [(''tier-1'', ''leaf1''), (''tier-2'', ''spine'')]), (''n2'', [(''tier-2'', ''spine''), (''tier-1'', ''leaf2'')])]"
  let ?P = "[(''n1'', [''w1'']), (''n2'', [''w2''])]" and ?N = "[''w1'', ''w2'', ''w3'']"
  have C: "consistentTopology ?L ?P ?N []" by code_simp
  have kids: "topoEdges ?L ?P ?N [] `` {''spine''} = {''leaf1'', ''leaf2''}" by code_simp
  have nodes: "nodesOf ?L ?P ?N = {''w1'', ''w2'', ''w3''}" by code_simp
  have safe: "slurmSafeSwitchName ''leaf1'' = ''leaf1''" "slurmSafeSwitchName ''leaf2'' = ''leaf2''"
    "slurmSafeSwitchName ''spine'' = ''spine''" by code_simp+
  have "''spine'' \<in> fst ` topoEdges ?L ?P ?N []"
    by (rule Image_fst [where y = "''leaf1''"]) (simp only: kids insert_iff simp_thms)
  from topologyGraph_references [OF C this] show ?thesis
    unfolding Let_def kids safe nodes by (simp add: safe plainName_def) (elim disjE exE conjE, simp, blast)
qed

text \<open>
  C5: no Slurm node is left out: whatever the labels, every node name gets a parent switch, the first
  switch of a usable path that lists the node as a worker, or else the unknown switch of its fabric.
\<close>

theorem topologyGraph_complete:
  assumes "n \<in> set N"
  shows "\<exists>sw. (sw, n) \<in> edges (BuildTopologyGraph L P N F)
    \<and> (if n \<in> placedNodes L P then \<exists>path ws. (path, ws) \<in> usablePaths L P \<and> n \<in> set ws \<and> sw = path ! 0
       else sw = unknownSwitchName (fabricOf F n))"
proof (cases "n \<in> placedNodes L P")
  case True
  then obtain path ws where p: "(path, ws) \<in> usablePaths L P" "n \<in> set ws" by (auto simp: placedNodes_def)
  then have "(path ! 0, n) \<in> topoEdges L P N F" by (intro lower_in_topo worker_edge)
  with p True show ?thesis by (auto simp: edges_Build)
next
  case False
  then show ?thesis using lower_in_topo [OF unplaced_edge [OF assms False]] by (simp add: edges_Build)
qed

theorem topologyGraph_complete_witness:
  "\<exists>sw. (sw, ''w2'') \<in> edges (BuildTopologyGraph [(''n1'', [(''tier-1'', ''leaf'')]), (''n2'', [])]
     [(''n1'', [''w1'']), (''n2'', [''w2''])] [''w1'', ''w2''] [(''w2'', ''fab'')]) \<and> sw = ''fab.unknown''"
proof -
  have "''w2'' \<notin> placedNodes [(''n1'', [(''tier-1'', ''leaf'')]), (''n2'', [])] [(''n1'', [''w1'']), (''n2'', [''w2''])]"
    "unknownSwitchName (fabricOf [(''w2'', ''fab'')] ''w2'') = ''fab.unknown''"
    by code_simp+
  then show ?thesis
    using topologyGraph_complete [of "''w2''" "[''w1'', ''w2'']" "[(''n1'', [(''tier-1'', ''leaf'')]), (''n2'', [])]"
      "[(''n1'', [''w1'']), (''n2'', [''w2''])]" "[(''w2'', ''fab'')]"] by simp
qed

section \<open>Labels to paths\<close>

definition isTier :: "string \<Rightarrow> bool" where
  "isTier key \<longleftrightarrow> key \<noteq> ''tier-0'' \<and> hasPrefix key ''tier-''"

lemma tierKey_inj: "tierKey i = tierKey j \<longleftrightarrow> i = j"
proof -
  have "natToDigits i = natToDigits j \<Longrightarrow> i = j"
    using digitsVal_natToDigits [of i] digitsVal_natToDigits [of j] by simp
  then show ?thesis by (auto simp: tierKey_def itoa_def)
qed

lemma isTier_tierKey: "isTier (tierKey (Suc i))"
proof -
  have "tierKey (Suc i) \<noteq> tierKey 0" by (simp add: tierKey_inj)
  moreover have "tierKey 0 = ''tier-0''" by code_simp
  ultimately show ?thesis by (simp add: isTier_def tierKey_def hasPrefix_iff)
qed

lemma pathLoop_iff:
  "pathLoop labels is acc = Inr path \<longleftrightarrow>
     (\<forall>i\<in>set is. getStr labels (tierKey (i + 1)) \<noteq> []) \<and> path = acc @ map (\<lambda>i. getStr labels (tierKey (i + 1))) is"
  by (induction labels "is" acc rule: pathLoop.induct) (auto simp: Let_def)

lemma pathLoop_Inl:
  "pathLoop labels is acc = Inl e \<Longrightarrow> \<exists>i\<in>set is. e = MissingLabel (tierKey (i + 1)) \<and> getStr labels (tierKey (i + 1)) = []"
  by (induction labels "is" acc rule: pathLoop.induct) (auto simp: Let_def split: if_splits)

lemma getStr_entry: "wfMap m \<Longrightarrow> (k, v) \<in> set m \<Longrightarrow> getStr m k = v"
  by (simp add: getStr_def)

lemma getStr_nonempty: "getStr m k \<noteq> [] \<Longrightarrow> (k, getStr m k) \<in> set m"
  by (cases "map_of m k") (auto simp: getStr_def dest: map_of_SomeD)

lemma numOfTiers_card: "wfMap labels \<Longrightarrow> numOfTiers labels = card {kv \<in> set labels. isTier (fst kv)}"
proof -
  assume "wfMap labels"
  then have "distinct labels" by (rule distinct_map [THEN iffD1, THEN conjunct1])
  then have "card (set (filter (\<lambda>kv. isTier (fst kv)) labels)) = length (filter (\<lambda>kv. isTier (fst kv)) labels)"
    by (intro distinct_card) simp
  then show ?thesis by (simp add: numOfTiers_def isTier_def case_prod_unfold)
qed

lemma inj_tierPairs: "inj_on (\<lambda>i. (tierKey (Suc i), f i)) A"
  by (auto simp: inj_on_def tierKey_inj)

text \<open>
  C6: labelsToPath succeeds exactly on gap-free labels: the labels named after a tier above tier-0
  are tier-1 to tier-n for some n > 0, none of them empty, and the path lists them in that order.
\<close>

theorem labelsToPath_iff:
  assumes "wfMap labels"
  shows "labelsToPath labels = Inr path \<longleftrightarrow>
    path \<noteq> [] \<and> [] \<notin> set path
    \<and> {kv \<in> set labels. isTier (fst kv)} = (\<lambda>i. (tierKey (Suc i), path ! i)) ` {..< length path}"
    (is "?l = ?r")
proof
  let ?n = "numOfTiers labels" and ?T = "{kv \<in> set labels. isTier (fst kv)}"
  assume l: ?l
  then have n: "?n \<noteq> 0" and ne: "\<forall>i < ?n. getStr labels (tierKey (Suc i)) \<noteq> []"
    and path: "path = map (\<lambda>i. getStr labels (tierKey (Suc i))) [0 ..< ?n]"
    by (auto simp: labelsToPath_def pathLoop_iff split: if_splits)
  let ?I = "(\<lambda>i. (tierKey (Suc i), path ! i)) ` {..< length path}"
  have "?I \<subseteq> ?T" using ne path by (auto simp: isTier_tierKey getStr_nonempty)
  moreover have "card ?I = card ?T" using path by (simp add: card_image inj_tierPairs numOfTiers_card [OF assms])
  ultimately have "?T = ?I" using card_subset_eq [of ?T ?I] by simp
  then show ?r using n ne path by auto
next
  let ?T = "{kv \<in> set labels. isTier (fst kv)}"
  assume r: ?r
  then have n: "numOfTiers labels = length path"
    by (simp add: numOfTiers_card [OF assms] card_image inj_tierPairs)
  have get: "getStr labels (tierKey (Suc i)) = path ! i" if "i < length path" for i
  proof -
    have "(tierKey (Suc i), path ! i) \<in> ?T" using r that by auto
    then show ?thesis by (intro getStr_entry [OF assms]) simp
  qed
  have "path = map (\<lambda>i. getStr labels (tierKey (Suc i))) [0 ..< length path]"
    by (rule nth_equalityI) (simp_all add: get)
  moreover have "getStr labels (tierKey (Suc i)) \<noteq> []" if "i < length path" for i
    using r get [OF that] nth_mem [OF that] by metis
  ultimately show ?l using r by (simp add: labelsToPath_def n pathLoop_iff)
qed

theorem labelsToPath_iff_witness:
  "labelsToPath [(''tier-0'', ''nvl''), (''tier-2'', ''spine''), (''zone'', ''z''), (''tier-1'', ''leaf'')]
     = Inr [''leaf'', ''spine'']"
proof -
  have "{kv \<in> set [(''tier-0'', ''nvl''), (''tier-2'', ''spine''), (''zone'', ''z''), (''tier-1'', ''leaf'')]. isTier (fst kv)}
      = {(''tier-2'', ''spine''), (''tier-1'', ''leaf'')}"
    by code_simp
  moreover have "tierKey (Suc 0) = ''tier-1''" "tierKey (Suc 1) = ''tier-2''" by code_simp+
  moreover have "{..< length [''leaf'', ''spine'']} = {0, 1}" by auto
  ultimately show ?thesis by (subst labelsToPath_iff) auto
qed

section \<open>Switch names\<close>

definition trailingDigits :: "string \<Rightarrow> string" where
  "trailingDigits s = rev (takeWhile isDigitChar (rev s))"

lemma trailingLoop_count:
  "i \<le> length name \<Longrightarrow> trailingLoop name i k = k + length (takeWhile isDigitChar (rev (take i name)))"
  by (induction name i k rule: trailingLoop.induct) (simp_all add: take_Suc_conv_app_nth)

lemma trailingDigitCount_length: "trailingDigitCount s = length (trailingDigits s)"
  by (simp add: trailingDigitCount_def trailingLoop_count trailingDigits_def)

lemma digitsVal_bound: "list_all isDigitChar s \<Longrightarrow> digitsVal s < 10 ^ length s"
proof (induction s rule: rev_induct)
  case (snoc c s)
  then have "digitsVal s < 10 ^ length s" "digitVal c < 10" by (simp_all add: digitVal_less)
  then show ?case by simp
qed simp

lemma trailingDigits_safe: "length (trailingDigits (slurmSafeSwitchName s)) \<le> 18"
  by (simp add: slurmSafeSwitchName_def maxSafeTrailingDigits_def trailingDigitCount_length)
     (simp add: trailingDigits_def slurmNameTerminator_def isDigitChar_def)

text \<open>
  C7: the number at the end of a rendered switch name fits the 64-bit integer that Slurm reads it
  into, and a name that already fits is left alone.
\<close>

theorem slurmSafeSwitchName_fits:
  "digitsVal (trailingDigits (slurmSafeSwitchName s)) < 2 ^ 64
   \<and> (length (trailingDigits s) \<le> 18 \<longleftrightarrow> slurmSafeSwitchName s = s)"
proof
  let ?d = "trailingDigits (slurmSafeSwitchName s)"
  have "list_all isDigitChar ?d"
    by (auto simp: trailingDigits_def list_all_iff dest: set_takeWhileD)
  then have "digitsVal ?d < 10 ^ length ?d" by (rule digitsVal_bound)
  also have "\<dots> \<le> 10 ^ 18" using trailingDigits_safe [of s] by (intro power_increasing) simp_all
  also have "\<dots> < (2 ^ 64 :: nat)" by simp
  finally show "digitsVal ?d < 2 ^ 64" .
  show "length (trailingDigits s) \<le> 18 \<longleftrightarrow> slurmSafeSwitchName s = s"
    by (simp add: slurmSafeSwitchName_def maxSafeTrailingDigits_def trailingDigitCount_length slurmNameTerminator_def)
qed

text \<open>C8: two switch names that do not end in the terminator are rendered as different names.\<close>

theorem slurmSafeSwitchName_inj:
  assumes "\<not> hasSuffix a ''_''" "\<not> hasSuffix b ''_''" "slurmSafeSwitchName a = slurmSafeSwitchName b"
  shows "a = b"
  using assms
  by (auto simp: slurmSafeSwitchName_def slurmNameTerminator_def hasSuffix_def split: if_splits)

theorem slurmSafeSwitchName_inj_witness:
  "slurmSafeSwitchName ''leaf-1'' \<noteq> slurmSafeSwitchName ''leaf-1000000000000000001''"
proof
  assume "slurmSafeSwitchName ''leaf-1'' = slurmSafeSwitchName ''leaf-1000000000000000001''"
  then have "''leaf-1'' = ''leaf-1000000000000000001''"
    by (intro slurmSafeSwitchName_inj [of "''leaf-1''" "''leaf-1000000000000000001''"]) (code_simp, code_simp)
  then show False by simp
qed

end
