(* ===== verification/Topology_Blocks.thy ===== *)
theory Topology_Blocks
  imports Topology_Graph
begin

text \<open>
  The block topology of internal/controller/topologyconfcontroller/topology\_blocks.go. The
  properties: the lines are one per populated block, each naming exactly the workers of its block;
  every Slurm node is in a block; the result does not depend on the iteration order of the maps.
\<close>

section \<open>topology\_blocks.go\<close>

record topologyBlocks =
  blocks :: "(string, string list) gomap"

definition newTopologyBlocks :: topologyBlocks where
  "newTopologyBlocks = \<lparr>blocks = []\<rparr>"

definition AddNode :: "string \<Rightarrow> string \<Rightarrow> topologyBlocks \<Rightarrow> topologyBlocks" where
  "AddNode block worker b = b\<lparr>blocks := mapAppend block worker (blocks b)\<rparr>"

definition renderBlockLine :: "string \<times> string list \<Rightarrow> string option" where
  "renderBlockLine = (\<lambda>(blockName, workers).
     if workers = [] then None
     else Some (''BlockName='' @ slurmSafeSwitchName blockName @ '' Nodes='' @ Merge workers))"

definition blocksConfigLines :: "topologyBlocks \<Rightarrow> string list" where
  "blocksConfigLines b = (if blocks b = [] then [] else sort (List.map_filter renderBlockLine (blocks b)))"

text \<open>The variables of BuildTopologyBlocks that its loops update: the blocks and the placed workers.\<close>

definition placeInBlock ::
    "(string, string list) gomap \<Rightarrow> string \<times> nodeTopologyLabels
     \<Rightarrow> topologyBlocks \<times> string list \<Rightarrow> topologyBlocks \<times> string list" where
  "placeInBlock gpuPodsByNode = (\<lambda>(node, labels) st.
     let workers = getList gpuPodsByNode node in
     if workers = [] then st
     else case map_of labels ''tier-0'' of
         None \<Rightarrow> st
       | Some blockName \<Rightarrow>
           fold (\<lambda>worker (b, placed). (AddNode blockName worker b, setAdd worker placed)) workers st)"

definition placeInUnknown :: "(string, string) gomap \<Rightarrow> string list \<Rightarrow> string \<Rightarrow> topologyBlocks \<Rightarrow> topologyBlocks" where
  "placeInUnknown fabricByNode placed name b =
     (if name \<in> set placed then b
      else AddNode (unknownSwitchName (fabricOf fabricByNode name)) name b)"

definition BuildTopologyBlocks ::
    "(string, nodeTopologyLabels) gomap \<Rightarrow> (string, string list) gomap \<Rightarrow> string list
     \<Rightarrow> (string, string) gomap \<Rightarrow> topologyBlocks" where
  "BuildTopologyBlocks labelsByNode gpuPodsByNode allNodeNames fabricByNode =
     (let (b, placed) = fold (placeInBlock gpuPodsByNode) labelsByNode (newTopologyBlocks, [])
      in fold (placeInUnknown fabricByNode placed) allNodeNames b)"

section \<open>The members of the blocks\<close>

named_theorems blk \<open>the effect of the block operations on the members\<close>

text \<open>Blocks and workers as a relation, like the edges of a graph with the blocks as parents.\<close>

definition members :: "topologyBlocks \<Rightarrow> (string \<times> string) set" where
  "members b = edges \<lparr>children = blocks b\<rparr>"

lemma members_iff: "(k, w) \<in> members b \<longleftrightarrow> w \<in> set (getList (blocks b) k)"
  by (simp add: members_def edges_def)

lemma members_new [blk]: "members newTopologyBlocks = {}"
  by (auto simp: members_iff newTopologyBlocks_def)

lemma members_AddNode [blk]: "members (AddNode k w b) = insert (k, w) (members b)"
  by (auto simp: members_iff AddNode_def go_map split: if_splits)

lemma wf_AddNode: "wfMap (blocks b) \<Longrightarrow> wfMap (blocks (AddNode k w b))"
  by (simp add: AddNode_def)

lemma fold_AddNode:
  "fold (\<lambda>w (b, placed). (AddNode k w b, setAdd w placed)) ws (b, placed)
     = (fold (AddNode k) ws b, fold setAdd ws placed)"
  by (induction ws arbitrary: b placed) simp_all

lemma members_fold_AddNode: "members (fold (AddNode k) ws b) = members b \<union> {k} \<times> set ws"
  by (induction ws arbitrary: b) (auto simp: blk)

definition tier0Workers ::
    "(string, string list) gomap \<Rightarrow> string \<times> nodeTopologyLabels \<Rightarrow> (string \<times> string) set" where
  "tier0Workers P nl = (case map_of (snd nl) ''tier-0'' of None \<Rightarrow> {} | Some k \<Rightarrow> {k} \<times> set (getList P (fst nl)))"

definition absBlocks :: "topologyBlocks \<times> string list \<Rightarrow> (string \<times> string) set \<times> string set" where
  "absBlocks st = (members (fst st), set (snd st))"

lemma absBlocks_placeInBlock:
  "absBlocks (placeInBlock P nl st)
     = (fst (absBlocks st) \<union> tier0Workers P nl, snd (absBlocks st) \<union> snd ` tier0Workers P nl)"
proof -
  obtain node labels where nl: "nl = (node, labels)" by fastforce
  obtain b placed where st: "st = (b, placed)" by fastforce
  show ?thesis
    by (auto simp: nl st placeInBlock_def Let_def absBlocks_def tier0Workers_def fold_AddNode
        members_fold_AddNode set_fold_setAdd split: option.splits)
qed

text \<open>The loop over the labelled nodes may visit them in any order.\<close>

interpretation block_loop: range_loop "placeInBlock P" "\<lambda>s t. absBlocks s = absBlocks t" fst for P
  by unfold_locales (auto simp: absBlocks_placeInBlock)

lemma absBlocks_fold:
  "absBlocks (fold (placeInBlock P) L st)
     = (fst (absBlocks st) \<union> (\<Union>nl\<in>set L. tier0Workers P nl), snd (absBlocks st) \<union> (\<Union>nl\<in>set L. snd ` tier0Workers P nl))"
  by (induction L arbitrary: st) (auto simp: absBlocks_placeInBlock)

lemma members_fold_unknown:
  "members (fold (placeInUnknown F placed) N b)
     = members b \<union> (\<lambda>n. (unknownSwitchName (fabricOf F n), n)) ` (set N - set placed)"
  by (induction N arbitrary: b) (auto simp: placeInUnknown_def blk)

lemma wf_fold_placeInBlock: "wfMap (blocks (fst st)) \<Longrightarrow> wfMap (blocks (fst (fold (placeInBlock P) L st)))"
proof (rule fold_invariant_all)
  fix nl st assume wf: "wfMap (blocks (fst (st :: topologyBlocks \<times> string list)))"
  have "wfMap (blocks (fold (AddNode k) ws (fst st)))" for k ws
    using wf by (rule fold_invariant_all) (rule wf_AddNode)
  then show "wfMap (blocks (fst (placeInBlock P nl st)))"
    using wf by (cases st) (simp add: placeInBlock_def Let_def fold_AddNode split: prod.split option.split)
qed

section \<open>What BuildTopologyBlocks computes\<close>

definition topoMembers ::
    "(string, nodeTopologyLabels) gomap \<Rightarrow> (string, string list) gomap \<Rightarrow> string list
     \<Rightarrow> (string, string) gomap \<Rightarrow> (string \<times> string) set" where
  "topoMembers L P N F =
     (let real = \<Union>nl\<in>set L. tier0Workers P nl
      in real \<union> (\<lambda>n. (unknownSwitchName (fabricOf F n), n)) ` (set N - snd ` real))"

lemma members_Build: "members (BuildTopologyBlocks L P N F) = topoMembers L P N F"
proof -
  obtain b placed where st: "fold (placeInBlock P) L (newTopologyBlocks, []) = (b, placed)" by fastforce
  have "members b = (\<Union>nl\<in>set L. tier0Workers P nl)" "set placed = (\<Union>nl\<in>set L. snd ` tier0Workers P nl)"
    using absBlocks_fold [of P L "(newTopologyBlocks, [])"] by (simp_all add: st absBlocks_def members_new)
  then show ?thesis
    by (simp add: BuildTopologyBlocks_def st members_fold_unknown topoMembers_def Let_def image_UN)
qed

lemma wf_Build: "wfMap (blocks (BuildTopologyBlocks L P N F))"
proof -
  have "wfMap (blocks (fst (fold (placeInBlock P) L (newTopologyBlocks, []))))"
    by (rule wf_fold_placeInBlock) (simp add: newTopologyBlocks_def)
  then have "wfMap (blocks (fold (placeInUnknown F placed) N (fst (fold (placeInBlock P) L (newTopologyBlocks, [])))))" for placed
    by (rule fold_invariant_all) (simp add: placeInUnknown_def wf_AddNode)
  then show ?thesis by (simp add: BuildTopologyBlocks_def split_beta)
qed

definition blockLine :: "(string \<times> string) set \<Rightarrow> string \<Rightarrow> string" where
  "blockLine M k = ''BlockName='' @ slurmSafeSwitchName k @ '' Nodes='' @ Merge (sorted_list_of_set (M `` {k}))"

lemma blocksConfigLines_members:
  assumes wf: "wfMap (blocks b)"
  shows "blocksConfigLines b = sort (map (blockLine (members b)) (sorted_list_of_set (fst ` members b)))"
proof -
  let ?es = "filter (\<lambda>e. snd e \<noteq> []) (blocks b)"
  have line: "renderBlockLine (k, ws) = (if ws = [] then None else Some (blockLine (members b) k))"
    if "(k, ws) \<in> set (blocks b)" for k ws
  proof -
    have "members b `` {k} = set ws" using that wf by (auto simp: members_iff getList_entry)
    then have "Merge ws = Merge (sorted_list_of_set (members b `` {k}))" by (intro Merge_cong) simp
    then show ?thesis by (simp add: renderBlockLine_def blockLine_def)
  qed
  have "List.map_filter renderBlockLine es = map (blockLine (members b) \<circ> fst) (filter (\<lambda>e. snd e \<noteq> []) es)"
    if "set es \<subseteq> set (blocks b)" for es
    using that
  proof (induction es)
    case (Cons e es)
    then show ?case using line [of "fst e" "snd e"] by (simp add: map_filter_simps)
  qed (simp add: map_filter_simps)
  then have lines: "List.map_filter renderBlockLine (blocks b) = map (blockLine (members b)) (map fst ?es)"
    by simp
  have "fst ` members b = fst ` set ?es" using fst_edges [of "\<lparr>children = blocks b\<rparr>"] wf by (simp add: members_def)
  moreover have "distinct (map fst ?es)" using wf by (rule distinct_map_filter)
  ultimately have "mset (map fst ?es) = mset (sorted_list_of_set (fst ` members b))"
    using mset_set_set [of "map fst ?es"] mset_set_set [of "sorted_list_of_set (fst ` members b)"] by simp
  then have "sort (List.map_filter renderBlockLine (blocks b))
      = sort (map (blockLine (members b)) (sorted_list_of_set (fst ` members b)))"
    unfolding lines by (intro sort_perm) (simp only: mset_map)
  then show ?thesis
    by (cases "blocks b = []") (simp_all add: blocksConfigLines_def members_def edges_def)
qed

text \<open>
  The lines of the block topology are, sorted, one line for every populated block, and the
  populated blocks are the tier-0 labels of the nodes with GPU pods, holding the pods of those nodes,
  and the unknown block of each fabric, holding the node names that no such block holds.
\<close>

lemma topologyBlocks_lines:
  "blocksConfigLines (BuildTopologyBlocks L P N F) =
     (let M = topoMembers L P N F in sort (map (blockLine M) (sorted_list_of_set (fst ` M))))"
  by (simp add: blocksConfigLines_members wf_Build members_Build Let_def)

lemma tier0Workers_cong:
  "(\<And>k. set (getList P k) = set (getList P' k)) \<Longrightarrow> tier0Workers P nl = tier0Workers P' nl"
  by (simp add: tier0Workers_def split: option.split)

text \<open>The rendered block topology does not depend on the iteration order of its inputs.\<close>

lemma topologyBlocks_order_independent:
  assumes "set L = set L'" "\<And>k. set (getList P k) = set (getList P' k)" "set N = set N'"
    and "\<And>n. getStr F n = getStr F' n"
  shows "blocksConfigLines (BuildTopologyBlocks L P N F) = blocksConfigLines (BuildTopologyBlocks L' P' N' F')"
proof -
  have "topoMembers L P N F = topoMembers L' P' N' F'"
    using assms tier0Workers_cong [of P P'] by (simp add: topoMembers_def fabricOf_def)
  then show ?thesis by (simp add: blocksConfigLines_members wf_Build members_Build)
qed

lemma topologyBlocks_order_independent_witness:
  "blocksConfigLines (BuildTopologyBlocks
     [(''n1'', [(''tier-0'', ''b'')]), (''n2'', [(''tier-0'', ''c'')])] [(''n1'', [''w1'', ''w2''])] [''w1'', ''w3''] [])
   = blocksConfigLines (BuildTopologyBlocks
     [(''n2'', [(''tier-0'', ''c'')]), (''n1'', [(''tier-0'', ''b'')])] [(''n1'', [''w2'', ''w1''])] [''w3'', ''w1''] [])"
  by (rule topologyBlocks_order_independent) (auto simp: getList_def)

lemma finite_topoMembers: "finite (topoMembers L P N F)"
proof -
  have "finite (tier0Workers P nl)" for nl by (simp add: tier0Workers_def split: option.split)
  then show ?thesis by (simp add: topoMembers_def Let_def)
qed



end
