(* ===== verification/Go_Action.thy ===== *)
theory Go_Action
  imports Go_Maps
begin

text \<open>
  Go functions that return an error and act on the world: the cluster behind the Kubernetes client,
  the file system, the Slurm controller. A call takes the state of the world and returns the error or
  the value together with the new state. \<open>bindA\<close> is the sequence of a call and the code after
  \<open>if err != nil { return err }\<close>, \<open>wrapA\<close> the wrapping of the error by \<open>fmt.Errorf\<close> with \<open>%w\<close>,
  \<open>tryA\<close> a call whose error the code inspects.
\<close>

section \<open>Errors\<close>

text \<open>The reasons that \<open>apierrors.IsNotFound\<close> and its siblings tell apart.\<close>

datatype apiReason = ReasonNotFound | ReasonAlreadyExists | ReasonConflict | ReasonOther

text \<open>The error numbers of the operating system that the code tells apart.\<close>

datatype errno = ENOENT | EEXIST | EINVAL | ENOTSUP | ENOSYS | EOTHER

text \<open>
  Formatted errors keep the format string and its arguments. \<open>JoinErr\<close> is errors.Join of two errors; the
  join of more is nested. A panic is not an error value, and neither
  is \<open>NoReturn\<close>, which stands for a loop that has not ended when the fuel of its model is used up: both
  pass through the code that inspects or wraps errors.
\<close>

datatype goError =
    ApiError apiReason
  | OsError errno
  | DeadlineExceeded
  | Errorf string "string list"
  | Wrapf string "string list" goError
  | JoinErr goError goError
  | GoPanic string
  | NoReturn

fun reasonOf :: "goError \<Rightarrow> apiReason option" where
  "reasonOf (ApiError r) = Some r"
| "reasonOf (OsError n) = None"
| "reasonOf DeadlineExceeded = None"
| "reasonOf (Errorf f as) = None"
| "reasonOf (Wrapf f as e) = reasonOf e"
| "reasonOf (JoinErr e e') = (case reasonOf e of Some r \<Rightarrow> Some r | None \<Rightarrow> reasonOf e')"
| "reasonOf (GoPanic m) = None"
| "reasonOf NoReturn = None"

definition IsNotFound :: "goError \<Rightarrow> bool" where
  "IsNotFound e \<longleftrightarrow> reasonOf e = Some ReasonNotFound"

definition IsAlreadyExists :: "goError \<Rightarrow> bool" where
  "IsAlreadyExists e \<longleftrightarrow> reasonOf e = Some ReasonAlreadyExists"

definition IsConflict :: "goError \<Rightarrow> bool" where
  "IsConflict e \<longleftrightarrow> reasonOf e = Some ReasonConflict"

text \<open>errors.Is: the target occurs in the error or in what it wraps.\<close>

fun errorsIs :: "goError \<Rightarrow> goError \<Rightarrow> bool" where
  "errorsIs (Wrapf f as e) t = errorsIs e t"
| "errorsIs (JoinErr e e') t = (errorsIs e t \<or> errorsIs e' t)"
| "errorsIs (ApiError r) t = (ApiError r = t)"
| "errorsIs (OsError n) t = (OsError n = t)"
| "errorsIs DeadlineExceeded t = (DeadlineExceeded = t)"
| "errorsIs (Errorf f as) t = (Errorf f as = t)"
| "errorsIs (GoPanic m) t = False"
| "errorsIs NoReturn t = False"

text \<open>errors.Join drops the nil errors, and is nil if all are.\<close>

fun joinErrs :: "goError list \<Rightarrow> goError option" where
  "joinErrs [] = None"
| "joinErrs (e # es) = Some (case joinErrs es of None \<Rightarrow> e | Some e' \<Rightarrow> JoinErr e e')"

definition isPanic :: "goError \<Rightarrow> bool" where
  "isPanic e = (case e of GoPanic m \<Rightarrow> True | NoReturn \<Rightarrow> True | _ \<Rightarrow> False)"

definition wrapErr :: "string \<Rightarrow> string list \<Rightarrow> goError \<Rightarrow> goError" where
  "wrapErr f as e = (if isPanic e then e else Wrapf f as e)"

section \<open>Calls\<close>

type_synonym ('w, 'a) action = "'w \<Rightarrow> (goError + 'a) \<times> 'w"

named_theorems act \<open>evaluation of calls\<close>

definition ret :: "'a \<Rightarrow> ('w, 'a) action" where
  "ret a = (\<lambda>w. (Inr a, w))"

definition raise :: "goError \<Rightarrow> ('w, 'a) action" where
  "raise e = (\<lambda>w. (Inl e, w))"

definition bindA :: "('w, 'a) action \<Rightarrow> ('a \<Rightarrow> ('w, 'b) action) \<Rightarrow> ('w, 'b) action" where
  "bindA m k = (\<lambda>w. case m w of (Inl e, w') \<Rightarrow> (Inl e, w') | (Inr a, w') \<Rightarrow> k a w')"

definition wrapA :: "string \<Rightarrow> string list \<Rightarrow> ('w, 'a) action \<Rightarrow> ('w, 'a) action" where
  "wrapA f as m = (\<lambda>w. case m w of (Inl e, w') \<Rightarrow> (Inl (wrapErr f as e), w') | (Inr a, w') \<Rightarrow> (Inr a, w'))"

definition tryA :: "('w, 'a) action \<Rightarrow> (goError + 'a \<Rightarrow> ('w, 'b) action) \<Rightarrow> ('w, 'b) action" where
  "tryA m k = (\<lambda>w. case m w of
     (Inl e, w') \<Rightarrow> (if isPanic e then (Inl e, w') else k (Inl e) w')
   | (Inr a, w') \<Rightarrow> k (Inr a) w')"

definition liftA :: "goError + 'a \<Rightarrow> ('w, 'a) action" where
  "liftA r = (\<lambda>w. (r, w))"

text \<open>A loop over a slice whose body may return from the function with an error.\<close>

fun forA :: "('e \<Rightarrow> 's \<Rightarrow> ('w, 's) action) \<Rightarrow> 'e list \<Rightarrow> 's \<Rightarrow> ('w, 's) action" where
  "forA f [] s = ret s"
| "forA f (x # xs) s = bindA (f x s) (forA f xs)"

lemma ret_apply [act, simp]: "ret a w = (Inr a, w)"
  by (simp add: ret_def)

lemma raise_apply [act, simp]: "raise e w = (Inl e, w)"
  by (simp add: raise_def)

lemma liftA_apply [act, simp]: "liftA r w = (r, w)"
  by (simp add: liftA_def)

lemma bindA_Inr [act]: "m w = (Inr a, w') \<Longrightarrow> bindA m k w = k a w'"
  by (simp add: bindA_def)

lemma bindA_Inl [act]: "m w = (Inl e, w') \<Longrightarrow> bindA m k w = (Inl e, w')"
  by (simp add: bindA_def)

lemma wrapA_Inr [act]: "m w = (Inr a, w') \<Longrightarrow> wrapA f as m w = (Inr a, w')"
  by (simp add: wrapA_def)

lemma wrapA_Inl [act]: "m w = (Inl e, w') \<Longrightarrow> wrapA f as m w = (Inl (wrapErr f as e), w')"
  by (simp add: wrapA_def)

lemma tryA_Inr [act]: "m w = (Inr a, w') \<Longrightarrow> tryA m k w = k (Inr a) w'"
  by (simp add: tryA_def)

lemma tryA_Inl [act]: "m w = (Inl e, w') \<Longrightarrow> \<not> isPanic e \<Longrightarrow> tryA m k w = k (Inl e) w'"
  by (simp add: tryA_def)

lemma reasonOf_wrapErr [simp]: "reasonOf (wrapErr f as e) = reasonOf e"
  by (simp add: wrapErr_def)

lemma isPanic_wrapErr [simp]: "isPanic (wrapErr f as e) = isPanic e"
  by (simp add: wrapErr_def isPanic_def)

lemma reason_not_panic: "reasonOf e = Some r \<Longrightarrow> \<not> isPanic e"
  by (cases e) (auto simp: isPanic_def)

text \<open>The calls that succeed, by their last step.\<close>

lemma bindA_success: "bindA m k w = (Inr b, w'') \<longleftrightarrow> (\<exists>a w'. m w = (Inr a, w') \<and> k a w' = (Inr b, w''))"
  by (auto simp: bindA_def split: prod.splits sum.splits)

lemma wrapA_success: "wrapA f as m w = (Inr a, w') \<longleftrightarrow> m w = (Inr a, w')"
  by (auto simp: wrapA_def split: prod.splits sum.splits)

lemma tryA_success:
  "tryA m k w = (Inr b, w'') \<longleftrightarrow> (\<exists>r w'. m w = (r, w') \<and> (\<forall>e. r = Inl e \<longrightarrow> \<not> isPanic e) \<and> k r w' = (Inr b, w''))"
  by (cases "m w"; cases "fst (m w)") (auto simp: tryA_def)

lemma forA_append: "forA f (xs @ ys) s = bindA (forA f xs s) (forA f ys)"
proof (induction xs arbitrary: s)
  case (Cons x xs)
  then show ?case by (auto simp: bindA_def fun_eq_iff split: prod.splits sum.splits)
qed (simp add: bindA_def fun_eq_iff)

text \<open>A loop keeps what its body keeps.\<close>

lemma forA_invariant:
  assumes "forA f xs s w = (Inr s', w')" "I s w"
    and "\<And>x s w s' w'. x \<in> set xs \<Longrightarrow> I s w \<Longrightarrow> f x s w = (Inr s', w') \<Longrightarrow> I s' w'"
  shows "I s' w'"
  using assms
proof (induction xs arbitrary: s w)
  case (Cons x xs)
  from Cons.prems(1) obtain t v where t: "f x s w = (Inr t, v)" "forA f xs t v = (Inr s', w')"
    by (auto simp: bindA_success)
  have "I t v" using Cons.prems(2,3) t(1) by (meson list.set_intros(1))
  with t(2) show ?case by (rule Cons.IH) (meson Cons.prems(3) list.set_intros(2))
qed simp

section \<open>Calls that leave the world alone\<close>

definition keepsWorld :: "('w, 'a) action \<Rightarrow> bool" where
  "keepsWorld m \<longleftrightarrow> (\<forall>w. snd (m w) = w)"

named_theorems keeps \<open>calls that leave the world alone\<close>

lemma keepsWorldD: "keepsWorld m \<Longrightarrow> m w = (r, w') \<Longrightarrow> w' = w"
  unfolding keepsWorld_def by (metis snd_conv)

lemma keepsWorld_basic [keeps, simp]: "keepsWorld (ret a)" "keepsWorld (raise e)" "keepsWorld (liftA r)"
  by (simp_all add: keepsWorld_def)

lemma keepsWorld_bindA [keeps]: "keepsWorld m \<Longrightarrow> (\<And>a. keepsWorld (k a)) \<Longrightarrow> keepsWorld (bindA m k)"
  by (auto simp: keepsWorld_def bindA_def split: prod.splits sum.splits) (metis snd_conv)+

lemma keepsWorld_wrapA [keeps]: "keepsWorld m \<Longrightarrow> keepsWorld (wrapA f as m)"
  by (auto simp: keepsWorld_def wrapA_def split: prod.splits sum.splits) (metis snd_conv)+

lemma keepsWorld_tryA [keeps]: "keepsWorld m \<Longrightarrow> (\<And>r. keepsWorld (k r)) \<Longrightarrow> keepsWorld (tryA m k)"
  by (auto simp: keepsWorld_def tryA_def split: prod.splits sum.splits) (metis snd_conv)+

lemma keepsWorld_forA [keeps]: "(\<And>x s. keepsWorld (f x s)) \<Longrightarrow> keepsWorld (forA f xs s)"
  by (induction xs arbitrary: s) (auto intro: keepsWorld_bindA)

section \<open>Calls that leave a part of the world alone\<close>

definition keepsView :: "('w \<Rightarrow> 'v) \<Rightarrow> ('w, 'a) action \<Rightarrow> bool" where
  "keepsView f m \<longleftrightarrow> (\<forall>w. f (snd (m w)) = f w)"

named_theorems keepsView \<open>calls that leave a part of the world alone\<close>

lemma keepsViewD: "keepsView f m \<Longrightarrow> m w = (r, w') \<Longrightarrow> f w' = f w"
  unfolding keepsView_def by (metis snd_conv)

lemma keepsView_basic [keepsView]: "keepsView f (ret a)" "keepsView f (raise e)" "keepsView f (liftA r)"
  by (simp_all add: keepsView_def)

lemma keepsView_bindA [keepsView]: "keepsView f m \<Longrightarrow> (\<And>a. keepsView f (k a)) \<Longrightarrow> keepsView f (bindA m k)"
  unfolding keepsView_def bindA_def by (auto split: prod.splits sum.splits) (metis snd_conv)+

lemma keepsView_forA [keepsView]: "(\<And>x s. keepsView f (g x s)) \<Longrightarrow> keepsView f (forA g xs s)"
  by (induction xs arbitrary: s) (auto intro: keepsView_bindA keepsView_basic)

lemma keepsView_wrapA [keepsView]: "keepsView f m \<Longrightarrow> keepsView f (wrapA g as m)"
  unfolding keepsView_def wrapA_def by (auto split: prod.splits sum.splits) (metis snd_conv)+

lemma keepsView_tryA [keepsView]: "keepsView f m \<Longrightarrow> (\<And>r. keepsView f (k r)) \<Longrightarrow> keepsView f (tryA m k)"
  unfolding keepsView_def tryA_def by (auto split: prod.splits sum.splits) (metis snd_conv)+

text \<open>A call on a world paired with a local variable.\<close>

definition withLocal :: "('w, 'a) action \<Rightarrow> ('w \<times> 'l, 'a) action" where
  "withLocal m = (\<lambda>(w, l). case m w of (r, w') \<Rightarrow> (r, (w', l)))"

lemma keepsView_withLocal: "keepsView f m \<Longrightarrow> keepsView (\<lambda>p. f (fst p)) (withLocal m)"
  unfolding keepsView_def withLocal_def by (auto split: prod.splits) (metis snd_conv)

section \<open>Calls that succeed\<close>

definition succeeds :: "('w, 'a) action \<Rightarrow> bool" where
  "succeeds m \<longleftrightarrow> (\<forall>w. \<exists>a w'. m w = (Inr a, w'))"

lemma succeedsE: "succeeds m \<Longrightarrow> (\<And>a w'. m w = (Inr a, w') \<Longrightarrow> thesis) \<Longrightarrow> thesis"
  unfolding succeeds_def by blast

lemma succeeds_ret: "succeeds (ret a)"
  by (simp add: succeeds_def ret_def)

lemma succeeds_bindA:
  assumes "succeeds m" "\<And>a. succeeds (k a)"
  shows "succeeds (bindA m k)"
  unfolding succeeds_def
proof
  fix w
  obtain a w1 where "m w = (Inr a, w1)" using assms(1) by (rule succeedsE)
  moreover obtain b w2 where "k a w1 = (Inr b, w2)" using assms(2) by (rule succeedsE)
  ultimately show "\<exists>b w'. bindA m k w = (Inr b, w')" by (simp add: bindA_def)
qed

lemma succeeds_wrapA: "succeeds m \<Longrightarrow> succeeds (wrapA f as m)"
  unfolding succeeds_def wrapA_def by (metis (no_types, lifting) prod.case sum.case(2))

lemmas succeeds_compose = succeeds_ret succeeds_bindA succeeds_wrapA

section \<open>Calls that keep a property of the world\<close>

definition keepsInv :: "('w \<Rightarrow> bool) \<Rightarrow> ('w, 'a) action \<Rightarrow> bool" where
  "keepsInv I m \<longleftrightarrow> (\<forall>w. I w \<longrightarrow> I (snd (m w)))"

named_theorems keepsInv \<open>calls that keep a property of the world\<close>

lemma keepsInvD: "keepsInv I m \<Longrightarrow> m w = (r, w') \<Longrightarrow> I w \<Longrightarrow> I w'"
  unfolding keepsInv_def by (metis snd_conv)

lemma keepsInv_basic [keepsInv]: "keepsInv I (ret a)" "keepsInv I (raise e)" "keepsInv I (liftA r)"
  by (simp_all add: keepsInv_def)

lemma keepsInv_bindA [keepsInv]: "keepsInv I m \<Longrightarrow> (\<And>a. keepsInv I (k a)) \<Longrightarrow> keepsInv I (bindA m k)"
  unfolding keepsInv_def bindA_def by (auto split: prod.splits sum.splits)

lemma keepsInv_wrapA [keepsInv]: "keepsInv I m \<Longrightarrow> keepsInv I (wrapA f as m)"
  unfolding keepsInv_def wrapA_def by (auto split: prod.splits sum.splits)

lemma keepsInv_tryA [keepsInv]: "keepsInv I m \<Longrightarrow> (\<And>r. keepsInv I (k r)) \<Longrightarrow> keepsInv I (tryA m k)"
  unfolding keepsInv_def tryA_def by (auto split: prod.splits sum.splits)

lemma keepsInv_forA [keepsInv]: "(\<And>x s. keepsInv I (g x s)) \<Longrightarrow> keepsInv I (forA g xs s)"
  by (induction xs arbitrary: s) (auto intro: keepsInv_bindA keepsInv_basic)

end
