(* ===== verification/Kube_Client.thy ===== *)
theory Kube_Client
  imports Go_Action
begin

text \<open>
  The Kubernetes client that the controllers call (controller-runtime, client-go) is not part of the
  repository: it is a parameter of the model, a record of calls for each kind of object. What the
  code relies on is the predicate \<open>lawfulClient\<close>: a read that succeeds returns the stored object and
  changes nothing, NotFound is answered for absent objects only, a write that succeeds stores its
  object and nothing else, and a write that fails leaves the cluster as it was.

  The theory also holds the object metadata and the helpers of internal/utils/resourcegetter that
  several controllers share.
\<close>

section \<open>Objects\<close>

type_synonym labels = "(string, string) gomap"

text \<open>Namespace and name.\<close>

type_synonym objectKey = "string \<times> string"

record objectMeta =
  om_name :: string
  om_namespace :: string
  om_labels :: labels
  om_annotations :: labels

definition metaKey :: "objectMeta \<Rightarrow> objectKey" where
  "metaKey m = (om_namespace m, om_name m)"

definition newMeta :: "string \<Rightarrow> string \<Rightarrow> objectMeta" where
  "newMeta ns name = \<lparr>om_name = name, om_namespace = ns, om_labels = [], om_annotations = []\<rparr>"

section \<open>The client\<close>

record ('w, 'o) kindClient =
  cGet :: "objectKey \<Rightarrow> ('w, 'o) action"
  cList :: "string \<Rightarrow> labels \<Rightarrow> ('w, 'o list) action"
  cCreate :: "'o \<Rightarrow> ('w, unit) action"
  cUpdate :: "'o \<Rightarrow> ('w, unit) action"
  cDelete :: "'o \<Rightarrow> ('w, unit) action"

text \<open>
  \<open>key\<close> gives the identity of an object, \<open>objs\<close> the objects of the kind in a state of the world and
  \<open>rest\<close> whatever else of the world the calls must leave alone.
\<close>

definition lawfulGet :: "('w, 'o) kindClient \<Rightarrow> ('o \<Rightarrow> objectKey) \<Rightarrow> ('w \<Rightarrow> objectKey \<Rightarrow> 'o option) \<Rightarrow> bool" where
  "lawfulGet c key objs \<longleftrightarrow> (\<forall>k w.
     case cGet c k w of
       (Inr x, w') \<Rightarrow> w' = w \<and> objs w k = Some x \<and> key x = k
     | (Inl e, w') \<Rightarrow> w' = w \<and> \<not> isPanic e \<and> (IsNotFound e \<longrightarrow> objs w k = None))"

text \<open>Reads that leave the world alone and do not panic, whatever they answer.\<close>

definition readOnly :: "('w, 'o) kindClient \<Rightarrow> bool" where
  "readOnly c \<longleftrightarrow> (\<forall>k w. snd (cGet c k w) = w \<and> (\<forall>e. fst (cGet c k w) = Inl e \<longrightarrow> \<not> isPanic e))
     \<and> (\<forall>ns sel w. snd (cList c ns sel w) = w \<and> (\<forall>e. fst (cList c ns sel w) = Inl e \<longrightarrow> \<not> isPanic e))"

definition lawfulWrite ::
    "('w, 'o) kindClient \<Rightarrow> ('o \<Rightarrow> objectKey) \<Rightarrow> ('w \<Rightarrow> objectKey \<Rightarrow> 'o option) \<Rightarrow> ('w \<Rightarrow> 'r) \<Rightarrow> bool" where
  "lawfulWrite c key objs rest \<longleftrightarrow> (\<forall>x w.
     (case cCreate c x w of
        (Inr _, w') \<Rightarrow> objs w (key x) = None \<and> objs w' = (objs w)(key x \<mapsto> x) \<and> rest w' = rest w
      | (Inl e, w') \<Rightarrow> w' = w \<and> \<not> isPanic e \<and> (IsAlreadyExists e \<longrightarrow> objs w (key x) \<noteq> None))
   \<and> (case cUpdate c x w of
        (Inr _, w') \<Rightarrow> objs w (key x) \<noteq> None \<and> objs w' = (objs w)(key x \<mapsto> x) \<and> rest w' = rest w
      | (Inl e, w') \<Rightarrow> w' = w \<and> \<not> isPanic e)
   \<and> (case cDelete c x w of
        (Inr _, w') \<Rightarrow> objs w' = (objs w)(key x := None) \<and> rest w' = rest w
      | (Inl e, w') \<Rightarrow> w' = w \<and> \<not> isPanic e))"

lemma lawful_get_Inr:
  "lawfulGet c key objs \<Longrightarrow> cGet c k w = (Inr x, w') \<Longrightarrow> w' = w \<and> objs w k = Some x \<and> key x = k"
  unfolding lawfulGet_def by (drule spec [of _ k], drule spec [of _ w]) simp

lemma lawful_get_Inl:
  "lawfulGet c key objs \<Longrightarrow> cGet c k w = (Inl e, w') \<Longrightarrow> w' = w \<and> \<not> isPanic e \<and> (IsNotFound e \<longrightarrow> objs w k = None)"
  unfolding lawfulGet_def by (drule spec [of _ k], drule spec [of _ w]) simp

lemma lawful_create_Inr:
  "lawfulWrite c key objs rest \<Longrightarrow> cCreate c x w = (Inr u, w')
   \<Longrightarrow> objs w (key x) = None \<and> objs w' = (objs w)(key x \<mapsto> x) \<and> rest w' = rest w"
  unfolding lawfulWrite_def by (drule spec [of _ x], drule spec [of _ w]) simp

lemma lawful_create_Inl:
  "lawfulWrite c key objs rest \<Longrightarrow> cCreate c x w = (Inl e, w')
   \<Longrightarrow> w' = w \<and> \<not> isPanic e \<and> (IsAlreadyExists e \<longrightarrow> objs w (key x) \<noteq> None)"
  unfolding lawfulWrite_def by (drule spec [of _ x], drule spec [of _ w]) simp

lemma lawful_update_Inr:
  "lawfulWrite c key objs rest \<Longrightarrow> cUpdate c x w = (Inr u, w')
   \<Longrightarrow> objs w (key x) \<noteq> None \<and> objs w' = (objs w)(key x \<mapsto> x) \<and> rest w' = rest w"
  unfolding lawfulWrite_def by (drule spec [of _ x], drule spec [of _ w]) simp

lemma lawful_update_Inl:
  "lawfulWrite c key objs rest \<Longrightarrow> cUpdate c x w = (Inl e, w') \<Longrightarrow> w' = w \<and> \<not> isPanic e"
  unfolding lawfulWrite_def by (drule spec [of _ x], drule spec [of _ w]) simp

section \<open>An API server in memory\<close>

text \<open>
  A client that satisfies the laws, over a list of objects with distinct keys: the concrete instance on
  which the properties about controllers are evaluated. \<open>view\<close> and \<open>put\<close> are the part of the world that
  holds the objects of the kind.
\<close>

definition memFind :: "('o \<Rightarrow> objectKey) \<Rightarrow> 'o list \<Rightarrow> objectKey \<Rightarrow> 'o option" where
  "memFind key xs k = find (\<lambda>x. key x = k) xs"

definition memClient ::
    "('w \<Rightarrow> 'o list) \<Rightarrow> ('o list \<Rightarrow> 'w \<Rightarrow> 'w) \<Rightarrow> ('o \<Rightarrow> objectKey) \<Rightarrow> ('o \<Rightarrow> labels) \<Rightarrow> ('w, 'o) kindClient" where
  "memClient view put key lab = \<lparr>
     cGet = (\<lambda>k w. case memFind key (view w) k of None \<Rightarrow> (Inl (ApiError ReasonNotFound), w) | Some x \<Rightarrow> (Inr x, w)),
     cList = (\<lambda>ns sel w.
       (Inr (filter (\<lambda>x. (ns = [] \<or> fst (key x) = ns) \<and> list_all (\<lambda>(k, v). map_of (lab x) k = Some v) sel) (view w)), w)),
     cCreate = (\<lambda>x w. if memFind key (view w) (key x) \<noteq> None then (Inl (ApiError ReasonAlreadyExists), w)
                else (Inr (), put (x # view w) w)),
     cUpdate = (\<lambda>x w. if memFind key (view w) (key x) = None then (Inl (ApiError ReasonNotFound), w)
                else (Inr (), put (x # filter (\<lambda>y. key y \<noteq> key x) (view w)) w)),
     cDelete = (\<lambda>x w. if memFind key (view w) (key x) = None then (Inl (ApiError ReasonNotFound), w)
                else (Inr (), put (filter (\<lambda>y. key y \<noteq> key x) (view w)) w))\<rparr>"

lemma memFind_key: "memFind key xs k = Some x \<Longrightarrow> key x = k"
  by (auto simp: memFind_def find_Some_iff)

lemma memFind_filter: "memFind key (filter (\<lambda>y. key y \<noteq> k) xs) = (memFind key xs)(k := None)"
proof
  fix k'
  show "memFind key (filter (\<lambda>y. key y \<noteq> k) xs) k' = ((memFind key xs)(k := None)) k'"
    unfolding memFind_def by (induction xs) auto
qed

lemma memFind_Cons: "memFind key (x # xs) = (memFind key xs)(key x \<mapsto> x)"
  by (auto simp: memFind_def)

lemma memClient_lawfulGet: "lawfulGet (memClient view put key lab) key (\<lambda>w. memFind key (view w))"
  by (auto simp: lawfulGet_def memClient_def IsNotFound_def isPanic_def memFind_key split: option.splits)

lemma memClient_readOnly: "readOnly (memClient view put key lab)"
  by (auto simp: readOnly_def memClient_def isPanic_def split: option.splits)

lemma memClient_lawfulWrite:
  assumes "\<And>m w. view (put m w) = m" "\<And>m w. rest (put m w) = rest w"
  shows "lawfulWrite (memClient view put key lab) key (\<lambda>w. memFind key (view w)) rest"
  using assms
  by (auto simp: lawfulWrite_def memClient_def isPanic_def IsAlreadyExists_def memFind_Cons memFind_filter)

section \<open>Idioms\<close>

text \<open>A get whose NotFound error the code takes for the absence of the object.\<close>

definition getOptional :: "('w, 'o) kindClient \<Rightarrow> objectKey \<Rightarrow> string \<Rightarrow> string list \<Rightarrow> ('w, 'o option) action" where
  "getOptional c k f as = tryA (cGet c k) (\<lambda>r. case r of
     Inr x \<Rightarrow> ret (Some x)
   | Inl err \<Rightarrow> if IsNotFound err then ret None else raise (wrapErr f as err))"

text \<open>A create whose AlreadyExists error the code ignores.\<close>

definition createIfAbsent :: "('w, 'o) kindClient \<Rightarrow> 'o \<Rightarrow> string \<Rightarrow> string list \<Rightarrow> ('w, unit) action" where
  "createIfAbsent c x f as = tryA (cCreate c x) (\<lambda>r. case r of
     Inr _ \<Rightarrow> ret ()
   | Inl err \<Rightarrow> if \<not> IsAlreadyExists err then raise (wrapErr f as err) else ret ())"

lemma getOptional_lawful:
  assumes "lawfulGet c key objs" "getOptional c k f as w = (Inr r, w')"
  shows "w' = w \<and> objs w k = r \<and> (\<forall>x. r = Some x \<longrightarrow> key x = k)"
proof (cases "cGet c k w")
  case (Pair res v)
  then show ?thesis
  proof (cases res)
    case (Inl e)
    then show ?thesis using assms Pair lawful_get_Inl [OF assms(1), of k w e v]
      by (auto simp: getOptional_def tryA_def split: if_splits)
  next
    case (Inr x)
    then show ?thesis using assms Pair lawful_get_Inr [OF assms(1), of k w x v]
      by (auto simp: getOptional_def tryA_def)
  qed
qed

lemma createIfAbsent_lawful:
  assumes "lawfulWrite c key objs rest" "createIfAbsent c x f as w = (Inr u, w')"
  shows "objs w' = (if objs w (key x) = None then (objs w)(key x \<mapsto> x) else objs w) \<and> rest w' = rest w"
proof (cases "cCreate c x w")
  case (Pair res v)
  then show ?thesis
  proof (cases res)
    case (Inl e)
    then show ?thesis using assms(2) Pair lawful_create_Inl [OF assms(1), of x w e v]
      by (auto simp: createIfAbsent_def tryA_def split: if_splits)
  next
    case (Inr u')
    then show ?thesis using assms(2) Pair lawful_create_Inr [OF assms(1), of x w u' v]
      by (auto simp: createIfAbsent_def tryA_def)
  qed
qed

section \<open>RetryOnConflict\<close>

text \<open>
  client-go's RetryOnConflict is a parameter of the model. As documented it runs the function again
  while it fails with a conflict, a bounded number of times, and returns what the last run returned.
\<close>

inductive retried :: "('w, 'a) action \<Rightarrow> 'w \<Rightarrow> (goError + 'a) \<times> 'w \<Rightarrow> bool" for m where
  last_run: "retried m w (m w)"
| run_again: "m w = (Inl e, v) \<Longrightarrow> IsConflict e \<Longrightarrow> retried m v res \<Longrightarrow> retried m w res"

definition lawfulRetry :: "(('w, 'a) action \<Rightarrow> ('w, 'a) action) \<Rightarrow> bool" where
  "lawfulRetry retry \<longleftrightarrow> (\<forall>m w. retried m w (retry m w))"

fun retryN :: "nat \<Rightarrow> ('w, 'a) action \<Rightarrow> ('w, 'a) action" where
  "retryN 0 m w = m w"
| "retryN (Suc n) m w = (case m w of
     (Inl e, v) \<Rightarrow> if IsConflict e then retryN n m v else (Inl e, v)
   | (Inr a, v) \<Rightarrow> (Inr a, v))"

lemma retryN_lawful: "lawfulRetry (retryN n :: ('w, 'a) action \<Rightarrow> ('w, 'a) action)"
proof -
  have "retried m w (retryN n m w)" for m :: "('w, 'a) action" and w
  proof (induction n arbitrary: w)
    case (Suc n)
    obtain r v where m: "m w = (r, v)" by fastforce
    show ?case
    proof (cases r)
      case (Inl e)
      then show ?thesis using m Suc [of v] last_run [of m w] run_again [of m w e v] by simp
    next
      case (Inr a)
      then show ?thesis using m last_run [of m w] by simp
    qed
  qed (simp add: last_run)
  then show ?thesis by (simp add: lawfulRetry_def)
qed

text \<open>When a failed run changes nothing, retrying is as good as the first run.\<close>

lemma retried_unchanged:
  assumes "retried m w res" "\<And>w e v. m w = (Inl e, v) \<Longrightarrow> v = w"
  shows "m w = res"
  using assms(1)
proof induction
  case (run_again w e v res)
  then show ?case using assms(2) by blast
qed simp

end
