(* ===== verification/Go_Json.thy ===== *)
theory Go_Json
  imports Go_Action
begin

text \<open>
  What the controllers use of encoding/json: the encoding of a \<open>map[string]string\<close> and the decoding
  of JSON text into one. The encoder sorts the keys and escapes control characters, quotes,
  backslashes, the HTML characters, the two Unicode line separators and invalid UTF-8; the decoder
  checks the syntax of the whole text first and then accepts an object whose values are strings or
  null, or null for the nil map. The property is that decoding undoes encoding on ASCII maps, which
  Kubernetes labels are, and on trees of ASCII strings, booleans, arrays and objects.
\<close>

section \<open>Bytes and UTF-8\<close>

abbreviation dquote :: char where "dquote \<equiv> CHR 0x22"
abbreviation bslash :: char where "bslash \<equiv> CHR 0x5C"

definition byte :: "char \<Rightarrow> nat" where
  "byte c = of_char c"

definition inRange :: "nat \<Rightarrow> nat \<Rightarrow> char \<Rightarrow> bool" where
  "inRange lo hi c \<longleftrightarrow> lo \<le> byte c \<and> byte c \<le> hi"

text \<open>utf8.DecodeRune: the width of the rune at the front, none when it is not valid UTF-8.\<close>

definition utf8Width :: "string \<Rightarrow> nat option" where
  "utf8Width s = (case s of
     [] \<Rightarrow> None
   | c # r \<Rightarrow>
       let cont = inRange 0x80 0xBF;
           second = (\<lambda>lo hi. r \<noteq> [] \<and> inRange lo hi (r ! 0));
           third = (length r \<ge> 2 \<and> cont (r ! 1)); fourth = (length r \<ge> 3 \<and> cont (r ! 2))
       in if byte c < 0x80 then Some 1
          else if inRange 0xC2 0xDF c then (if second 0x80 0xBF then Some 2 else None)
          else if inRange 0xE0 0xEF c then
            (if second (if byte c = 0xE0 then 0xA0 else 0x80) (if byte c = 0xED then 0x9F else 0xBF) \<and> third
             then Some 3 else None)
          else if inRange 0xF0 0xF4 c then
            (if second (if byte c = 0xF0 then 0x90 else 0x80) (if byte c = 0xF4 then 0x8F else 0xBF) \<and> third \<and> fourth
             then Some 4 else None)
          else None)"

text \<open>utf8.AppendRune.\<close>

definition appendRune :: "nat \<Rightarrow> string" where
  "appendRune n =
     (if n < 0x80 then [char_of n]
      else if n < 0x800 then [char_of (0xC0 + n div 64), char_of (0x80 + n mod 64)]
      else if n < 0x10000 then [char_of (0xE0 + n div 4096), char_of (0x80 + n div 64 mod 64), char_of (0x80 + n mod 64)]
      else [char_of (0xF0 + n div 262144), char_of (0x80 + n div 4096 mod 64), char_of (0x80 + n div 64 mod 64),
            char_of (0x80 + n mod 64)])"

definition replacementRune :: nat where
  "replacementRune = 0xFFFD"

section \<open>Encoding\<close>

definition hexDigit :: "nat \<Rightarrow> char" where
  "hexDigit n = (if n < 10 then char_of (48 + n) else char_of (87 + n))"

definition escChar :: "char \<Rightarrow> string" where
  "escChar c =
     (if c = dquote \<or> c = bslash then [bslash, c]
      else if byte c = 8 then [bslash, CHR ''b'']
      else if byte c = 12 then [bslash, CHR ''f'']
      else if byte c = 10 then [bslash, CHR ''n'']
      else if byte c = 13 then [bslash, CHR ''r'']
      else if byte c = 9 then [bslash, CHR ''t'']
      else if byte c < 32 \<or> c = CHR ''<'' \<or> c = CHR ''>'' \<or> c = CHR ''&''
        then [bslash, CHR ''u'', CHR ''0'', CHR ''0'', hexDigit (byte c div 16), hexDigit (byte c mod 16)]
      else [c])"

function escString :: "string \<Rightarrow> string" where
  "escString [] = []"
| "escString (c # cs) =
     (if byte c < 0x80 then escChar c @ escString cs
      else case utf8Width (c # cs) of
          None \<Rightarrow> [bslash, CHR ''u'', CHR ''f'', CHR ''f'', CHR ''f'', CHR ''d''] @ escString cs
        | Some n \<Rightarrow>
            (let rune = take n (c # cs) in
             (if rune = appendRune 0x2028 then [bslash, CHR ''u'', CHR ''2'', CHR ''0'', CHR ''2'', CHR ''8'']
              else if rune = appendRune 0x2029 then [bslash, CHR ''u'', CHR ''2'', CHR ''0'', CHR ''2'', CHR ''9'']
              else rune)) @ escString (drop (n - 1) cs))"
  by pat_completeness auto
termination by (relation "measure length") auto

definition quoteJson :: "string \<Rightarrow> string" where
  "quoteJson s = [dquote] @ escString s @ [dquote]"

definition memberJson :: "string \<times> string \<Rightarrow> string" where
  "memberJson = (\<lambda>(k, v). quoteJson k @ '':'' @ quoteJson v)"

text \<open>A map lists its members by ascending key; the nil map is null.\<close>

definition marshalStringMap :: "(string, string) gomap option \<Rightarrow> string" where
  "marshalStringMap m = (case m of
     None \<Rightarrow> ''null''
   | Some kvs \<Rightarrow> ''{'' @ strJoin '','' (map memberJson (sort_key fst kvs)) @ ''}'')"

section \<open>Decoding\<close>

definition hexVal :: "char \<Rightarrow> nat option" where
  "hexVal c =
     (if isDigitChar c then Some (byte c - 48)
      else if inRange 97 102 c then Some (byte c - 87)
      else if inRange 65 70 c then Some (byte c - 55) else None)"

definition hex4 :: "string \<Rightarrow> nat option" where
  "hex4 s = (case map hexVal (take 4 s) of
     [Some a, Some b, Some c, Some d] \<Rightarrow> Some (((a * 16 + b) * 16 + c) * 16 + d) | _ \<Rightarrow> None)"

definition isSurrogate :: "nat \<Rightarrow> bool" where
  "isSurrogate n \<longleftrightarrow> 0xD800 \<le> n \<and> n < 0xE000"

text \<open>
  The rune of an escape with code \<open>n\<close> in front of \<open>s\<close>, and how much of \<open>s\<close> the second half of a
  surrogate pair takes.
\<close>

definition escapedRune :: "nat \<Rightarrow> string \<Rightarrow> nat \<times> nat" where
  "escapedRune n s =
     (if \<not> isSurrogate n then (n, 0)
      else if n < 0xDC00 \<and> hasPrefix s [bslash, CHR ''u''] then
        (case hex4 (drop 2 s) of
           Some m \<Rightarrow> (if 0xDC00 \<le> m \<and> m < 0xE000 then ((n - 0xD800) * 1024 + (m - 0xDC00) + 0x10000, 6)
                     else (replacementRune, 0))
         | None \<Rightarrow> (replacementRune, 0))
      else (replacementRune, 0))"

definition simpleEscape :: "char \<Rightarrow> char option" where
  "simpleEscape e =
     (if e = dquote \<or> e = bslash \<or> e = CHR ''/'' then Some e
      else if e = CHR ''b'' then Some (CHR 0x08)
      else if e = CHR ''f'' then Some (CHR 0x0C)
      else if e = CHR ''n'' then Some (CHR 0x0A)
      else if e = CHR ''r'' then Some (CHR 0x0D)
      else if e = CHR ''t'' then Some (CHR 0x09) else None)"

text \<open>The rest of a string after its opening quote: its value and what follows the closing quote.\<close>

function parseStr :: "string \<Rightarrow> (string \<times> string) option" where
  "parseStr [] = None"
| "parseStr (c # cs) =
     (let more = (\<lambda>v. map_option (\<lambda>(s, rest). (v @ s, rest))) in
      if c = dquote then Some ([], cs)
      else if c = bslash then
        (case cs of
           [] \<Rightarrow> None
         | e # es \<Rightarrow>
             if e = CHR ''u'' then
               (case hex4 es of
                  None \<Rightarrow> None
                | Some n \<Rightarrow> (let (rune, k) = escapedRune n (drop 4 es)
                             in more (appendRune rune) (parseStr (drop k (drop 4 es)))))
             else (case simpleEscape e of None \<Rightarrow> None | Some v \<Rightarrow> more [v] (parseStr es)))
      else if byte c < 32 then None
      else (case utf8Width (c # cs) of
              None \<Rightarrow> more (appendRune replacementRune) (parseStr cs)
            | Some n \<Rightarrow> more (take n (c # cs)) (parseStr (drop (n - 1) cs))))"
  by pat_completeness auto
termination by (relation "measure length") auto

text \<open>Values. The nesting depth is bounded as in the scanner; the fuel of twice the length and two is
  always enough, see \<open>parse_fuel\<close>.\<close>

datatype jsonVal = JNull | JBool bool | JNum string | JStr string | JArr "jsonVal list" | JObj "(string \<times> jsonVal) list"

definition isJsonSpace :: "char \<Rightarrow> bool" where
  "isJsonSpace c \<longleftrightarrow> c = CHR '' '' \<or> byte c = 9 \<or> byte c = 10 \<or> byte c = 13"

definition skipWs :: "string \<Rightarrow> string" where
  "skipWs s = dropWhile isJsonSpace s"

definition maxNestingDepth :: int where
  "maxNestingDepth = 10000"

definition parseDigits :: "string \<Rightarrow> (string \<times> string) option" where
  "parseDigits s = (let d = takeWhile isDigitChar s in if d = [] then None else Some (d, drop (length d) s))"

definition parseFrac :: "string \<Rightarrow> (string \<times> string) option" where
  "parseFrac s = (case s of
     c # r \<Rightarrow> (if c = CHR ''.'' then map_option (\<lambda>(d, rest). (c # d, rest)) (parseDigits r) else Some ([], s))
   | [] \<Rightarrow> Some ([], s))"

definition parseExp :: "string \<Rightarrow> (string \<times> string) option" where
  "parseExp s = (case s of
     c # r \<Rightarrow>
       (if c = CHR ''e'' \<or> c = CHR ''E'' then
          (let (sign, r') = (if r \<noteq> [] \<and> (hd r = CHR ''+'' \<or> hd r = CHR ''-'') then ([hd r], tl r) else ([], r))
           in map_option (\<lambda>(d, rest). (c # sign @ d, rest)) (parseDigits r'))
        else Some ([], s))
   | [] \<Rightarrow> Some ([], s))"

definition parseNum :: "string \<Rightarrow> (string \<times> string) option" where
  "parseNum s =
     (let (sign, s1) = (if s \<noteq> [] \<and> hd s = CHR ''-'' then ([hd s], tl s) else ([], s));
          whole = (if s1 \<noteq> [] \<and> hd s1 = CHR ''0'' then Some ([hd s1], tl s1) else parseDigits s1)
      in case whole of None \<Rightarrow> None
       | Some (w, s2) \<Rightarrow> (case parseFrac s2 of None \<Rightarrow> None
           | Some (f, s3) \<Rightarrow> (case parseExp s3 of None \<Rightarrow> None
               | Some (e, s4) \<Rightarrow> Some (sign @ w @ f @ e, s4))))"

fun parseValue :: "nat \<Rightarrow> int \<Rightarrow> string \<Rightarrow> (jsonVal \<times> string) option"
  and parseElems :: "nat \<Rightarrow> int \<Rightarrow> string \<Rightarrow> (jsonVal list \<times> string) option"
  and parseMembers :: "nat \<Rightarrow> int \<Rightarrow> string \<Rightarrow> ((string \<times> jsonVal) list \<times> string) option" where
  "parseValue 0 d s = None"
| "parseValue (Suc fuel) d s = (case skipWs s of
     [] \<Rightarrow> None
   | c # r \<Rightarrow>
       if c = dquote then map_option (\<lambda>(v, rest). (JStr v, rest)) (parseStr r)
       else if c = CHR ''{'' then
         (if maxNestingDepth < d + 1 then None
          else if skipWs r \<noteq> [] \<and> hd (skipWs r) = CHR ''}'' then Some (JObj [], tl (skipWs r))
          else map_option (\<lambda>(v, rest). (JObj v, rest)) (parseMembers fuel (d + 1) r))
       else if c = CHR ''['' then
         (if maxNestingDepth < d + 1 then None
          else if skipWs r \<noteq> [] \<and> hd (skipWs r) = CHR '']'' then Some (JArr [], tl (skipWs r))
          else map_option (\<lambda>(v, rest). (JArr v, rest)) (parseElems fuel (d + 1) r))
       else if hasPrefix (c # r) ''null'' then Some (JNull, drop 4 (c # r))
       else if hasPrefix (c # r) ''true'' then Some (JBool True, drop 4 (c # r))
       else if hasPrefix (c # r) ''false'' then Some (JBool False, drop 5 (c # r))
       else map_option (\<lambda>(v, rest). (JNum v, rest)) (parseNum (c # r)))"
| "parseElems 0 d s = None"
| "parseElems (Suc fuel) d s = (case parseValue fuel d s of
     None \<Rightarrow> None
   | Some (v, s1) \<Rightarrow> (case skipWs s1 of
       [] \<Rightarrow> None
     | c # r \<Rightarrow>
         if c = CHR '','' then map_option (\<lambda>(vs, rest). (v # vs, rest)) (parseElems fuel d r)
         else if c = CHR '']'' then Some ([v], r) else None))"
| "parseMembers 0 d s = None"
| "parseMembers (Suc fuel) d s = (case skipWs s of
     [] \<Rightarrow> None
   | q # r \<Rightarrow>
       if q \<noteq> dquote then None
       else (case parseStr r of
           None \<Rightarrow> None
         | Some (k, s1) \<Rightarrow>
             if skipWs s1 = [] \<or> hd (skipWs s1) \<noteq> CHR '':'' then None
             else (case parseValue fuel d (tl (skipWs s1)) of
                 None \<Rightarrow> None
               | Some (v, s2) \<Rightarrow> (case skipWs s2 of
                   [] \<Rightarrow> None
                 | c # r' \<Rightarrow>
                     if c = CHR '','' then map_option (\<lambda>(kvs, rest). ((k, v) # kvs, rest)) (parseMembers fuel d r')
                     else if c = CHR ''}'' then Some ([(k, v)], r') else None))))"

definition parseJson :: "string \<Rightarrow> jsonVal option" where
  "parseJson s = (case parseValue (2 * length s + 2) 0 s of
     Some (v, rest) \<Rightarrow> (if skipWs rest = [] then Some v else None) | None \<Rightarrow> None)"

text \<open>A null member stores the zero value, the empty string; a later member overwrites an earlier one.\<close>

fun stringMember :: "jsonVal \<Rightarrow> string option" where
  "stringMember (JStr s) = Some s"
| "stringMember JNull = Some []"
| "stringMember v = None"

definition unmarshalStringMap :: "string \<Rightarrow> goError + (string, string) gomap option" where
  "unmarshalStringMap s = (case parseJson s of
     None \<Rightarrow> Inl (Errorf ''invalid JSON'' [])
   | Some JNull \<Rightarrow> Inr None
   | Some (JObj kvs) \<Rightarrow>
       (if list_all (\<lambda>(k, v). stringMember v \<noteq> None) kvs
        then Inr (Some (fold (\<lambda>(k, v). mapPut k (the (stringMember v))) kvs []))
        else Inl (Errorf ''cannot unmarshal into Go value of type string'' []))
   | Some v \<Rightarrow> Inl (Errorf ''cannot unmarshal into Go value of type map[string]string'' []))"

section \<open>Round trip\<close>

definition asciiString :: "string \<Rightarrow> bool" where
  "asciiString s \<longleftrightarrow> list_all (\<lambda>c. byte c < 0x80) s"

lemma byte_inj: "byte c = byte d \<longleftrightarrow> c = d"
  by (simp add: byte_def)

lemma char_of_byte: "char_of (byte c) = c"
  by (simp add: byte_def)

lemma byte_bound: "byte c < 256"
  unfolding byte_def by (metis of_char_mod_256 mod_less_divisor zero_less_numeral)

lemma hexVal_hexDigit: "n < 16 \<Longrightarrow> hexVal (hexDigit n) = Some n"
  by (auto simp: hexVal_def hexDigit_def isDigitChar_def inRange_def byte_def)

lemma parseStr_plain: "byte c < 0x80 \<Longrightarrow> \<not> byte c < 32 \<Longrightarrow> c \<noteq> dquote \<Longrightarrow> c \<noteq> bslash
  \<Longrightarrow> parseStr (c # cs) = map_option (\<lambda>(s, rest). (c # s, rest)) (parseStr cs)"
  by (simp add: utf8Width_def Let_def)

lemma parseStr_u00:
  assumes "byte c < 0x80"
  shows "parseStr ([bslash, CHR ''u'', CHR ''0'', CHR ''0'', hexDigit (byte c div 16), hexDigit (byte c mod 16)] @ cs)
    = map_option (\<lambda>(s, rest). (c # s, rest)) (parseStr cs)"
proof -
  have "hexVal (CHR ''0'') = Some 0" by code_simp
  then have "hex4 (CHR ''0'' # CHR ''0'' # hexDigit (byte c div 16) # hexDigit (byte c mod 16) # cs) = Some (byte c)"
    using assms by (simp add: hex4_def hexVal_hexDigit)
  then show ?thesis
    using assms by (simp add: escapedRune_def isSurrogate_def appendRune_def char_of_byte Let_def)
qed

lemma parseStr_escChar:
  assumes "byte c < 0x80"
  shows "parseStr (escChar c @ cs) = map_option (\<lambda>(s, rest). (c # s, rest)) (parseStr cs)"
proof -
  have b: "byte c = 8 \<Longrightarrow> c = CHR 0x08" "byte c = 12 \<Longrightarrow> c = CHR 0x0C" "byte c = 10 \<Longrightarrow> c = CHR 0x0A"
    "byte c = 13 \<Longrightarrow> c = CHR 0x0D" "byte c = 9 \<Longrightarrow> c = CHR 0x09"
    by (simp_all add: byte_inj [symmetric], simp_all add: byte_def)
  consider "c = dquote \<or> c = bslash" | "byte c = 8 \<or> byte c = 12 \<or> byte c = 10 \<or> byte c = 13 \<or> byte c = 9"
    | "c \<noteq> dquote" "c \<noteq> bslash" "byte c \<noteq> 8" "byte c \<noteq> 12" "byte c \<noteq> 10" "byte c \<noteq> 13" "byte c \<noteq> 9"
    by blast
  then show ?thesis
  proof cases
    case 1
    then show ?thesis by (auto simp: escChar_def simpleEscape_def Let_def)
  next
    case 2
    then have "c = CHR 0x08 \<or> c = CHR 0x0C \<or> c = CHR 0x0A \<or> c = CHR 0x0D \<or> c = CHR 0x09" using b by blast
    then show ?thesis by (elim disjE) (simp_all add: escChar_def simpleEscape_def Let_def byte_def)
  next
    case 3
    then show ?thesis
      using parseStr_u00 [OF assms, of cs] parseStr_plain [OF assms]
      by (auto simp: escChar_def simp del: parseStr.simps)
  qed
qed

lemma asciiString_Cons [simp]: "asciiString (c # s) \<longleftrightarrow> byte c < 0x80 \<and> asciiString s"
  by (simp add: asciiString_def)

lemma parseStr_escString:
  "asciiString s \<Longrightarrow> parseStr (escString s @ dquote # rest) = Some (s, rest)"
proof (induction s)
  case Nil
  then show ?case by simp
next
  case (Cons c s)
  have "parseStr (escString (c # s) @ dquote # rest)
      = map_option (\<lambda>(s, rest). (c # s, rest)) (parseStr (escString s @ dquote # rest))"
    using Cons.prems parseStr_escChar [of c "escString s @ dquote # rest"] by (simp del: parseStr.simps)
  then show ?case using Cons by (simp del: parseStr.simps escString.simps)
qed

lemma skipWs_quote [simp]: "skipWs (dquote # s) = dquote # s"
  by (simp add: skipWs_def isJsonSpace_def byte_def)

lemma skipWs_punct [simp]:
  "skipWs (CHR '':'' # s) = CHR '':'' # s" "skipWs (CHR '','' # s) = CHR '','' # s"
  "skipWs (CHR ''}'' # s) = CHR ''}'' # s" "skipWs (CHR ''{'' # s) = CHR ''{'' # s" "skipWs [] = []"
  by (simp_all add: skipWs_def isJsonSpace_def byte_def)

lemma parseValue_quoteJson:
  "asciiString v \<Longrightarrow> parseValue (Suc fuel) d (quoteJson v @ rest) = Some (JStr v, rest)"
  by (simp add: quoteJson_def parseStr_escString del: parseStr.simps)

definition asciiMember :: "string \<times> string \<Rightarrow> bool" where
  "asciiMember = (\<lambda>(k, v). asciiString k \<and> asciiString v)"

lemma parseMembers_join:
  "list_all asciiMember kvs \<Longrightarrow> kvs \<noteq> [] \<Longrightarrow> length kvs < fuel
   \<Longrightarrow> parseMembers fuel d (strJoin '','' (map memberJson kvs) @ ''}'' @ rest)
       = Some (map (\<lambda>(k, v). (k, JStr v)) kvs, rest)"
proof (induction kvs arbitrary: fuel)
  case (Cons kv kvs)
  obtain k v where kv: "kv = (k, v)" by fastforce
  obtain f where f: "fuel = Suc (Suc f)" using Cons.prems(3) by (cases fuel; cases "fuel - 1") auto
  have ascii: "asciiString k" "asciiString v" using Cons.prems(1) by (simp_all add: kv asciiMember_def)
  have head: "parseMembers fuel d (memberJson kv @ s) =
      (case skipWs s of [] \<Rightarrow> None
       | c # r' \<Rightarrow>
           if c = CHR '','' then map_option (\<lambda>(kvs, rest). ((k, JStr v) # kvs, rest)) (parseMembers (Suc f) d r')
           else if c = CHR ''}'' then Some ([(k, JStr v)], r') else None)" for s
    using parseValue_quoteJson [OF ascii(2), of f d s] parseStr_escString [OF ascii(1), of "CHR '':'' # quoteJson v @ s"]
    by (simp add: f kv memberJson_def quoteJson_def del: parseStr.simps parseValue.simps)
  show ?case
  proof (cases "kvs = []")
    case True
    then show ?thesis by (simp add: head [unfolded kv] kv strJoin_Cons del: parseMembers.simps)
  next
    case False
    have "parseMembers (Suc f) d (strJoin '','' (map memberJson kvs) @ ''}'' @ rest)
        = Some (map (\<lambda>(k, v). (k, JStr v)) kvs, rest)"
      using Cons.prems False f by (intro Cons.IH) auto
    then show ?thesis
      using False by (simp add: head [unfolded kv] kv strJoin_Cons del: parseMembers.simps)
  qed
qed simp

lemma length_members: "kvs \<noteq> [] \<Longrightarrow> length kvs < length (strJoin '','' (map memberJson kvs))"
proof (induction kvs)
  case (Cons kv kvs)
  have "4 < length (memberJson kv)" by (simp add: memberJson_def quoteJson_def split: prod.split)
  with Cons show ?case by (cases "kvs = []") (simp_all add: strJoin_Cons)
qed simp

lemma strJoin_members_hd:
  assumes "kvs \<noteq> []" obtains r where "strJoin '','' (map memberJson kvs) @ s = dquote # r"
proof -
  obtain kv kvs' where kvs: "kvs = kv # kvs'" using assms by (cases kvs) auto
  obtain k v where kv: "kv = (k, v)" by fastforce
  show thesis
    using that by (cases "kvs' = []") (simp_all add: kvs kv strJoin_Cons memberJson_def quoteJson_def)
qed

lemma parseJson_members:
  assumes "list_all asciiMember kvs"
  shows "parseJson (''{'' @ strJoin '','' (map memberJson kvs) @ ''}'') = Some (JObj (map (\<lambda>(k, v). (k, JStr v)) kvs))"
proof (cases "kvs = []")
  case True
  then show ?thesis by (simp add: parseJson_def maxNestingDepth_def eval_nat_numeral)
next
  case False
  let ?body = "strJoin '','' (map memberJson kvs)"
  have m: "parseMembers (Suc (Suc (Suc (2 * length (?body @ ''}''))))) 1 (?body @ ''}'') = Some (map (\<lambda>(k, v). (k, JStr v)) kvs, [])"
    using parseMembers_join [OF assms False, of "Suc (Suc (Suc (2 * length (?body @ ''}''))))" 1 "[]"] length_members [OF False]
    by simp
  obtain r where hd: "?body @ ''}'' = dquote # r" using False by (rule strJoin_members_hd)
  have "parseValue (Suc (Suc (Suc (Suc (2 * length (?body @ ''}'')))))) 0 (''{'' @ ?body @ ''}'')
      = Some (JObj (map (\<lambda>(k, v). (k, JStr v)) kvs), [])"
    using m unfolding hd by (simp add: maxNestingDepth_def del: parseMembers.simps)
  then show ?thesis by (simp add: parseJson_def eval_nat_numeral del: parseValue.simps)
qed

lemma fold_mapPut_fresh:
  "distinct (map fst kvs) \<Longrightarrow> fst ` set kvs \<inter> fst ` set m = {} \<Longrightarrow> fold (\<lambda>(k, v). mapPut k v) kvs m = m @ kvs"
proof (induction kvs arbitrary: m)
  case (Cons kv kvs)
  obtain k v where kv: "kv = (k, v)" by fastforce
  have "mapPut k v m = m @ [(k, v)]"
    using Cons.prems(2) unfolding kv mapPut_def by (induction m) auto
  then show ?case using Cons by (auto simp: kv)
qed simp

text \<open>
  Decoding undoes encoding: for a map with distinct ASCII keys and ASCII values the decoder
  returns, on the encoder's text, the same members in key order.
\<close>

lemma unmarshal_marshal:
  assumes "wfMap m" "list_all asciiMember m"
  shows "unmarshalStringMap (marshalStringMap (Some m)) = Inr (Some (sort_key fst m))"
proof -
  let ?m = "sort_key fst m"
  have wf: "distinct (map fst ?m)" using assms(1) wfMap_perm [of ?m m] by simp
  have "list_all asciiMember ?m" using assms(2) by (simp add: list_all_iff)
  then have "parseJson (marshalStringMap (Some m)) = Some (JObj (map (\<lambda>(k, v). (k, JStr v)) ?m))"
    using parseJson_members [of ?m] by (simp add: marshalStringMap_def)
  moreover have "fold (\<lambda>(k, v). mapPut k (the (stringMember v))) (map (\<lambda>(k, v). (k, JStr v)) ?m) []
      = fold (\<lambda>(k, v). mapPut k v) ?m []"
    by (simp add: fold_map comp_def case_prod_unfold)
  ultimately show ?thesis
    using fold_mapPut_fresh [OF wf, of "[]"] by (simp add: unmarshalStringMap_def list_all_iff case_prod_unfold)
qed

section \<open>The fuel is enough\<close>

lemma length_skipWs: "length (skipWs s) \<le> length s"
  by (simp add: skipWs_def length_dropWhile_le)

lemma skipWs_Cons: "skipWs s = c # r \<Longrightarrow> length r < length s"
  using length_skipWs [of s] by simp

lemma parseStr_length: "parseStr s = Some (v, rest) \<Longrightarrow> length rest < length s"
proof (induction s arbitrary: v rest rule: parseStr.induct)
  case (2 c cs)
  then show ?case
    by (fastforce simp: Let_def split: if_splits list.splits option.splits prod.splits)
qed simp

lemma parseDigits_length: "parseDigits s = Some (d, rest) \<Longrightarrow> length rest < length s"
proof -
  assume "parseDigits s = Some (d, rest)"
  then have "d \<noteq> []" "d = takeWhile isDigitChar s" "rest = drop (length d) s"
    by (auto simp: parseDigits_def Let_def split: if_splits)
  then show ?thesis by (cases s) auto
qed

lemma parseFrac_length: "parseFrac s = Some (d, rest) \<Longrightarrow> length rest \<le> length s"
  by (fastforce simp: parseFrac_def dest: parseDigits_length split: list.splits if_splits)

lemma parseExp_length: "parseExp s = Some (d, rest) \<Longrightarrow> length rest \<le> length s"
  by (fastforce simp: parseExp_def dest!: parseDigits_length split: list.splits if_splits)

lemma parseNum_length: "parseNum s = Some (v, rest) \<Longrightarrow> length rest < length s"
  by (cases s)
     (auto simp: parseNum_def Let_def dest!: parseDigits_length parseFrac_length parseExp_length
        split: if_splits option.splits prod.splits)

lemma parse_lengths:
  "parseValue fuel d s = Some (v, rest) \<Longrightarrow> length rest < length s"
  "parseElems fuel d s = Some (vs, rest) \<Longrightarrow> length rest < length s"
  "parseMembers fuel d s = Some (kvs, rest) \<Longrightarrow> length rest < length s"
proof (induction fuel d s and fuel d s and fuel d s arbitrary: v rest and vs rest and kvs rest
    rule: parseValue_parseElems_parseMembers.induct)
  case (2 fuel d s)
  then obtain c r where s: "skipWs s = c # r" by (cases "skipWs s") auto
  have r: "length r < length s" using s by (rule skipWs_Cons)
  have t: "length (tl (skipWs r)) \<le> length r" using length_skipWs [of r] by simp
  from 2 s r t show ?case
    by (fastforce dest: parseStr_length parseNum_length split: if_splits simp del: parseStr.simps)
next
  case (4 fuel d s)
  from "4.prems" obtain v s1 where v: "parseValue fuel d s = Some (v, s1)" by (auto split: option.splits)
  with "4.prems" obtain c r where c: "skipWs s1 = c # r" by (auto split: list.splits)
  have len: "length s1 < length s" "length r < length s1" using "4.IH"(1) [OF v] skipWs_Cons [OF c] by simp_all
  show ?case
  proof (cases "c = CHR '',''")
    case True
    with "4.prems" v c obtain vs' where "parseElems fuel d r = Some (vs', rest)" by auto
    then show ?thesis using "4.IH"(2) [OF v _ c True] len by fastforce
  next
    case False
    with "4.prems" v c len show ?thesis by (auto split: if_splits)
  qed
next
  case (6 fuel d s)
  from "6.prems" obtain q r where q: "skipWs s = q # r" "q = dquote" by (auto split: list.splits if_splits)
  with "6.prems" obtain k s1 where k: "parseStr r = Some (k, s1)" by (auto split: option.splits)
  let ?s1 = "tl (skipWs s1)"
  from "6.prems" q k have colon: "\<not> (skipWs s1 = [] \<or> hd (skipWs s1) \<noteq> CHR '':'')" by (auto split: if_splits)
  with "6.prems" q k obtain v s2 where v: "parseValue fuel d ?s1 = Some (v, s2)" by (auto split: option.splits)
  with "6.prems" q k colon obtain c r' where c: "skipWs s2 = c # r'" by (auto split: list.splits)
  have "length s2 < length ?s1" using "6.IH"(1) [OF q(1) _ k _ colon v] q(2) by simp
  then have len: "length r' < length s"
    using skipWs_Cons [OF q(1)] parseStr_length [OF k] skipWs_Cons [OF c] length_skipWs [of s1] by simp
  show ?case
  proof (cases "c = CHR '',''")
    case True
    with "6.prems" q k colon v c obtain kvs' where "parseMembers fuel d r' = Some (kvs', rest)" by auto
    then show ?thesis using "6.IH"(2) [OF q(1) _ k _ colon v _ c True] q(2) len by fastforce
  next
    case False
    with "6.prems" q k colon v c len show ?thesis by (auto split: if_splits)
  qed
qed simp_all

lemma parse_fuel:
  "2 * length s + 1 \<le> fuel \<Longrightarrow> parseValue (Suc fuel) d s = parseValue fuel d s"
  "2 * length s + 2 \<le> fuel \<Longrightarrow> parseElems (Suc fuel) d s = parseElems fuel d s"
  "2 * length s + 2 \<le> fuel \<Longrightarrow> parseMembers (Suc fuel) d s = parseMembers fuel d s"
proof (induction fuel d s and fuel d s and fuel d s rule: parseValue_parseElems_parseMembers.induct)
  case (2 fuel d s)
  note [simp del] = parseStr.simps parseValue.simps parseElems.simps parseMembers.simps
  note unf = parseValue.simps(2) [of "Suc fuel" d s] parseValue.simps(2) [of fuel d s]
  show ?case
  proof (cases "skipWs s")
    case (Cons c r)
    have "length r < length s" using Cons by (rule skipWs_Cons)
    then have "2 * length r + 2 \<le> fuel" using "2.prems" by simp
    then have "c = CHR ''{'' \<Longrightarrow> \<not> maxNestingDepth < d + 1 \<Longrightarrow> \<not> (skipWs r \<noteq> [] \<and> hd (skipWs r) = CHR ''}'')
        \<Longrightarrow> parseMembers (Suc fuel) (d + 1) r = parseMembers fuel (d + 1) r"
      and "c = CHR ''['' \<Longrightarrow> \<not> maxNestingDepth < d + 1 \<Longrightarrow> \<not> (skipWs r \<noteq> [] \<and> hd (skipWs r) = CHR '']'')
        \<Longrightarrow> parseElems (Suc fuel) (d + 1) r = parseElems fuel (d + 1) r"
      using "2.IH"(1,2) [OF Cons] by simp_all
    then show ?thesis using Cons by (auto simp: unf)
  qed (simp add: unf)
next
  case (4 fuel d s)
  have v: "parseValue (Suc fuel) d s = parseValue fuel d s" using "4.IH"(1) "4.prems" by simp
  show ?case
  proof (cases "parseValue fuel d s")
    case (Some v')
    obtain v s1 where v': "v' = (v, s1)" by fastforce
    show ?thesis
    proof (cases "skipWs s1")
      case Nil
      then show ?thesis by (simp add: v Some v' parseElems.simps(2) del: parseValue.simps)
    next
      case (Cons c r)
      have "length r < length s" using parse_lengths(1) [of fuel d s v s1] Some v' skipWs_Cons [OF Cons] by simp
      then have "c = CHR '','' \<Longrightarrow> parseElems (Suc fuel) d r = parseElems fuel d r"
        using "4.IH"(2) [OF Some v' [symmetric] Cons] "4.prems" by simp
      then show ?thesis
        by (simp add: v Some v' Cons parseElems.simps(2) [of "Suc fuel"] parseElems.simps(2) [of fuel]
            del: parseValue.simps parseElems.simps)
    qed
  qed (simp add: v parseElems.simps(2) del: parseValue.simps)
next
  case (6 fuel d s)
  note [simp del] = parseStr.simps parseValue.simps parseMembers.simps
  note unf = parseMembers.simps(2) [of "Suc fuel" d s] parseMembers.simps(2) [of fuel d s]
  show ?case
  proof (cases "\<exists>r k s1. skipWs s = dquote # r \<and> parseStr r = Some (k, s1) \<and> skipWs s1 \<noteq> [] \<and> hd (skipWs s1) = CHR '':''")
    case False
    then show ?thesis by (auto simp: unf split: list.split option.split)
  next
    case True
    then obtain r k s1 where q: "skipWs s = dquote # r" and k: "parseStr r = Some (k, s1)"
      and colon: "\<not> (skipWs s1 = [] \<or> hd (skipWs s1) \<noteq> CHR '':'')" by blast
    have len: "length (tl (skipWs s1)) < length s"
      using skipWs_Cons [OF q] parseStr_length [OF k] length_skipWs [of s1] by simp
    have v: "parseValue (Suc fuel) d (tl (skipWs s1)) = parseValue fuel d (tl (skipWs s1))"
      using "6.IH"(1) [OF q _ k _ colon] "6.prems" len by simp
    show ?thesis
    proof (cases "parseValue fuel d (tl (skipWs s1))")
      case None
      then show ?thesis using q k colon v by (simp add: unf)
    next
      case (Some v')
      obtain val s2 where v': "v' = (val, s2)" by fastforce
      show ?thesis
      proof (cases "skipWs s2")
        case Nil
        then show ?thesis using q k colon v Some v' by (simp add: unf)
      next
        case (Cons c r')
        have "length r' < length s" using parse_lengths(1) Some v' skipWs_Cons [OF Cons] len by fastforce
        then have "c = CHR '','' \<Longrightarrow> parseMembers (Suc fuel) d r' = parseMembers fuel d r'"
          using "6.IH"(2) [OF q _ k _ colon Some v' [symmetric] Cons] "6.prems" by simp
        then show ?thesis using q k colon v Some v' Cons by (simp add: unf)
      qed
    qed
  qed
qed simp_all

section \<open>Encoding of trees\<close>

text \<open>json.Marshal of strings, booleans, slices and structs, by the tree of the value; numbers are kept as their text.\<close>

fun jsonText :: "jsonVal \<Rightarrow> string" where
  "jsonText JNull = ''null''"
| "jsonText (JBool b) = (if b then ''true'' else ''false'')"
| "jsonText (JNum n) = n"
| "jsonText (JStr s) = quoteJson s"
| "jsonText (JArr vs) = ''['' @ strJoin '','' (map jsonText vs) @ '']''"
| "jsonText (JObj kvs) = ''{'' @ strJoin '','' (map (\<lambda>(k, v). quoteJson k @ '':'' @ jsonText v) kvs) @ ''}''"

fun asciiJson :: "jsonVal \<Rightarrow> bool" where
  "asciiJson (JNum n) = False"
| "asciiJson (JStr s) = asciiString s"
| "asciiJson (JArr vs) = list_all asciiJson vs"
| "asciiJson (JObj kvs) = list_all (\<lambda>(k, v). asciiString k \<and> asciiJson v) kvs"
| "asciiJson v = True"

fun jsonDepth :: "jsonVal \<Rightarrow> nat" where
  "jsonDepth (JArr vs) = Suc (fold max (map jsonDepth vs) 0)"
| "jsonDepth (JObj kvs) = Suc (fold max (map (\<lambda>(k, v). jsonDepth v) kvs) 0)"
| "jsonDepth v = 0"

lemma fold_max_le: "fold max xs n \<le> m \<longleftrightarrow> n \<le> m \<and> (\<forall>x\<in>set xs. x \<le> (m :: nat))"
  by (induction xs arbitrary: n) auto

lemma depth_below: "n \<in> set ns \<Longrightarrow> n \<le> fold max ns (0 :: nat)"
  using fold_max_le [of ns 0 "fold max ns 0"] by simp

lemma skipWs_Cons_plain: "\<not> isJsonSpace c \<Longrightarrow> skipWs (c # s) = c # s"
  by (simp add: skipWs_def)

text \<open>The parser reads a value back, given fuel enough.\<close>

definition readsBack :: "int \<Rightarrow> jsonVal \<Rightarrow> bool" where
  "readsBack d v \<longleftrightarrow> (\<exists>N. \<forall>fuel\<ge>N. \<forall>rest. parseValue fuel d (jsonText v @ rest) = Some (v, rest))"

lemma readsBackI: "(\<And>fuel rest. N \<le> fuel \<Longrightarrow> parseValue fuel d (jsonText v @ rest) = Some (v, rest)) \<Longrightarrow> readsBack d v"
  unfolding readsBack_def by blast

text \<open>A step of fuel.\<close>

lemma fuel_step: "(\<And>fuel. N \<le> fuel \<Longrightarrow> P (Suc fuel)) \<Longrightarrow> \<exists>N. \<forall>fuel\<ge>N. P fuel"
  by (rule exI [of _ "Suc N"]) (metis Suc_le_D Suc_le_mono)

lemma parseElems_text:
  assumes "vs \<noteq> []" "\<And>v. v \<in> set vs \<Longrightarrow> readsBack d v"
  shows "\<exists>N. \<forall>fuel\<ge>N. \<forall>rest. parseElems fuel d (strJoin '','' (map jsonText vs) @ '']'' @ rest) = Some (vs, rest)"
  using assms
proof (induction vs)
  case (Cons v vs)
  obtain N where N: "\<And>fuel rest. N \<le> fuel \<Longrightarrow> parseValue fuel d (jsonText v @ rest) = Some (v, rest)"
    using Cons.prems(2) [of v] unfolding readsBack_def by auto
  show ?case
  proof (cases "vs = []")
    case True
    then show ?thesis by (intro fuel_step [of N]) (simp add: N skipWs_def isJsonSpace_def byte_def del: parseValue.simps)
  next
    case False
    then obtain M where M: "\<And>fuel rest. M \<le> fuel \<Longrightarrow> parseElems fuel d (strJoin '','' (map jsonText vs) @ '']'' @ rest) = Some (vs, rest)"
      using Cons.IH Cons.prems(2) by auto
    show ?thesis using False
      by (intro fuel_step [of "max N M"]) (simp add: N M [simplified] strJoin_Cons skipWs_def isJsonSpace_def byte_def del: parseValue.simps)
  qed
qed simp

lemma parseMembers_text:
  assumes "kvs \<noteq> []" "\<And>k v. (k, v) \<in> set kvs \<Longrightarrow> readsBack d v \<and> asciiString k"
  shows "\<exists>N. \<forall>fuel\<ge>N. \<forall>rest. parseMembers fuel d (strJoin '','' (map (\<lambda>(k, v). quoteJson k @ '':'' @ jsonText v) kvs) @ ''}'' @ rest) = Some (kvs, rest)"
  using assms
proof (induction kvs)
  case (Cons kv kvs)
  obtain k v where kv: "kv = (k, v)" by fastforce
  obtain N where N: "\<And>fuel rest. N \<le> fuel \<Longrightarrow> parseValue fuel d (jsonText v @ rest) = Some (v, rest)"
    using Cons.prems(2) [of k v] unfolding readsBack_def kv by auto
  have str: "parseStr (escString k @ dquote # s) = Some (k, s)" for s
    using parseStr_escString [of k] Cons.prems(2) [of k v] by (simp add: kv)
  note head = N str quoteJson_def kv skipWs_def isJsonSpace_def byte_def
  show ?case
  proof (cases "kvs = []")
    case True
    then show ?thesis by (intro fuel_step [of N]) (simp add: head del: parseValue.simps parseStr.simps)
  next
    case False
    have tail: "readsBack d v \<and> asciiString k" if "(k, v) \<in> set kvs" for k v using that Cons.prems(2) by (meson list.set_intros(2))
    obtain M where M: "\<And>fuel rest. M \<le> fuel \<Longrightarrow>
        parseMembers fuel d (strJoin '','' (map (\<lambda>(k, v). quoteJson k @ '':'' @ jsonText v) kvs) @ ''}'' @ rest) = Some (kvs, rest)"
      using Cons.IH [OF False tail] by blast
    show ?thesis using False
      by (intro fuel_step [of "max N M"]) (simp add: head strJoin_Cons M [simplified quoteJson_def, simplified] del: parseValue.simps parseStr.simps)
  qed
qed simp

text \<open>The first character of an encoding is neither white space nor a closing bracket.\<close>

lemma jsonText_hd: "asciiJson v \<Longrightarrow> \<exists>c r. jsonText v = c # r \<and> \<not> isJsonSpace c \<and> c \<noteq> CHR '']'' \<and> c \<noteq> CHR ''}''"
  by (cases v) (auto simp: isJsonSpace_def byte_def quoteJson_def)

lemma strJoin_hd: "xs \<noteq> [] \<Longrightarrow> hd xs = c # r \<Longrightarrow> \<exists>r'. strJoin sep xs @ s = c # r'"
  by (cases xs; cases "tl xs") (auto simp: strJoin_Cons)

lemma jsonText_readsBack: "asciiJson v \<Longrightarrow> d + int (jsonDepth v) \<le> maxNestingDepth \<Longrightarrow> readsBack d v"
proof (induction v arbitrary: d)
  case JNull
  show ?case by (rule readsBackI [of 1]) (auto simp: skipWs_def isJsonSpace_def byte_def hasPrefix_def Suc_le_eq gr0_conv_Suc)
next
  case (JBool b)
  show ?case by (rule readsBackI [of 1]) (auto simp: skipWs_def isJsonSpace_def byte_def hasPrefix_def Suc_le_eq gr0_conv_Suc)
next
  case (JStr s)
  then show ?case
    by (intro readsBackI [of 1]) (auto simp: parseValue_quoteJson Suc_le_eq gr0_conv_Suc simp del: parseValue.simps)
next
  case (JArr vs)
  have depth: "\<not> maxNestingDepth < d + 1" using JArr.prems(2) by simp
  have sub: "readsBack (d + 1) v" if "v \<in> set vs" for v
    using JArr.prems JArr.IH [OF that, of "d + 1"] that depth_below [of "jsonDepth v" "map jsonDepth vs"] by (auto simp: list_all_iff)
  show ?case
  proof (cases "vs = []")
    case True
    show ?thesis using depth by (intro readsBackI [of 1]) (auto simp: True skipWs_def isJsonSpace_def byte_def Suc_le_eq gr0_conv_Suc)
  next
    case False
    obtain N where N: "\<And>fuel rest. N \<le> fuel \<Longrightarrow> parseElems fuel (d + 1) (strJoin '','' (map jsonText vs) @ '']'' @ rest) = Some (vs, rest)"
      using parseElems_text [OF False sub] by blast
    have "asciiJson (hd vs)" using JArr.prems(1) False by (simp add: list_all_iff)
    then obtain c r where c: "hd (map jsonText vs) = c # r" "\<not> isJsonSpace c" "c \<noteq> CHR '']''"
      using False jsonText_hd [of "hd vs"] by (auto simp: hd_map)
    have first: "\<exists>r'. strJoin '','' (map jsonText vs) @ s = c # r'" for s using strJoin_hd [OF _ c(1)] False by simp
    have "parseValue (Suc fuel) d (jsonText (JArr vs) @ rest) = Some (JArr vs, rest)" if "N \<le> fuel" for fuel rest
      using N [OF that, of rest] first [of "'']'' @ rest"] c depth
      by (auto simp: parseValue.simps(2) skipWs_def [of "CHR ''['' # _"] skipWs_Cons_plain isJsonSpace_def [of "CHR ''[''"] byte_def simp del: parseElems.simps)
    then show ?thesis unfolding readsBack_def by (intro fuel_step [of N]) blast
  qed
next
  case (JObj kvs)
  have depth: "\<not> maxNestingDepth < d + 1" using JObj.prems(2) by simp
  have sub: "readsBack (d + 1) v \<and> asciiString k" if "(k, v) \<in> set kvs" for k v
    using JObj.prems JObj.IH [OF that, of v "d + 1"] that depth_below [of "jsonDepth v" "map (\<lambda>(k, v). jsonDepth v) kvs"]
    by (force simp: list_all_iff)
  let ?text = "strJoin '','' (map (\<lambda>(k, v). quoteJson k @ '':'' @ jsonText v) kvs)"
  show ?case
  proof (cases "kvs = []")
    case True
    show ?thesis using depth by (intro readsBackI [of 1]) (auto simp: True skipWs_def isJsonSpace_def byte_def Suc_le_eq gr0_conv_Suc)
  next
    case False
    obtain N where N: "\<And>fuel rest. N \<le> fuel \<Longrightarrow> parseMembers fuel (d + 1) (?text @ ''}'' @ rest) = Some (kvs, rest)"
      using parseMembers_text [OF False sub] by blast
    have "\<exists>r. hd (map (\<lambda>(k, v). quoteJson k @ '':'' @ jsonText v) kvs) = dquote # r"
      using False by (simp add: hd_map quoteJson_def split: prod.split)
    then have first: "\<exists>r'. ?text @ s = dquote # r'" for s using strJoin_hd False by fastforce
    have "parseValue (Suc fuel) d (jsonText (JObj kvs) @ rest) = Some (JObj kvs, rest)" if "N \<le> fuel" for fuel rest
      using N [OF that, of rest] first [of "''}'' @ rest"] depth
      by (auto simp: parseValue.simps(2) skipWs_def [of "CHR ''{'' # _"] skipWs_quote isJsonSpace_def [of "CHR ''{''"] byte_def simp del: parseMembers.simps)
    then show ?thesis unfolding readsBack_def by (intro fuel_step [of N]) blast
  qed
qed simp

lemma parseJson_jsonText:
  assumes "asciiJson v" "int (jsonDepth v) \<le> maxNestingDepth"
  shows "parseJson (jsonText v) = Some v"
proof -
  obtain N where N: "\<And>fuel rest. N \<le> fuel \<Longrightarrow> parseValue fuel 0 (jsonText v @ rest) = Some (v, rest)"
    using jsonText_readsBack [of v 0] assms unfolding readsBack_def by auto
  let ?n = "2 * length (jsonText v) + 2"
  have "parseValue (?n + m) 0 (jsonText v) = parseValue ?n 0 (jsonText v)" for m
    by (induction m) (simp_all add: parse_fuel del: parseValue.simps)
  from this [of N] have "parseValue ?n 0 (jsonText v) = Some (v, [])" using N [of "?n + N" "[]"] by simp
  then show ?thesis by (simp add: parseJson_def skipWs_def del: parseValue.simps)
qed

end
