(* ===== verification/Go_Sha256.thy ===== *)
theory Go_Sha256
  imports Go_Json "HOL-Library.Word"
begin

unbundle bit_operations_syntax

text \<open>
  crypto/sha256 and encoding/hex, which the worker topology controller uses to compare two versions of
  a configuration: Sum256 on 32-bit words with wrap-around, and the lower-case hexadecimal digest.
\<close>

type_synonym word32 = "32 word"

definition roundConstants :: "word32 list" where
  "roundConstants = [0x428A2F98, 0x71374491, 0xB5C0FBCF, 0xE9B5DBA5, 0x3956C25B, 0x59F111F1, 0x923F82A4, 0xAB1C5ED5,
      0xD807AA98, 0x12835B01, 0x243185BE, 0x550C7DC3, 0x72BE5D74, 0x80DEB1FE, 0x9BDC06A7, 0xC19BF174,
      0xE49B69C1, 0xEFBE4786, 0x0FC19DC6, 0x240CA1CC, 0x2DE92C6F, 0x4A7484AA, 0x5CB0A9DC, 0x76F988DA,
      0x983E5152, 0xA831C66D, 0xB00327C8, 0xBF597FC7, 0xC6E00BF3, 0xD5A79147, 0x06CA6351, 0x14292967,
      0x27B70A85, 0x2E1B2138, 0x4D2C6DFC, 0x53380D13, 0x650A7354, 0x766A0ABB, 0x81C2C92E, 0x92722C85,
      0xA2BFE8A1, 0xA81A664B, 0xC24B8B70, 0xC76C51A3, 0xD192E819, 0xD6990624, 0xF40E3585, 0x106AA070,
      0x19A4C116, 0x1E376C08, 0x2748774C, 0x34B0BCB5, 0x391C0CB3, 0x4ED8AA4A, 0x5B9CCA4F, 0x682E6FF3,
      0x748F82EE, 0x78A5636F, 0x84C87814, 0x8CC70208, 0x90BEFFFA, 0xA4506CEB, 0xBEF9A3F7, 0xC67178F2]"

definition initialHash :: "word32 list" where
  "initialHash = [0x6A09E667, 0xBB67AE85, 0x3C6EF372, 0xA54FF53A, 0x510E527F, 0x9B05688C, 0x1F83D9AB, 0x5BE0CD19]"

definition padMessage :: "nat list \<Rightarrow> nat list" where
  "padMessage m =
     (let n = length m; zeros = (119 - n mod 64) mod 64
      in m @ [0x80] @ replicate zeros 0 @ map (\<lambda>i. 8 * n div 256 ^ (7 - i) mod 256) [0 ..< 8])"

definition wordOfBytes :: "nat list \<Rightarrow> word32" where
  "wordOfBytes bs = word_of_nat (foldl (\<lambda>a b. a * 256 + b) 0 bs)"

fun chunks :: "nat \<Rightarrow> nat \<Rightarrow> 'a list \<Rightarrow> 'a list list" where
  "chunks 0 k xs = []"
| "chunks (Suc n) k xs = take k xs # chunks n k (drop k xs)"

definition blocksOf :: "nat list \<Rightarrow> word32 list list" where
  "blocksOf bs = map (\<lambda>b. map wordOfBytes (chunks 16 4 b)) (chunks (length bs div 64) 64 bs)"

definition extendSchedule :: "nat \<Rightarrow> word32 list \<Rightarrow> word32 list" where
  "extendSchedule t ws =
     (let x = ws ! (t - 15); y = ws ! (t - 2);
          s0 = word_rotr 7 x XOR word_rotr 18 x XOR drop_bit 3 x;
          s1 = word_rotr 17 y XOR word_rotr 19 y XOR drop_bit 10 y
      in ws @ [ws ! (t - 16) + s0 + ws ! (t - 7) + s1])"

definition schedule :: "word32 list \<Rightarrow> word32 list" where
  "schedule b = fold extendSchedule [16 ..< 64] b"

fun sha256Round :: "word32 \<times> word32 \<Rightarrow> word32 list \<Rightarrow> word32 list" where
  "sha256Round (k, w) [a, b, c, d, e, f, g, h] =
     (let S1 = word_rotr 6 e XOR word_rotr 11 e XOR word_rotr 25 e;
          ch = (e AND f) XOR (NOT e AND g);
          t1 = h + S1 + ch + k + w;
          S0 = word_rotr 2 a XOR word_rotr 13 a XOR word_rotr 22 a;
          maj = (a AND b) XOR (a AND c) XOR (b AND c);
          t2 = S0 + maj
      in [t1 + t2, a, b, c, d + t1, e, f, g])"
| "sha256Round kw v = v"

definition compressBlock :: "word32 list \<Rightarrow> word32 list \<Rightarrow> word32 list" where
  "compressBlock b hs = map2 (+) hs (fold sha256Round (zip roundConstants (schedule b)) hs)"

definition bytesOfWord :: "word32 \<Rightarrow> nat list" where
  "bytesOfWord w = map (\<lambda>i. unat w div 256 ^ (3 - i) mod 256) [0 ..< 4]"

definition sum256 :: "string \<Rightarrow> nat list" where
  "sum256 s = concat (map bytesOfWord (fold compressBlock (blocksOf (padMessage (map byte s))) initialHash))"

definition hexEncode :: "nat list \<Rightarrow> string" where
  "hexEncode bs = concat (map (\<lambda>b. [hexDigit (b div 16), hexDigit (b mod 16)]) bs)"

section \<open>The shape of a digest\<close>

lemma length_sha256Round: "length (sha256Round kw v) = length v"
  by (cases "(kw, v)" rule: sha256Round.cases) (simp_all add: Let_def)

lemma length_compressBlock: "length hs = 8 \<Longrightarrow> length (compressBlock b hs) = 8"
proof -
  assume "length hs = 8"
  moreover have "length (fold sha256Round kws v) = length v" for kws v
    by (induction kws arbitrary: v) (simp_all add: length_sha256Round)
  ultimately show ?thesis by (simp add: compressBlock_def)
qed

text \<open>A digest has 32 bytes, so its hexadecimal form has 64 characters.\<close>

lemma length_hexEncode: "length (hexEncode bs) = 2 * length bs"
  by (induction bs) (simp_all add: hexEncode_def)

lemma length_sum256: "length (sum256 s) = 32"
proof -
  have "length (fold compressBlock bs hs) = 8" if "length hs = 8" for bs hs
    using that by (induction bs arbitrary: hs) (simp_all add: length_compressBlock)
  then have "length (fold compressBlock (blocksOf (padMessage (map byte s))) initialHash) = 8"
    by (simp add: initialHash_def)
  moreover have "length (concat (map bytesOfWord ws)) = 4 * length ws" for ws
    by (induction ws) (simp_all add: bytesOfWord_def)
  ultimately show ?thesis by (simp add: sum256_def)
qed

end
