(* ===== verification/Worker_Topology.thy ===== *)
theory Worker_Topology
  imports Topology_Blocks Kube_Client Go_Sha256
begin

text \<open>
  The worker topology controller of internal/controller/topologyconfcontroller, with the helpers of
  internal/utils/resourcegetter and internal/render/common/slurm\_config\_warning.go that it calls.
  Reconcile collects the node names, fabrics and GPU pods of a cluster and the topology labels that the
  node topology controller distributes, renders topology.conf, and stores it in a ConfigMap with a
  JailedConfig beside it. The Kubernetes client is the record \<open>topologyApi\<close> of calls.
\<close>

section \<open>Objects\<close>

record slurmCluster =
  sc_meta :: objectMeta
  sc_topologyPlugin :: string
  sc_topology :: "int option option"

record nodeSet =
  nset_meta :: objectMeta
  nset_clusterName :: string
  nset_replicas :: int
  nset_fabric :: string
  nset_gpuEnabled :: bool

record pod =
  pod_meta :: objectMeta
  pod_nodeName :: string

record statefulSet =
  sts_meta :: objectMeta

text \<open>The data of a ConfigMap may be the nil map, which panics on assignment.\<close>

record configMap =
  cm_meta :: objectMeta
  cm_data :: "(string, string) gomap option"

record jailedConfigSpec =
  jcs_configMap :: string
  jcs_items :: "(string \<times> string) list"
  jcs_updateActions :: "string list"

record jailedConfig =
  jc_meta :: objectMeta
  jc_spec :: jailedConfigSpec

definition cmKey :: "configMap \<Rightarrow> objectKey" where
  "cmKey c = metaKey (cm_meta c)"

definition jcKey :: "jailedConfig \<Rightarrow> objectKey" where
  "jcKey j = metaKey (jc_meta j)"

record 'w topologyApi =
  api_clusters :: "('w, slurmCluster) kindClient"
  api_nodeSets :: "('w, nodeSet) kindClient"
  api_pods :: "('w, pod) kindClient"
  api_statefulSets :: "('w, statefulSet) kindClient"
  api_configMaps :: "('w, configMap) kindClient"
  api_jailedConfigs :: "('w, jailedConfig) kindClient"

section \<open>internal/consts\<close>

definition K8sGroupNameSoperator :: string where "K8sGroupNameSoperator = ''slurm.nebius.ai''"
definition SlurmTopologyTree :: string where "SlurmTopologyTree = ''topology/tree''"
definition SlurmTopologyBlock :: string where "SlurmTopologyBlock = ''topology/block''"
definition LabelInstanceKey :: string where "LabelInstanceKey = ''app.kubernetes.io/instance''"
definition LabelNodeSetKey :: string where "LabelNodeSetKey = K8sGroupNameSoperator @ ''/nodeset''"
definition LabelJailedAggregationKey :: string where
  "LabelJailedAggregationKey = K8sGroupNameSoperator @ ''/jailed-aggregation''"
definition LabelJailedAggregationCommonValue :: string where "LabelJailedAggregationCommonValue = ''common''"
definition AnnotationParentalClusterRefName :: string where
  "AnnotationParentalClusterRefName = K8sGroupNameSoperator @ ''/parental-cluster-ref''"
definition ConfigMapKeyTopologyConfig :: string where "ConfigMapKeyTopologyConfig = ''topology.conf''"
definition ConfigMapNameTopologyNodeLabels :: string where "ConfigMapNameTopologyNodeLabels = ''topology-node-labels''"
definition ConfigMapNameTopologyConfig :: string where "ConfigMapNameTopologyConfig = ''topology-config''"
definition ComponentTypeController :: string where "ComponentTypeController = ''controller''"

section \<open>internal/utils/resourcegetter\<close>

definition hasClusterLabel :: "labels \<Rightarrow> string \<Rightarrow> bool" where
  "hasClusterLabel labels clusterName = (labels \<noteq> [] \<and> getStr labels LabelInstanceKey = clusterName)"

definition ResolveWorkloadNamePrefix :: "('w, statefulSet) kindClient \<Rightarrow> string \<Rightarrow> string \<Rightarrow> ('w, string) action" where
  "ResolveWorkloadNamePrefix c ns clusterName =
     tryA (cGet c (ns, ComponentTypeController)) (\<lambda>r. case r of
         Inr sts \<Rightarrow> if hasClusterLabel (om_labels (sts_meta sts)) clusterName then ret [] else ret clusterName
       | Inl err \<Rightarrow>
           if \<not> IsNotFound err then raise (wrapErr ''checking legacy controller StatefulSet: %w'' [] err)
           else ret clusterName)"

definition BuildPrefixedName :: "string \<Rightarrow> string \<Rightarrow> string" where
  "BuildPrefixedName prefix base = (if prefix = [] then base else prefix @ ''-'' @ base)"

definition belongsToCluster :: "string \<Rightarrow> nodeSet \<Rightarrow> bool" where
  "belongsToCluster name nodeSet =
     (if nset_clusterName nodeSet \<noteq> [] then nset_clusterName nodeSet = name
      else getStr (om_annotations (nset_meta nodeSet)) AnnotationParentalClusterRefName = name)"

definition ListNodeSetsByClusterRef :: "('w, nodeSet) kindClient \<Rightarrow> objectKey \<Rightarrow> ('w, nodeSet list) action" where
  "ListNodeSetsByClusterRef c clusterRef =
     bindA (wrapA ''listing %s: %w'' [''NodeSet''] (cList c (fst clusterRef) [])) (\<lambda>items.
       ret (sort_key (\<lambda>n. om_name (nset_meta n)) (filter (belongsToCluster (snd clusterRef)) items)))"

section \<open>internal/render/common/slurm\_config\_warning.go\<close>

definition newline :: string where "newline = [CHR 0x0A]"

definition managedSlurmConfigWarning :: string where
  "managedSlurmConfigWarning =
     ''# Managed by Soperator.'' @ newline @ ''# Do not edit this file.'' @ newline @ ''# Changes are overwritten.''"

definition WithManagedSlurmConfigWarning :: "string \<Rightarrow> string" where
  "WithManagedSlurmConfigWarning config = managedSlurmConfigWarning @ newline @ newline @ config"

section \<open>workertopology\_controller.go\<close>

text \<open>Seconds after which the request is queued again; 0 for a result without a requeue.\<close>

definition DefaultRequeueResult :: int where "DefaultRequeueResult = 60"
definition defBlockSize :: int where "defBlockSize = 16"

definition isClusterReconciliationNeeded :: "slurmCluster \<Rightarrow> bool" where
  "isClusterReconciliationNeeded c =
     (sc_topologyPlugin c = SlurmTopologyTree \<or> sc_topologyPlugin c = SlurmTopologyBlock)"

definition renderManagedTopologyConfig :: "string \<Rightarrow> string" where
  "renderManagedTopologyConfig config = WithManagedSlurmConfigWarning config"

definition renderTopologyConfigMap :: "string \<Rightarrow> string \<Rightarrow> string \<Rightarrow> configMap" where
  "renderTopologyConfigMap ns resourceName config =
     \<lparr>cm_meta = newMeta ns resourceName,
      cm_data = Some [(ConfigMapKeyTopologyConfig, renderManagedTopologyConfig config)]\<rparr>"

definition renderTopologyJailedConfig :: "string \<Rightarrow> string \<Rightarrow> string \<Rightarrow> jailedConfig" where
  "renderTopologyJailedConfig ns resourceName clusterName =
     \<lparr>jc_meta = (newMeta ns resourceName)\<lparr>om_labels :=
        [(LabelJailedAggregationKey, LabelJailedAggregationCommonValue), (LabelInstanceKey, clusterName)]\<rparr>,
      jc_spec = \<lparr>jcs_configMap = resourceName,
        jcs_items = [(ConfigMapKeyTopologyConfig, ''/etc/slurm/'' @ ConfigMapKeyTopologyConfig)],
        jcs_updateActions = []\<rparr>\<rparr>"

definition createDefaultTopologyResources :: "'w topologyApi \<Rightarrow> string \<Rightarrow> string \<Rightarrow> string \<Rightarrow> ('w, unit) action" where
  "createDefaultTopologyResources api ns resourceName clusterName =
     bindA (createIfAbsent (api_configMaps api) (renderTopologyConfigMap ns resourceName ''SwitchName=root'')
             ''create ConfigMap %s: %w'' [resourceName]) (\<lambda>_.
       createIfAbsent (api_jailedConfigs api) (renderTopologyJailedConfig ns resourceName clusterName)
         ''create JailedConfig %s: %w'' [resourceName])"

definition EnsureWorkerTopologyConfigMap ::
    "'w topologyApi \<Rightarrow> string \<Rightarrow> string \<Rightarrow> string \<Rightarrow> ('w, configMap) action" where
  "EnsureWorkerTopologyConfigMap api ns resourceName clusterName =
     bindA (getOptional (api_configMaps api) (ns, resourceName) ''get ConfigMap %s: %w'' [resourceName]) (\<lambda>configMap.
     bindA (getOptional (api_jailedConfigs api) (ns, resourceName) ''get JailedConfig %s: %w'' [resourceName]) (\<lambda>jailedConfig.
       case (configMap, jailedConfig) of
         (Some cm, Some _) \<Rightarrow> ret cm
       | _ \<Rightarrow>
           bindA (wrapA ''create default topology resources in namespace %q: %w'' [ns]
                   (createDefaultTopologyResources api ns resourceName clusterName)) (\<lambda>_.
           wrapA ''get config map after creation in namespace %q: %w'' [ns]
             (cGet (api_configMaps api) (ns, resourceName)))))"

definition nodeNames :: "nodeSet \<Rightarrow> string list" where
  "nodeNames nodeSet = map (\<lambda>i. om_name (nset_meta nodeSet) @ ''-'' @ itoa (int i)) [0 ..< nat (nset_replicas nodeSet)]"

definition collectAllNodeNames :: "nodeSet list \<Rightarrow> string list" where
  "collectAllNodeNames nodeSetList = concat (map nodeNames nodeSetList)"

definition collectFabricByNode :: "nodeSet list \<Rightarrow> (string, string) gomap" where
  "collectFabricByNode nodeSetList =
     fold (\<lambda>nodeSet m.
       if nset_fabric nodeSet = [] then m
       else fold (\<lambda>name. mapPut name (nset_fabric nodeSet)) (nodeNames nodeSet) m) nodeSetList []"

definition listPods :: "'w topologyApi \<Rightarrow> labels \<Rightarrow> string \<Rightarrow> ('w, pod list) action" where
  "listPods api labelSelector ns =
     wrapA ''list pods in namespace %s with label selector %v: %w'' [ns] (cList (api_pods api) ns labelSelector)"

definition CollectWorkerPods :: "'w topologyApi \<Rightarrow> nodeSet list \<Rightarrow> string \<Rightarrow> ('w, pod list) action" where
  "CollectWorkerPods api nodeSetList ns =
     forA (\<lambda>nodeSet pods.
       bindA (wrapA ''list pods for NodeSet %s: %w'' [om_name (nset_meta nodeSet)]
               (listPods api [(LabelNodeSetKey, om_name (nset_meta nodeSet))] ns)) (\<lambda>items.
         ret (pods @ items))) nodeSetList []"

definition groupPodsByNode :: "pod list \<Rightarrow> (string, string list) gomap" where
  "groupPodsByNode pods =
     fold (\<lambda>p m. if pod_nodeName p = [] then m else mapAppend (pod_nodeName p) (om_name (pod_meta p)) m) pods []"

definition collectScheduledGPUPodsByNode ::
    "'w topologyApi \<Rightarrow> nodeSet list \<Rightarrow> string \<Rightarrow> ('w, (string, string list) gomap) action" where
  "collectScheduledGPUPodsByNode api nodeSetList ns =
     bindA (wrapA ''collect GPU worker pods: %w'' [] (CollectWorkerPods api (filter nset_gpuEnabled nodeSetList) ns)) (\<lambda>pods.
       ret (groupPodsByNode pods))"

definition getNodeTopologyLabelsConfigMap :: "'w topologyApi \<Rightarrow> string \<Rightarrow> ('w, configMap) action" where
  "getNodeTopologyLabelsConfigMap api operatorNs =
     wrapA ''get node topology labels config map in namespace %q: %w'' [operatorNs]
       (cGet (api_configMaps api) (operatorNs, ConfigMapNameTopologyNodeLabels))"

fun ParseNodeTopologyLabels ::
    "(string, string) gomap \<Rightarrow> (string, nodeTopologyLabels) gomap \<Rightarrow> goError + (string, nodeTopologyLabels) gomap" where
  "ParseNodeTopologyLabels [] result = Inr result"
| "ParseNodeTopologyLabels ((nodeName, jsonData) # data) result =
     (case unmarshalStringMap jsonData of
        Inl err \<Rightarrow> Inl (wrapErr ''parse topology labels for node %s: %w'' [nodeName] err)
      | Inr topology \<Rightarrow> ParseNodeTopologyLabels data (mapPut nodeName (case topology of None \<Rightarrow> [] | Some m \<Rightarrow> m) result))"

definition dataOf :: "configMap \<Rightarrow> (string, string) gomap" where
  "dataOf cm = (case cm_data cm of None \<Rightarrow> [] | Some d \<Rightarrow> d)"

definition joinLines :: "string list \<Rightarrow> string" where
  "joinLines lines = strJoin newline lines @ newline"

definition r_BuildTopologyBlocks ::
    "int option \<Rightarrow> configMap \<Rightarrow> (string, string list) gomap \<Rightarrow> string list \<Rightarrow> (string, string) gomap \<Rightarrow> goError + string" where
  "r_BuildTopologyBlocks blockSize topologyNodeLabelsCM gpuPodsByNode allNodeNames fabricByNode =
     (let bs = (case blockSize of None \<Rightarrow> defBlockSize | Some b \<Rightarrow> b) in
      case ParseNodeTopologyLabels (dataOf topologyNodeLabelsCM) [] of
        Inl err \<Rightarrow> Inl (wrapErr ''deserialize node block topology: %w'' [] err)
      | Inr labelsByNode \<Rightarrow>
          Inr (joinLines (blocksConfigLines (BuildTopologyBlocks labelsByNode gpuPodsByNode allNodeNames fabricByNode))
               @ ''BlockSizes='' @ itoa bs @ newline))"

definition r_BuildTopologyConfig ::
    "configMap \<Rightarrow> (string, string list) gomap \<Rightarrow> string list \<Rightarrow> (string, string) gomap \<Rightarrow> goError + string" where
  "r_BuildTopologyConfig topologyNodeLabelsCM gpuPodsByNode allNodeNames fabricByNode =
     (case ParseNodeTopologyLabels (dataOf topologyNodeLabelsCM) [] of
        Inl err \<Rightarrow> Inl (wrapErr ''deserialize node tree topology: %w'' [] err)
      | Inr labelsByNode \<Rightarrow>
          Inr (joinLines (graphConfigLines (BuildTopologyGraph labelsByNode gpuPodsByNode allNodeNames fabricByNode))))"

definition buildNodeSetTopologyConfig ::
    "'w topologyApi \<Rightarrow> string \<Rightarrow> string \<Rightarrow> slurmCluster \<Rightarrow> nodeSet list \<Rightarrow> ('w, string) action" where
  "buildNodeSetTopologyConfig api operatorNs ns slurmCluster nodeSetList =
     bindA (wrapA ''get node topology labels config map: %w'' [] (getNodeTopologyLabelsConfigMap api operatorNs)) (\<lambda>nodeTopologyCM.
     bindA (wrapA ''collect scheduled GPU pods: %w'' [] (collectScheduledGPUPodsByNode api nodeSetList ns)) (\<lambda>gpuPodsByNode.
       let allNodeNames = collectAllNodeNames nodeSetList; fabricByNode = collectFabricByNode nodeSetList in
       if sc_topologyPlugin slurmCluster = SlurmTopologyBlock
       then liftA (r_BuildTopologyBlocks (case sc_topology slurmCluster of None \<Rightarrow> None | Some t \<Rightarrow> t)
                    nodeTopologyCM gpuPodsByNode allNodeNames fabricByNode)
       else liftA (r_BuildTopologyConfig nodeTopologyCM gpuPodsByNode allNodeNames fabricByNode)))"

definition calculateConfigHash :: "string \<Rightarrow> string" where
  "calculateConfigHash config = hexEncode (sum256 (trimSpace config))"

definition ensureJailedConfig :: "'w topologyApi \<Rightarrow> string \<Rightarrow> string \<Rightarrow> string \<Rightarrow> ('w, unit) action" where
  "ensureJailedConfig api ns resourceName clusterName =
     (let desired = renderTopologyJailedConfig ns resourceName clusterName in
      bindA (getOptional (api_jailedConfigs api) (jcKey desired) ''get JailedConfig %s: %w'' [resourceName]) (\<lambda>found.
        case found of
          None \<Rightarrow> wrapA ''create JailedConfig %s: %w'' [resourceName] (cCreate (api_jailedConfigs api) desired)
        | Some existing \<Rightarrow>
            wrapA ''update JailedConfig %s: %w'' [om_name (jc_meta existing)]
              (cUpdate (api_jailedConfigs api)
                (existing\<lparr>jc_meta := (jc_meta existing)\<lparr>om_labels := om_labels (jc_meta desired)\<rparr>, jc_spec := jc_spec desired\<rparr>))))"

definition setData :: "string \<Rightarrow> string \<Rightarrow> configMap \<Rightarrow> goError + configMap" where
  "setData k v cm = (case cm_data cm of
     None \<Rightarrow> Inl (GoPanic ''assignment to entry in nil map'')
   | Some d \<Rightarrow> Inr (cm\<lparr>cm_data := Some (mapPut k v d)\<rparr>))"

definition updateTopologyConfigMap :: "'w topologyApi \<Rightarrow> string \<Rightarrow> string \<Rightarrow> string \<Rightarrow> string \<Rightarrow> ('w, unit) action" where
  "updateTopologyConfigMap api ns resourceName config clusterName =
     (let renderedConfig = renderManagedTopologyConfig config in
      bindA (getOptional (api_configMaps api) (ns, resourceName) ''get ConfigMap %s: %w'' [resourceName]) (\<lambda>found.
      bindA (case found of
               None \<Rightarrow> wrapA ''create ConfigMap %s: %w'' [resourceName]
                 (cCreate (api_configMaps api)
                   \<lparr>cm_meta = newMeta ns resourceName, cm_data = Some [(ConfigMapKeyTopologyConfig, renderedConfig)]\<rparr>)
             | Some existing \<Rightarrow>
                 bindA (liftA (setData ConfigMapKeyTopologyConfig renderedConfig existing)) (\<lambda>updated.
                   wrapA ''update ConfigMap %s: %w'' [om_name (cm_meta existing)] (cUpdate (api_configMaps api) updated))) (\<lambda>_.
        wrapA ''ensure JailedConfig: %w'' [] (ensureJailedConfig api ns resourceName clusterName))))"

definition applyTopology ::
    "'w topologyApi \<Rightarrow> string \<Rightarrow> string \<Rightarrow> string \<Rightarrow> configMap \<Rightarrow> string \<Rightarrow> ('w, int) action" where
  "applyTopology api ns topoConfigName clusterName existingTopologyConfig desiredTopology =
     (if trimSpace desiredTopology = [] then ret DefaultRequeueResult
      else
        let existingTopology = getStr (dataOf existingTopologyConfig) ConfigMapKeyTopologyConfig;
            desiredHash = calculateConfigHash (renderManagedTopologyConfig desiredTopology);
            existingHash = calculateConfigHash existingTopology
        in if desiredHash = existingHash
           then bindA (wrapA ''ensure JailedConfig: %w'' [] (ensureJailedConfig api ns topoConfigName clusterName)) (\<lambda>_.
                  ret DefaultRequeueResult)
           else bindA (wrapA ''update ConfigMap with topology config: %w'' []
                         (updateTopologyConfigMap api ns topoConfigName desiredTopology clusterName)) (\<lambda>_.
                  ret DefaultRequeueResult))"

definition Reconcile_workerTopology :: "'w topologyApi \<Rightarrow> string \<Rightarrow> objectKey \<Rightarrow> ('w, int) action" where
  "Reconcile_workerTopology api operatorNs req =
     bindA (wrapA ''get SlurmCluster %q in namespace %q: %w'' [snd req, fst req] (cGet (api_clusters api) req)) (\<lambda>slurmCluster.
       let clusterName = om_name (sc_meta slurmCluster) in
       if \<not> isClusterReconciliationNeeded slurmCluster then ret DefaultRequeueResult
       else
         bindA (wrapA ''resolve workload name prefix: %w'' []
                 (ResolveWorkloadNamePrefix (api_statefulSets api) (fst req) clusterName)) (\<lambda>namePrefix.
         let topoConfigName = BuildPrefixedName namePrefix ConfigMapNameTopologyConfig in
         bindA (wrapA ''list NodeSets: %w'' [] (ListNodeSetsByClusterRef (api_nodeSets api) (fst req, clusterName))) (\<lambda>nodeSetList.
         bindA (wrapA ''ensure worker topology ConfigMap: %w'' []
                 (EnsureWorkerTopologyConfigMap api (fst req) topoConfigName clusterName)) (\<lambda>existingTopologyConfig.
         bindA (wrapA ''build NodeSet topology config: %w'' []
                 (buildNodeSetTopologyConfig api operatorNs (fst req) slurmCluster nodeSetList)) (\<lambda>desiredTopology.
           applyTopology api (fst req) topoConfigName clusterName existingTopologyConfig desiredTopology)))))"

section \<open>Node names and fabrics\<close>

lemma dash_notin_itoa: "CHR ''-'' \<notin> set (itoa (int k))"
  using natToDigits_digits [of k] by (auto simp: itoa_def list_all_iff isDigitChar_def)

text \<open>A node name determines its NodeSet and its ordinal, even when NodeSet names contain dashes.\<close>

lemma nodeName_inj:
  assumes "a @ ''-'' @ itoa (int i) = b @ ''-'' @ itoa (int j)"
  shows "a = b \<and> i = j"
proof -
  have "Some (length a) = Some (length b)"
    using lastIndex_split [OF dash_notin_itoa, of a i] lastIndex_split [OF dash_notin_itoa, of b j] assms by simp
  with assms have "a = b" "itoa (int i) = itoa (int j)" by auto
  then show ?thesis by (simp add: itoa_def)
qed

lemma distinct_nodeNames: "distinct (nodeNames n)"
  by (auto simp: nodeNames_def distinct_map inj_on_def itoa_def)

lemma nodeNames_iff:
  "w \<in> set (nodeNames n) \<longleftrightarrow> (\<exists>i. int i < nset_replicas n \<and> w = om_name (nset_meta n) @ ''-'' @ itoa (int i))"
  by (force simp: nodeNames_def zless_nat_eq_int_zless)

lemma nodeNames_disjoint:
  assumes "w \<in> set (nodeNames n)" "w \<in> set (nodeNames m)"
  shows "om_name (nset_meta n) = om_name (nset_meta m)"
proof -
  from assms obtain i j where "w = om_name (nset_meta n) @ ''-'' @ itoa (int i)" "w = om_name (nset_meta m) @ ''-'' @ itoa (int j)"
    unfolding nodeNames_iff by blast
  then show ?thesis using nodeName_inj by metis
qed

lemma getStr_fold_mapPut: "getStr (fold (\<lambda>k. mapPut k v) ks m) k = (if k \<in> set ks then v else getStr m k)"
  by (induction ks arbitrary: m) (auto simp: go_map)

lemma getStr_collectFabric_fold:
  assumes "distinct (map (\<lambda>n. om_name (nset_meta n)) nss)"
  shows "getStr (fold (\<lambda>n m. if nset_fabric n = [] then m else fold (\<lambda>k. mapPut k (nset_fabric n)) (nodeNames n) m) nss m) w
    = (case find (\<lambda>n. w \<in> set (nodeNames n)) nss of
         Some n \<Rightarrow> if nset_fabric n = [] then getStr m w else nset_fabric n | None \<Rightarrow> getStr m w)"
  using assms
proof (induction nss arbitrary: m)
  case (Cons n nss)
  have "find (\<lambda>n. w \<in> set (nodeNames n)) nss = None" if wn: "w \<in> set (nodeNames n)"
    unfolding find_None_iff
  proof
    assume "\<exists>m. m \<in> set nss \<and> w \<in> set (nodeNames m)"
    then obtain m where m: "m \<in> set nss" "om_name (nset_meta n) = om_name (nset_meta m)"
      using nodeNames_disjoint [OF wn] by blast
    with Cons.prems show False by force
  qed
  with Cons show ?case by (simp add: getStr_fold_mapPut split: option.split)
qed simp

text \<open>
  The nodes of NodeSets with different names have different names, and each of them is assigned
  the fabric of its NodeSet, or the default fabric when the NodeSet names none.
\<close>

lemma nodeSet_names_and_fabrics:
  assumes "distinct (map (\<lambda>n. om_name (nset_meta n)) nss)"
  shows "distinct (collectAllNodeNames nss)
    \<and> (\<forall>n \<in> set nss. \<forall>w \<in> set (nodeNames n).
         fabricOf (collectFabricByNode nss) w = (if nset_fabric n = [] then defaultFabric else nset_fabric n))"
proof (intro conjI ballI)
  show "distinct (collectAllNodeNames nss)"
    using assms unfolding collectAllNodeNames_def
  proof (induction nss)
    case (Cons n nss)
    have "set (nodeNames n) \<inter> set (concat (map nodeNames nss)) = {}"
    proof (rule ccontr)
      assume "set (nodeNames n) \<inter> set (concat (map nodeNames nss)) \<noteq> {}"
      then obtain w m where "w \<in> set (nodeNames n)" "m \<in> set nss" "w \<in> set (nodeNames m)" by auto
      then have "om_name (nset_meta n) = om_name (nset_meta m)" "m \<in> set nss" using nodeNames_disjoint by blast+
      with Cons.prems show False by force
    qed
    with Cons show ?case by (simp add: distinct_nodeNames)
  qed simp
next
  fix n w assume n: "n \<in> set nss" and w: "w \<in> set (nodeNames n)"
  have "find (\<lambda>n. w \<in> set (nodeNames n)) nss = Some n"
    using assms n
  proof (induction nss)
    case (Cons m nss)
    show ?case
    proof (cases "w \<in> set (nodeNames m)")
      case True
      then have "om_name (nset_meta m) = om_name (nset_meta n)" using w by (rule nodeNames_disjoint)
      with Cons.prems have "m = n" by force
      with w show ?thesis by simp
    next
      case False
      then show ?thesis using Cons w by auto
    qed
  qed simp
  then have "getStr (collectFabricByNode nss) w = nset_fabric n"
    using getStr_collectFabric_fold [OF assms, of "[]" w] by (simp add: collectFabricByNode_def getStr_def)
  then show "fabricOf (collectFabricByNode nss) w = (if nset_fabric n = [] then defaultFabric else nset_fabric n)"
    by (simp add: fabricOf_def)
qed

lemma nodeSet_names_and_fabrics_witness:
  "let a = \<lparr>nset_meta = newMeta ''ns'' ''gpu'', nset_clusterName = ''c'', nset_replicas = 2, nset_fabric = ''fab'', nset_gpuEnabled = True\<rparr>;
       b = \<lparr>nset_meta = newMeta ''ns'' ''gpu-1'', nset_clusterName = ''c'', nset_replicas = 1, nset_fabric = [], nset_gpuEnabled = True\<rparr>
   in distinct (collectAllNodeNames [a, b]) \<and> fabricOf (collectFabricByNode [a, b]) ''gpu-1'' = ''fab''
      \<and> fabricOf (collectFabricByNode [a, b]) ''gpu-1-0'' = ''root''"
proof -
  let ?a = "\<lparr>nset_meta = newMeta ''ns'' ''gpu'', nset_clusterName = ''c'', nset_replicas = 2, nset_fabric = ''fab'', nset_gpuEnabled = True\<rparr>"
  let ?b = "\<lparr>nset_meta = newMeta ''ns'' ''gpu-1'', nset_clusterName = ''c'', nset_replicas = 1, nset_fabric = [], nset_gpuEnabled = True\<rparr>"
  have d: "distinct (map (\<lambda>n. om_name (nset_meta n)) [?a, ?b])" by code_simp
  have "''gpu-1'' \<in> set (nodeNames ?a)" "''gpu-1-0'' \<in> set (nodeNames ?b)" "defaultFabric = ''root''" by code_simp+
  then show ?thesis using nodeSet_names_and_fabrics [OF d] unfolding Let_def by simp
qed

section \<open>The objects a reconciliation leaves behind\<close>

lemma readOnly_get: "readOnly c \<Longrightarrow> cGet c k w = (r, w') \<Longrightarrow> w' = w"
  unfolding readOnly_def by (metis snd_conv)

lemma readOnly_list: "readOnly c \<Longrightarrow> cList c ns sel w = (r, w') \<Longrightarrow> w' = w"
  unfolding readOnly_def by (metis snd_conv)

definition lawfulTopologyApi ::
    "'w topologyApi \<Rightarrow> ('w \<Rightarrow> objectKey \<Rightarrow> configMap option) \<Rightarrow> ('w \<Rightarrow> objectKey \<Rightarrow> jailedConfig option) \<Rightarrow> bool" where
  "lawfulTopologyApi api cms jcs \<longleftrightarrow>
     readOnly (api_clusters api) \<and> readOnly (api_nodeSets api) \<and> readOnly (api_pods api) \<and> readOnly (api_statefulSets api)
     \<and> lawfulGet (api_configMaps api) cmKey cms \<and> lawfulWrite (api_configMaps api) cmKey cms jcs
     \<and> lawfulGet (api_jailedConfigs api) jcKey jcs \<and> lawfulWrite (api_jailedConfigs api) jcKey jcs cms"

lemma lawfulTopologyApiD:
  assumes "lawfulTopologyApi api cms jcs"
  shows "readOnly (api_clusters api)" "readOnly (api_nodeSets api)" "readOnly (api_pods api)" "readOnly (api_statefulSets api)"
    "lawfulGet (api_configMaps api) cmKey cms" "lawfulWrite (api_configMaps api) cmKey cms jcs"
    "lawfulGet (api_jailedConfigs api) jcKey jcs" "lawfulWrite (api_jailedConfigs api) jcKey jcs cms"
  using assms by (auto simp: lawfulTopologyApi_def)

lemma keys_rendered [simp]:
  "cmKey (renderTopologyConfigMap ns name config) = (ns, name)"
  "jcKey (renderTopologyJailedConfig ns name clusterName) = (ns, name)"
  by (simp_all add: cmKey_def jcKey_def metaKey_def newMeta_def renderTopologyConfigMap_def renderTopologyJailedConfig_def)

lemma ensureJailedConfig_stores:
  assumes L: "lawfulTopologyApi api cms jcs" and run: "ensureJailedConfig api ns name clusterName w = (Inr u, w')"
  shows "cms w' = cms w \<and> (\<exists>jc. jcs w' (ns, name) = Some jc
    \<and> jc_spec jc = jc_spec (renderTopologyJailedConfig ns name clusterName)
    \<and> om_labels (jc_meta jc) = om_labels (jc_meta (renderTopologyJailedConfig ns name clusterName)))"
proof -
  note L = lawfulTopologyApiD [OF L]
  let ?d = "renderTopologyJailedConfig ns name clusterName"
  from run obtain found v where found: "getOptional (api_jailedConfigs api) (ns, name) ''get JailedConfig %s: %w'' [name] w = (Inr found, v)"
    and rest: "(case found of
        None \<Rightarrow> wrapA ''create JailedConfig %s: %w'' [name] (cCreate (api_jailedConfigs api) ?d)
      | Some x \<Rightarrow> wrapA ''update JailedConfig %s: %w'' [om_name (jc_meta x)]
          (cUpdate (api_jailedConfigs api) (x\<lparr>jc_meta := (jc_meta x)\<lparr>om_labels := om_labels (jc_meta ?d)\<rparr>, jc_spec := jc_spec ?d\<rparr>))) v
      = (Inr u, w')"
    unfolding ensureJailedConfig_def Let_def bindA_success keys_rendered by blast
  have v: "v = w" using getOptional_lawful [OF L(7) found] by simp
  show ?thesis
  proof (cases found)
    case None
    then have "cCreate (api_jailedConfigs api) ?d w = (Inr u, w')" using rest v by (simp add: wrapA_success)
    then show ?thesis using lawful_create_Inr [OF L(8)] by fastforce
  next
    case (Some x)
    let ?x = "x\<lparr>jc_meta := (jc_meta x)\<lparr>om_labels := om_labels (jc_meta ?d)\<rparr>, jc_spec := jc_spec ?d\<rparr>"
    have "jcKey x = (ns, name)" using getOptional_lawful [OF L(7) found] Some by simp
    then have "jcKey ?x = (ns, name)" by (simp add: jcKey_def metaKey_def)
    moreover have "cUpdate (api_jailedConfigs api) ?x w = (Inr u, w')" using rest Some v by (simp add: wrapA_success)
    ultimately show ?thesis using lawful_update_Inr [OF L(8), of ?x w u w'] by auto
  qed
qed

text \<open>What the update stores: the rendered configuration under the key of topology.conf.\<close>

lemma updateTopologyConfigMap_stores:
  assumes L: "lawfulTopologyApi api cms jcs" and run: "updateTopologyConfigMap api ns name config clusterName w = (Inr u, w')"
  shows "(\<exists>cm. cms w' (ns, name) = Some cm \<and> getStr (dataOf cm) ConfigMapKeyTopologyConfig = renderManagedTopologyConfig config)
    \<and> (\<exists>jc. jcs w' (ns, name) = Some jc \<and> jc_spec jc = jc_spec (renderTopologyJailedConfig ns name clusterName)
        \<and> om_labels (jc_meta jc) = om_labels (jc_meta (renderTopologyJailedConfig ns name clusterName)))"
proof -
  note l = lawfulTopologyApiD [OF L]
  let ?r = "renderManagedTopologyConfig config"
  let ?new = "\<lparr>cm_meta = newMeta ns name, cm_data = Some [(ConfigMapKeyTopologyConfig, ?r)]\<rparr>"
  from run obtain found v0 v u' where
    found: "getOptional (api_configMaps api) (ns, name) ''get ConfigMap %s: %w'' [name] w = (Inr found, v0)"
    and wrt: "(case found of
        None \<Rightarrow> wrapA ''create ConfigMap %s: %w'' [name] (cCreate (api_configMaps api) ?new)
      | Some x \<Rightarrow> bindA (liftA (setData ConfigMapKeyTopologyConfig ?r x)) (\<lambda>y.
          wrapA ''update ConfigMap %s: %w'' [om_name (cm_meta x)] (cUpdate (api_configMaps api) y))) v0 = (Inr u', v)"
    and jail: "ensureJailedConfig api ns name clusterName v = (Inr u, w')"
    unfolding updateTopologyConfigMap_def Let_def bindA_success wrapA_success
    by blast
  have v0: "v0 = w" using getOptional_lawful [OF l(5) found] by simp
  have "\<exists>cm. cms v (ns, name) = Some cm \<and> getStr (dataOf cm) ConfigMapKeyTopologyConfig = ?r"
  proof (cases found)
    case None
    then have "cCreate (api_configMaps api) ?new w = (Inr (), v)" using wrt v0 by (simp add: wrapA_success)
    moreover have "cmKey ?new = (ns, name)" by (simp add: cmKey_def metaKey_def newMeta_def)
    ultimately show ?thesis
      using lawful_create_Inr [OF l(6), of ?new w "()" v] by (simp add: dataOf_def getStr_def)
  next
    case (Some x)
    have key: "cmKey x = (ns, name)" using getOptional_lawful [OF l(5) found] Some by simp
    from wrt Some v0 obtain d where d: "cm_data x = Some d"
      and up: "cUpdate (api_configMaps api) (x\<lparr>cm_data := Some (mapPut ConfigMapKeyTopologyConfig ?r d)\<rparr>) w = (Inr (), v)"
      by (auto simp: bindA_success wrapA_success setData_def split: option.splits)
    have "cmKey (x\<lparr>cm_data := Some (mapPut ConfigMapKeyTopologyConfig ?r d)\<rparr>) = (ns, name)"
      using key by (simp add: cmKey_def)
    then show ?thesis using lawful_update_Inr [OF l(6) up] by (simp add: dataOf_def go_map)
  qed
  then show ?thesis using ensureJailedConfig_stores [OF L jail] by simp
qed

lemma applyTopology_stores:
  assumes L: "lawfulTopologyApi api cms jcs" and run: "applyTopology api ns name clusterName cm0 desired w = (Inr r, w')"
    and e: "cms w (ns, name) = Some cm0" "jcs w (ns, name) \<noteq> None"
  shows "\<exists>cm jc. cms w' (ns, name) = Some cm \<and> jcs w' (ns, name) = Some jc
      \<and> (trimSpace desired \<noteq> [] \<longrightarrow>
           calculateConfigHash (getStr (dataOf cm) ConfigMapKeyTopologyConfig) = calculateConfigHash (renderManagedTopologyConfig desired)
           \<and> jc_spec jc = jc_spec (renderTopologyJailedConfig ns name clusterName))"
proof (cases "trimSpace desired = []")
  case True
  then show ?thesis using run e by (auto simp: applyTopology_def)
next
  case blank: False
  show ?thesis
  proof (cases "calculateConfigHash (renderManagedTopologyConfig desired)
      = calculateConfigHash (getStr (dataOf cm0) ConfigMapKeyTopologyConfig)")
    case True
    then obtain u where "ensureJailedConfig api ns name clusterName w = (Inr u, w')"
      using run blank by (auto simp: applyTopology_def bindA_success wrapA_success)
    then show ?thesis using ensureJailedConfig_stores [OF L] True e(1) by fastforce
  next
    case False
    then obtain u where "updateTopologyConfigMap api ns name desired clusterName w = (Inr u, w')"
      using run blank by (auto simp: applyTopology_def bindA_success wrapA_success)
    then show ?thesis using updateTopologyConfigMap_stores [OF L] by fastforce
  qed
qed

text \<open>Collecting the inputs reads only.\<close>

lemma keeps_readOnly: "readOnly c \<Longrightarrow> keepsWorld (cGet c k)" "readOnly c \<Longrightarrow> keepsWorld (cList c ns sel)"
  unfolding keepsWorld_def readOnly_def by blast+

lemma keeps_lawfulGet: "lawfulGet c key objs \<Longrightarrow> keepsWorld (cGet c k)"
  unfolding keepsWorld_def
  by (metis lawful_get_Inl lawful_get_Inr old.sum.exhaust prod.exhaust_sel)

lemma build_keeps:
  assumes "lawfulTopologyApi api cms jcs"
  shows "keepsWorld (buildNodeSetTopologyConfig api operatorNs ns c nss)"
proof -
  note l = lawfulTopologyApiD [OF assms]
  have "keepsWorld (collectScheduledGPUPodsByNode api nss ns)"
    unfolding collectScheduledGPUPodsByNode_def CollectWorkerPods_def listPods_def
    by (intro keeps keeps_readOnly l)
  then show ?thesis
    unfolding buildNodeSetTopologyConfig_def getNodeTopologyLabelsConfigMap_def Let_def
    by (intro keeps keeps_lawfulGet [OF l(5)]) auto
qed

lemma Ensure_stores:
  assumes L: "lawfulTopologyApi api cms jcs" and run: "EnsureWorkerTopologyConfigMap api ns name clusterName w = (Inr cm, w')"
  shows "cms w' (ns, name) = Some cm \<and> jcs w' (ns, name) \<noteq> None"
proof -
  note l = lawfulTopologyApiD [OF L]
  from run obtain fc v fj v' where
    fc: "getOptional (api_configMaps api) (ns, name) ''get ConfigMap %s: %w'' [name] w = (Inr fc, v)" and
    fj: "getOptional (api_jailedConfigs api) (ns, name) ''get JailedConfig %s: %w'' [name] v = (Inr fj, v')" and
    rest: "(case (fc, fj) of (Some cm, Some _) \<Rightarrow> ret cm
       | _ \<Rightarrow> bindA (wrapA ''create default topology resources in namespace %q: %w'' [ns]
                   (createDefaultTopologyResources api ns name clusterName)) (\<lambda>_.
             wrapA ''get config map after creation in namespace %q: %w'' [ns] (cGet (api_configMaps api) (ns, name)))) v' = (Inr cm, w')"
    unfolding EnsureWorkerTopologyConfigMap_def bindA_success by blast
  have v: "v = w" "v' = w" "cms w (ns, name) = fc" "jcs w (ns, name) = fj"
    using getOptional_lawful [OF l(5) fc] getOptional_lawful [OF l(7) fj] by auto
  show ?thesis
  proof (cases "fc \<noteq> None \<and> fj \<noteq> None")
    case True
    with rest v show ?thesis by auto
  next
    case False
    with rest obtain u x where create: "createDefaultTopologyResources api ns name clusterName v' = (Inr u, x)"
      and get: "cGet (api_configMaps api) (ns, name) x = (Inr cm, w')"
      by (auto simp: bindA_success wrapA_success split: option.splits)
    from create obtain u' y where
      c1: "createIfAbsent (api_configMaps api) (renderTopologyConfigMap ns name ''SwitchName=root'') ''create ConfigMap %s: %w'' [name] v' = (Inr u', y)" and
      c2: "createIfAbsent (api_jailedConfigs api) (renderTopologyJailedConfig ns name clusterName) ''create JailedConfig %s: %w'' [name] y = (Inr u, x)"
      unfolding createDefaultTopologyResources_def bindA_success by blast
    have "jcs x (ns, name) \<noteq> None" using createIfAbsent_lawful [OF l(8) c2] by simp
    then show ?thesis using lawful_get_Inr [OF l(5) get] by simp
  qed
qed

lemma ResolveWorkloadNamePrefix_prefix:
  assumes "ResolveWorkloadNamePrefix c ns name w = (Inr prefix, w')"
  shows "prefix = [] \<or> prefix = name"
proof -
  obtain r v where "cGet c (ns, ComponentTypeController) w = (r, v)" by fastforce
  then show ?thesis using assms by (cases r) (auto simp: ResolveWorkloadNamePrefix_def tryA_def split: if_splits)
qed


text \<open>A cluster in memory.\<close>

record topologyWorld =
  tw_clusters :: "slurmCluster list"
  tw_nodeSets :: "nodeSet list"
  tw_pods :: "pod list"
  tw_statefulSets :: "statefulSet list"
  tw_configMaps :: "configMap list"
  tw_jailedConfigs :: "jailedConfig list"

definition memTopologyApi :: "topologyWorld topologyApi" where
  "memTopologyApi = \<lparr>
     api_clusters = memClient tw_clusters (\<lambda>x. tw_clusters_update (\<lambda>_. x)) (\<lambda>c. metaKey (sc_meta c)) (\<lambda>c. om_labels (sc_meta c)),
     api_nodeSets = memClient tw_nodeSets (\<lambda>x. tw_nodeSets_update (\<lambda>_. x)) (\<lambda>c. metaKey (nset_meta c)) (\<lambda>c. om_labels (nset_meta c)),
     api_pods = memClient tw_pods (\<lambda>x. tw_pods_update (\<lambda>_. x)) (\<lambda>c. metaKey (pod_meta c)) (\<lambda>c. om_labels (pod_meta c)),
     api_statefulSets = memClient tw_statefulSets (\<lambda>x. tw_statefulSets_update (\<lambda>_. x)) (\<lambda>c. metaKey (sts_meta c)) (\<lambda>c. om_labels (sts_meta c)),
     api_configMaps = memClient tw_configMaps (\<lambda>x. tw_configMaps_update (\<lambda>_. x)) cmKey (\<lambda>c. om_labels (cm_meta c)),
     api_jailedConfigs = memClient tw_jailedConfigs (\<lambda>x. tw_jailedConfigs_update (\<lambda>_. x)) jcKey (\<lambda>c. om_labels (jc_meta c))\<rparr>"

lemma memTopologyApi_lawful:
  "lawfulTopologyApi memTopologyApi (\<lambda>w. memFind cmKey (tw_configMaps w)) (\<lambda>w. memFind jcKey (tw_jailedConfigs w))"
  by (simp add: lawfulTopologyApi_def memTopologyApi_def memClient_readOnly memClient_lawfulGet memClient_lawfulWrite)

definition exampleConf :: string where
  "exampleConf = joinLines [''SwitchName=root Switches=unknown'', ''SwitchName=unknown Nodes=w-0'']"

definition exampleCM :: configMap where
  "exampleCM = \<lparr>cm_meta = newMeta ''ns'' ''c-topology-config'',
     cm_data = Some [(ConfigMapKeyTopologyConfig, renderManagedTopologyConfig exampleConf)]\<rparr>"

definition exampleWorld :: topologyWorld where
  "exampleWorld = \<lparr>
     tw_clusters = [\<lparr>sc_meta = newMeta ''ns'' ''c'', sc_topologyPlugin = ''topology/tree'', sc_topology = None\<rparr>],
     tw_nodeSets = [\<lparr>nset_meta = newMeta ''ns'' ''w'', nset_clusterName = ''c'', nset_replicas = 1, nset_fabric = [], nset_gpuEnabled = True\<rparr>],
     tw_pods = [\<lparr>pod_meta = (newMeta ''ns'' ''w-0'')\<lparr>om_labels := [(LabelNodeSetKey, ''w'')]\<rparr>, pod_nodeName = ''n''\<rparr>],
     tw_statefulSets = [],
     tw_configMaps = [exampleCM, \<lparr>cm_meta = newMeta ''op'' ''topology-node-labels'', cm_data = Some []\<rparr>],
     tw_jailedConfigs = [renderTopologyJailedConfig ''ns'' ''c-topology-config'' ''c'']\<rparr>"

lemma exampleWorld_run:
  "Reconcile_workerTopology memTopologyApi ''op'' (''ns'', ''c'') exampleWorld = (Inr 60, exampleWorld)"
proof -
  let ?w = exampleWorld and ?api = memTopologyApi and ?c = "hd (tw_clusters exampleWorld)" and ?nss = "tw_nodeSets exampleWorld"
  have steps: "cGet (api_clusters ?api) (''ns'', ''c'') ?w = (Inr ?c, ?w)"
    "isClusterReconciliationNeeded ?c" "om_name (sc_meta ?c) = ''c''"
    "ResolveWorkloadNamePrefix (api_statefulSets ?api) ''ns'' ''c'' ?w = (Inr ''c'', ?w)"
    "BuildPrefixedName ''c'' ConfigMapNameTopologyConfig = ''c-topology-config''"
    "ListNodeSetsByClusterRef (api_nodeSets ?api) (''ns'', ''c'') ?w = (Inr ?nss, ?w)"
    "EnsureWorkerTopologyConfigMap ?api ''ns'' ''c-topology-config'' ''c'' ?w = (Inr exampleCM, ?w)"
    "buildNodeSetTopologyConfig ?api ''op'' ''ns'' ?c ?nss ?w = (Inr exampleConf, ?w)"
    "ensureJailedConfig ?api ''ns'' ''c-topology-config'' ''c'' ?w = (Inr (), ?w)"
    "trimSpace exampleConf \<noteq> []"
    "getStr (dataOf exampleCM) ConfigMapKeyTopologyConfig = renderManagedTopologyConfig exampleConf"
    by code_simp+
  then show ?thesis
    by (simp add: Reconcile_workerTopology_def applyTopology_def bindA_def wrapA_def DefaultRequeueResult_def Let_def)
qed


text \<open>
  When the stored ConfigMap has no data the update of topology.conf panics on the nil map: nothing
  is written and the error is not reported as an error value.
\<close>

lemma updateTopologyConfigMap_nil_data:
  assumes "cGet (api_configMaps api) (ns, name) w = (Inr cm, w)" "cm_data cm = None"
  shows "updateTopologyConfigMap api ns name config clusterName w = (Inl (GoPanic ''assignment to entry in nil map''), w)"
  using assms by (simp add: updateTopologyConfigMap_def getOptional_def tryA_def bindA_def setData_def Let_def)

lemma updateTopologyConfigMap_nil_data_witness:
  "let w = exampleWorld\<lparr>tw_configMaps := [exampleCM\<lparr>cm_data := None\<rparr>]\<rparr>
   in updateTopologyConfigMap memTopologyApi ''ns'' ''c-topology-config'' exampleConf ''c'' w
        = (Inl (GoPanic ''assignment to entry in nil map''), w)"
proof -
  let ?w = "exampleWorld\<lparr>tw_configMaps := [exampleCM\<lparr>cm_data := None\<rparr>]\<rparr>"
  have "cGet (api_configMaps memTopologyApi) (''ns'', ''c-topology-config'') ?w = (Inr (exampleCM\<lparr>cm_data := None\<rparr>), ?w)"
    by code_simp
  then show ?thesis unfolding Let_def by (rule updateTopologyConfigMap_nil_data) simp
qed

end
