(* ===== verification/Node_Topology.thy ===== *)
theory Node_Topology
  imports Worker_Topology
begin

text \<open>
  The node topology controller of internal/controller/topologyconfcontroller. It collects the tier
  labels of the Kubernetes nodes into a ConfigMap that a ResourceDistribution copies to the namespaces
  of the clusters, where the worker topology controller reads it.

  Parameters: the Kubernetes client, the paginated node list, the JSON form of a ConfigMap object
  (corev1.ConfigMap) and client-go's RetryOnConflict.
\<close>

section \<open>Objects and parameters\<close>

record k8sNode =
  node_meta :: objectMeta

record resourceDistribution =
  rd_meta :: objectMeta
  rd_raw :: "string option"
  rd_namespaces :: "string list"

definition rdKey :: "resourceDistribution \<Rightarrow> objectKey" where
  "rdKey rd = metaKey (rd_meta rd)"

record 'w nodeTopologyApi =
  nt_nodes :: "('w, k8sNode) kindClient"
  nt_rds :: "('w, resourceDistribution) kindClient"
  nt_clusters :: "('w, slurmCluster) kindClient"
  nt_listPage :: "string \<Rightarrow> ('w, k8sNode list \<times> string) action"
  nt_marshalCM :: "(string, string) gomap \<Rightarrow> string"
  nt_unmarshalCM :: "string \<Rightarrow> goError + (string, string) gomap option"
  nt_retryOnConflict :: "('w, unit) action \<Rightarrow> ('w, unit) action"

text \<open>The fields of the reconciler: the operator namespace and the label prefix.\<close>

record nodeTopologyReconciler =
  ntr_Namespace :: string
  ntr_topologyLabelPrefix :: string

definition TierZeroSuffix :: string where "TierZeroSuffix = ''/tier-0''"
definition TierOneSuffix :: string where "TierOneSuffix = ''/tier-1''"
definition ResourceDistributionNameTopology :: string where "ResourceDistributionNameTopology = ''topology-soperator''"

section \<open>nodetopology\_controller.go\<close>

definition tierZeroLabel :: "nodeTopologyReconciler \<Rightarrow> string" where
  "tierZeroLabel r = ntr_topologyLabelPrefix r @ TierZeroSuffix"

definition tierOneLabel :: "nodeTopologyReconciler \<Rightarrow> string" where
  "tierOneLabel r = ntr_topologyLabelPrefix r @ TierOneSuffix"

definition getNode :: "'w nodeTopologyApi \<Rightarrow> string \<Rightarrow> ('w, k8sNode) action" where
  "getNode api nodeName = cGet (nt_nodes api) ([], nodeName)"

definition shouldProcessNode :: "nodeTopologyReconciler \<Rightarrow> labels \<Rightarrow> bool" where
  "shouldProcessNode r labels =
     (let hasTierZero = map_of labels (tierZeroLabel r) \<noteq> None; hasTierOne = map_of labels (tierOneLabel r) \<noteq> None
      in \<not> (\<not> hasTierZero \<and> \<not> hasTierOne))"

definition tierName :: "string \<Rightarrow> string" where
  "tierName key = (case lastIndex (CHR ''/'') key of None \<Rightarrow> key | Some i \<Rightarrow> drop (i + 1) key)"

definition ExtractTierLabels :: "labels \<Rightarrow> string \<Rightarrow> (string, string) gomap" where
  "ExtractTierLabels k8sNodeLabels topologyLabelPrefix =
     fold (\<lambda>(key, value) tierLabels.
       if contains key (topologyLabelPrefix @ ''/tier-'') then mapPut (tierName key) value tierLabels else tierLabels)
       k8sNodeLabels []"

definition extractTierData :: "nodeTopologyReconciler \<Rightarrow> labels \<Rightarrow> string \<Rightarrow> goError + (string, string) gomap" where
  "extractTierData r labels nodeName =
     (let tierData = ExtractTierLabels labels (ntr_topologyLabelPrefix r) in
      if tierData = [] then Inl (Errorf ''node %s has no tier labels'' [nodeName]) else Inr tierData)"

definition getConfigMapDataFromResourceDistribution ::
    "'w nodeTopologyApi \<Rightarrow> resourceDistribution \<Rightarrow> goError + (string, string) gomap" where
  "getConfigMapDataFromResourceDistribution api rd = (case rd_raw rd of
     None \<Rightarrow> Inr []
   | Some raw \<Rightarrow> (case nt_unmarshalCM api raw of
         Inl err \<Rightarrow> Inl (wrapErr ''unmarshal ConfigMap from ResourceDistribution: %w'' [] err)
       | Inr None \<Rightarrow> Inr []
       | Inr (Some d) \<Rightarrow> Inr d))"

definition getTargetNamespaces :: "'w nodeTopologyApi \<Rightarrow> nodeTopologyReconciler \<Rightarrow> ('w, string list) action" where
  "getTargetNamespaces api r =
     bindA (wrapA ''list SlurmClusters: %w'' [] (cList (nt_clusters api) [] [])) (\<lambda>clusters.
       ret (fold (\<lambda>c. setAdd (om_namespace (sc_meta c))) clusters [ntr_Namespace r]))"

definition updateResourceDistributionWithData ::
    "'w nodeTopologyApi \<Rightarrow> nodeTopologyReconciler \<Rightarrow> resourceDistribution \<Rightarrow> (string, string) gomap \<Rightarrow> ('w, unit) action" where
  "updateResourceDistributionWithData api r rd configMapData =
     bindA (wrapA ''get target namespaces: %w'' [] (getTargetNamespaces api r)) (\<lambda>targetNamespaces.
       wrapA ''update ResourceDistribution %s: %w'' [om_name (rd_meta rd)]
         (cUpdate (nt_rds api) (rd\<lparr>rd_raw := Some (nt_marshalCM api configMapData), rd_namespaces := targetNamespaces\<rparr>)))"

definition removeOnce :: "'w nodeTopologyApi \<Rightarrow> nodeTopologyReconciler \<Rightarrow> string \<Rightarrow> string \<Rightarrow> ('w, unit) action" where
  "removeOnce api r nodeName rdName =
     bindA (wrapA ''get latest ResourceDistribution: %w'' [] (cGet (nt_rds api) ([], rdName))) (\<lambda>latestRd.
     bindA (liftA (getConfigMapDataFromResourceDistribution api latestRd)) (\<lambda>configMapData.
       if map_of configMapData nodeName = None then ret ()
       else updateResourceDistributionWithData api r latestRd (mapDelete nodeName configMapData)))"

definition RemoveNodeFromResourceDistribution ::
    "'w nodeTopologyApi \<Rightarrow> nodeTopologyReconciler \<Rightarrow> string \<Rightarrow> resourceDistribution \<Rightarrow> ('w, unit) action" where
  "RemoveNodeFromResourceDistribution api r nodeName rd =
     nt_retryOnConflict api (removeOnce api r nodeName (om_name (rd_meta rd)))"

definition updateOnce :: "'w nodeTopologyApi \<Rightarrow> nodeTopologyReconciler \<Rightarrow> string \<Rightarrow> string \<Rightarrow> string \<Rightarrow> ('w, unit) action" where
  "updateOnce api r nodeName tierDataJSON rdName =
     bindA (wrapA ''get latest ResourceDistribution: %w'' [] (cGet (nt_rds api) ([], rdName))) (\<lambda>latestRd.
     bindA (liftA (getConfigMapDataFromResourceDistribution api latestRd)) (\<lambda>configMapData.
       updateResourceDistributionWithData api r latestRd (mapPut nodeName tierDataJSON configMapData)))"

text \<open>The encoding of a map of strings does not fail, so its error branch is never taken.\<close>

definition UpdateResourceDistribution ::
    "'w nodeTopologyApi \<Rightarrow> nodeTopologyReconciler \<Rightarrow> string \<Rightarrow> (string, string) gomap \<Rightarrow> resourceDistribution \<Rightarrow> ('w, unit) action" where
  "UpdateResourceDistribution api r nodeName tierData rd =
     nt_retryOnConflict api (updateOnce api r nodeName (marshalStringMap (Some tierData)) (om_name (rd_meta rd)))"

definition recordNode :: "nodeTopologyReconciler \<Rightarrow> k8sNode \<Rightarrow> (string, string) gomap \<Rightarrow> (string, string) gomap" where
  "recordNode r node configMapData =
     (let labels = om_labels (node_meta node); tierData = ExtractTierLabels labels (ntr_topologyLabelPrefix r) in
      if map_of labels (tierOneLabel r) \<noteq> None \<and> tierData \<noteq> []
      then mapPut (om_name (node_meta node)) (marshalStringMap (Some tierData)) configMapData else configMapData)"

text \<open>The loop over the pages of the node list ends with an empty continue token.\<close>

fun listNodes :: "nat \<Rightarrow> 'w nodeTopologyApi \<Rightarrow> nodeTopologyReconciler \<Rightarrow> string \<Rightarrow> (string, string) gomap
    \<Rightarrow> ('w, (string, string) gomap) action" where
  "listNodes 0 api r continueToken configMapData = raise NoReturn"
| "listNodes (Suc fuel) api r continueToken configMapData =
     bindA (wrapA ''list nodes: %w'' [] (nt_listPage api continueToken)) (\<lambda>(items, next).
       let configMapData' = fold (recordNode r) items configMapData in
       if next = [] then ret configMapData' else listNodes fuel api r next configMapData')"

definition initializeResourceDistributionWithAllNodes ::
    "nat \<Rightarrow> 'w nodeTopologyApi \<Rightarrow> nodeTopologyReconciler \<Rightarrow> ('w, resourceDistribution) action" where
  "initializeResourceDistributionWithAllNodes fuel api r =
     bindA (listNodes fuel api r [] []) (\<lambda>configMapData.
     bindA (wrapA ''get target namespaces: %w'' [] (getTargetNamespaces api r)) (\<lambda>targetNamespaces.
       let rd = \<lparr>rd_meta = newMeta [] ResourceDistributionNameTopology,
                 rd_raw = Some (nt_marshalCM api configMapData), rd_namespaces = targetNamespaces\<rparr>
       in bindA (wrapA ''create ResourceDistribution: %w'' [] (cCreate (nt_rds api) rd)) (\<lambda>_. ret rd)))"

definition GetOrCreateTopologyResourceDistribution ::
    "nat \<Rightarrow> 'w nodeTopologyApi \<Rightarrow> nodeTopologyReconciler \<Rightarrow> ('w, resourceDistribution) action" where
  "GetOrCreateTopologyResourceDistribution fuel api r =
     bindA (getOptional (nt_rds api) ([], ResourceDistributionNameTopology) ''get ResourceDistribution: %w'' []) (\<lambda>found.
       case found of
         Some rd \<Rightarrow> ret rd
       | None \<Rightarrow> wrapA ''initialize ResourceDistribution with all nodes: %w'' []
           (initializeResourceDistributionWithAllNodes fuel api r))"

definition Reconcile_nodeTopology :: "nat \<Rightarrow> 'w nodeTopologyApi \<Rightarrow> nodeTopologyReconciler \<Rightarrow> string \<Rightarrow> ('w, unit) action" where
  "Reconcile_nodeTopology fuel api r nodeName =
     bindA (GetOrCreateTopologyResourceDistribution fuel api r) (\<lambda>rd.
       tryA (getNode api nodeName) (\<lambda>res. case res of
           Inl err \<Rightarrow> if IsNotFound err then RemoveNodeFromResourceDistribution api r nodeName rd else raise err
         | Inr node \<Rightarrow>
             let labels = om_labels (node_meta node) in
             if \<not> shouldProcessNode r labels then ret ()
             else bindA (liftA (extractTierData r labels nodeName)) (\<lambda>tierData.
                    UpdateResourceDistribution api r nodeName tierData rd)))"

text \<open>The watch predicates on nodes.\<close>

definition nodeCreated :: "nodeTopologyReconciler \<Rightarrow> labels \<Rightarrow> bool" where
  "nodeCreated r labels = (map_of labels (tierOneLabel r) \<noteq> None)"

definition nodeUpdated :: "nodeTopologyReconciler \<Rightarrow> labels \<Rightarrow> labels \<Rightarrow> bool" where
  "nodeUpdated r oldLabels newLabels =
     (let new = map_of newLabels (tierOneLabel r); old = map_of oldLabels (tierOneLabel r)
      in (new \<noteq> None \<and> old = None) \<or> (new = None \<and> old \<noteq> None) \<or> (new \<noteq> None \<and> old \<noteq> None \<and> new \<noteq> old))"

text \<open>The handlers of the other watches log their errors and enqueue nothing.\<close>

definition logError :: "('w, 'a) action \<Rightarrow> ('w, unit) action" where
  "logError m = tryA m (\<lambda>_. ret ())"

definition reconcileResourceDistributionToRequests ::
    "nat \<Rightarrow> 'w nodeTopologyApi \<Rightarrow> nodeTopologyReconciler \<Rightarrow> resourceDistribution \<Rightarrow> ('w, unit) action" where
  "reconcileResourceDistributionToRequests fuel api r rd =
     (if om_name (rd_meta rd) = ResourceDistributionNameTopology
      then logError (initializeResourceDistributionWithAllNodes fuel api r) else ret ())"

definition reconcileSlurmClusterToRequests :: "'w nodeTopologyApi \<Rightarrow> nodeTopologyReconciler \<Rightarrow> ('w, unit) action" where
  "reconcileSlurmClusterToRequests api r =
     tryA (cGet (nt_rds api) ([], ResourceDistributionNameTopology)) (\<lambda>res. case res of
         Inl err \<Rightarrow> ret ()
       | Inr rd \<Rightarrow> (case getConfigMapDataFromResourceDistribution api rd of
             Inl err \<Rightarrow> ret ()
           | Inr configMapData \<Rightarrow> logError (updateResourceDistributionWithData api r rd configMapData)))"

definition Start_nodeTopology :: "nat \<Rightarrow> 'w nodeTopologyApi \<Rightarrow> nodeTopologyReconciler \<Rightarrow> ('w, unit) action" where
  "Start_nodeTopology fuel api r =
     bindA (getOptional (nt_rds api) ([], ResourceDistributionNameTopology) ''check ResourceDistribution existence: %w'' []) (\<lambda>found.
       case found of
         Some _ \<Rightarrow> ret ()
       | None \<Rightarrow> bindA (wrapA ''create ResourceDistribution: %w'' [] (GetOrCreateTopologyResourceDistribution fuel api r)) (\<lambda>_. ret ()))"

definition GetOrCreateTopologyLabelsConfigMap :: "nat \<Rightarrow> 'w nodeTopologyApi \<Rightarrow> nodeTopologyReconciler \<Rightarrow> ('w, configMap) action" where
  "GetOrCreateTopologyLabelsConfigMap fuel api r =
     bindA (GetOrCreateTopologyResourceDistribution fuel api r) (\<lambda>rd.
     bindA (liftA (getConfigMapDataFromResourceDistribution api rd)) (\<lambda>configMapData.
       ret \<lparr>cm_meta = newMeta (ntr_Namespace r) ConfigMapNameTopologyNodeLabels, cm_data = Some configMapData\<rparr>))"

definition UpdateTopologyConfigMap ::
    "nat \<Rightarrow> 'w nodeTopologyApi \<Rightarrow> nodeTopologyReconciler \<Rightarrow> string \<Rightarrow> (string, string) gomap \<Rightarrow> ('w, unit) action" where
  "UpdateTopologyConfigMap fuel api r nodeName tierData =
     bindA (GetOrCreateTopologyResourceDistribution fuel api r) (UpdateResourceDistribution api r nodeName tierData)"

definition RemoveNodeFromTopologyConfigMap :: "nat \<Rightarrow> 'w nodeTopologyApi \<Rightarrow> nodeTopologyReconciler \<Rightarrow> string \<Rightarrow> ('w, unit) action" where
  "RemoveNodeFromTopologyConfigMap fuel api r nodeName =
     bindA (GetOrCreateTopologyResourceDistribution fuel api r) (RemoveNodeFromResourceDistribution api r nodeName)"

section \<open>What the controller relies on\<close>

text \<open>
  The client keeps its laws; a ConfigMap survives its JSON form (an empty map may come back as nil);
  and node labels are what Kubernetes admits: ASCII, one value for a key.
\<close>

definition roundTripsData :: "'w nodeTopologyApi \<Rightarrow> bool" where
  "roundTripsData api \<longleftrightarrow> (\<forall>s d. nt_unmarshalCM api s = Inr (Some d) \<longrightarrow> wfMap d) \<and> (\<forall>d. wfMap d \<longrightarrow>
     (case nt_unmarshalCM api (nt_marshalCM api d) of
        Inl e \<Rightarrow> False
      | Inr x \<Rightarrow> (let d' = (case x of None \<Rightarrow> [] | Some d' \<Rightarrow> d') in wfMap d' \<and> map_of d' = map_of d)))"

definition labelMap :: "labels \<Rightarrow> bool" where
  "labelMap ls \<longleftrightarrow> wfMap ls \<and> list_all asciiMember ls"

definition lawfulNodeApi ::
    "'w nodeTopologyApi \<Rightarrow> ('w \<Rightarrow> objectKey \<Rightarrow> resourceDistribution option) \<Rightarrow> bool" where
  "lawfulNodeApi api rds \<longleftrightarrow>
     lawfulGet (nt_rds api) rdKey rds \<and> lawfulWrite (nt_rds api) rdKey rds (\<lambda>_. ())
     \<and> readOnly (nt_clusters api) \<and> readOnly (nt_nodes api) \<and> (\<forall>t. keepsWorld (nt_listPage api t))
     \<and> roundTripsData api \<and> lawfulRetry (nt_retryOnConflict api)
     \<and> (\<forall>k w n w'. cGet (nt_nodes api) k w = (Inr n, w') \<longrightarrow> labelMap (om_labels (node_meta n)))
     \<and> (\<forall>t w ns t' w'. nt_listPage api t w = (Inr (ns, t'), w') \<longrightarrow> (\<forall>n\<in>set ns. labelMap (om_labels (node_meta n))))"

lemma lawfulNodeApiD:
  assumes "lawfulNodeApi api rds"
  shows "lawfulGet (nt_rds api) rdKey rds" "lawfulWrite (nt_rds api) rdKey rds (\<lambda>_. ())"
    "readOnly (nt_clusters api)" "readOnly (nt_nodes api)" "\<And>t. keepsWorld (nt_listPage api t)"
    "roundTripsData api" "lawfulRetry (nt_retryOnConflict api)"
    "\<And>k w n w'. cGet (nt_nodes api) k w = (Inr n, w') \<Longrightarrow> labelMap (om_labels (node_meta n))"
    "\<And>t w ns t' w' n. nt_listPage api t w = (Inr (ns, t'), w') \<Longrightarrow> n \<in> set ns \<Longrightarrow> labelMap (om_labels (node_meta n))"
  using assms unfolding lawfulNodeApi_def by blast+

section \<open>Tier labels\<close>

lemma asciiMember_iff [simp]: "asciiMember (k, v) \<longleftrightarrow> asciiString k \<and> asciiString v"
  by (simp add: asciiMember_def)

lemma asciiString_tierName: "asciiString k \<Longrightarrow> asciiString (tierName k)"
  by (auto simp: tierName_def asciiString_def list_all_iff split: option.split dest: in_set_dropD)

lemma set_mapPut_subset: "set (mapPut k v m) \<subseteq> insert (k, v) (set m)"
  unfolding mapPut_def by (induction m) auto

lemma labelMap_mapPut: "labelMap m \<Longrightarrow> asciiString k \<Longrightarrow> asciiString v \<Longrightarrow> labelMap (mapPut k v m)"
  using set_mapPut_subset [of k v m] by (auto simp: labelMap_def list_all_iff)

lemma labelMap_ExtractTierLabels: "labelMap ls \<Longrightarrow> labelMap (ExtractTierLabels ls p)"
proof -
  assume "labelMap ls"
  then have "list_all asciiMember ls" by (simp add: labelMap_def)
  then have "labelMap m \<Longrightarrow> labelMap (fold (\<lambda>(key, value) m.
      if contains key (p @ ''/tier-'') then mapPut (tierName key) value m else m) ls m)" for m
    by (induction ls arbitrary: m) (auto simp: labelMap_mapPut asciiString_tierName)
  then show ?thesis by (simp add: ExtractTierLabels_def labelMap_def)
qed

section \<open>The distributed data\<close>

text \<open>The data maps node names to JSON objects of their tier labels.\<close>

definition labelData :: "(string, string) gomap \<Rightarrow> bool" where
  "labelData d \<longleftrightarrow> (\<forall>n s. map_of d n = Some s \<longrightarrow> (\<exists>m. labelMap m \<and> s = marshalStringMap (Some m)))"

lemma labelData_Nil [simp]: "labelData []"
  by (simp add: labelData_def)

lemma labelData_mapPut: "labelData d \<Longrightarrow> labelMap m \<Longrightarrow> labelData (mapPut n (marshalStringMap (Some m)) d)"
  by (auto simp: labelData_def go_map)

lemma labelData_mapDelete: "labelData d \<Longrightarrow> labelData (mapDelete n d)"
  by (auto simp: labelData_def go_map)

lemma labelData_cong: "map_of d = map_of d' \<Longrightarrow> labelData d = labelData d'"
  by (simp add: labelData_def)

text \<open>The worker topology controller can parse such data, and reads the same labels back.\<close>

lemma Parse_labelData:
  assumes "wfMap d" "labelData d"
  shows "\<exists>L. ParseNodeTopologyLabels d acc = Inr L
    \<and> (\<forall>n. map_of L n = (case map_of d n of None \<Rightarrow> map_of acc n
        | Some s \<Rightarrow> (case unmarshalStringMap s of Inr (Some m) \<Rightarrow> Some m | _ \<Rightarrow> Some [])))"
  using assms
proof (induction d arbitrary: acc)
  case (Cons e d)
  obtain n s where e: "e = (n, s)" by fastforce
  obtain m where m: "labelMap m" "s = marshalStringMap (Some m)"
    using Cons.prems(2) unfolding labelData_def e by (metis map_of_Cons_code(2))
  then have un: "unmarshalStringMap s = Inr (Some (sort_key fst m))"
    using unmarshal_marshal [of m] by (simp add: labelMap_def)
  have fresh: "map_of d n = None" using Cons.prems(1) by (simp add: e map_of_eq_None_iff)
  have "wfMap d" using Cons.prems(1) by simp
  moreover have "labelData d"
    using Cons.prems(2) fresh unfolding labelData_def e by (metis map_of_Cons_code(2) option.distinct(1))
  ultimately obtain L where L: "ParseNodeTopologyLabels d (mapPut n (sort_key fst m) acc) = Inr L"
    "\<forall>k. map_of L k = (case map_of d k of None \<Rightarrow> map_of (mapPut n (sort_key fst m) acc) k
        | Some s \<Rightarrow> (case unmarshalStringMap s of Inr (Some m) \<Rightarrow> Some m | _ \<Rightarrow> Some []))"
    using Cons.IH [of "mapPut n (sort_key fst m) acc"] by blast
  have "\<forall>k. map_of L k = (case map_of (e # d) k of None \<Rightarrow> map_of acc k
        | Some s \<Rightarrow> (case unmarshalStringMap s of Inr (Some m) \<Rightarrow> Some m | _ \<Rightarrow> Some []))"
    using L(2) fresh un by (auto simp: e go_map split: option.split)
  with L(1) show ?case by (simp add: e un)
qed simp

lemma getData_wf:
  "roundTripsData api \<Longrightarrow> getConfigMapDataFromResourceDistribution api rd = Inr d \<Longrightarrow> wfMap d"
  by (auto simp: getConfigMapDataFromResourceDistribution_def roundTripsData_def split: option.splits sum.splits)

lemma getData_marshal:
  assumes "roundTripsData api" "wfMap d" "rd_raw rd = Some (nt_marshalCM api d)"
  shows "\<exists>d'. getConfigMapDataFromResourceDistribution api rd = Inr d' \<and> wfMap d' \<and> map_of d' = map_of d"
proof -
  have "case nt_unmarshalCM api (nt_marshalCM api d) of Inl e \<Rightarrow> False
      | Inr x \<Rightarrow> (let d' = (case x of None \<Rightarrow> [] | Some d' \<Rightarrow> d') in wfMap d' \<and> map_of d' = map_of d)"
    using assms(1,2) by (simp add: roundTripsData_def)
  then show ?thesis
    using assms(3) by (auto simp: getConfigMapDataFromResourceDistribution_def split: sum.splits option.splits)
qed

section \<open>Updating the distribution\<close>

lemma keeps_targets: "readOnly (nt_clusters api) \<Longrightarrow> keepsWorld (getTargetNamespaces api r)"
  unfolding getTargetNamespaces_def by (intro keeps keeps_readOnly)

lemma targets_success:
  assumes "getTargetNamespaces api r w = (Inr nss, w')"
  shows "\<exists>cs v. cList (nt_clusters api) [] [] w = (Inr cs, v)
    \<and> set nss = insert (ntr_Namespace r) ((\<lambda>c. om_namespace (sc_meta c)) ` set cs)"
proof -
  have "set (fold (\<lambda>c. setAdd (om_namespace (sc_meta c))) cs xs) = (\<lambda>c. om_namespace (sc_meta c)) ` set cs \<union> set xs"
    for cs :: "slurmCluster list" and xs
    by (induction cs arbitrary: xs) (auto simp: go_map)
  then show ?thesis
    using assms by (auto simp: getTargetNamespaces_def bindA_success wrapA_success)
qed

lemma updateWithData_success:
  assumes A: "lawfulNodeApi api rds" and run: "updateResourceDistributionWithData api r rd d w = (Inr u, w')" and d: "wfMap d"
  shows "\<exists>rd' d' cs. rds w' = (rds w)(rdKey rd \<mapsto> rd') \<and> rdKey rd' = rdKey rd
    \<and> getConfigMapDataFromResourceDistribution api rd' = Inr d' \<and> wfMap d' \<and> map_of d' = map_of d
    \<and> cList (nt_clusters api) [] [] w = (Inr cs, w)
    \<and> set (rd_namespaces rd') = insert (ntr_Namespace r) ((\<lambda>c. om_namespace (sc_meta c)) ` set cs)"
proof -
  note a = lawfulNodeApiD [OF A]
  from run obtain nss v where t: "getTargetNamespaces api r w = (Inr nss, v)"
    and up: "cUpdate (nt_rds api) (rd\<lparr>rd_raw := Some (nt_marshalCM api d), rd_namespaces := nss\<rparr>) v = (Inr u, w')"
    unfolding updateResourceDistributionWithData_def bindA_success wrapA_success by blast
  let ?rd = "rd\<lparr>rd_raw := Some (nt_marshalCM api d), rd_namespaces := nss\<rparr>"
  have v: "v = w" using keepsWorldD [OF keeps_targets [OF a(3)] t] .
  have key: "rdKey ?rd = rdKey rd" by (simp add: rdKey_def)
  from targets_success [OF t] obtain cs v2 where l: "cList (nt_clusters api) [] [] w = (Inr cs, v2)"
    and cs: "set nss = insert (ntr_Namespace r) ((\<lambda>c. om_namespace (sc_meta c)) ` set cs)"
    by blast
  have l: "cList (nt_clusters api) [] [] w = (Inr cs, w)" using l readOnly_list [OF a(3) l] by simp
  obtain d' where d': "getConfigMapDataFromResourceDistribution api ?rd = Inr d'" "wfMap d'" "map_of d' = map_of d"
    using getData_marshal [OF a(6) d, of ?rd] by auto
  have "rds w' = (rds w)(rdKey rd \<mapsto> ?rd)" using lawful_update_Inr [OF a(2) up] v key by simp
  with key d' cs l show ?thesis by (intro exI [of _ ?rd] exI [of _ d'] exI [of _ cs]) simp
qed

lemma updateWithData_failure:
  assumes A: "lawfulNodeApi api rds" and run: "updateResourceDistributionWithData api r rd d w = (Inl e, w')"
  shows "w' = w"
proof -
  note a = lawfulNodeApiD [OF A]
  obtain res v where t: "getTargetNamespaces api r w = (res, v)" by fastforce
  have v: "v = w" using keepsWorldD [OF keeps_targets [OF a(3)] t] .
  show ?thesis
  proof (cases res)
    case (Inl e')
    then show ?thesis using run t v by (simp add: updateResourceDistributionWithData_def bindA_def wrapA_def)
  next
    case (Inr nss)
    obtain res' v' where up: "cUpdate (nt_rds api) (rd\<lparr>rd_raw := Some (nt_marshalCM api d), rd_namespaces := nss\<rparr>) w = (res', v')"
      by fastforce
    show ?thesis
    proof (cases res')
      case (Inl e')
      then show ?thesis
        using run t v Inr up lawful_update_Inl [OF a(2), of _ w e' v']
        by (simp add: updateResourceDistributionWithData_def bindA_def wrapA_def)
    next
      case r': (Inr u)
      then show ?thesis
        using run t v Inr up by (simp add: updateResourceDistributionWithData_def bindA_def wrapA_def)
    qed
  qed
qed

text \<open>Reading the stored data before a write, shared by the two closures.\<close>

definition withLatest :: "'w nodeTopologyApi \<Rightarrow> string \<Rightarrow> (resourceDistribution \<Rightarrow> (string, string) gomap \<Rightarrow> ('w, unit) action) \<Rightarrow> ('w, unit) action" where
  "withLatest api rdName k =
     bindA (wrapA ''get latest ResourceDistribution: %w'' [] (cGet (nt_rds api) ([], rdName))) (\<lambda>latestRd.
     bindA (liftA (getConfigMapDataFromResourceDistribution api latestRd)) (k latestRd))"

lemma once_withLatest:
  "updateOnce api r n s name = withLatest api name (\<lambda>rd d. updateResourceDistributionWithData api r rd (mapPut n s d))"
  "removeOnce api r n name = withLatest api name (\<lambda>rd d.
     if map_of d n = None then ret () else updateResourceDistributionWithData api r rd (mapDelete n d))"
  by (simp_all add: updateOnce_def removeOnce_def withLatest_def)

lemma withLatest_retry:
  assumes A: "lawfulNodeApi api rds"
    and keep: "\<And>rd d w e v. k rd d w = (Inl e, v) \<Longrightarrow> v = w"
    and run: "nt_retryOnConflict api (withLatest api name k) w = (Inr u, w')"
  shows "\<exists>rd d. rds w ([], name) = Some rd \<and> rdKey rd = ([], name)
    \<and> getConfigMapDataFromResourceDistribution api rd = Inr d \<and> k rd d w = (Inr u, w')"
proof -
  note a = lawfulNodeApiD [OF A]
  have "v = w" if f: "withLatest api name k w = (Inl e, v)" for w e v
  proof -
    obtain res x where g: "cGet (nt_rds api) ([], name) w = (res, x)" by fastforce
    have x: "x = w" using keepsWorldD [OF keeps_lawfulGet [OF a(1)] g] .
    show ?thesis
      using f g x keep by (cases res)
        (auto simp: withLatest_def bindA_def wrapA_def liftA_def split: sum.splits)
  qed
  then have "withLatest api name k w = (Inr u, w')"
    using retried_unchanged [of "withLatest api name k" w "(Inr u, w')"] a(7) run by (metis lawfulRetry_def)
  then obtain rd v d where "cGet (nt_rds api) ([], name) w = (Inr rd, v)"
    "getConfigMapDataFromResourceDistribution api rd = Inr d" "k rd d v = (Inr u, w')"
    by (auto simp: withLatest_def bindA_success wrapA_success)
  then show ?thesis using lawful_get_Inr [OF a(1)] by blast
qed


section \<open>The invariant of the stored data\<close>

definition distributionOk ::
    "'w nodeTopologyApi \<Rightarrow> ('w \<Rightarrow> objectKey \<Rightarrow> resourceDistribution option) \<Rightarrow> 'w \<Rightarrow> bool" where
  "distributionOk api rds w \<longleftrightarrow> (\<forall>rd. rds w ([], ResourceDistributionNameTopology) = Some rd \<longrightarrow>
     (\<exists>d. getConfigMapDataFromResourceDistribution api rd = Inr d \<and> wfMap d \<and> labelData d))"

lemma distributionOk_update:
  assumes A: "lawfulNodeApi api rds" and ok: "distributionOk api rds w"
    and run: "updateResourceDistributionWithData api r rd d w = (res, w')"
    and d: "rdKey rd = ([], ResourceDistributionNameTopology) \<Longrightarrow> wfMap d \<and> labelData d" "wfMap d"
  shows "distributionOk api rds w'"
proof (cases res)
  case (Inl e)
  then show ?thesis using run updateWithData_failure [OF A] ok by blast
next
  case (Inr u)
  from updateWithData_success [OF A run [unfolded Inr] d(2)] obtain rd' d' where
    1: "rds w' = (rds w)(rdKey rd \<mapsto> rd')" "getConfigMapDataFromResourceDistribution api rd' = Inr d'" "wfMap d'" "map_of d' = map_of d"
    by blast
  have "rdKey rd = ([], ResourceDistributionNameTopology) \<Longrightarrow> labelData d'" using d(1) labelData_cong [OF 1(4)] by simp
  with 1 ok show ?thesis by (auto simp: distributionOk_def)
qed

lemma distributionOk_latest:
  assumes A: "lawfulNodeApi api rds" and ok: "distributionOk api rds w"
    and keep: "\<And>rd d w e v. k rd d w = (Inl e, v) \<Longrightarrow> v = w"
    and k: "\<And>rd d w'. rdKey rd = ([], name) \<Longrightarrow> wfMap d \<Longrightarrow> (name = ResourceDistributionNameTopology \<Longrightarrow> labelData d)
        \<Longrightarrow> k rd d w = (Inr u, w') \<Longrightarrow> distributionOk api rds w'"
    and run: "nt_retryOnConflict api (withLatest api name k) w = (Inr u, w')"
  shows "distributionOk api rds w'"
proof -
  obtain rd d where 0: "rds w ([], name) = Some rd" "rdKey rd = ([], name)"
    "getConfigMapDataFromResourceDistribution api rd = Inr d" "k rd d w = (Inr u, w')"
    using withLatest_retry [OF A _ run] keep by blast
  have "labelData d" if "name = ResourceDistributionNameTopology"
    using ok 0(1,3) that by (auto simp: distributionOk_def)
  then show ?thesis using k [OF 0(2) getData_wf [OF lawfulNodeApiD(6) [OF A] 0(3)] _ 0(4)] by blast
qed

lemma Update_distributionOk:
  assumes A: "lawfulNodeApi api rds" and ok: "distributionOk api rds w" and m: "labelMap tierData"
    and run: "UpdateResourceDistribution api r node tierData rd w = (Inr u, w')"
  shows "distributionOk api rds w'"
  using A ok
proof (rule distributionOk_latest)
  show "nt_retryOnConflict api (withLatest api (om_name (rd_meta rd))
      (\<lambda>rd d. updateResourceDistributionWithData api r rd (mapPut node (marshalStringMap (Some tierData)) d))) w = (Inr u, w')"
    using run by (simp add: UpdateResourceDistribution_def once_withLatest)
next
  fix rd' d v
  assume h: "rdKey rd' = ([], om_name (rd_meta rd))" "wfMap d"
      "om_name (rd_meta rd) = ResourceDistributionNameTopology \<Longrightarrow> labelData d"
    and up: "updateResourceDistributionWithData api r rd' (mapPut node (marshalStringMap (Some tierData)) d) w = (Inr u, v)"
  show "distributionOk api rds v"
    by (rule distributionOk_update [OF A ok up]) (use h labelData_mapPut m in auto)
qed (rule updateWithData_failure [OF A])

lemma Remove_distributionOk:
  assumes A: "lawfulNodeApi api rds" and ok: "distributionOk api rds w"
    and run: "RemoveNodeFromResourceDistribution api r node rd w = (Inr u, w')"
  shows "distributionOk api rds w'"
  using A ok
proof (rule distributionOk_latest)
  show "nt_retryOnConflict api (withLatest api (om_name (rd_meta rd))
      (\<lambda>rd d. if map_of d node = None then ret () else updateResourceDistributionWithData api r rd (mapDelete node d))) w = (Inr u, w')"
    using run by (simp add: RemoveNodeFromResourceDistribution_def once_withLatest)
next
  fix rd' d v
  assume h: "rdKey rd' = ([], om_name (rd_meta rd))" "wfMap d"
      "om_name (rd_meta rd) = ResourceDistributionNameTopology \<Longrightarrow> labelData d"
    and up: "(if map_of d node = None then ret () else updateResourceDistributionWithData api r rd' (mapDelete node d)) w = (Inr u, v)"
  show "distributionOk api rds v"
  proof (cases "map_of d node = None")
    case True
    with up ok show ?thesis by simp
  next
    case False
    with up have "updateResourceDistributionWithData api r rd' (mapDelete node d) w = (Inr u, v)" by simp
    then show ?thesis by (rule distributionOk_update [OF A ok]) (use h labelData_mapDelete in auto)
  qed
next
  fix rd' d v e x
  assume "(if map_of d node = None then ret () else updateResourceDistributionWithData api r rd' (mapDelete node d)) x = (Inl e, v)"
  then show "v = x" by (auto split: if_splits dest: updateWithData_failure [OF A])
qed

lemma labelData_recordNode: "labelMap (om_labels (node_meta n)) \<Longrightarrow> labelData d \<Longrightarrow> labelData (recordNode r n d)"
  by (auto simp: recordNode_def Let_def intro!: labelData_mapPut labelMap_ExtractTierLabels)

lemma wf_recordNode: "wfMap d \<Longrightarrow> wfMap (recordNode r n d)"
  by (simp add: recordNode_def Let_def)

lemma fold_recordNode:
  "\<forall>n\<in>set ns. labelMap (om_labels (node_meta n)) \<Longrightarrow> wfMap d \<Longrightarrow> labelData d
   \<Longrightarrow> wfMap (fold (recordNode r) ns d) \<and> labelData (fold (recordNode r) ns d)"
  by (induction ns arbitrary: d) (auto simp: labelData_recordNode wf_recordNode)

lemma listNodes_labelData:
  assumes A: "lawfulNodeApi api rds"
  shows "listNodes fuel api r t d w = (Inr d', w') \<Longrightarrow> wfMap d \<Longrightarrow> labelData d \<Longrightarrow> w' = w \<and> wfMap d' \<and> labelData d'"
proof (induction fuel arbitrary: t d w)
  case (Suc fuel)
  note a = lawfulNodeApiD [OF A]
  from Suc.prems(1) obtain items nxt v where page: "nt_listPage api t w = (Inr (items, nxt), v)"
    and rest: "(if nxt = [] then ret (fold (recordNode r) items d) else listNodes fuel api r nxt (fold (recordNode r) items d)) v = (Inr d', w')"
    by (auto simp: bindA_success wrapA_success Let_def)
  have v: "v = w" using keepsWorldD [OF a(5) page] .
  have "\<forall>n\<in>set items. labelMap (om_labels (node_meta n))" using a(9) [OF page] by blast
  then have f: "wfMap (fold (recordNode r) items d)" "labelData (fold (recordNode r) items d)"
    using fold_recordNode Suc.prems(2,3) by blast+
  show ?case
  proof (cases "nxt = []")
    case True
    with rest v f show ?thesis by auto
  next
    case False
    with rest v have "listNodes fuel api r nxt (fold (recordNode r) items d) w = (Inr d', w')" by simp
    then show ?thesis using Suc.IH f by blast
  qed
qed simp

lemma initialize_distributionOk:
  assumes A: "lawfulNodeApi api rds" and run: "initializeResourceDistributionWithAllNodes fuel api r w = (Inr rd, w')"
  shows "distributionOk api rds w'"
proof -
  note a = lawfulNodeApiD [OF A]
  from run obtain d v nss v' where
    l: "listNodes fuel api r [] [] w = (Inr d, v)" and t: "getTargetNamespaces api r v = (Inr nss, v')"
    and rd: "rd = \<lparr>rd_meta = newMeta [] ResourceDistributionNameTopology, rd_raw = Some (nt_marshalCM api d), rd_namespaces = nss\<rparr>"
    and c: "cCreate (nt_rds api) rd v' = (Inr (), w')"
    by (auto simp: initializeResourceDistributionWithAllNodes_def bindA_success wrapA_success Let_def)
  have d: "wfMap d" "labelData d" using listNodes_labelData [OF A l] by auto
  obtain d' where d': "getConfigMapDataFromResourceDistribution api rd = Inr d'" "wfMap d'" "map_of d' = map_of d"
    using getData_marshal [OF a(6) d(1), of rd] by (auto simp: rd)
  have "rdKey rd = ([], ResourceDistributionNameTopology)" by (simp add: rd rdKey_def metaKey_def newMeta_def)
  then have "rds w' ([], ResourceDistributionNameTopology) = Some rd" using lawful_create_Inr [OF a(2) c] by simp
  then show ?thesis using d d' labelData_cong [OF d'(3)] by (simp add: distributionOk_def)
qed

lemma GetOrCreate_distributionOk:
  assumes A: "lawfulNodeApi api rds" and ok: "distributionOk api rds w"
    and run: "GetOrCreateTopologyResourceDistribution fuel api r w = (Inr rd, w')"
  shows "distributionOk api rds w'"
proof -
  note a = lawfulNodeApiD [OF A]
  from run obtain found v where f: "getOptional (nt_rds api) ([], ResourceDistributionNameTopology) ''get ResourceDistribution: %w'' [] w = (Inr found, v)"
    and rest: "(case found of Some rd \<Rightarrow> ret rd | None \<Rightarrow> wrapA ''initialize ResourceDistribution with all nodes: %w'' []
           (initializeResourceDistributionWithAllNodes fuel api r)) v = (Inr rd, w')"
    unfolding GetOrCreateTopologyResourceDistribution_def bindA_success by blast
  have "v = w" using getOptional_lawful [OF a(1) f] by simp
  with rest ok initialize_distributionOk [OF A] show ?thesis by (auto simp: wrapA_success split: option.splits)
qed


text \<open>
  A concrete instance: objects in memory, one page of nodes, three retries, and a self-delimiting
  encoding of the data in place of the JSON form of a ConfigMap.
\<close>

definition encStr :: "string \<Rightarrow> string" where
  "encStr s = concat (map (\<lambda>c. [CHR ''c'', c]) s) @ ''e''"

fun decStr :: "string \<Rightarrow> (string \<times> string) option" where
  "decStr [] = None"
| "decStr [m] = (if m = CHR ''e'' then Some ([], []) else None)"
| "decStr (m # c # r) = (if m = CHR ''e'' then Some ([], c # r) else map_option (\<lambda>(s, t). (c # s, t)) (decStr r))"

definition encData :: "(string, string) gomap \<Rightarrow> string" where
  "encData d = concat (map (\<lambda>(k, v). encStr k @ encStr v) d)"

fun decData :: "nat \<Rightarrow> string \<Rightarrow> (string, string) gomap" where
  "decData 0 s = []"
| "decData (Suc n) s = (case decStr s of
     None \<Rightarrow> []
   | Some (k, s') \<Rightarrow> (case decStr s' of None \<Rightarrow> [] | Some (v, s'') \<Rightarrow> (k, v) # decData n s''))"

lemma decStr_encStr: "decStr (encStr s @ t) = Some (s, t)"
  by (induction s) (cases t, auto simp: encStr_def)

lemma decData_encData: "length d \<le> n \<Longrightarrow> decData n (encData d) = d"
proof (induction d arbitrary: n)
  case Nil
  then show ?case by (cases n) (simp_all add: encData_def)
next
  case (Cons e d)
  then obtain m where "n = Suc m" "length d \<le> m" by (cases n) auto
  with Cons.IH show ?case by (cases e) (simp add: encData_def decStr_encStr)
qed

lemma length_encData: "length d \<le> length (encData d)"
  by (induction d) (auto simp: encData_def encStr_def split: prod.split)

record nodeWorld =
  nw_nodes :: "k8sNode list"
  nw_rds :: "resourceDistribution list"
  nw_clusters :: "slurmCluster list"

definition memNodeApi :: "nodeWorld nodeTopologyApi" where
  "memNodeApi = \<lparr>
     nt_nodes = memClient (\<lambda>w. filter (\<lambda>n. labelMap (om_labels (node_meta n))) (nw_nodes w)) (\<lambda>x. nw_nodes_update (\<lambda>_. x))
                  (\<lambda>n. metaKey (node_meta n)) (\<lambda>n. om_labels (node_meta n)),
     nt_rds = memClient nw_rds (\<lambda>x. nw_rds_update (\<lambda>_. x)) rdKey (\<lambda>n. om_labels (rd_meta n)),
     nt_clusters = memClient nw_clusters (\<lambda>x. nw_clusters_update (\<lambda>_. x)) (\<lambda>n. metaKey (sc_meta n)) (\<lambda>n. om_labels (sc_meta n)),
     nt_listPage = (\<lambda>t w. (Inr (filter (\<lambda>n. labelMap (om_labels (node_meta n))) (nw_nodes w), []), w)),
     nt_marshalCM = encData,
     nt_unmarshalCM = (\<lambda>s. Inr (Some (fold (\<lambda>(k, v). mapPut k v) (decData (length s) s) []))),
     nt_retryOnConflict = retryN 3\<rparr>"

lemma wfMap_fold_mapPut: "wfMap m \<Longrightarrow> wfMap (fold (\<lambda>(k, v). mapPut k v) kvs m)"
  by (induction kvs arbitrary: m) auto

lemma memNodeApi_lawful: "lawfulNodeApi memNodeApi (\<lambda>w. memFind rdKey (nw_rds w))"
proof -
  have "roundTripsData memNodeApi"
    by (simp add: roundTripsData_def memNodeApi_def wfMap_fold_mapPut decData_encData length_encData fold_mapPut_fresh)
  moreover have "labelMap (om_labels (node_meta n))" if "cGet (nt_nodes memNodeApi) k w = (Inr n, w')" for k w n w'
    using that by (auto simp: memNodeApi_def memClient_def memFind_def find_Some_iff dest!: nth_mem split: option.splits)
  moreover have "lawfulGet (nt_rds memNodeApi) rdKey (\<lambda>w. memFind rdKey (nw_rds w))"
    "lawfulWrite (nt_rds memNodeApi) rdKey (\<lambda>w. memFind rdKey (nw_rds w)) (\<lambda>_. ())"
    "readOnly (nt_clusters memNodeApi)" "readOnly (nt_nodes memNodeApi)"
    "keepsWorld (nt_listPage memNodeApi t)" "lawfulRetry (nt_retryOnConflict memNodeApi)" for t
    by (simp_all add: memNodeApi_def memClient_lawfulGet memClient_lawfulWrite memClient_readOnly retryN_lawful keepsWorld_def)
  moreover have "labelMap (om_labels (node_meta n))" if "nt_listPage memNodeApi t w = (Inr (ns, t'), w')" "n \<in> set ns" for t w ns t' w' n
    using that by (auto simp: memNodeApi_def)
  ultimately show ?thesis
    unfolding lawfulNodeApi_def by blast
qed

definition exampleReconciler :: nodeTopologyReconciler where
  "exampleReconciler = \<lparr>ntr_Namespace = ''op'', ntr_topologyLabelPrefix = ''t''\<rparr>"

definition exampleNodes :: nodeWorld where
  "exampleNodes = \<lparr>
     nw_nodes = [\<lparr>node_meta = (newMeta [] ''n'')\<lparr>om_labels := [(''t/tier-1'', ''a''), (''x'', ''y'')]\<rparr>\<rparr>],
     nw_rds = [],
     nw_clusters = [\<lparr>sc_meta = newMeta ''ns'' ''c'', sc_topologyPlugin = ''topology/tree'', sc_topology = None\<rparr>]\<rparr>"

lemma exampleNodes_run:
  "\<exists>w'. Reconcile_nodeTopology 1 memNodeApi exampleReconciler ''n'' exampleNodes = (Inr (), w')"
proof -
  have "fst (Reconcile_nodeTopology 1 memNodeApi exampleReconciler ''n'' exampleNodes) = Inr ()" by code_simp
  then show ?thesis by (metis prod.collapse)
qed



section \<open>Listing all nodes\<close>

text \<open>
  The pages from a token on: each page is answered, leads to the next one, and only the last has an
  empty continue token.
\<close>

fun pagesFrom :: "'w nodeTopologyApi \<Rightarrow> 'w \<Rightarrow> string \<Rightarrow> k8sNode list list \<Rightarrow> bool" where
  "pagesFrom api w t [] = False"
| "pagesFrom api w t (items # rest) = (\<exists>nxt. nt_listPage api t w = (Inr (items, nxt), w)
     \<and> (if rest = [] then nxt = [] else nxt \<noteq> [] \<and> pagesFrom api w nxt rest))"



section \<open>What the controller misses\<close>

text \<open>
  C14: a node that loses its tier labels is noticed by the watch, but its reconciliation writes nothing,
  so the distributed data keeps the labels it no longer has.
\<close>

theorem Reconcile_nodeTopology_label_loss:
  assumes "cGet (nt_rds api) ([], ResourceDistributionNameTopology) w = (Inr rd, w)"
    and "cGet (nt_nodes api) ([], node) w = (Inr n, w)"
    and "map_of oldLabels (tierOneLabel r) \<noteq> None"
    and "map_of (om_labels (node_meta n)) (tierOneLabel r) = None" "map_of (om_labels (node_meta n)) (tierZeroLabel r) = None"
  shows "nodeUpdated r oldLabels (om_labels (node_meta n)) \<and> Reconcile_nodeTopology fuel api r node w = (Inr (), w)"
  using assms
  by (simp add: nodeUpdated_def Reconcile_nodeTopology_def GetOrCreateTopologyResourceDistribution_def getOptional_def
      getNode_def shouldProcessNode_def bindA_def tryA_def)

theorem Reconcile_nodeTopology_label_loss_witness:
  "let rd = \<lparr>rd_meta = newMeta [] ''topology-soperator'', rd_raw = Some (encData [(''n'', ''old'')]), rd_namespaces = [''op'']\<rparr>;
       w = exampleNodes\<lparr>nw_nodes := [\<lparr>node_meta = newMeta [] ''n''\<rparr>], nw_rds := [rd]\<rparr>
   in nodeUpdated exampleReconciler [(''t/tier-1'', ''a'')] [] \<and> Reconcile_nodeTopology 1 memNodeApi exampleReconciler ''n'' w = (Inr (), w)"
proof -
  let ?rd = "\<lparr>rd_meta = newMeta [] ''topology-soperator'', rd_raw = Some (encData [(''n'', ''old'')]), rd_namespaces = [''op'']\<rparr>"
  let ?n = "\<lparr>node_meta = newMeta [] ''n''\<rparr>"
  let ?w = "exampleNodes\<lparr>nw_nodes := [?n], nw_rds := [?rd]\<rparr>"
  have "cGet (nt_rds memNodeApi) ([], ResourceDistributionNameTopology) ?w = (Inr ?rd, ?w)"
    "cGet (nt_nodes memNodeApi) ([], ''n'') ?w = (Inr ?n, ?w)"
    "map_of [(''t/tier-1'', ''a'')] (tierOneLabel exampleReconciler) \<noteq> None"
    "map_of (om_labels (node_meta ?n)) (tierOneLabel exampleReconciler) = None"
    "map_of (om_labels (node_meta ?n)) (tierZeroLabel exampleReconciler) = None"
    by code_simp+
  from Reconcile_nodeTopology_label_loss [OF this, of 1] show ?thesis by (simp add: newMeta_def)
qed

end
