(* ===== verification/Slurm_Node.thy ===== *)
theory Slurm_Node
  imports Go_Action
begin

text \<open>
  Slurm nodes as the operator sees them: internal/slurmapi/node.go and internal/slurmapi/tres.go. The
  types of the generated REST client are not part of the repository: \<open>apiNode\<close> is the record of the
  fields the code reads, a pointer being an option, and the node states the code names are the
  constructors of \<open>V0044NodeState\<close>. Times are Unix seconds. A result that is paired with an \<open>ok\<close> flag
  is an option.
\<close>

section \<open>Floating point\<close>

text \<open>
  The conversion of an integer to float64: exact below \<open>2 ^ 53\<close>, otherwise rounded to the nearest
  number with 53 significant bits, ties to even. The values are integers.
\<close>

fun bitLength :: "nat \<Rightarrow> nat" where
  "bitLength n = (if n = 0 then 0 else Suc (bitLength (n div 2)))"

declare bitLength.simps [simp del]

definition float64 :: "int \<Rightarrow> int" where
  "float64 x =
     (let a = nat \<bar>x\<bar>; e = bitLength a - 53; q = a div 2 ^ e; r = 2 * (a mod 2 ^ e)
      in sgn x * int ((if 2 ^ e < r \<or> (r = 2 ^ e \<and> 0 < e \<and> odd q) then q + 1 else q) * 2 ^ e))"

section \<open>Nodes\<close>

datatype V0044NodeState =
    StateUNKNOWN | StateDOWN | StateIDLE | StateALLOCATED | StateERROR | StateMIXED | StateFUTURE
  | StateDRAIN | StateCOMPLETING | StateMAINTENANCE | StateRESERVED | StateFAIL | StatePLANNED
  | StateNOTRESPONDING | StateINVALID | StateREBOOTISSUED | StateREBOOTREQUESTED | StateCLOUD
  | StatePOWERDOWN | StatePOWERDRAIN | StatePOWEREDDOWN | StatePOWERINGDOWN | StatePOWERINGUP | StatePOWERUP
  | OtherNodeState string

text \<open>V0044Uint32NoValStruct and V0044Uint64NoValStruct.\<close>

record noVal =
  nv_Set :: "bool option"
  nv_Infinite :: "bool option"
  nv_Number :: "int option"

record apiNode =
  an_State :: "V0044NodeState list option"
  an_Name :: "string option"
  an_ClusterName :: "string option"
  an_InstanceId :: "string option"
  an_Reason :: "string option"
  an_ReasonChangedAt :: "noVal option"
  an_Partitions :: "string list option"
  an_Tres :: "string option"
  an_Address :: "string option"
  an_Comment :: "string option"
  an_Reservation :: "string option"
  an_BootTime :: "noVal option"
  an_Cpus :: "int option"
  an_AllocCpus :: "int option"
  an_AllocIdleCpus :: "int option"
  an_EffectiveCpus :: "int option"
  an_AllocMemory :: "int option"
  an_RealMemory :: "int option"
  an_FreeMem :: "noVal option"
  an_SpecializedMemory :: "int option"

record nodeReason =
  nr_Reason :: string
  nr_OriginalReason :: string
  nr_ChangedAt :: int

record Node =
  n_Name :: string
  n_ClusterName :: string
  n_InstanceID :: string
  n_States :: "V0044NodeState list"
  n_Reason :: "nodeReason option"
  n_Partitions :: "string list"
  n_Tres :: string
  n_Address :: string
  n_BootTime :: "int option"
  n_Comment :: string
  n_Reservation :: string
  n_CPUs :: "int option"
  n_AllocCPUs :: "int option"
  n_AllocIdleCPUs :: "int option"
  n_EffectiveCPUs :: "int option"
  n_AllocMemoryMB :: "int option"
  n_RealMemoryMB :: "int option"
  n_FreeMemoryMB :: "int option"
  n_SpecializedMemoryMB :: "int option"

text \<open>errors.Join of the messages: no error when there are none.\<close>

definition errorsJoin :: "string list \<Rightarrow> goError option" where
  "errorsJoin errs = (if errs = [] then None else Some (Errorf ''%w'' errs))"

definition hasReason :: "apiNode \<Rightarrow> bool" where
  "hasReason node \<longleftrightarrow> (case an_Reason node of None \<Rightarrow> False | Some r \<Rightarrow> r \<noteq> [])"

definition validateAPINode :: "apiNode \<Rightarrow> goError option" where
  "validateAPINode node = errorsJoin (
     (if an_State node = None \<or> an_State node = Some [] then [''node doesn't have any state''] else [])
     @ (if an_Name node = None then [''node doesn't have name''] else [])
     @ (if an_ClusterName node = None then [''node doesn't have cluster name''] else [])
     @ (if an_InstanceId node = None then [''node doesn't have instance id''] else [])
     @ (if hasReason node \<and> Option.bind (an_ReasonChangedAt node) nv_Number = None
        then [''node doesn't have reasonChangedAt or reasonChangedAt.number, but has reason''] else []))"

definition convertUint64Struct :: "noVal option \<Rightarrow> int option" where
  "convertUint64Struct input = (case input of
     None \<Rightarrow> None
   | Some v \<Rightarrow> if nv_Set v = None \<or> nv_Set v = Some False \<or> nv_Number v = None then None else nv_Number v)"

definition nilDereference :: goError where
  "nilDereference = GoPanic ''runtime error: invalid memory address or nil pointer dereference''"

definition NodeFromAPI :: "apiNode \<Rightarrow> goError + Node" where
  "NodeFromAPI node = (case validateAPINode node of
     Some err \<Rightarrow> Inl err
   | None \<Rightarrow>
       if an_Partitions node = None \<or> an_Tres node = None \<or> an_Address node = None \<or> an_Comment node = None
       then Inl nilDereference
       else Inr \<lparr>
         n_Name = the (an_Name node), n_ClusterName = the (an_ClusterName node), n_InstanceID = the (an_InstanceId node),
         n_States = fold setAdd (the (an_State node)) [],
         n_Reason = (if hasReason node
           then Some \<lparr>nr_Reason = the (an_Reason node), nr_OriginalReason = [],
                      nr_ChangedAt = the (Option.bind (an_ReasonChangedAt node) nv_Number)\<rparr>
           else None),
         n_Partitions = the (an_Partitions node), n_Tres = the (an_Tres node), n_Address = the (an_Address node),
         n_BootTime = Option.bind (an_BootTime node) nv_Number, n_Comment = the (an_Comment node),
         n_Reservation = (case an_Reservation node of None \<Rightarrow> [] | Some r \<Rightarrow> r),
         n_CPUs = an_Cpus node, n_AllocCPUs = an_AllocCpus node, n_AllocIdleCPUs = an_AllocIdleCpus node,
         n_EffectiveCPUs = an_EffectiveCpus node, n_AllocMemoryMB = an_AllocMemory node,
         n_RealMemoryMB = an_RealMemory node, n_FreeMemoryMB = convertUint64Struct (an_FreeMem node),
         n_SpecializedMemoryMB = an_SpecializedMemory node\<rparr>)"

section \<open>States\<close>

definition IsIdleDrained :: "Node \<Rightarrow> bool" where
  "IsIdleDrained n \<longleftrightarrow> StateDRAIN \<in> set (n_States n) \<and> StateIDLE \<in> set (n_States n)"

definition IsDrainState :: "Node \<Rightarrow> bool" where "IsDrainState n \<longleftrightarrow> StateDRAIN \<in> set (n_States n)"
definition IsCompletingState :: "Node \<Rightarrow> bool" where "IsCompletingState n \<longleftrightarrow> StateCOMPLETING \<in> set (n_States n)"
definition IsMaintenanceState :: "Node \<Rightarrow> bool" where "IsMaintenanceState n \<longleftrightarrow> StateMAINTENANCE \<in> set (n_States n)"
definition IsReservedState :: "Node \<Rightarrow> bool" where "IsReservedState n \<longleftrightarrow> StateRESERVED \<in> set (n_States n)"
definition IsFailState :: "Node \<Rightarrow> bool" where "IsFailState n \<longleftrightarrow> StateFAIL \<in> set (n_States n)"
definition IsIdleState :: "Node \<Rightarrow> bool" where "IsIdleState n \<longleftrightarrow> StateIDLE \<in> set (n_States n)"
definition IsPlannedState :: "Node \<Rightarrow> bool" where "IsPlannedState n \<longleftrightarrow> StatePLANNED \<in> set (n_States n)"
definition IsDownState :: "Node \<Rightarrow> bool" where "IsDownState n \<longleftrightarrow> StateDOWN \<in> set (n_States n)"
definition IsNotRespondingState :: "Node \<Rightarrow> bool" where "IsNotRespondingState n \<longleftrightarrow> StateNOTRESPONDING \<in> set (n_States n)"
definition IsInvalidState :: "Node \<Rightarrow> bool" where "IsInvalidState n \<longleftrightarrow> StateINVALID \<in> set (n_States n)"
definition IsRebootIssuedState :: "Node \<Rightarrow> bool" where "IsRebootIssuedState n \<longleftrightarrow> StateREBOOTISSUED \<in> set (n_States n)"
definition IsRebootRequestedState :: "Node \<Rightarrow> bool" where "IsRebootRequestedState n \<longleftrightarrow> StateREBOOTREQUESTED \<in> set (n_States n)"
definition IsCloudState :: "Node \<Rightarrow> bool" where "IsCloudState n \<longleftrightarrow> StateCLOUD \<in> set (n_States n)"
definition IsPowerDownState :: "Node \<Rightarrow> bool" where "IsPowerDownState n \<longleftrightarrow> StatePOWERDOWN \<in> set (n_States n)"
definition IsPowerDrainState :: "Node \<Rightarrow> bool" where "IsPowerDrainState n \<longleftrightarrow> StatePOWERDRAIN \<in> set (n_States n)"
definition IsPoweredDownState :: "Node \<Rightarrow> bool" where "IsPoweredDownState n \<longleftrightarrow> StatePOWEREDDOWN \<in> set (n_States n)"
definition IsPoweringDownState :: "Node \<Rightarrow> bool" where "IsPoweringDownState n \<longleftrightarrow> StatePOWERINGDOWN \<in> set (n_States n)"
definition IsPoweringUpState :: "Node \<Rightarrow> bool" where "IsPoweringUpState n \<longleftrightarrow> StatePOWERINGUP \<in> set (n_States n)"
definition IsPowerUpState :: "Node \<Rightarrow> bool" where "IsPowerUpState n \<longleftrightarrow> StatePOWERUP \<in> set (n_States n)"

definition IsPowerManaged :: "Node \<Rightarrow> bool" where
  "IsPowerManaged n \<longleftrightarrow> IsPowerDownState n \<or> IsPowerDrainState n \<or> IsPoweredDownState n \<or> IsPoweringDownState n
     \<or> IsPoweringUpState n \<or> IsPowerUpState n"

definition baseStates :: "V0044NodeState list" where
  "baseStates = [StateUNKNOWN, StateDOWN, StateIDLE, StateALLOCATED, StateERROR, StateMIXED, StateFUTURE]"

text \<open>The empty state is \<open>None\<close>.\<close>

definition BaseState :: "Node \<Rightarrow> V0044NodeState option" where
  "BaseState n = find (\<lambda>baseState. baseState \<in> set (n_States n)) baseStates"

section \<open>Trackable resources\<close>

record TrackableResources =
  CPUCount :: int
  MemoryBytes :: int
  GPUCount :: int

definition memoryMultiplier :: "char \<Rightarrow> int option" where
  "memoryMultiplier c =
     (if c = CHR ''k'' \<or> c = CHR ''K'' then Some 1024
      else if c = CHR ''m'' \<or> c = CHR ''M'' then Some (1024 * 1024)
      else if c = CHR ''g'' \<or> c = CHR ''G'' then Some (1024 * 1024 * 1024)
      else if c = CHR ''t'' \<or> c = CHR ''T'' then Some (1024 * 1024 * 1024 * 1024)
      else if c = CHR ''p'' \<or> c = CHR ''P'' then Some (1024 * 1024 * 1024 * 1024 * 1024)
      else None)"

definition parseMemoryValue :: "string \<Rightarrow> goError + int" where
  "parseMemoryValue value =
     (if length value = 0 then Inl (Errorf ''empty memory value'' [])
      else
        let lastChar = last value in
        case (if isDigitChar lastChar then Inr (1, value)
              else case memoryMultiplier lastChar of
                 None \<Rightarrow> Inl (Errorf ''unknown memory suffix: %s'' [[lastChar]])
               | Some multiplier \<Rightarrow> Inr (multiplier, butlast value)) of
          Inl err \<Rightarrow> Inl err
        | Inr (multiplier, numStr) \<Rightarrow> (case atoi numStr of
            None \<Rightarrow> Inl (Errorf ''invalid memory value: %s'' [value])
          | Some num \<Rightarrow> Inr (wrap64 (num * multiplier))))"

definition parseResource :: "string \<Rightarrow> TrackableResources \<Rightarrow> goError + TrackableResources" where
  "parseResource pair spec =
     (let parts = strSplitN2 (CHR ''='') pair in
      if length parts \<noteq> 2 then Inr spec
      else
        let key = trimSpace (parts ! 0); value = trimSpace (parts ! 1) in
        if key = ''cpu'' then (case atoi value of
            None \<Rightarrow> Inl (Errorf ''invalid cpu value: %s'' [value])
          | Some cpu \<Rightarrow> Inr (spec\<lparr>CPUCount := cpu\<rparr>))
        else if key = ''mem'' then (case parseMemoryValue value of
            Inl err \<Rightarrow> Inl err
          | Inr memBytes \<Rightarrow> Inr (spec\<lparr>MemoryBytes := memBytes\<rparr>))
        else if key = ''gres/gpu'' then (case atoi value of
            None \<Rightarrow> Inl (Errorf ''invalid gpu value: %s'' [value])
          | Some gpu \<Rightarrow> Inr (spec\<lparr>GPUCount := gpu\<rparr>))
        else Inr spec)"

fun foldE :: "('a \<Rightarrow> 's \<Rightarrow> goError + 's) \<Rightarrow> 'a list \<Rightarrow> 's \<Rightarrow> goError + 's" where
  "foldE f [] s = Inr s"
| "foldE f (x # xs) s = (case f x s of Inl e \<Rightarrow> Inl e | Inr s' \<Rightarrow> foldE f xs s')"

definition ParseTrackableResources :: "string \<Rightarrow> goError + TrackableResources" where
  "ParseTrackableResources input = foldE parseResource (strSplit (CHR '','') input) \<lparr>CPUCount = 0, MemoryBytes = 0, GPUCount = 0\<rparr>"

section \<open>Resources of a node\<close>

definition mbToBytes :: "int \<Rightarrow> int" where
  "mbToBytes mb = float64 mb * 1024 * 1024"

definition CPUTotal :: "Node \<Rightarrow> int option" where
  "CPUTotal n = (case n_CPUs n of
     Some c \<Rightarrow> Some (float64 c)
   | None \<Rightarrow> (case ParseTrackableResources (n_Tres n) of
       Inr tres \<Rightarrow> if 0 < CPUCount tres then Some (float64 (CPUCount tres)) else None
     | Inl err \<Rightarrow> None))"

definition CPUAllocated :: "Node \<Rightarrow> int option" where
  "CPUAllocated n = map_option float64 (n_AllocCPUs n)"

definition CPUIdle :: "Node \<Rightarrow> int option" where
  "CPUIdle n = map_option float64 (n_AllocIdleCPUs n)"

definition CPUEffective :: "Node \<Rightarrow> int option" where
  "CPUEffective n = map_option float64 (n_EffectiveCPUs n)"

definition tresMemory :: "Node \<Rightarrow> int option" where
  "tresMemory n = (case ParseTrackableResources (n_Tres n) of
     Inr tres \<Rightarrow> if 0 < MemoryBytes tres then Some (float64 (MemoryBytes tres)) else None
   | Inl err \<Rightarrow> None)"

definition MemoryTotalBytes :: "Node \<Rightarrow> int option" where
  "MemoryTotalBytes n = (case n_RealMemoryMB n of Some mb \<Rightarrow> Some (mbToBytes mb) | None \<Rightarrow> tresMemory n)"

definition MemoryAllocatedBytes :: "Node \<Rightarrow> int option" where
  "MemoryAllocatedBytes n = map_option mbToBytes (n_AllocMemoryMB n)"

definition MemoryFreeBytes :: "Node \<Rightarrow> int option" where
  "MemoryFreeBytes n = map_option mbToBytes (n_FreeMemoryMB n)"

definition MemoryEffectiveBytes :: "Node \<Rightarrow> int option" where
  "MemoryEffectiveBytes n = (case n_RealMemoryMB n of
     None \<Rightarrow> tresMemory n
   | Some mb \<Rightarrow>
       let effectiveMB = (case n_SpecializedMemoryMB n of
             None \<Rightarrow> mb
           | Some s \<Rightarrow> let left = wrap64 (mb - s) in if left < 0 then 0 else left)
       in Some (mbToBytes effectiveMB))"

section \<open>Facts\<close>

lemma bitLength_le: "n < 2 ^ k \<Longrightarrow> bitLength n \<le> k"
proof (induction n arbitrary: k rule: bitLength.induct)
  case (1 n)
  show ?case
  proof (cases "n = 0")
    case False
    then obtain j where k: "k = Suc j" using 1(2) by (cases k) auto
    then have "n div 2 < 2 ^ j" using 1(2) by auto
    from 1(1) [OF False this] show ?thesis using False k by (simp add: bitLength.simps [of n])
  qed (simp add: bitLength.simps)
qed

lemma float64_exact: "\<bar>x\<bar> < 2 ^ 53 \<Longrightarrow> float64 x = x"
proof -
  assume "\<bar>x\<bar> < 2 ^ 53"
  then have "nat \<bar>x\<bar> < 2 ^ 53" by simp
  then have "bitLength (nat \<bar>x\<bar>) - 53 = 0" using bitLength_le by fastforce
  then show ?thesis by (simp add: float64_def Let_def sgn_if)
qed

lemma validateAPINode_None:
  "validateAPINode node = None \<longleftrightarrow> an_State node \<noteq> None \<and> an_State node \<noteq> Some [] \<and> an_Name node \<noteq> None
     \<and> an_ClusterName node \<noteq> None \<and> an_InstanceId node \<noteq> None
     \<and> (hasReason node \<longrightarrow> Option.bind (an_ReasonChangedAt node) nv_Number \<noteq> None)"
  by (auto simp: validateAPINode_def errorsJoin_def)


lemma atoi_natural: "digits \<noteq> [] \<Longrightarrow> list_all isDigitChar digits \<Longrightarrow> digitsVal digits < 2 ^ 63 \<Longrightarrow> atoi digits = Some (int (digitsVal digits))"
  by (simp add: atoi_digits)

lemma memoryMultiplier_digit: "memoryMultiplier c \<noteq> None \<Longrightarrow> \<not> isDigitChar c"
proof -
  assume "memoryMultiplier c \<noteq> None"
  then have "c \<in> set ''kKmMgGtTpP''" by (rule contrapos_np) (simp add: memoryMultiplier_def)
  moreover have "list_all (\<lambda>x. \<not> isDigitChar x) ''kKmMgGtTpP''" by (simp add: isDigitChar_def)
  ultimately show ?thesis unfolding list_all_iff by (rule bspec [rotated])
qed

lemma memoryMultiplier_nonneg: "memoryMultiplier c = Some m \<Longrightarrow> 0 \<le> m"
  unfolding memoryMultiplier_def by (simp split: if_split_asm)

lemma parseMemoryValue_unit:
  assumes "digits \<noteq> []" "list_all isDigitChar digits" "digitsVal digits < 2 ^ 63" "memoryMultiplier c = Some m"
  shows "parseMemoryValue (digits @ [c]) = Inr (wrap64 (int (digitsVal digits) * m))"
  using assms atoi_natural [OF assms(1-3)] memoryMultiplier_digit [of c] by (simp add: parseMemoryValue_def Let_def)



end
