(* ===== verification/Hostlist_Reader.thy ===== *)
theory Hostlist_Reader
  imports Slurm_Pattern Go_Action
begin

text \<open>
  The contract of the code that reads hostlist expressions. The power manager and the job metrics each
  have a parser of their own; both cut the expression at the commas outside brackets and read one term
  after the other. The locale \<open>hostlist_reader\<close> states what a term parser must do on single names and
  on the groups that Merge renders, and shows once that the whole expression is then read as Slurm reads it.
\<close>

section \<open>Reading the terms one after the other\<close>

text \<open>A loop that appends what each element yields and returns the first error.\<close>

fun collectAll :: "('a \<Rightarrow> goError + 'b list) \<Rightarrow> 'a list \<Rightarrow> goError + 'b list" where
  "collectAll f [] = Inr []"
| "collectAll f (x # xs) = (case f x of
     Inl e \<Rightarrow> Inl e
   | Inr ys \<Rightarrow> (case collectAll f xs of Inl e \<Rightarrow> Inl e | Inr zs \<Rightarrow> Inr (ys @ zs)))"

lemma collectAll_map: "\<forall>x \<in> set xs. f x = Inr (g x) \<Longrightarrow> collectAll f xs = Inr (concat (map g xs))"
  by (induction xs) auto

lemma collectAll_set: "collectAll f xs = Inr ys \<Longrightarrow> y \<in> set ys \<Longrightarrow> \<exists>x zs. f x = Inr zs \<and> y \<in> set zs"
  by (induction xs arbitrary: ys) (fastforce split: sum.splits)+

section \<open>Printable text\<close>

lemma digit_graphic: "isDigitChar c \<Longrightarrow> graphic c"
  by (simp add: isDigitChar_def graphic_def)

lemma trimSpace_all: "list_all graphic s \<Longrightarrow> trimSpace s = s"
  by (cases "s = []") (auto simp: list_all_iff intro!: trimSpace_graphic)

lemma contains_byte: "contains s [c] \<longleftrightarrow> c \<in> set s"
  by (induction s) (auto simp: hasPrefix_def)

lemma graphic_dash [simp]: "graphic (CHR ''-'')" "graphic (CHR ''['')" "graphic (CHR '']'')" "graphic (CHR '','')"
  by (simp_all add: graphic_def)

definition lineFeed :: char where
  "lineFeed = CHR 0x0A"

lemma graphic_lineFeed: "list_all graphic s \<Longrightarrow> lineFeed \<notin> set s"
  by (auto simp: list_all_iff graphic_def lineFeed_def)

lemma isDigits_no: "isDigits ds \<Longrightarrow> \<not> isDigitChar c \<Longrightarrow> c \<notin> set ds"
  by (auto simp: isDigits_def list_all_iff)

lemma digitsVal_format: "0 \<le> n \<Longrightarrow> int (digitsVal (formatPatternNumber n w)) = n"
  by (simp add: formatPatternNumber_nonneg)

lemma formatPatternNumber_neq_Nil: "0 \<le> n \<Longrightarrow> formatPatternNumber n w \<noteq> []"
  by (simp add: formatPatternNumber_nonneg padZero_def)

lemma graphic_format: "0 \<le> n \<Longrightarrow> list_all graphic (formatPatternNumber n w)"
  using digits_formatPatternNumber [of n w] by (auto simp: list_all_iff digit_graphic)

lemma graphic_group:
  assumes "list_all graphic p" "list_all suffixNumber (sg_numbers g)" "sg_numbers g \<noteq> []"
  shows "list_all graphic (renderSuffixGroup p g)"
proof -
  let ?rs = "renderRanges (sg_width g) (sg_numbers g)"
  have "graphic c" if "r \<in> set ?rs" "c \<in> set r" for c r
    using renderRanges_no [OF assms(2) that(1), of c] that(2) digit_graphic by (cases "c = CHR ''-''") auto
  then have "list_all graphic (strJoin '','' ?rs)"
    using set_strJoin [of "'',''" ?rs] by (fastforce simp: list_all_iff)
  moreover have "suffixNumber (sg_numbers g ! 0)" using assms(2,3) by (simp add: list_all_length)
  ultimately show ?thesis using assms(1) by (simp add: renderSuffixGroup_def graphic_format suffixNumber_def)
qed

text \<open>The places where a greedy group of a regular expression can end are tried from the right.\<close>

lemma find_rev_upt:
  assumes "P n" "n < N" "\<And>i. n < i \<Longrightarrow> i < N \<Longrightarrow> \<not> P i"
  shows "find P (rev [0..<N]) = Some n"
proof -
  have "[0..<N] = [0..<n] @ n # [Suc n..<N]"
    using assms(2) upt_add_eq_append [of 0 n "N - n"] by (simp add: upt_conv_Cons)
  moreover have "find P (rev [Suc n..<N]) = None" using assms(3) by (auto simp: find_None_iff)
  moreover have "find P (xs @ n # ys) = Some n" if "find P xs = None" for xs ys
    using that assms(1) by (induction xs) (auto split: if_splits)
  ultimately show ?thesis by simp
qed

section \<open>The contract\<close>

text \<open>The parts that a reader gets: cut at the commas outside brackets, trimmed, the empty ones left out.\<close>

definition hostlistParts :: "string \<Rightarrow> string list" where
  "hostlistParts s = filter (\<lambda>p. p \<noteq> []) (map trimSpace (splitTop 0 s))"

text \<open>
  \<open>denote\<close> is what a single name stands for; \<open>okName\<close>, \<open>okPrefix\<close> and \<open>okNumber\<close> delimit the names, the
  prefixes with their dash and the numbers that the reader must handle.
\<close>

locale hostlist_reader =
  fixes readTerm :: "string \<Rightarrow> goError + 'a list" and denote :: "string \<Rightarrow> 'a"
    and okName :: "string \<Rightarrow> bool" and okPrefix :: "string \<Rightarrow> bool" and okNumber :: "int \<Rightarrow> bool"
  assumes ok_name: "okName e \<Longrightarrow> plainName e \<and> list_all graphic e"
    and ok_prefix: "okName e \<Longrightarrow> dashedPrefix e = Some p \<Longrightarrow> okPrefix p"
    and ok_number: "okName e \<Longrightarrow> dashedPrefix e = Some p \<Longrightarrow> numericIn p e \<Longrightarrow> okNumber (sk_number (keyOf padded p e))"
    and read_name: "okName e \<Longrightarrow> readTerm e = Inr [denote e]"
    and read_group: "okPrefix p \<Longrightarrow> list_all graphic p \<Longrightarrow> plainPrefix p \<Longrightarrow> sg_numbers g \<noteq> [] \<Longrightarrow> list_all suffixNumber (sg_numbers g)
      \<Longrightarrow> list_all okNumber (sg_numbers g)
      \<Longrightarrow> readTerm (renderSuffixGroup p g) = Inr (map denote (expandTerm (renderSuffixGroup p g)))"
begin

lemma read_prefixedTerms:
  assumes "\<forall>e \<in> set es. okName e \<and> dashedPrefix e = Some p" "t \<in> set (prefixedTerms es p)" "es \<noteq> []"
  shows "readTerm t = Inr (map denote (expandTerm t)) \<and> list_all graphic t \<and> t \<noteq> []"
proof (cases "t \<in> renderSuffixGroup p ` set (suffixGroups (byWidth (mergeKeys es p)))")
  case True
  then obtain g where t: "t = renderSuffixGroup p g" and g: "g \<in> set (suffixGroups (byWidth (mergeKeys es p)))" by blast
  note gs = suffixGroups_ok [OF g]
  have "list_all okNumber (sg_numbers g)"
    using g ok_number assms(1) by (auto simp: set_suffixGroups groupOf_def set_mergeKeys list_all_iff)
  moreover have hd: "okName (hd es)" "dashedPrefix (hd es) = Some p" using assms(1,3) by simp_all
  moreover obtain s where "hd es = p @ s" "p \<noteq> []" using dashedPrefix_Some [OF hd(2)] by blast
  moreover have "list_all graphic p" "plainPrefix p"
    using calculation ok_name [OF hd(1)] by (simp_all add: plainName_def plainPrefix_def)
  moreover have "okPrefix p" using ok_prefix [OF hd] .
  ultimately show ?thesis unfolding t
    using read_group [of p g] graphic_group [of p g] gs by (auto simp: renderSuffixGroup_def)
next
  case False
  with assms(1,2) have "okName t" by (auto simp: prefixedTerms_def)
  then show ?thesis using ok_name [of t] by (simp add: read_name plainName_def)
qed

lemma read_mergeTerms:
  assumes "\<forall>e \<in> set es. okName e" "t \<in> set (mergeTerms es)"
  shows "readTerm t = Inr (map denote (expandTerm t)) \<and> list_all graphic t \<and> t \<noteq> []"
proof (cases "t \<in> set es")
  case True
  then show ?thesis using assms(1) ok_name [of t] by (simp add: read_name plainName_def)
next
  case False
  with assms(2) obtain p where p: "p \<in> set (prefixesOf es)" "t \<in> set (prefixedTerms (withPrefix es p) p)"
    by (auto simp: mergeTerms_def)
  then show ?thesis
    using assms(1) withPrefix_neq_Nil [OF p(1)] by (intro read_prefixedTerms [of "withPrefix es p" p]) (auto simp: withPrefix_def)
qed

lemma read_Merge:
  assumes "\<forall>e \<in> set es. okName e"
  shows "collectAll readTerm (hostlistParts (Merge es)) = Inr (map denote (hostlist (Merge es)))"
proof (cases "es = []")
  case True
  then show ?thesis by (simp add: hostlistParts_def hostlist_def trimSpace_all)
next
  case False
  have plain: "\<forall>e \<in> set es. plainName e" using assms ok_name by blast
  have terms: "readTerm t = Inr (map denote (expandTerm t)) \<and> trimSpace t = t \<and> t \<noteq> []" if "t \<in> set (mergeTerms es)" for t
    using read_mergeTerms [OF assms that] by (simp add: trimSpace_all)
  have "mergeTerms es \<noteq> []"
    using mergeTerms_expand [OF plain] False by (auto simp: mset_set_empty_iff)
  then have "splitTop 0 (Merge es) = mergeTerms es"
    using False mergeTerms_atomic [OF plain] by (simp add: Merge_terms splitTop_join)
  moreover have "map trimSpace (mergeTerms es) = mergeTerms es" using terms by (simp add: map_idI)
  ultimately have "hostlistParts (Merge es) = mergeTerms es"
    using terms by (simp add: hostlistParts_def filter_id_conv)
  then have "collectAll readTerm (hostlistParts (Merge es)) = Inr (concat (map (\<lambda>t. map denote (expandTerm t)) (mergeTerms es)))"
    using terms by (simp add: collectAll_map)
  then show ?thesis using hostlist_Merge [OF False plain] by (simp add: map_concat comp_def)
qed

end

end
