(* ===== verification/Power_Manager.thy ===== *)
theory Power_Manager
  imports Worker_Topology Hostlist_Reader
begin

text \<open>
  The power manager, cmd/powermanager/main.go: the program that slurmctld runs to resume and suspend
  nodes. It parses Slurm's node list, groups the nodes by NodeSet and adds their ordinals to, or removes
  them from, the NodeSetPowerState object of each ephemeral NodeSet; the wait commands poll the same
  objects until the ordinals have appeared or gone.

  Iterating over the runes of the node list and writing each of them copies the bytes of valid UTF-8
  text, and only ASCII characters are inspected, so the model works on bytes. The Kubernetes client,
  client-go's retry, the select on the ticker and the context, and the iteration order of a map are
  parameters (record \<open>powerApi\<close>).
\<close>

section \<open>Node lists\<close>

record NodeRef =
  NodeSetName :: string
  Ordinal :: int

text \<open>One rune of splitNodeList: the parts so far, the current part and the bracket depth.\<close>

definition appendPart :: "string list \<Rightarrow> string \<Rightarrow> string list" where
  "appendPart parts current = (let s = trimSpace current in if s \<noteq> [] then parts @ [s] else parts)"

definition splitStep :: "char \<Rightarrow> string list \<times> string \<times> int \<Rightarrow> string list \<times> string \<times> int" where
  "splitStep ch = (\<lambda>(parts, current, bracketDepth).
     if ch = CHR ''['' then (parts, current @ [ch], bracketDepth + 1)
     else if ch = CHR '']'' then (parts, current @ [ch], bracketDepth - 1)
     else if ch = CHR '','' then
       if bracketDepth = 0 then (appendPart parts current, [], bracketDepth)
       else (parts, current @ [ch], bracketDepth)
     else (parts, current @ [ch], bracketDepth))"

definition splitNodeList :: "string \<Rightarrow> string list" where
  "splitNodeList nodeList =
     (case fold splitStep nodeList ([], [], 0) of (parts, current, bracketDepth) \<Rightarrow> appendPart parts current)"

text \<open>
  The pattern \<open>^(.+)-\[([^\]]+)\]$\<close>: the first group is greedy, so of all places where a match is
  possible the last one is taken; the dot matches no newline.
\<close>

definition bracketAt :: "string \<Rightarrow> nat \<Rightarrow> bool" where
  "bracketAt s i \<longleftrightarrow> (let spec = drop (i + 2) s in
     0 < i \<and> lineFeed \<notin> set (take i s) \<and> hasPrefix (drop i s) ''-['' \<and> 2 \<le> length spec
     \<and> last spec = CHR '']'' \<and> CHR '']'' \<notin> set (butlast spec))"

definition bracketPattern :: "string \<Rightarrow> (string \<times> string) option" where
  "bracketPattern s = map_option (\<lambda>i. (take i s, butlast (drop (i + 2) s))) (find (bracketAt s) (rev [0..<length s]))"

text \<open>The pattern \<open>^(.+)-(\d+)$\<close>: the digits contain no dash, so the dash is the last one.\<close>

definition simplePattern :: "string \<Rightarrow> (string \<times> string) option" where
  "simplePattern s = (case lastIndex (CHR ''-'') s of
     None \<Rightarrow> None
   | Some i \<Rightarrow> if 0 < i \<and> lineFeed \<notin> set (take i s) \<and> drop (i + 1) s \<noteq> [] \<and> isDigits (drop (i + 1) s)
               then Some (take i s, drop (i + 1) s) else None)"

definition parseRangePart :: "string \<Rightarrow> goError + int list" where
  "parseRangePart rawPart =
     (let part = trimSpace rawPart in
      if contains part ''-'' then
        (let rangeParts = strSplitN2 (CHR ''-'') part in
         if length rangeParts \<noteq> 2 then Inl (Errorf ''invalid range: %s'' [part])
         else case parseInt32 (rangeParts ! 0) of
            None \<Rightarrow> Inl (Errorf ''invalid range start: %s'' [rangeParts ! 0])
          | Some start \<Rightarrow> (case parseInt32 (rangeParts ! 1) of
              None \<Rightarrow> Inl (Errorf ''invalid range end: %s'' [rangeParts ! 1])
            | Some stop \<Rightarrow> Inr [start..stop]))
      else case parseInt32 part of
          None \<Rightarrow> Inl (Errorf ''invalid number: %s'' [part])
        | Some num \<Rightarrow> Inr [num])"

definition parseRangeSpec :: "string \<Rightarrow> goError + int list" where
  "parseRangeSpec spec = collectAll parseRangePart (strSplit (CHR '','') spec)"

definition parseNodeRange :: "string \<Rightarrow> goError + NodeRef list" where
  "parseNodeRange nodeRange = (case bracketPattern nodeRange of
     Some (nodeSetName, rangeSpec) \<Rightarrow> (case parseRangeSpec rangeSpec of
         Inl err \<Rightarrow> Inl err
       | Inr ordinals \<Rightarrow> Inr (map (\<lambda>ord. \<lparr>NodeSetName = nodeSetName, Ordinal = ord\<rparr>) ordinals))
   | None \<Rightarrow> (case simplePattern nodeRange of
         Some (nodeSetName, digits) \<Rightarrow> (case parseInt32 digits of
             None \<Rightarrow> Inl (Errorf ''strconv.ParseInt: parsing %q: value out of range'' [digits])
           | Some ordinal \<Rightarrow> Inr [\<lparr>NodeSetName = nodeSetName, Ordinal = ordinal\<rparr>])
       | None \<Rightarrow> Inl (Errorf ''invalid node range format: %s'' [nodeRange])))"

definition parsePart :: "string \<Rightarrow> goError + NodeRef list" where
  "parsePart part = (case parseNodeRange part of
     Inl err \<Rightarrow> Inl (wrapErr ''failed to parse node range '%s': %w'' [part] err)
   | Inr refs \<Rightarrow> Inr refs)"

definition parseNodeList :: "string \<Rightarrow> goError + NodeRef list" where
  "parseNodeList nodeList = collectAll parsePart (splitNodeList nodeList)"

definition groupNodesByNodeSet :: "NodeRef list \<Rightarrow> (string, int list) gomap" where
  "groupNodesByNodeSet refs = fold (\<lambda>ref. mapAppend (NodeSetName ref) (Ordinal ref)) refs []"

section \<open>Power states\<close>

record nodeSetPowerState =
  psr_meta :: objectMeta
  psr_NodeSetRef :: string
  psr_ActiveNodes :: "int list"

definition powerKey :: "nodeSetPowerState \<Rightarrow> objectKey" where
  "powerKey ps = metaKey (psr_meta ps)"

record ephemeralNodeSet = nodeSet +
  nset_ephemeralNodes :: "bool option"

record 'w powerApi =
  pm_createClient :: "('w, unit) action"
  pm_nodeSets :: "('w, ephemeralNodeSet) kindClient"
  pm_powerStates :: "('w, nodeSetPowerState) kindClient"
  pm_retry :: "('w, unit) action \<Rightarrow> ('w, unit) action"
  pm_range :: "(string, int list) gomap \<Rightarrow> (string, int list) gomap"
  pm_select :: "('w, bool) action"

definition newPowerState :: "string \<Rightarrow> string \<Rightarrow> nodeSetPowerState" where
  "newPowerState namespace nodeSetName =
     \<lparr>psr_meta = newMeta namespace nodeSetName, psr_NodeSetRef = nodeSetName, psr_ActiveNodes = []\<rparr>"

text \<open>The set of active ordinals after the action, as the sorted list that is stored.\<close>

definition newActiveNodes :: "int list \<Rightarrow> int list \<Rightarrow> bool \<Rightarrow> int list" where
  "newActiveNodes activeNodes ordinals resume =
     (let currentActiveSet = fold setAdd activeNodes [];
          currentActiveSet' = (if resume then fold setAdd ordinals currentActiveSet
                               else fold (\<lambda>ord. filter (\<lambda>a. a \<noteq> ord)) ordinals currentActiveSet)
      in sort currentActiveSet')"

definition updatePowerOnce :: "'w powerApi \<Rightarrow> string \<Rightarrow> string \<Rightarrow> int list \<Rightarrow> bool \<Rightarrow> ('w, unit) action" where
  "updatePowerOnce api namespace nodeSetName ordinals resume =
     tryA (cGet (pm_powerStates api) (namespace, nodeSetName)) (\<lambda>r. case r of
       Inl err \<Rightarrow>
         if \<not> IsNotFound err then raise (wrapErr ''failed to get NodeSetPowerState: %w'' [] err)
         else wrapA ''failed to create NodeSetPowerState: %w'' []
                (cCreate (pm_powerStates api) (newPowerState namespace nodeSetName))
     | Inr powerState \<Rightarrow>
         cUpdate (pm_powerStates api)
           (powerState\<lparr>psr_ActiveNodes := newActiveNodes (psr_ActiveNodes powerState) ordinals resume\<rparr>))"

definition updateNodeSetPowerState :: "'w powerApi \<Rightarrow> string \<Rightarrow> string \<Rightarrow> int list \<Rightarrow> bool \<Rightarrow> ('w, unit) action" where
  "updateNodeSetPowerState api namespace nodeSetName ordinals resume =
     pm_retry api (updatePowerOnce api namespace nodeSetName ordinals resume)"

section \<open>Commands\<close>

definition powerNodeSet :: "'w powerApi \<Rightarrow> string \<Rightarrow> (string, ephemeralNodeSet) gomap \<Rightarrow> bool
    \<Rightarrow> string \<times> int list \<Rightarrow> unit \<Rightarrow> ('w, unit) action" where
  "powerNodeSet api namespace nodeSetMap resume = (\<lambda>(nodeSetName, ordinals) _.
     case map_of nodeSetMap nodeSetName of
       None \<Rightarrow> ret ()
     | Some nodeSet \<Rightarrow>
         if nset_ephemeralNodes nodeSet = None \<or> \<not> the (nset_ephemeralNodes nodeSet) then ret ()
         else updateNodeSetPowerState api namespace nodeSetName ordinals resume)"

definition runPowerAction :: "'w powerApi \<Rightarrow> string \<Rightarrow> string \<Rightarrow> bool \<Rightarrow> ('w, unit) action" where
  "runPowerAction api namespace nodes resume =
     bindA (wrapA ''failed to create kubernetes client: %w'' [] (pm_createClient api)) (\<lambda>_.
     bindA (wrapA ''failed to parse node list: %w'' [] (liftA (parseNodeList nodes))) (\<lambda>nodeRefs.
     bindA (wrapA ''failed to list NodeSets: %w'' [] (cList (pm_nodeSets api) namespace [])) (\<lambda>items.
       let nodeSetMap = fold (\<lambda>ns. mapPut (om_name (nset_meta ns)) ns) items []
       in forA (powerNodeSet api namespace nodeSetMap resume) (pm_range api (groupNodesByNodeSet nodeRefs)) ())))"

definition checkNodesStatus :: "'w powerApi \<Rightarrow> string \<Rightarrow> string \<Rightarrow> int list \<Rightarrow> bool \<Rightarrow> ('w, bool) action" where
  "checkNodesStatus api namespace nodeSetName ordinals checkAdded =
     bindA (wrapA ''failed to get NodeSetPowerState: %w'' [] (cGet (pm_powerStates api) (namespace, nodeSetName))) (\<lambda>powerState.
       let activeSet = fold setAdd (psr_ActiveNodes powerState) [] in
       ret (if checkAdded then list_all (\<lambda>ordinal. ordinal \<in> set activeSet) ordinals
            else list_all (\<lambda>ordinal. ordinal \<notin> set activeSet) ordinals))"

text \<open>One tick: an error of a check only means that the loop goes on.\<close>

definition checkTick :: "'w powerApi \<Rightarrow> string \<Rightarrow> bool \<Rightarrow> string \<times> int list \<Rightarrow> bool \<Rightarrow> ('w, bool) action" where
  "checkTick api namespace waitForAdded = (\<lambda>(nodeSetName, ordinals) allDone.
     tryA (checkNodesStatus api namespace nodeSetName ordinals waitForAdded) (\<lambda>r. case r of
       Inl err \<Rightarrow> ret False
     | Inr done \<Rightarrow> ret (if \<not> done then False else allDone)))"

text \<open>\<open>pm_select\<close> tells which case of the select is taken: the end of the context, or a tick.\<close>

fun pollNodes :: "nat \<Rightarrow> 'w powerApi \<Rightarrow> string \<Rightarrow> (string, int list) gomap \<Rightarrow> bool \<Rightarrow> ('w, unit) action" where
  "pollNodes 0 api namespace nodesByNodeSet waitForAdded = raise NoReturn"
| "pollNodes (Suc fuel) api namespace nodesByNodeSet waitForAdded =
     bindA (pm_select api) (\<lambda>ctxDone.
       if ctxDone then raise (Errorf ''timeout waiting for nodes to %s activeNodes''
                                [if waitForAdded then ''appear in'' else ''be removed from''])
       else bindA (forA (checkTick api namespace waitForAdded) (pm_range api nodesByNodeSet) True) (\<lambda>allDone.
         if allDone then ret () else pollNodes fuel api namespace nodesByNodeSet waitForAdded))"

definition waitForNodes :: "nat \<Rightarrow> 'w powerApi \<Rightarrow> string \<Rightarrow> string \<Rightarrow> bool \<Rightarrow> ('w, unit) action" where
  "waitForNodes fuel api namespace nodes waitForAdded =
     bindA (wrapA ''failed to create kubernetes client: %w'' [] (pm_createClient api)) (\<lambda>_.
     bindA (wrapA ''failed to parse node list: %w'' [] (liftA (parseNodeList nodes))) (\<lambda>nodeRefs.
       pollNodes fuel api namespace (groupNodesByNodeSet nodeRefs) waitForAdded))"

section \<open>Splitting\<close>

text \<open>The parts are the pieces between the commas outside brackets, trimmed, without the empty ones.\<close>

lemma splitStep_fold:
  "(case fold splitStep s (parts, current, d) of (ps, c, d') \<Rightarrow> appendPart ps c)
     = (case splitTop d s of q # qs \<Rightarrow> fold (\<lambda>p ps. appendPart ps p) qs (appendPart parts (current @ q)))"
proof (induction s arbitrary: parts current d)
  case (Cons ch s)
  show ?case
  proof (cases "ch = CHR '','' \<and> d = 0")
    case True
    then have step: "splitStep ch (parts, current, d) = (appendPart parts current, [], 0)"
      by (simp add: splitStep_def)
    obtain q qs where q: "splitTop 0 s = q # qs" by (meson neq_Nil_conv splitTop_neq_Nil)
    with True have "splitTop d (ch # s) = [] # q # qs" by simp
    with q show ?thesis by (simp only: fold.simps comp_apply step Cons.IH list.case append_Nil append_Nil2)
  next
    case False
    define d' where "d' = (if ch = CHR ''['' then d + 1 else if ch = CHR '']'' then d - 1 else d)"
    with False have step: "splitStep ch (parts, current, d) = (parts, current @ [ch], d')"
      by (simp add: splitStep_def)
    obtain q qs where q: "splitTop d' s = q # qs" by (meson neq_Nil_conv splitTop_neq_Nil)
    then have "splitTop d (ch # s) = (ch # q) # qs" using False by (simp add: d'_def)
    with q show ?thesis by (simp only: fold.simps comp_apply step Cons.IH list.case append.assoc append.simps)
  qed
qed simp

lemma fold_appendPart: "fold (\<lambda>p ps. appendPart ps p) qs parts = parts @ filter (\<lambda>p. p \<noteq> []) (map trimSpace qs)"
  by (induction qs arbitrary: parts) (auto simp: appendPart_def Let_def)

lemma splitNodeList_parts: "splitNodeList s = hostlistParts s"
  unfolding splitNodeList_def splitStep_fold hostlistParts_def
  by (cases "splitTop 0 s") (simp_all only: fold_appendPart list.case splitTop_neq_Nil, auto simp: appendPart_def Let_def)

section \<open>The patterns\<close>

lemma bracketAt_bracket: "bracketAt s i \<Longrightarrow> CHR ''['' \<in> set (drop (Suc i) s)"
proof -
  assume "bracketAt s i"
  then obtain r where "drop i s = CHR ''-'' # CHR ''['' # r" by (auto simp: bracketAt_def hasPrefix_iff Let_def)
  then have "drop (Suc i) s = CHR ''['' # r" by (metis drop_Suc list.sel(3) tl_drop)
  then show ?thesis by simp
qed

lemma bracketPattern_match:
  assumes "ns \<noteq> []" "lineFeed \<notin> set ns" "spec \<noteq> []" "CHR ''['' \<notin> set spec" "CHR '']'' \<notin> set spec"
  shows "bracketPattern (ns @ ''-['' @ spec @ '']'') = Some (ns, spec)"
proof -
  let ?s = "ns @ ''-['' @ spec @ '']''"
  have "find (bracketAt ?s) (rev [0..<length ?s]) = Some (length ns)"
  proof (rule find_rev_upt)
    show "bracketAt ?s (length ns)"
      using assms by (simp add: bracketAt_def Let_def Suc_le_eq)
  next
    fix i assume i: "length ns < i" "i < length ?s"
    from i(1) obtain k where "i = length ns + Suc k" using less_iff_Suc_add by auto
    then have "drop (Suc i) ?s = drop k (spec @ '']'')" by simp
    then have "CHR ''['' \<notin> set (drop (Suc i) ?s)"
      using assms(4) by (auto dest!: in_set_dropD)
    then show "\<not> bracketAt ?s i" using bracketAt_bracket by blast
  qed simp
  then show ?thesis by (simp add: bracketPattern_def butlast_append)
qed

lemma bracketPattern_plain: "CHR ''['' \<notin> set s \<Longrightarrow> bracketPattern s = None"
proof -
  assume "CHR ''['' \<notin> set s"
  then have "\<not> bracketAt s i" for i using bracketAt_bracket in_set_dropD by metis
  then show ?thesis by (simp add: bracketPattern_def find_None_iff)
qed

lemma simplePattern_match:
  assumes "ns \<noteq> []" "lineFeed \<notin> set ns" "ds \<noteq> []" "isDigits ds"
  shows "simplePattern (ns @ CHR ''-'' # ds) = Some (ns, ds)"
proof -
  have "CHR ''-'' \<notin> set ds" using assms(4) by (auto simp: isDigits_def list_all_iff)
  then show ?thesis using assms by (simp add: simplePattern_def lastIndex_split)
qed

section \<open>Ranges\<close>

text \<open>The reference meaning of a node name: the part before the last dash, and the number after it.\<close>

definition refOf :: "string \<Rightarrow> NodeRef" where
  "refOf e = (case lastIndex (CHR ''-'') e of
     None \<Rightarrow> \<lparr>NodeSetName = e, Ordinal = 0\<rparr>
   | Some i \<Rightarrow> \<lparr>NodeSetName = take i e, Ordinal = int (digitsVal (drop (i + 1) e))\<rparr>)"

definition ordinalNumber :: "int \<Rightarrow> bool" where
  "ordinalNumber n \<longleftrightarrow> 0 \<le> n \<and> n < 2 ^ 31"

lemma refOf_dash: "isDigits ds \<Longrightarrow> refOf (ns @ CHR ''-'' # ds) = \<lparr>NodeSetName = ns, Ordinal = int (digitsVal ds)\<rparr>"
proof -
  assume "isDigits ds"
  then have "CHR ''-'' \<notin> set ds" by (auto simp: isDigits_def list_all_iff)
  then show ?thesis by (simp add: refOf_def lastIndex_split)
qed

lemma parseInt32_format: "ordinalNumber n \<Longrightarrow> parseInt32 (formatPatternNumber n w) = Some n"
  by (simp add: ordinalNumber_def parseInt32_digits digits_formatPatternNumber formatPatternNumber_neq_Nil digitsVal_format fits32_def)

lemma parseRangePart_single: "ordinalNumber n \<Longrightarrow> parseRangePart (formatPatternNumber n w) = Inr [n]"
  using formatPatternNumber_no [of n "CHR ''-''" w]
  by (simp add: parseRangePart_def trimSpace_all graphic_format contains_byte parseInt32_format ordinalNumber_def Let_def)

lemma parseRangePart_range:
  assumes "ordinalNumber a" "ordinalNumber b"
  shows "parseRangePart (formatPatternNumber a w @ ''-'' @ formatPatternNumber b w) = Inr [a..b]"
proof -
  let ?p = "formatPatternNumber a w @ CHR ''-'' # formatPatternNumber b w"
  have "trimSpace ?p = ?p" using assms by (simp add: trimSpace_all graphic_format ordinalNumber_def)
  moreover have "strSplitN2 (CHR ''-'') ?p = [formatPatternNumber a w, formatPatternNumber b w]"
    using assms by (simp add: strSplitN2_split formatPatternNumber_no ordinalNumber_def)
  ultimately show ?thesis
    using parseInt32_format [OF assms(1), of w] parseInt32_format [OF assms(2), of w]
    by (simp add: parseRangePart_def contains_byte Let_def)
qed

lemma parse_renderRanges:
  "list_all ordinalNumber ns \<Longrightarrow> collectAll parseRangePart (renderRanges w ns) = Inr ns"
proof (induction w ns rule: renderRanges.induct)
  case (2 w start ns)
  obtain e rest where e: "extendRun start ns = (e, rest)" by fastforce
  have "suffixNumber start" "list_all suffixNumber ns"
    using 2(2) by (auto simp: ordinalNumber_def suffixNumber_def list_all_iff)
  from extendRun_upto [OF e this] have u: "start \<le> e" "start # ns = [start..e] @ rest" by auto
  then have "list_all ordinalNumber ([start..e] @ rest)" using 2(2) by metis
  with u(1) have ok: "ordinalNumber start" "ordinalNumber e" "list_all ordinalNumber rest"
    by (auto simp: list_all_iff)
  have "collectAll parseRangePart (renderRanges w (start # ns)) = Inr ([start..e] @ rest)"
    using 2(1) [OF e [symmetric] ok(3)] ok parseRangePart_range [OF ok(1,2), of w]
    by (auto simp: e parseRangePart_single)
  then show ?case using u(2) by simp
qed simp

lemma parseRangeSpec_renderRanges:
  assumes "list_all ordinalNumber ns" "ns \<noteq> []"
  shows "parseRangeSpec (strJoin '','' (renderRanges w ns)) = Inr ns"
proof -
  have "list_all suffixNumber ns" using assms(1) by (auto simp: ordinalNumber_def suffixNumber_def list_all_iff)
  from renderRanges_no [OF this] have "\<forall>r \<in> set (renderRanges w ns). CHR '','' \<notin> set r" by auto
  then have "strSplit (CHR '','') (strJoin '','' (renderRanges w ns)) = renderRanges w ns"
    using assms(2) by (simp add: strSplit_strJoin)
  then show ?thesis using parse_renderRanges [OF assms(1)] by (simp add: parseRangeSpec_def)
qed

section \<open>Reading hostlist expressions\<close>

text \<open>
  The names a NodeSet's nodes have: the NodeSet's name, printable and without commas and brackets, a
  dash, and a number that fits 32 bits.
\<close>

definition workerName :: "string \<Rightarrow> bool" where
  "workerName e \<longleftrightarrow> (case lastIndex (CHR ''-'') e of
     None \<Rightarrow> False
   | Some i \<Rightarrow> 0 < i \<and> plainPrefix (take i e) \<and> list_all graphic (take i e) \<and> drop (i + 1) e \<noteq> []
       \<and> isDigits (drop (i + 1) e) \<and> digitsVal (drop (i + 1) e) < 2 ^ 31)"

lemma workerName_split:
  assumes "workerName e"
  obtains ns ds where "e = ns @ CHR ''-'' # ds" "ns \<noteq> []" "plainPrefix ns" "list_all graphic ns"
    "ds \<noteq> []" "isDigits ds" "digitsVal ds < 2 ^ 31"
proof -
  from assms obtain i where i: "lastIndex (CHR ''-'') e = Some i" by (auto simp: workerName_def split: option.splits)
  then obtain t u where "e = t @ CHR ''-'' # u" "length t = i" by (auto simp: lastIndex_Some)
  with assms i show thesis by (intro that [of t u]) (auto simp: workerName_def)
qed

lemma workerName_plain: "workerName e \<Longrightarrow> plainName e \<and> list_all graphic e"
  by (erule workerName_split) (auto simp: plainName_def plainPrefix_def isDigits_no, auto simp: isDigits_def list_all_iff digit_graphic)

lemma parseNodeRange_name:
  assumes "workerName e"
  shows "parseNodeRange e = Inr [refOf e]"
proof -
  obtain ns ds where e: "e = ns @ CHR ''-'' # ds" and ns: "ns \<noteq> []" "plainPrefix ns" "list_all graphic ns"
    and ds: "ds \<noteq> []" "isDigits ds" "digitsVal ds < 2 ^ 31"
    using assms by (rule workerName_split)
  have "CHR ''['' \<notin> set e" using workerName_plain [OF assms] by (simp add: plainName_def)
  moreover have "parseInt32 ds = Some (int (digitsVal ds))"
    using ds by (simp add: parseInt32_digits isDigits_def)
  ultimately show ?thesis
    using ns ds graphic_lineFeed [of ns]
    by (simp add: parseNodeRange_def bracketPattern_plain simplePattern_match refOf_dash e)
qed

lemma parseNodeRange_group:
  assumes "ns \<noteq> []" "plainPrefix ns" "list_all graphic ns" "sg_numbers g \<noteq> []" "list_all ordinalNumber (sg_numbers g)"
  shows "parseNodeRange (renderSuffixGroup (ns @ ''-'') g) = Inr (map refOf (expandTerm (renderSuffixGroup (ns @ ''-'') g)))"
proof -
  let ?w = "sg_width g" and ?ns = "sg_numbers g"
  have suffix: "list_all suffixNumber ?ns" using assms(5) by (auto simp: ordinalNumber_def suffixNumber_def list_all_iff)
  have ref: "refOf (ns @ CHR ''-'' # formatPatternNumber n ?w) = \<lparr>NodeSetName = ns, Ordinal = n\<rparr>" if "n \<in> set ?ns" for n
  proof -
    from that assms(5) have "0 \<le> n" by (simp add: ordinalNumber_def list_all_iff)
    then show ?thesis by (simp add: refOf_dash isDigits_def digits_formatPatternNumber digitsVal_format)
  qed
  have "CHR ''['' \<notin> set (ns @ ''-'')" using assms(2) by (simp add: plainPrefix_def)
  then have ex: "map refOf (expandTerm (renderSuffixGroup (ns @ ''-'') g)) = map (\<lambda>n. \<lparr>NodeSetName = ns, Ordinal = n\<rparr>) ?ns"
    using ref by (simp add: expandTerm_group assms(4) suffix)
  show ?thesis
  proof (cases "length ?ns = 1")
    case True
    then obtain n where n: "?ns = [n]" by (cases ?ns) auto
    let ?d = "formatPatternNumber n ?w"
    have "ordinalNumber n" using assms(5) n by simp
    then have d: "isDigits ?d" "?d \<noteq> []" "digitsVal ?d < 2 ^ 31"
      using digitsVal_format [of n ?w]
      by (auto simp: isDigits_def ordinalNumber_def digits_formatPatternNumber formatPatternNumber_neq_Nil)
    then have "workerName (ns @ CHR ''-'' # ?d)"
      using assms(1-3) by (simp add: workerName_def lastIndex_split isDigits_no)
    then show ?thesis using n True ex ref [of n] by (simp add: renderSuffixGroup_def parseNodeRange_name)
  next
    case False
    let ?spec = "strJoin '','' (renderRanges ?w ?ns)"
    have spec: "CHR ''['' \<notin> set ?spec" "CHR '']'' \<notin> set ?spec"
      using set_strJoin [of "'',''" "renderRanges ?w ?ns"] renderRanges_no [OF suffix] by fastforce+
    have "parseRangeSpec ?spec = Inr ?ns" by (rule parseRangeSpec_renderRanges [OF assms(5,4)])
    moreover from this have "?spec \<noteq> []"
      by (auto simp: parseRangeSpec_def parseRangePart_def trimSpace_all parseInt32_def parseSigned_def Let_def)
    ultimately show ?thesis
      using False spec ex assms(1) graphic_lineFeed [OF assms(3)]
      by (simp add: renderSuffixGroup_def parseNodeRange_def bracketPattern_match [simplified])
  qed
qed

text \<open>The parser meets the contract of hostlist readers.\<close>

lemma dashedPrefix_workerName:
  assumes "workerName e" "dashedPrefix e = Some p"
  obtains ns ds where "e = p @ ds" "p = ns @ ''-''" "ns \<noteq> []" "ds \<noteq> []" "isDigits ds" "digitsVal ds < 2 ^ 31"
proof -
  obtain ns ds where e: "e = ns @ CHR ''-'' # ds" and ns: "ns \<noteq> []"
    and ds: "ds \<noteq> []" "isDigits ds" "digitsVal ds < 2 ^ 31"
    using assms(1) by (rule workerName_split)
  then have "dashedPrefix e = Some (ns @ ''-'')" by (simp add: dashedPrefix_def lastIndex_split isDigits_no)
  with assms(2) e ns ds that show thesis by simp
qed

interpretation powerReader: hostlist_reader parsePart refOf workerName "\<lambda>p. \<exists>ns. p = ns @ ''-'' \<and> ns \<noteq> []" ordinalNumber
proof
  fix e assume e: "workerName e"
  then show "plainName e \<and> list_all graphic e" by (rule workerName_plain)
  show "parsePart e = Inr [refOf e]" using e by (simp add: parsePart_def parseNodeRange_name)
next
  fix e p assume "workerName e" "dashedPrefix e = Some p"
  then show "\<exists>ns. p = ns @ ''-'' \<and> ns \<noteq> []" by (elim dashedPrefix_workerName) auto
next
  fix e p padded assume "workerName e" "dashedPrefix e = Some p"
  then obtain ds where "e = p @ ds" "ds \<noteq> []" "isDigits ds" "digitsVal ds < 2 ^ 31" by (elim dashedPrefix_workerName) auto
  then show "ordinalNumber (sk_number (keyOf padded p e))"
    by (simp add: keyOf_def atoi_digits isDigits_def ordinalNumber_def)
next
  fix p and g :: suffixGroup
  assume "\<exists>ns. p = ns @ ''-'' \<and> ns \<noteq> []" "list_all graphic p" "plainPrefix p" "sg_numbers g \<noteq> []" "list_all ordinalNumber (sg_numbers g)"
  then show "parsePart (renderSuffixGroup p g) = Inr (map refOf (expandTerm (renderSuffixGroup p g)))"
    using parseNodeRange_group [of _ g] by (auto simp: parsePart_def plainPrefix_def)
qed

text \<open>
  C15: the power manager reads the hostlist expression that Merge writes for the nodes of NodeSets as
  exactly those nodes, each once, with their NodeSets and ordinals, whatever ranges and zero padding the
  expression uses.
\<close>

theorem parseNodeList_Merge:
  assumes "\<forall>e \<in> set es. workerName e"
  shows "\<exists>refs. parseNodeList (Merge es) = Inr refs \<and> mset refs = image_mset refOf (mset_set (set es))"
  using powerReader.read_Merge [OF assms] Merge_mset [of es] assms workerName_plain
  by (auto simp: parseNodeList_def splitNodeList_parts)

theorem parseNodeList_Merge_witness:
  "\<exists>refs. parseNodeList (Merge [''gpu-h100-3'', ''w-10'', ''w-09'', ''w-11'']) = Inr refs
     \<and> mset refs = image_mset refOf (mset_set {''gpu-h100-3'', ''w-10'', ''w-09'', ''w-11''})"
proof -
  have "\<forall>e \<in> set [''gpu-h100-3'', ''w-10'', ''w-09'', ''w-11'']. workerName e"
    by (simp add: workerName_def plainPrefix_def graphic_def isDigits_def isDigitChar_def digitsVal_def digitVal_def)
  from parseNodeList_Merge [OF this] show ?thesis by simp
qed

section \<open>Bounds of the parser\<close>

lemma parseInt32_fits: "parseInt32 s = Some n \<Longrightarrow> fits32 n"
  by (auto simp: parseInt32_def split: option.splits if_splits)

lemma parseRangePart_fits: "parseRangePart s = Inr ns \<Longrightarrow> n \<in> set ns \<Longrightarrow> fits32 n"
  by (auto simp: parseRangePart_def Let_def fits32_def dest!: parseInt32_fits split: if_splits option.splits)

lemma parseRangeSpec_fits: "parseRangeSpec s = Inr ns \<Longrightarrow> n \<in> set ns \<Longrightarrow> fits32 n"
  unfolding parseRangeSpec_def using collectAll_set parseRangePart_fits by metis

lemma pattern_names: "bracketPattern s = Some (ns, spec) \<Longrightarrow> ns \<noteq> []" "simplePattern s = Some (ns, ds) \<Longrightarrow> ns \<noteq> []"
proof -
  assume "bracketPattern s = Some (ns, spec)"
  then obtain i where i: "find (bracketAt s) (rev [0..<length s]) = Some i" "ns = take i s" by (auto simp: bracketPattern_def)
  from i(1) have "bracketAt s i" "i \<in> set (rev [0..<length s])" by (auto simp: find_Some_iff) (metis nth_mem length_rev length_upt minus_nat.diff_0 set_rev set_upt atLeastLessThan_iff)
  then show "ns \<noteq> []" using i(2) by (auto simp: bracketAt_def Let_def)
next
  assume "simplePattern s = Some (ns, ds)"
  then show "ns \<noteq> []" by (auto simp: simplePattern_def lastIndex_Some split: option.splits if_splits)
qed

lemma parseNodeRange_bounds:
  assumes "parseNodeRange s = Inr refs" "r \<in> set refs"
  shows "fits32 (Ordinal r) \<and> NodeSetName r \<noteq> []"
proof (cases "bracketPattern s")
  case None
  with assms show ?thesis using pattern_names(2) [of s]
    by (auto simp: parseNodeRange_def split: option.splits) (metis parseInt32_fits)
next
  case (Some m)
  with assms show ?thesis using pattern_names(1) [of s]
    by (cases m) (auto simp: parseNodeRange_def split: sum.splits, metis parseRangeSpec_fits)
qed

text \<open>
  Whatever the node list is, every ordinal parsed from it fits 32 bits, so its conversion to int32
  loses nothing, and no NodeSet name is empty.
\<close>

lemma parseNodeList_bounds:
  assumes "parseNodeList nodeList = Inr refs"
  shows "\<forall>r \<in> set refs. wrap32 (Ordinal r) = Ordinal r \<and> NodeSetName r \<noteq> []"
proof
  fix r assume "r \<in> set refs"
  from collectAll_set [OF assms [unfolded parseNodeList_def] this] obtain part zs where
    part: "parsePart part = Inr zs" and r: "r \<in> set zs"
    by blast
  from part have "parseNodeRange part = Inr zs" by (cases "parseNodeRange part") (simp_all add: parsePart_def)
  from parseNodeRange_bounds [OF this r] show "wrap32 (Ordinal r) = Ordinal r \<and> NodeSetName r \<noteq> []" by simp
qed

lemma parseNodeList_bounds_witness:
  "parseNodeList ''w-[7-8], g-3'' =
     Inr [\<lparr>NodeSetName = ''w'', Ordinal = 7\<rparr>, \<lparr>NodeSetName = ''w'', Ordinal = 8\<rparr>, \<lparr>NodeSetName = ''g'', Ordinal = 3\<rparr>]
   \<and> wrap32 8 = 8"
proof -
  have p: "parseNodeList ''w-[7-8], g-3'' =
     Inr [\<lparr>NodeSetName = ''w'', Ordinal = 7\<rparr>, \<lparr>NodeSetName = ''w'', Ordinal = 8\<rparr>, \<lparr>NodeSetName = ''g'', Ordinal = 3\<rparr>]"
    by code_simp
  from parseNodeList_bounds [OF p] p show ?thesis by simp
qed

section \<open>Changing power states\<close>

text \<open>
  What is relied on: \<open>objs\<close> are the power states of the cluster, \<open>rest\<close> everything else.
\<close>

definition lawfulPowerApi :: "'w powerApi \<Rightarrow> ('w \<Rightarrow> objectKey \<Rightarrow> nodeSetPowerState option) \<Rightarrow> ('w \<Rightarrow> 'r) \<Rightarrow> bool" where
  "lawfulPowerApi api objs rest \<longleftrightarrow>
     lawfulGet (pm_powerStates api) powerKey objs \<and> lawfulWrite (pm_powerStates api) powerKey objs rest
   \<and> readOnly (pm_nodeSets api) \<and> keepsWorld (pm_createClient api) \<and> lawfulRetry (pm_retry api)
   \<and> (\<forall>m. mset (pm_range api m) = mset m)"

lemma lawfulPowerApiD:
  assumes "lawfulPowerApi api objs rest"
  shows "lawfulGet (pm_powerStates api) powerKey objs" "lawfulWrite (pm_powerStates api) powerKey objs rest"
    "readOnly (pm_nodeSets api)" "keepsWorld (pm_createClient api)" "lawfulRetry (pm_retry api)" "mset (pm_range api m) = mset m"
  using assms unfolding lawfulPowerApi_def by blast+

lemma set_fold_remove: "set (fold (\<lambda>x. filter (\<lambda>a. a \<noteq> x)) xs s) = set s - set xs"
  by (induction xs arbitrary: s) auto

lemma distinct_fold_remove: "distinct s \<Longrightarrow> distinct (fold (\<lambda>x. filter (\<lambda>a. a \<noteq> x)) xs s)"
  by (induction xs arbitrary: s) auto

text \<open>The reference meaning: the sorted list of the union, or of the difference.\<close>

lemma newActiveNodes_eq:
  "newActiveNodes active ordinals resume =
     sorted_list_of_set (if resume then set active \<union> set ordinals else set active - set ordinals)"
  by (auto simp: newActiveNodes_def sort_distinct set_fold_setAdd distinct_fold_setAdd set_fold_remove distinct_fold_remove
      Un_commute Let_def)

text \<open>The power state after an action on an object that may be absent.\<close>

definition powered :: "string \<Rightarrow> string \<Rightarrow> int set \<Rightarrow> bool \<Rightarrow> nodeSetPowerState option \<Rightarrow> nodeSetPowerState" where
  "powered namespace nodeSetName ordinals resume old = (case old of
     None \<Rightarrow> newPowerState namespace nodeSetName
   | Some ps \<Rightarrow> ps\<lparr>psr_ActiveNodes :=
       sorted_list_of_set (if resume then set (psr_ActiveNodes ps) \<union> ordinals else set (psr_ActiveNodes ps) - ordinals)\<rparr>)"

lemma powerKey_newPowerState [simp]: "powerKey (newPowerState namespace name) = (namespace, name)"
  by (simp add: powerKey_def newPowerState_def metaKey_def newMeta_def)

lemma updatePowerOnce_effect:
  assumes api: "lawfulPowerApi api objs rest"
  shows "case updatePowerOnce api namespace name ordinals resume w of
      (Inr u, w') \<Rightarrow> objs w' = (objs w)((namespace, name) \<mapsto> powered namespace name (set ordinals) resume (objs w (namespace, name)))
        \<and> rest w' = rest w
    | (Inl e, w') \<Rightarrow> w' = w"
proof -
  let ?c = "pm_powerStates api"
  note laws = lawfulPowerApiD [OF api]
  obtain r v where g: "cGet ?c (namespace, name) w = (r, v)" by fastforce
  show ?thesis
  proof (cases r)
    case (Inl e)
    note ge = lawful_get_Inl [OF laws(1) g [unfolded Inl]]
    show ?thesis
    proof (cases "IsNotFound e")
      case True
      obtain r' v' where c: "cCreate ?c (newPowerState namespace name) w = (r', v')" by fastforce
      have "updatePowerOnce api namespace name ordinals resume w
          = wrapA ''failed to create NodeSetPowerState: %w'' [] (cCreate ?c (newPowerState namespace name)) w"
        using g Inl ge True by (simp add: updatePowerOnce_def tryA_def)
      then show ?thesis
        using c ge True lawful_create_Inr [OF laws(2), of "newPowerState namespace name" w _ v']
          lawful_create_Inl [OF laws(2), of "newPowerState namespace name" w _ v']
        by (cases r') (auto simp: wrapA_def powered_def)
    next
      case False
      then show ?thesis using g Inl ge by (simp add: updatePowerOnce_def tryA_def)
    qed
  next
    case (Inr ps)
    note gs = lawful_get_Inr [OF laws(1) g [unfolded Inr]]
    let ?ps = "ps\<lparr>psr_ActiveNodes := newActiveNodes (psr_ActiveNodes ps) ordinals resume\<rparr>"
    obtain r' v' where c: "cUpdate ?c ?ps w = (r', v')" by fastforce
    have "updatePowerOnce api namespace name ordinals resume w = cUpdate ?c ?ps w"
      using g Inr gs by (simp add: updatePowerOnce_def tryA_def)
    moreover have "powerKey ?ps = (namespace, name)" using gs by (simp add: powerKey_def)
    ultimately show ?thesis
      using c gs lawful_update_Inr [OF laws(2), of ?ps w _ v'] lawful_update_Inl [OF laws(2), of ?ps w _ v']
      by (cases r') (auto simp: powered_def newActiveNodes_eq)
  qed
qed

lemma updateNodeSetPowerState_effect:
  assumes api: "lawfulPowerApi api objs rest"
    and run: "updateNodeSetPowerState api namespace name ordinals resume w = (Inr u, w')"
  shows "objs w' = (objs w)((namespace, name) \<mapsto> powered namespace name (set ordinals) resume (objs w (namespace, name)))
    \<and> rest w' = rest w"
proof -
  let ?m = "updatePowerOnce api namespace name ordinals resume"
  have "retried ?m w (Inr u, w')"
    using lawfulPowerApiD(5) [OF api] run unfolding lawfulRetry_def updateNodeSetPowerState_def by metis
  moreover have "v = w" if "?m w = (Inl e, v)" for w e v
    using updatePowerOnce_effect [OF api, where namespace = namespace and name = name and ordinals = ordinals and resume = resume and w = w] that by simp
  ultimately have "?m w = (Inr u, w')" by (rule retried_unchanged)
  then show ?thesis using updatePowerOnce_effect [OF api, where namespace = namespace and name = name and ordinals = ordinals and resume = resume and w = w] by simp
qed

section \<open>The commands\<close>

definition ephemeralIn :: "(string, ephemeralNodeSet) gomap \<Rightarrow> string \<Rightarrow> bool" where
  "ephemeralIn m name \<longleftrightarrow> (\<exists>n. map_of m name = Some n \<and> nset_ephemeralNodes n = Some True)"

lemma powerNodeSet_effect:
  assumes api: "lawfulPowerApi api objs rest"
    and run: "powerNodeSet api namespace m resume (name, ordinals) u w = (Inr v, w')"
  shows "objs w' = (if ephemeralIn m name then (objs w)((namespace, name) \<mapsto>
       powered namespace name (set ordinals) resume (objs w (namespace, name))) else objs w) \<and> rest w' = rest w"
proof (cases "ephemeralIn m name")
  case True
  then have "updateNodeSetPowerState api namespace name ordinals resume w = (Inr v, w')"
    using run by (auto simp: powerNodeSet_def ephemeralIn_def)
  from updateNodeSetPowerState_effect [OF api this] True show ?thesis by simp
next
  case False
  then have "w' = w" using run by (auto simp: powerNodeSet_def ephemeralIn_def split: option.splits if_splits)
  with False show ?thesis by simp
qed

text \<open>What a list of entries with distinct NodeSets does to the power state with a given key.\<close>

definition powerEntry ::
    "string \<Rightarrow> (string, ephemeralNodeSet) gomap \<Rightarrow> bool \<Rightarrow> (string, int list) gomap
     \<Rightarrow> (objectKey \<Rightarrow> nodeSetPowerState option) \<Rightarrow> objectKey \<Rightarrow> nodeSetPowerState option" where
  "powerEntry namespace m resume es old = (\<lambda>(ns, name).
     if ns = namespace \<and> ephemeralIn m name \<and> name \<in> fst ` set es
     then Some (powered namespace name (set (getList es name)) resume (old (ns, name))) else old (ns, name))"

lemma powerEntry_Nil: "powerEntry namespace m resume [] old = old"
  by (auto simp: powerEntry_def)

lemma powerEntry_Cons:
  assumes "name \<notin> fst ` set es"
  shows "powerEntry namespace m resume ((name, ordinals) # es) old =
    powerEntry namespace m resume es (if ephemeralIn m name then old((namespace, name) \<mapsto>
      powered namespace name (set ordinals) resume (old (namespace, name))) else old)"
  using assms by (auto simp: powerEntry_def fun_eq_iff getList_def)

lemma powerNodeSets_effect:
  assumes api: "lawfulPowerApi api objs rest" and "wfMap es"
    and "forA (powerNodeSet api namespace m resume) es u w = (Inr v, w')"
  shows "objs w' = powerEntry namespace m resume es (objs w) \<and> rest w' = rest w"
  using assms(2,3)
proof (induction es arbitrary: u w)
  case (Cons e es)
  obtain name ordinals where e: "e = (name, ordinals)" by fastforce
  from Cons.prems(2) obtain u1 w1 where one: "powerNodeSet api namespace m resume (name, ordinals) u w = (Inr u1, w1)"
    and others: "forA (powerNodeSet api namespace m resume) es u1 w1 = (Inr v, w')"
    by (auto simp: e bindA_success)
  from Cons.prems(1) have "name \<notin> fst ` set es" "wfMap es" by (auto simp: e)
  with Cons.IH [OF _ others] powerNodeSet_effect [OF api one] show ?case
    by (simp add: e powerEntry_Cons)
qed (simp add: powerEntry_Nil)

lemma groupNodes_facts:
  "wfMap (groupNodesByNodeSet refs)" "fst ` set (groupNodesByNodeSet refs) = NodeSetName ` set refs"
  "getList (groupNodesByNodeSet refs) name = map Ordinal (filter (\<lambda>r. NodeSetName r = name) refs)"
  by (simp_all add: groupNodesByNodeSet_def wfMap_fold_append keys_fold_append getList_fold_append)

lemma map_of_fold_mapPut:
  assumes "distinct (map f xs)"
  shows "map_of (fold (\<lambda>x. mapPut (f x) x) xs m) k = (case find (\<lambda>x. f x = k) xs of Some x \<Rightarrow> Some x | None \<Rightarrow> map_of m k)"
  using assms
proof (induction xs arbitrary: m)
  case (Cons x xs)
  have "find (\<lambda>y. f y = f x) xs = None" using Cons.prems by (auto simp: find_None_iff image_iff)
  with Cons show ?case by (auto simp: go_map split: option.split)
qed simp

lemma pm_range_facts:
  assumes api: "lawfulPowerApi api objs rest" and "wfMap m"
  shows "wfMap (pm_range api m)" "set (pm_range api m) = set m" "getList (pm_range api m) = getList m"
  using lawfulPowerApiD(6) [OF api, of m] assms(2) wfMap_perm [of "pm_range api m" m] map_of_perm [of m "pm_range api m"]
  by (auto simp: getList_def fun_eq_iff dest: mset_eq_setD)

lemma runPowerAction_parts:
  assumes api: "lawfulPowerApi api objs rest" and refs: "parseNodeList nodes = Inr refs"
    and items: "cList (pm_nodeSets api) namespace [] w = (Inr items, w)"
    and run: "runPowerAction api namespace nodes resume w = (Inr u, w')"
  shows "forA (powerNodeSet api namespace (fold (\<lambda>n. mapPut (om_name (nset_meta n)) n) items []) resume)
      (pm_range api (groupNodesByNodeSet refs)) () w = (Inr u, w')"
proof -
  have "v = w" if "pm_createClient api w = (r, v)" for r v
    using keepsWorldD [OF lawfulPowerApiD(4) [OF api] that] .
  then show ?thesis using run refs items by (auto simp: runPowerAction_def bindA_success wrapA_success Let_def)
qed

lemma runPowerAction_map:
  assumes "lawfulPowerApi api objs rest" "parseNodeList nodes = Inr refs"
    and "cList (pm_nodeSets api) namespace [] w = (Inr items, w)" "distinct (map (\<lambda>n. om_name (nset_meta n)) items)"
    and "runPowerAction api namespace nodes resume w = (Inr u, w')"
  shows "rest w' = rest w \<and> objs w' = (\<lambda>(ns, name).
    if ns = namespace \<and> name \<in> NodeSetName ` set refs
       \<and> (\<exists>n \<in> set items. om_name (nset_meta n) = name \<and> nset_ephemeralNodes n = Some True)
    then Some (powered namespace name (Ordinal ` set (filter (\<lambda>r. NodeSetName r = name) refs)) resume (objs w (ns, name)))
    else objs w (ns, name))"
proof -
  let ?g = "groupNodesByNodeSet refs" and ?m = "fold (\<lambda>n. mapPut (om_name (nset_meta n)) n) items []"
  note g = groupNodes_facts [of refs] and range = pm_range_facts [OF assms(1) groupNodes_facts(1) [of refs]]
  have "ephemeralIn ?m name \<longleftrightarrow> (\<exists>n \<in> set items. om_name (nset_meta n) = name \<and> nset_ephemeralNodes n = Some True)" for name
  proof -
    have "map_of ?m name = find (\<lambda>n. om_name (nset_meta n) = name) items"
      using map_of_fold_mapPut [OF assms(4), of "[]" name] by (simp split: option.splits)
    moreover have "find (\<lambda>n. om_name (nset_meta n) = name) items = Some n \<longleftrightarrow> n \<in> set items \<and> om_name (nset_meta n) = name" for n
      using assms(4) by (induction items) (auto simp: image_iff)
    ultimately show ?thesis by (auto simp: ephemeralIn_def)
  qed
  moreover have "Ordinal ` set (filter (\<lambda>r. NodeSetName r = name) refs) = set (getList ?g name)" for name by (simp only: g set_map)
  ultimately show ?thesis
    using powerNodeSets_effect [OF assms(1) range(1) runPowerAction_parts [OF assms(1,2,3,5)]]
    by (auto simp: powerEntry_def range g fun_eq_iff)
qed


text \<open>
  A cluster in memory: NodeSets, power states, and the ticks left before the context ends.
\<close>

record powerWorld =
  pw_nodeSets :: "ephemeralNodeSet list"
  pw_states :: "nodeSetPowerState list"
  pw_ticks :: nat

definition memPowerApi :: "powerWorld powerApi" where
  "memPowerApi = \<lparr>
     pm_createClient = ret (),
     pm_nodeSets = memClient pw_nodeSets (\<lambda>m w. w\<lparr>pw_nodeSets := m\<rparr>) (\<lambda>n. metaKey (nset_meta n)) (\<lambda>n. om_labels (nset_meta n)),
     pm_powerStates = memClient pw_states (\<lambda>m w. w\<lparr>pw_states := m\<rparr>) powerKey (\<lambda>p. om_labels (psr_meta p)),
     pm_retry = retryN 3, pm_range = rev,
     pm_select = (\<lambda>w. (Inr (pw_ticks w = 0), w\<lparr>pw_ticks := pw_ticks w - 1\<rparr>))\<rparr>"

definition exampleNodeSet :: "string \<Rightarrow> bool option \<Rightarrow> ephemeralNodeSet" where
  "exampleNodeSet name eph = \<lparr>nset_meta = newMeta ''ns'' name, nset_clusterName = ''c'', nset_replicas = 4, nset_fabric = [],
     nset_gpuEnabled = False, nset_ephemeralNodes = eph\<rparr>"

definition examplePower :: powerWorld where
  "examplePower = \<lparr>pw_nodeSets = [exampleNodeSet ''w'' (Some True), exampleNodeSet ''g'' None],
     pw_states = [(newPowerState ''ns'' ''w'')\<lparr>psr_ActiveNodes := [3, 0]\<rparr>], pw_ticks = 5\<rparr>"

lemma memPowerApi_lawful:
  "lawfulPowerApi memPowerApi (\<lambda>w. memFind powerKey (pw_states w)) (\<lambda>w. (pw_nodeSets w, pw_ticks w))"
proof -
  have "lawfulWrite (pm_powerStates memPowerApi) powerKey (\<lambda>w. memFind powerKey (pw_states w)) (\<lambda>w. (pw_nodeSets w, pw_ticks w))"
    by (simp add: memPowerApi_def memClient_lawfulWrite)
  then show ?thesis
    by (simp add: lawfulPowerApi_def memPowerApi_def memClient_lawfulGet memClient_readOnly retryN_lawful)
qed


section \<open>Waiting\<close>

text \<open>The power states that can be read in a state of the world.\<close>

definition readable :: "'w powerApi \<Rightarrow> ('w \<Rightarrow> objectKey \<Rightarrow> nodeSetPowerState option) \<Rightarrow> 'w \<Rightarrow> bool" where
  "readable api objs w \<longleftrightarrow> (\<forall>k ps. objs w k = Some ps \<longrightarrow> cGet (pm_powerStates api) k w = (Inr ps, w))"

lemma checkNodesStatus_readable:
  assumes "readable api objs w" "objs w (namespace, name) = Some ps"
  shows "checkNodesStatus api namespace name ordinals added w =
    (Inr (if added then set ordinals \<subseteq> set (psr_ActiveNodes ps) else set ordinals \<inter> set (psr_ActiveNodes ps) = {}), w)"
  using assms
  by (auto simp: readable_def checkNodesStatus_def bindA_def wrapA_def set_fold_setAdd list_all_iff Let_def)

lemma checkTicks_done:
  assumes "\<forall>(name, ordinals) \<in> set es. checkNodesStatus api namespace name ordinals added w = (Inr True, w)"
  shows "forA (checkTick api namespace added) es True w = (Inr True, w)"
  using assms by (induction es) (auto simp: checkTick_def tryA_def bindA_def)

text \<open>
  C17: after a successful resume of nodes whose NodeSets are ephemeral and have a power state, the wait
  command succeeds at its first tick, if nobody changes the power states in between.
\<close>

theorem resume_then_wait:
  assumes api: "lawfulPowerApi api objs rest" and refs: "parseNodeList nodes = Inr refs"
    and items: "cList (pm_nodeSets api) namespace [] w = (Inr items, w)"
    and names: "distinct (map (\<lambda>n. om_name (nset_meta n)) items)"
    and ephemeral: "\<forall>r \<in> set refs. \<exists>n \<in> set items. om_name (nset_meta n) = NodeSetName r \<and> nset_ephemeralNodes n = Some True"
    and present: "\<forall>r \<in> set refs. objs w (namespace, NodeSetName r) \<noteq> None"
    and run: "runPowerAction api namespace nodes True w = (Inr u, w1)"
    and later: "pm_createClient api w1 = (Inr (), w1)" "pm_select api w1 = (Inr False, w2)" "objs w2 = objs w1" "readable api objs w2"
  shows "waitForNodes (Suc fuel) api namespace nodes True w1 = (Inr (), w2)"
proof -
  let ?g = "groupNodesByNodeSet refs"
  note range = pm_range_facts [OF api groupNodes_facts(1) [of refs]]
  have "checkNodesStatus api namespace name ordinals True w2 = (Inr True, w2)" if e: "(name, ordinals) \<in> set (pm_range api ?g)" for name ordinals
  proof -
    have ordinals: "ordinals = map Ordinal (filter (\<lambda>r. NodeSetName r = name) refs)"
      using getList_entry [OF e range(1)] by (simp add: range groupNodes_facts)
    from e range(2) have "name \<in> NodeSetName ` set refs" using groupNodes_facts(2) [of refs] by force
    then obtain ps where ps: "objs w (namespace, name) = Some ps" and "\<exists>n \<in> set items. om_name (nset_meta n) = name \<and> nset_ephemeralNodes n = Some True"
      using ephemeral present by auto
    then have "objs w2 (namespace, name) = Some (powered namespace name (set ordinals) True (Some ps))"
      using runPowerAction_map [OF api refs items names run] \<open>name \<in> NodeSetName ` set refs\<close> later(3)
      by (simp add: ordinals)
    then show ?thesis using checkNodesStatus_readable [OF later(4)] by (simp add: powered_def)
  qed
  then have "forA (checkTick api namespace True) (pm_range api ?g) True w2 = (Inr True, w2)"
    by (intro checkTicks_done) blast
  then show ?thesis using later(1,2) refs by (simp add: waitForNodes_def bindA_def wrapA_def)
qed

lemma memPowerApi_readable: "readable memPowerApi (\<lambda>w. memFind powerKey (pw_states w)) w"
  by (simp add: readable_def memPowerApi_def memClient_def)

theorem resume_then_wait_witness:
  "\<exists>w1. runPowerAction memPowerApi ''ns'' ''w-[1-2]'' True examplePower = (Inr (), w1)
     \<and> waitForNodes 1 memPowerApi ''ns'' ''w-[1-2]'' True w1 = (Inr (), w1\<lparr>pw_ticks := 4\<rparr>)"
proof -
  let ?refs = "[\<lparr>NodeSetName = ''w'', Ordinal = 1\<rparr>, \<lparr>NodeSetName = ''w'', Ordinal = 2\<rparr>]"
  have "fst (runPowerAction memPowerApi ''ns'' ''w-[1-2]'' True examplePower) = Inr ()"
    "pw_ticks (snd (runPowerAction memPowerApi ''ns'' ''w-[1-2]'' True examplePower)) = 5" by code_simp+
  then obtain w1 where run: "runPowerAction memPowerApi ''ns'' ''w-[1-2]'' True examplePower = (Inr (), w1)" and t: "pw_ticks w1 = 5"
    by (metis prod.collapse)
  have parse: "parseNodeList ''w-[1-2]'' = Inr ?refs" by code_simp
  have items: "cList (pm_nodeSets memPowerApi) ''ns'' [] examplePower = (Inr (pw_nodeSets examplePower), examplePower)" by code_simp
  have names: "distinct (map (\<lambda>n. om_name (nset_meta n)) (pw_nodeSets examplePower))" by code_simp
  have eph: "\<forall>r \<in> set ?refs. \<exists>n \<in> set (pw_nodeSets examplePower). om_name (nset_meta n) = NodeSetName r \<and> nset_ephemeralNodes n = Some True"
    by code_simp
  have present: "\<forall>r \<in> set ?refs. memFind powerKey (pw_states examplePower) (''ns'', NodeSetName r) \<noteq> None" by code_simp
  have "waitForNodes (Suc 0) memPowerApi ''ns'' ''w-[1-2]'' True w1 = (Inr (), w1\<lparr>pw_ticks := 4\<rparr>)"
    using t by (intro resume_then_wait [OF memPowerApi_lawful parse items names eph present run _ _ _ memPowerApi_readable])
      (simp_all add: memPowerApi_def)
  with run show ?thesis by simp
qed

text \<open>
  A resume of nodes whose NodeSet has no power state yet reports success, but the power state it
  creates has no active nodes, so none of the nodes is started and the check for them fails.
\<close>

lemma resume_absent_lost:
  assumes "lawfulPowerApi api objs rest" "objs w (namespace, name) = None" "ordinals \<noteq> []"
    and "updateNodeSetPowerState api namespace name ordinals True w = (Inr u, w')" "readable api objs w'"
  shows "objs w' (namespace, name) = Some (newPowerState namespace name)
    \<and> checkNodesStatus api namespace name ordinals True w' = (Inr False, w')"
proof -
  have new: "objs w' (namespace, name) = Some (newPowerState namespace name)"
    using updateNodeSetPowerState_effect [OF assms(1,4)] assms(2) by (simp add: powered_def)
  from checkNodesStatus_readable [OF assms(5) new] assms(3) new show ?thesis by (simp add: newPowerState_def)
qed

lemma resume_absent_lost_witness:
  "let w' = snd (updateNodeSetPowerState memPowerApi ''ns'' ''g'' [0, 1] True examplePower) in
   memFind powerKey (pw_states w') (''ns'', ''g'') = Some (newPowerState ''ns'' ''g'')
   \<and> checkNodesStatus memPowerApi ''ns'' ''g'' [0, 1] True w' = (Inr False, w')"
proof -
  have run: "updateNodeSetPowerState memPowerApi ''ns'' ''g'' [0, 1] True examplePower
      = (Inr (), snd (updateNodeSetPowerState memPowerApi ''ns'' ''g'' [0, 1] True examplePower))"
    by code_simp
  have "memFind powerKey (pw_states examplePower) (''ns'', ''g'') = None" by code_simp
  from resume_absent_lost [OF memPowerApi_lawful this _ run memPowerApi_readable] show ?thesis by simp
qed

text \<open>A tick leaves the world alone and never fails.\<close>

lemma checkTicks_quiet:
  assumes "lawfulGet (pm_powerStates api) powerKey objs"
  shows "\<exists>b. forA (checkTick api namespace added) es a w = (Inr b, w)"
proof (induction es arbitrary: a)
  case (Cons e es)
  obtain name ordinals where e: "e = (name, ordinals)" by fastforce
  obtain r v where g: "cGet (pm_powerStates api) (namespace, name) w = (r, v)" by fastforce
  have "\<exists>b. checkTick api namespace added e a w = (Inr b, w)"
  proof (cases r)
    case (Inl err)
    with lawful_get_Inl [OF assms g [unfolded Inl]] g show ?thesis
      by (auto simp: e checkTick_def checkNodesStatus_def tryA_def bindA_def wrapA_def)
  next
    case (Inr ps)
    with lawful_get_Inr [OF assms g [unfolded Inr]] g show ?thesis
      by (auto simp: e checkTick_def checkNodesStatus_def tryA_def bindA_def wrapA_def Let_def)
  qed
  then show ?case using Cons.IH by (auto simp: bindA_def)
qed simp

lemma pollNodes_returns:
  assumes "lawfulGet (pm_powerStates api) powerKey objs"
    and "\<forall>w. \<exists>w'. pm_select api w = (Inr True, w') \<or> pm_select api w = (Inr False, w') \<and> left w' < left w"
    and "left w < fuel"
  shows "fst (pollNodes fuel api namespace m added w) \<in> {Inr (),
    Inl (Errorf ''timeout waiting for nodes to %s activeNodes'' [if added then ''appear in'' else ''be removed from''])}"
  using assms(3)
proof (induction fuel arbitrary: w)
  case (Suc fuel)
  obtain w' where s: "pm_select api w = (Inr True, w') \<or> pm_select api w = (Inr False, w') \<and> left w' < left w"
    using assms(2) by blast
  obtain b where "forA (checkTick api namespace added) (pm_range api m) True w' = (Inr b, w')"
    using checkTicks_quiet [OF assms(1)] by blast
  with s Suc.IH [of w'] Suc.prems show ?case by (cases b) (auto simp: bindA_def)
qed simp



end
