(* ===== verification/Slurm_Job.thy ===== *)
theory Slurm_Job
  imports Slurm_Node Power_Manager
begin

text \<open>
  Slurm jobs: internal/slurmapi/job.go. The job types of the generated REST client are the records
  \<open>apiJobInfo\<close> (slurmctld) and \<open>apiJob\<close> (slurmdbd) of the fields the code reads; the job states the code
  names are the constructors of \<open>jobState\<close>, for both APIs. A time is its number of nanoseconds since the
  Unix epoch. Iterating over runes and writing them copies the bytes of valid UTF-8 text.
\<close>

section \<open>Jobs\<close>

datatype jobState =
    JobFAILED | JobCANCELLED | JobTIMEOUT | JobOUTOFMEMORY | JobBOOTFAIL | JobDEADLINE | JobLAUNCHFAILED
  | JobNODEFAIL | JobPREEMPTED | JobRECONFIGFAIL | JobREVOKED | JobSPECIALEXIT | JobCOMPLETED | JobSTOPPED
  | JobRUNNING | OtherJobState string

record Job =
  j_ID :: int
  j_Name :: string
  j_State :: jobState
  j_StateReason :: string
  j_Partition :: string
  j_UserName :: string
  j_UserID :: "int option"
  j_UserMail :: string
  j_StandardError :: string
  j_StandardOutput :: string
  j_Nodes :: string
  j_ScheduledNodes :: string
  j_RequiredNodes :: string
  j_NodeCount :: "int option"
  j_ArrayJobID :: "int option"
  j_ArrayTaskID :: "int option"
  j_ArrayTaskString :: string
  j_SubmitTime :: "int option"
  j_StartTime :: "int option"
  j_EndTime :: "int option"
  j_TresAllocated :: string
  j_TresRequested :: string
  j_CPUs :: "int option"
  j_MemoryPerNode :: "int option"

record apiJobInfo =
  ji_JobId :: "int option"
  ji_Name :: "string option"
  ji_JobState :: "jobState list option"
  ji_StateReason :: "string option"
  ji_Partition :: "string option"
  ji_UserId :: "int option"
  ji_UserName :: "string option"
  ji_GroupName :: "string option"
  ji_MailUser :: "string option"
  ji_StandardError :: "string option"
  ji_StandardOutput :: "string option"
  ji_Nodes :: "string option"
  ji_ScheduledNodes :: "string option"
  ji_RequiredNodes :: "string option"
  ji_NodeCount :: "noVal option"
  ji_ArrayJobId :: "noVal option"
  ji_ArrayTaskId :: "noVal option"
  ji_ArrayTaskString :: "string option"
  ji_SubmitTime :: "noVal option"
  ji_StartTime :: "noVal option"
  ji_EndTime :: "noVal option"
  ji_TresAllocStr :: "string option"
  ji_TresReqStr :: "string option"
  ji_Cpus :: "noVal option"
  ji_MemoryPerNode :: "noVal option"

definition strOr :: "string option \<Rightarrow> string" where
  "strOr s = (case s of None \<Rightarrow> [] | Some x \<Rightarrow> x)"

definition nanoseconds :: int where
  "nanoseconds = 1000000000"

text \<open>convertToInt and convertToInt64: a value that is set and not infinite.\<close>

definition convertToInt :: "noVal option \<Rightarrow> int option" where
  "convertToInt input = (case input of
     None \<Rightarrow> None
   | Some v \<Rightarrow>
       if nv_Set v = None \<or> nv_Set v = Some False \<or> nv_Number v = None then None
       else if nv_Infinite v = Some True then None
       else nv_Number v)"

definition convertToInt64 :: "noVal option \<Rightarrow> int option" where
  "convertToInt64 input = (case input of
     None \<Rightarrow> None
   | Some v \<Rightarrow>
       if nv_Set v = None \<or> nv_Set v = Some False \<or> nv_Number v = None then None
       else if nv_Infinite v = Some True then None
       else nv_Number v)"

definition convertToMetav1Time :: "noVal option \<Rightarrow> int option" where
  "convertToMetav1Time input = (case input of
     None \<Rightarrow> None
   | Some v \<Rightarrow>
       if nv_Set v = None \<or> nv_Set v = Some False \<or> nv_Number v = None then None
       else if nv_Infinite v = Some True then None
       else map_option (\<lambda>n. n * nanoseconds) (nv_Number v))"

definition unixTimeToMetav1Time :: "int option \<Rightarrow> int option" where
  "unixTimeToMetav1Time input = (case input of
     None \<Rightarrow> None
   | Some n \<Rightarrow> if n \<le> 0 then None else Some (n * nanoseconds))"

definition isUnallocatedNodeList :: "string \<Rightarrow> bool" where
  "isUnallocatedNodeList s0 = (let s = trimSpace s0 in s = [] \<or> s = ''None assigned'' \<or> s = ''(null)'')"

definition JobFromAPI :: "apiJobInfo \<Rightarrow> goError + Job" where
  "JobFromAPI apiJob = (case ji_JobId apiJob of
     None \<Rightarrow> Inl (Errorf ''job ID is missing'' [])
   | Some jobId \<Rightarrow>
       if ji_JobState apiJob = None \<or> ji_JobState apiJob = Some [] then Inl (Errorf ''job state is missing'' [])
       else
         let userName = (case ji_UserName apiJob of Some u \<Rightarrow> u | None \<Rightarrow> strOr (ji_GroupName apiJob)) in
         Inr \<lparr>
           j_ID = jobId, j_Name = strOr (ji_Name apiJob), j_State = hd (the (ji_JobState apiJob)),
           j_StateReason = strOr (ji_StateReason apiJob), j_Partition = strOr (ji_Partition apiJob),
           j_UserName = userName, j_UserID = ji_UserId apiJob,
           j_UserMail = (case ji_MailUser apiJob of
               Some mail \<Rightarrow> if userName \<noteq> [] \<and> userName \<noteq> mail then mail else []
             | None \<Rightarrow> []),
           j_StandardError = strOr (ji_StandardError apiJob), j_StandardOutput = strOr (ji_StandardOutput apiJob),
           j_Nodes = (case ji_Nodes apiJob of Some nodes \<Rightarrow> if \<not> isUnallocatedNodeList nodes then nodes else [] | None \<Rightarrow> []),
           j_ScheduledNodes = strOr (ji_ScheduledNodes apiJob), j_RequiredNodes = strOr (ji_RequiredNodes apiJob),
           j_NodeCount = convertToInt (ji_NodeCount apiJob), j_ArrayJobID = convertToInt (ji_ArrayJobId apiJob),
           j_ArrayTaskID = convertToInt (ji_ArrayTaskId apiJob), j_ArrayTaskString = strOr (ji_ArrayTaskString apiJob),
           j_SubmitTime = convertToMetav1Time (ji_SubmitTime apiJob), j_StartTime = convertToMetav1Time (ji_StartTime apiJob),
           j_EndTime = convertToMetav1Time (ji_EndTime apiJob),
           j_TresAllocated = strOr (ji_TresAllocStr apiJob), j_TresRequested = strOr (ji_TresReqStr apiJob),
           j_CPUs = convertToInt (ji_Cpus apiJob), j_MemoryPerNode = convertToInt64 (ji_MemoryPerNode apiJob)\<rparr>)"

section \<open>Jobs from the accounting database\<close>

record apiTres =
  tr_Type :: string
  tr_Name :: "string option"
  tr_Count :: "int option"

record apiJobTime =
  jt_Submission :: "int option"
  jt_Start :: "int option"
  jt_End :: "int option"
  jt_Limit :: "noVal option"

record apiJob =
  jb_JobId :: "int option"
  jb_Name :: "string option"
  jb_StateCurrent :: "jobState list option"
  jb_StateReason :: "string option"
  jb_Partition :: "string option"
  jb_User :: "string option"
  jb_AssociationUser :: "string option"
  jb_StderrExpanded :: "string option"
  jb_Stderr :: "string option"
  jb_StdoutExpanded :: "string option"
  jb_Stdout :: "string option"
  jb_Nodes :: "string option"
  jb_AllocationNodes :: "int option"
  jb_Array :: "(int option \<times> noVal option \<times> string option) option"
  jb_Time :: "apiJobTime option"
  jb_Tres :: "(apiTres list option \<times> apiTres list option) option"
  jb_Required :: "(int option \<times> noVal option) option"

definition tresPart :: "apiTres \<Rightarrow> string list" where
  "tresPart tres = (case tr_Count tres of
     None \<Rightarrow> []
   | Some n \<Rightarrow>
       let key = (case tr_Name tres of Some name \<Rightarrow> if name \<noteq> [] then tr_Type tres @ ''/'' @ name else tr_Type tres
                  | None \<Rightarrow> tr_Type tres);
           value = (if tr_Type tres = ''mem'' then itoa n @ ''M'' else itoa n)
       in [key @ ''='' @ value])"

definition tresListToString :: "apiTres list option \<Rightarrow> string" where
  "tresListToString input = (case input of None \<Rightarrow> [] | Some l \<Rightarrow> strJoin '','' (concat (map tresPart l)))"

text \<open>
  The end of a running job without an end time: its start plus its time limit, a duration of int64
  nanoseconds.
\<close>

definition projectedEnd :: "jobState \<Rightarrow> int option \<Rightarrow> int option \<Rightarrow> noVal option \<Rightarrow> int option" where
  "projectedEnd state startTime endTime limit = (case endTime of
     Some t \<Rightarrow> Some t
   | None \<Rightarrow> (case startTime of
       Some start \<Rightarrow>
         if state = JobRUNNING \<and> 0 < start div nanoseconds
         then map_option (\<lambda>limitMin. start + wrap64 (limitMin * (60 * nanoseconds))) (convertToInt limit)
         else None
     | None \<Rightarrow> None))"

definition JobFromAccountingAPI :: "apiJob \<Rightarrow> goError + Job" where
  "JobFromAccountingAPI apiJob = (case jb_JobId apiJob of
     None \<Rightarrow> Inl (Errorf ''job ID is missing'' [])
   | Some jobId \<Rightarrow>
       if jb_StateCurrent apiJob = None \<or> jb_StateCurrent apiJob = Some [] then Inl (Errorf ''job state is missing'' [])
       else
         let state = hd (the (jb_StateCurrent apiJob));
             times = (case jb_Time apiJob of
                 None \<Rightarrow> (None, None, None)
               | Some t \<Rightarrow>
                   let start = unixTimeToMetav1Time (jt_Start t) in
                   (unixTimeToMetav1Time (jt_Submission t), start,
                    projectedEnd state start (unixTimeToMetav1Time (jt_End t)) (jt_Limit t)))
         in Inr \<lparr>
           j_ID = jobId, j_Name = strOr (jb_Name apiJob), j_State = state,
           j_StateReason = strOr (jb_StateReason apiJob), j_Partition = strOr (jb_Partition apiJob),
           j_UserName = (case jb_User apiJob of Some u \<Rightarrow> u | None \<Rightarrow> strOr (jb_AssociationUser apiJob)),
           j_UserID = None, j_UserMail = [],
           j_StandardError = (case jb_StderrExpanded apiJob of Some s \<Rightarrow> s | None \<Rightarrow> strOr (jb_Stderr apiJob)),
           j_StandardOutput = (case jb_StdoutExpanded apiJob of Some s \<Rightarrow> s | None \<Rightarrow> strOr (jb_Stdout apiJob)),
           j_Nodes = (case jb_Nodes apiJob of Some nodes \<Rightarrow> if \<not> isUnallocatedNodeList nodes then nodes else [] | None \<Rightarrow> []),
           j_ScheduledNodes = [], j_RequiredNodes = [],
           j_NodeCount = (case jb_AllocationNodes apiJob of Some k \<Rightarrow> if 0 < k then Some k else None | None \<Rightarrow> None),
           j_ArrayJobID = (case jb_Array apiJob of Some (jid, tid, task) \<Rightarrow> jid | None \<Rightarrow> None),
           j_ArrayTaskID = (case jb_Array apiJob of Some (jid, tid, task) \<Rightarrow> convertToInt tid | None \<Rightarrow> None),
           j_ArrayTaskString = (case jb_Array apiJob of Some (jid, tid, task) \<Rightarrow> strOr task | None \<Rightarrow> []),
           j_SubmitTime = fst times, j_StartTime = fst (snd times), j_EndTime = snd (snd times),
           j_TresAllocated = (case jb_Tres apiJob of Some (alloc, req) \<Rightarrow> tresListToString alloc | None \<Rightarrow> []),
           j_TresRequested = (case jb_Tres apiJob of Some (alloc, req) \<Rightarrow> tresListToString req | None \<Rightarrow> []),
           j_CPUs = (case jb_Required apiJob of Some (cpus, mem) \<Rightarrow> cpus | None \<Rightarrow> None),
           j_MemoryPerNode = (case jb_Required apiJob of Some (cpus, mem) \<Rightarrow> convertToInt64 mem | None \<Rightarrow> None)\<rparr>)"

definition derefInt64 :: "int option \<Rightarrow> int" where
  "derefInt64 p = (case p of None \<Rightarrow> 0 | Some x \<Rightarrow> x)"

definition isStaleAccountingPending :: "apiJob \<Rightarrow> int \<Rightarrow> bool" where
  "isStaleAccountingPending j submitCutoff = (case jb_Time j of
     None \<Rightarrow> False
   | Some t \<Rightarrow> derefInt64 (jt_End t) = 0 \<and> derefInt64 (jt_Start t) = 0 \<and> 0 < derefInt64 (jt_Submission t)
       \<and> derefInt64 (jt_Submission t) < submitCutoff)"

definition GetIDString :: "Job \<Rightarrow> string" where
  "GetIDString j = itoa (j_ID j)"

definition GetArrayJobIDString :: "Job \<Rightarrow> string" where
  "GetArrayJobIDString j = (case j_ArrayJobID j of None \<Rightarrow> [] | Some i \<Rightarrow> itoa i)"

definition GetArrayTaskIDString :: "Job \<Rightarrow> string" where
  "GetArrayTaskIDString j = (case j_ArrayTaskID j of Some i \<Rightarrow> itoa i | None \<Rightarrow> j_ArrayTaskString j)"

definition IsTerminalState :: "Job \<Rightarrow> bool" where
  "IsTerminalState j \<longleftrightarrow> j_State j \<in> {JobFAILED, JobCANCELLED, JobTIMEOUT, JobOUTOFMEMORY, JobBOOTFAIL, JobDEADLINE,
     JobLAUNCHFAILED, JobNODEFAIL, JobPREEMPTED, JobRECONFIGFAIL, JobREVOKED, JobSPECIALEXIT, JobCOMPLETED, JobSTOPPED}"

definition IsFailedState :: "Job \<Rightarrow> bool" where "IsFailedState j \<longleftrightarrow> j_State j = JobFAILED"
definition IsCompletedState :: "Job \<Rightarrow> bool" where "IsCompletedState j \<longleftrightarrow> j_State j = JobCOMPLETED"
definition IsCancelledState :: "Job \<Rightarrow> bool" where "IsCancelledState j \<longleftrightarrow> j_State j = JobCANCELLED"

section \<open>Node lists of a job\<close>

definition addTrimmed :: "string list \<Rightarrow> string \<Rightarrow> string list" where
  "addTrimmed result current = (let trimmed = trimSpace current in if trimmed \<noteq> [] then result @ [trimmed] else result)"

definition splitChar :: "char \<Rightarrow> string list \<times> string \<times> int \<Rightarrow> string list \<times> string \<times> int" where
  "splitChar c = (\<lambda>(result, current, bracketDepth).
     if c = CHR ''['' then (result, current @ [c], bracketDepth + 1)
     else if c = CHR '']'' then (result, current @ [c], bracketDepth - 1)
     else if c = CHR '','' then
       if bracketDepth = 0 then (addTrimmed result current, [], bracketDepth)
       else (result, current @ [c], bracketDepth)
     else (result, current @ [c], bracketDepth))"

definition splitNodeString :: "string \<Rightarrow> string list" where
  "splitNodeString nodeString =
     (case fold splitChar nodeString ([], [], 0) of (result, current, bracketDepth) \<Rightarrow> addTrimmed result current)"

text \<open>The pattern \<open>^(.+)\[(.+)]$\<close>: the first group is greedy, and neither group matches a newline.\<close>

definition nodeRangeAt :: "string \<Rightarrow> nat \<Rightarrow> bool" where
  "nodeRangeAt s i \<longleftrightarrow> 0 < i \<and> s ! i = CHR ''['' \<and> i + 2 < length s \<and> last s = CHR '']'' \<and> lineFeed \<notin> set s"

definition nodeRangeRegex :: "string \<Rightarrow> (string \<times> string) option" where
  "nodeRangeRegex s = map_option (\<lambda>i. (take i s, butlast (drop (i + 1) s))) (find (nodeRangeAt s) (rev [0..<length s]))"

text \<open>
  The loop \<open>for i := start; i <= end; i++\<close> on 64-bit integers: the increment wraps around, so the loop does
  not end when \<open>end\<close> is the largest integer.
\<close>

fun rangeLoop :: "nat \<Rightarrow> string \<Rightarrow> nat \<Rightarrow> int \<Rightarrow> int \<Rightarrow> goError + string list" where
  "rangeLoop 0 prefix width i stop = Inl NoReturn"
| "rangeLoop (Suc fuel) prefix width i stop =
     (if i \<le> stop then
        (case rangeLoop fuel prefix width (wrap64 (i + 1)) stop of
           Inl e \<Rightarrow> Inl e
         | Inr nodes \<Rightarrow> Inr ((prefix @ sprintf0d width i) # nodes))
      else Inr [])"

definition numError :: "string \<Rightarrow> goError" where
  "numError s = Errorf ''strconv.Atoi: parsing %q'' [s]"

definition expandPart :: "nat \<Rightarrow> string \<Rightarrow> string \<Rightarrow> string \<Rightarrow> goError + string list" where
  "expandPart fuel nodePattern prefix rawPart =
     (let part = trimSpace rawPart in
      if contains part ''-'' then
        let rangeParts = strSplit (CHR ''-'') part in
        if length rangeParts \<noteq> 2 then Inl (Errorf ''invalid range format in node pattern %s: %s'' [nodePattern, part])
        else case (atoi (rangeParts ! 0), atoi (rangeParts ! 1)) of
            (None, _) \<Rightarrow> Inl (Wrapf ''invalid start number in node pattern %s: %s: %w'' [nodePattern, rangeParts ! 0] (numError (rangeParts ! 0)))
          | (Some start, None) \<Rightarrow> Inl (Wrapf ''invalid end number in node pattern %s: %s: %w'' [nodePattern, rangeParts ! 1] (numError (rangeParts ! 1)))
          | (Some start, Some stop) \<Rightarrow>
              if stop < start then Inl (Errorf ''invalid range in node pattern %s: start %d > end %d'' [nodePattern, itoa start, itoa stop])
              else rangeLoop fuel prefix (length (rangeParts ! 0)) start stop
      else case atoi part of
          None \<Rightarrow> Inl (Wrapf ''invalid number in node pattern %s: %s: %w'' [nodePattern, part] (numError part))
        | Some num \<Rightarrow> Inr [prefix @ sprintf0d (length part) num])"

definition expandNodeRange :: "nat \<Rightarrow> string \<Rightarrow> goError + string list" where
  "expandNodeRange fuel nodePattern = (case nodeRangeRegex nodePattern of
     None \<Rightarrow> Inr []
   | Some (prefix, rangeSpec) \<Rightarrow> collectAll (expandPart fuel nodePattern prefix) (strSplit (CHR '','') rangeSpec))"

definition readPart :: "nat \<Rightarrow> string \<Rightarrow> goError + string list" where
  "readPart fuel part = (case expandNodeRange fuel part of
     Inl err \<Rightarrow> Inl err
   | Inr expandedNodes \<Rightarrow> Inr (if 0 < length expandedNodes then expandedNodes else [part]))"

definition parseJobNodes :: "nat \<Rightarrow> string \<Rightarrow> goError + string list" where
  "parseJobNodes fuel nodeString =
     (if nodeString = [] then Inr [] else collectAll (readPart fuel) (splitNodeString nodeString))"

definition GetNodeList :: "nat \<Rightarrow> Job \<Rightarrow> goError + string list" where
  "GetNodeList fuel j = parseJobNodes fuel (j_Nodes j)"

definition GetScheduledNodeList :: "nat \<Rightarrow> Job \<Rightarrow> goError + string list" where
  "GetScheduledNodeList fuel j = parseJobNodes fuel (j_ScheduledNodes j)"

definition GetRequiredNodeList :: "nat \<Rightarrow> Job \<Rightarrow> goError + string list" where
  "GetRequiredNodeList fuel j = parseJobNodes fuel (j_RequiredNodes j)"

section \<open>Reading node lists\<close>

lemma splitChar_splitStep: "splitChar = splitStep" "addTrimmed = appendPart"
proof -
  show "addTrimmed = appendPart" by (simp add: addTrimmed_def appendPart_def fun_eq_iff)
  then show "splitChar = splitStep" by (simp add: splitChar_def splitStep_def fun_eq_iff)
qed

lemma splitNodeString_parts: "splitNodeString s = hostlistParts s"
  using splitNodeList_parts [of s] by (simp add: splitNodeString_def splitNodeList_def splitChar_splitStep)

lemma rangeLoop_returns:
  assumes "fits64 start" "start \<le> stop" "stop < 2 ^ 63 - 1" "stop - start + 2 \<le> int fuel"
  shows "rangeLoop fuel prefix width start stop = Inr (map (\<lambda>i. prefix @ sprintf0d width i) [start..stop])"
  using assms
proof (induction fuel arbitrary: start)
  case (Suc fuel)
  have succ: "wrap64 (start + 1) = start + 1" using Suc.prems by (intro wrap64_id) (auto simp: fits64_def)
  show ?case
  proof (cases "start = stop")
    case True
    then obtain f where "fuel = Suc f" using Suc.prems by (cases fuel) auto
    then show ?thesis using True succ by simp
  next
    case False
    then have "rangeLoop fuel prefix width (start + 1) stop = Inr (map (\<lambda>i. prefix @ sprintf0d width i) [start + 1..stop])"
      using Suc.prems by (intro Suc.IH) (auto simp: fits64_def)
    then show ?thesis using False succ Suc.prems upto_rec1 [of start stop] by simp
  qed
qed simp

lemma rangeLoop_diverges: "fits64 i \<Longrightarrow> rangeLoop fuel prefix width i (2 ^ 63 - 1) = Inl NoReturn"
proof (induction fuel arbitrary: i)
  case (Suc fuel)
  then show ?case using Suc.IH [OF fits64_wrap64, of "i + 1"] by (simp add: fits64_def)
qed simp

lemma nodeRangeRegex_group:
  assumes "p \<noteq> []" "spec \<noteq> []" "CHR ''['' \<notin> set spec" "lineFeed \<notin> set p" "lineFeed \<notin> set spec"
  shows "nodeRangeRegex (p @ ''['' @ spec @ '']'') = Some (p, spec)"
proof -
  let ?s = "p @ ''['' @ spec @ '']''"
  have "find (nodeRangeAt ?s) (rev [0..<length ?s]) = Some (length p)"
  proof (rule find_rev_upt)
    show "nodeRangeAt ?s (length p)" using assms by (simp add: nodeRangeAt_def lineFeed_def)
  next
    fix i assume i: "length p < i" "i < length ?s"
    then obtain k where k: "i = length p + Suc k" "k < length (spec @ '']'')" using less_iff_Suc_add by auto
    then have "?s ! i = (spec @ '']'') ! k" by (simp add: nth_append)
    moreover have "(spec @ '']'') ! k \<in> set (spec @ '']'')" using k(2) by (rule nth_mem)
    ultimately show "\<not> nodeRangeAt ?s i" using assms(3) by (auto simp: nodeRangeAt_def)
  qed simp
  then show ?thesis by (simp add: nodeRangeRegex_def butlast_append)
qed

lemma nodeRangeRegex_plain: "CHR ''['' \<notin> set s \<Longrightarrow> nodeRangeRegex s = None"
  by (auto simp: nodeRangeRegex_def nodeRangeAt_def find_None_iff in_set_conv_nth)

text \<open>The numbers a range loop with the given fuel gets through.\<close>

definition loopNumber :: "nat \<Rightarrow> int \<Rightarrow> bool" where
  "loopNumber fuel n \<longleftrightarrow> 0 \<le> n \<and> n < 2 ^ 63 - 1 \<and> n + 2 \<le> int fuel"

lemma atoi_format: "0 \<le> n \<Longrightarrow> n < 2 ^ 63 \<Longrightarrow> atoi (formatPatternNumber n w) = Some n"
  by (simp add: atoi_digits digits_formatPatternNumber formatPatternNumber_neq_Nil digitsVal_format)

lemma sprintf_format:
  assumes "0 \<le> m" "m \<le> n"
  shows "sprintf0d (length (formatPatternNumber m w)) n = formatPatternNumber n w"
  using assms padZero_widen [of "nat m" "nat n" w] by (simp add: formatPatternNumber_nonneg sprintf0d_def)

lemma expandPart_single:
  assumes "loopNumber fuel n"
  shows "expandPart fuel pat p (formatPatternNumber n w) = Inr [p @ formatPatternNumber n w]"
  using assms formatPatternNumber_no [of n "CHR ''-''" w]
  by (simp add: expandPart_def loopNumber_def trimSpace_all graphic_format contains_byte atoi_format sprintf_format Let_def)

lemma expandPart_range:
  assumes "loopNumber fuel a" "loopNumber fuel b" "a \<le> b"
  shows "expandPart fuel pat p (formatPatternNumber a w @ ''-'' @ formatPatternNumber b w)
    = Inr (map (\<lambda>n. p @ formatPatternNumber n w) [a..b])"
proof -
  let ?part = "formatPatternNumber a w @ CHR ''-'' # formatPatternNumber b w"
  have ab: "0 \<le> a" "0 \<le> b" "a < 2 ^ 63" "b < 2 ^ 63" "b < 2 ^ 63 - 1" "b - a + 2 \<le> int fuel" "fits64 a"
    using assms by (auto simp: loopNumber_def fits64_def)
  have "trimSpace ?part = ?part" using ab by (simp add: trimSpace_all graphic_format)
  moreover have "strSplit (CHR ''-'') ?part = [formatPatternNumber a w, formatPatternNumber b w]"
    using ab by (simp add: strSplit_append formatPatternNumber_no)
  moreover have "rangeLoop fuel p (length (formatPatternNumber a w)) a b = Inr (map (\<lambda>n. p @ formatPatternNumber n w) [a..b])"
    using rangeLoop_returns [OF ab(7) assms(3) ab(5,6)] ab(1) by (simp add: sprintf_format)
  ultimately show ?thesis using ab assms(3) by (simp add: expandPart_def contains_byte atoi_format Let_def)
qed

lemma expand_renderRanges:
  "list_all (loopNumber fuel) ns \<Longrightarrow>
   collectAll (expandPart fuel pat p) (renderRanges w ns) = Inr (map (\<lambda>n. p @ formatPatternNumber n w) ns)"
proof (induction w ns rule: renderRanges.induct)
  case (2 w start ns)
  obtain e rest where e: "extendRun start ns = (e, rest)" by fastforce
  have "suffixNumber start" "list_all suffixNumber ns"
    using 2(2) by (auto simp: loopNumber_def suffixNumber_def list_all_iff)
  from extendRun_upto [OF e this] have u: "start \<le> e" "start # ns = [start..e] @ rest" by auto
  then have "list_all (loopNumber fuel) ([start..e] @ rest)" using 2(2) by metis
  with u(1) have ok: "loopNumber fuel start" "loopNumber fuel e" "list_all (loopNumber fuel) rest"
    by (auto simp: list_all_iff)
  have "collectAll (expandPart fuel pat p) (renderRanges w (start # ns)) = Inr (map (\<lambda>n. p @ formatPatternNumber n w) ([start..e] @ rest))"
    using 2(1) [OF e [symmetric] ok(3)] ok expandPart_range [OF ok(1,2) u(1), of pat p w]
    by (auto simp: e expandPart_single)
  then show ?case using u(2) by simp
qed simp

text \<open>The names that the reader with the given fuel handles: printable, without commas and brackets.\<close>

definition jobName :: "nat \<Rightarrow> string \<Rightarrow> bool" where
  "jobName fuel e \<longleftrightarrow> plainName e \<and> list_all graphic e \<and>
     (case dashedPrefix e of
        None \<Rightarrow> True
      | Some p \<Rightarrow> (case atoi (trimPrefix e p) of None \<Rightarrow> True | Some n \<Rightarrow> loopNumber fuel n))"

lemma readPart_plain: "CHR ''['' \<notin> set t \<Longrightarrow> readPart fuel t = Inr [t]"
  by (simp add: readPart_def expandNodeRange_def nodeRangeRegex_plain)

lemma readPart_group:
  assumes "p \<noteq> []" "list_all graphic p" "plainPrefix p" "sg_numbers g \<noteq> []" "list_all suffixNumber (sg_numbers g)"
    "list_all (loopNumber fuel) (sg_numbers g)"
  shows "readPart fuel (renderSuffixGroup p g) = Inr (expandTerm (renderSuffixGroup p g))"
proof -
  let ?w = "sg_width g" and ?ns = "sg_numbers g"
  let ?spec = "strJoin '','' (renderRanges ?w ?ns)"
  have no: "CHR ''['' \<notin> set p" using assms(3) by (simp add: plainPrefix_def)
  have ex: "expandTerm (renderSuffixGroup p g) = map (\<lambda>n. p @ formatPatternNumber n ?w) ?ns"
    by (rule expandTerm_group [OF no assms(4,5)])
  show ?thesis
  proof (cases "length ?ns = 1")
    case True
    then obtain n where n: "?ns = [n]" by (cases ?ns) auto
    then have "CHR ''['' \<notin> set (p @ formatPatternNumber n ?w)"
      using no assms(5) by (simp add: formatPatternNumber_no suffixNumber_def)
    then show ?thesis using n ex by (simp add: renderSuffixGroup_def readPart_plain)
  next
    case False
    have rs: "CHR ''['' \<notin> set r \<and> CHR '','' \<notin> set r \<and> lineFeed \<notin> set r" if "r \<in> set (renderRanges ?w ?ns)" for r
      using renderRanges_no [OF assms(5) that] by (auto simp: lineFeed_def isDigitChar_def)
    then have spec: "CHR ''['' \<notin> set ?spec" "lineFeed \<notin> set ?spec"
      using set_strJoin [of "'',''" "renderRanges ?w ?ns"] by (fastforce simp: lineFeed_def)+
    have split: "strSplit (CHR '','') ?spec = renderRanges ?w ?ns"
      using rs assms(4) by (simp add: strSplit_strJoin)
    have "?spec \<noteq> []"
    proof
      assume "?spec = []"
      with split have "renderRanges ?w ?ns = [[]]" by simp
      with expand_renderRanges [OF assms(6), of "[]" "[]" ?w] show False
        by (simp add: expandPart_def trimSpace_all atoi_def parseSigned_def Let_def)
    qed
    with spec assms(1) graphic_lineFeed [OF assms(2)]
    have "nodeRangeRegex (renderSuffixGroup p g) = Some (p, ?spec)"
      using False nodeRangeRegex_group [of p ?spec] by (simp add: renderSuffixGroup_def)
    then show ?thesis
      using split expand_renderRanges [OF assms(6), of "renderSuffixGroup p g" p ?w] assms(4) ex
      by (simp add: readPart_def expandNodeRange_def)
  qed
qed

interpretation jobReader: hostlist_reader "readPart fuel" "\<lambda>e. e" "jobName fuel" "\<lambda>p. p \<noteq> []" "loopNumber fuel" for fuel
proof
  fix e assume e: "jobName fuel e"
  then show "plainName e \<and> list_all graphic e" by (simp add: jobName_def)
  then show "readPart fuel e = Inr [e]" by (simp add: readPart_plain plainName_def)
next
  fix e p assume "dashedPrefix e = Some p"
  then show "p \<noteq> []" using dashedPrefix_Some by blast
next
  fix e p padded assume "jobName fuel e" "dashedPrefix e = Some p" "numericIn p e"
  then show "loopNumber fuel (sk_number (keyOf padded p e))"
    by (auto simp: jobName_def keyOf_def numericIn_def)
next
  fix p and g :: suffixGroup
  assume "p \<noteq> []" "list_all graphic p" "plainPrefix p" "sg_numbers g \<noteq> []" "list_all suffixNumber (sg_numbers g)"
    "list_all (loopNumber fuel) (sg_numbers g)"
  then show "readPart fuel (renderSuffixGroup p g) = Inr (map (\<lambda>e. e) (expandTerm (renderSuffixGroup p g)))"
    by (simp add: readPart_group)
qed



text \<open>
  A node range that ends at the largest 64-bit integer is never expanded: the counter wraps around
  and the loop goes on, whatever fuel it is given.
\<close>

lemma expandNodeRange_diverges:
  assumes "p \<noteq> []" "lineFeed \<notin> set p" "0 \<le> start" "start < 2 ^ 63"
  shows "expandNodeRange fuel (p @ ''['' @ itoa start @ ''-'' @ itoa (2 ^ 63 - 1) @ '']'') = Inl NoReturn"
proof -
  let ?a = "formatPatternNumber start 0" and ?b = "formatPatternNumber (2 ^ 63 - 1) 0"
  let ?part = "?a @ CHR ''-'' # ?b"
  have itoa: "itoa n = formatPatternNumber n 0" if "0 \<le> n" for n
    using that by (simp add: itoa_def formatPatternNumber_nonneg padZero_def)
  have no: "c \<notin> set ?part" if "\<not> isDigitChar c" "c \<noteq> CHR ''-''" for c
    using that assms(3) formatPatternNumber_no [of start c 0] formatPatternNumber_no [of "2 ^ 63 - 1" c 0] by auto
  have "nodeRangeRegex (p @ ''['' @ ?part @ '']'') = Some (p, ?part)"
    using assms(1,2) no [of "CHR ''[''"] no [of lineFeed]
    by (intro nodeRangeRegex_group) (auto simp: lineFeed_def isDigitChar_def)
  moreover have "strSplit (CHR '','') ?part = [?part]" using no [of "CHR '',''"] by simp
  moreover have "trimSpace ?part = ?part" using assms(3) by (simp add: trimSpace_all graphic_format)
  moreover have "strSplit (CHR ''-'') ?part = [?a, ?b]"
    using assms(3) by (simp add: strSplit_append formatPatternNumber_no)
  moreover have "rangeLoop fuel p (length ?a) start (2 ^ 63 - 1) = Inl NoReturn"
    using assms(3,4) by (intro rangeLoop_diverges) (simp add: fits64_def)
  moreover have "atoi ?b = Some (2 ^ 63 - 1)" by (intro atoi_format) simp_all
  ultimately show ?thesis
    using assms(3,4) by (simp add: itoa expandNodeRange_def expandPart_def contains_byte atoi_format Let_def)
qed

lemma expandNodeRange_diverges_witness:
  "expandNodeRange 1000 (''w-'' @ ''['' @ itoa 7 @ ''-'' @ itoa (2 ^ 63 - 1) @ '']'') = Inl NoReturn"
  by (rule expandNodeRange_diverges) (simp_all add: lineFeed_def)

section \<open>Trackable resources of a job\<close>

definition tresKey :: "apiTres \<Rightarrow> string" where
  "tresKey t = (if strOr (tr_Name t) \<noteq> [] then tr_Type t @ ''/'' @ strOr (tr_Name t) else tr_Type t)"

text \<open>The last count that a list gives for a key, zero if there is none.\<close>

definition lastCount :: "string \<Rightarrow> apiTres list \<Rightarrow> int" where
  "lastCount k l = (case find (\<lambda>t. tresKey t = k \<and> tr_Count t \<noteq> None) (rev l) of
     None \<Rightarrow> 0 | Some t \<Rightarrow> the (tr_Count t))"

definition plainTres :: "apiTres \<Rightarrow> bool" where
  "plainTres t \<longleftrightarrow> list_all graphic (tresKey t) \<and> CHR '','' \<notin> set (tresKey t) \<and> CHR ''='' \<notin> set (tresKey t)
     \<and> (case tr_Count t of None \<Rightarrow> True | Some n \<Rightarrow> 0 \<le> n \<and> n < 2 ^ 63)"

lemma tresPart_Some:
  "tr_Count t = Some n \<Longrightarrow> tresPart t = [tresKey t @ CHR ''='' # itoa n @ (if tr_Type t = ''mem'' then ''M'' else [])]"
  by (auto simp: tresPart_def tresKey_def strOr_def Let_def split: option.splits)

lemma tresPart_None: "tr_Count t = None \<Longrightarrow> tresPart t = []"
  by (simp add: tresPart_def)

lemma lastCount_snoc:
  "lastCount k (l @ [t]) = (case tr_Count t of Some n \<Rightarrow> if tresKey t = k then n else lastCount k l | None \<Rightarrow> lastCount k l)"
  by (auto simp: lastCount_def split: option.splits)

lemma foldE_append: "foldE f (xs @ ys) s = (case foldE f xs s of Inl e \<Rightarrow> Inl e | Inr s' \<Rightarrow> foldE f ys s')"
  by (induction xs arbitrary: s) (auto split: sum.splits)

lemma itoa_natural: "0 \<le> n \<Longrightarrow> itoa n = natToDigits (nat n)"
  by (simp add: itoa_def)

lemma atoi_itoa: "0 \<le> n \<Longrightarrow> n < 2 ^ 63 \<Longrightarrow> atoi (itoa n) = Some n"
  by (simp add: itoa_natural atoi_digits natToDigits_digits)

lemma tresKey_type:
  "tresKey t = ''cpu'' \<Longrightarrow> tr_Type t \<noteq> ''mem''" "tresKey t = ''gres/gpu'' \<Longrightarrow> tr_Type t \<noteq> ''mem''" "tresKey t = ''mem'' \<Longrightarrow> tr_Type t = ''mem''"
proof -
  have slash: "tresKey t = k \<Longrightarrow> CHR ''/'' \<notin> set k \<Longrightarrow> tr_Type t = k" for k by (auto simp: tresKey_def split: if_splits)
  from slash [of "''cpu''"] show "tresKey t = ''cpu'' \<Longrightarrow> tr_Type t \<noteq> ''mem''" by simp
  from slash [of "''mem''"] show "tresKey t = ''mem'' \<Longrightarrow> tr_Type t = ''mem''" by simp
  show "tresKey t = ''gres/gpu'' \<Longrightarrow> tr_Type t \<noteq> ''mem''" by (auto simp: tresKey_def split: if_splits)
qed

definition countedIn :: "apiTres list \<Rightarrow> TrackableResources" where
  "countedIn l = \<lparr>CPUCount = lastCount ''cpu'' l, MemoryBytes = wrap64 (lastCount ''mem'' l * (1024 * 1024)), GPUCount = lastCount ''gres/gpu'' l\<rparr>"

lemma parseResource_part:
  assumes "plainTres t" "tr_Count t = Some n"
  shows "parseResource (tresKey t @ CHR ''='' # itoa n @ (if tr_Type t = ''mem'' then ''M'' else [])) (countedIn l) = Inr (countedIn (l @ [t]))"
proof -
  let ?v = "itoa n @ (if tr_Type t = ''mem'' then ''M'' else [])"
  have n: "0 \<le> n" "n < 2 ^ 63" and k: "list_all graphic (tresKey t)" "CHR ''='' \<notin> set (tresKey t)"
    using assms by (auto simp: plainTres_def)
  have digits: "list_all isDigitChar (itoa n)" "itoa n \<noteq> []" "int (digitsVal (itoa n)) = n"
    using n by (simp_all add: itoa_natural natToDigits_digits)
  then have "list_all graphic ?v" by (auto simp: list_all_iff digit_graphic) (simp add: graphic_def)
  then have "trimSpace ?v = ?v" "trimSpace (tresKey t) = tresKey t" using k(1) by (simp_all only: trimSpace_all)
  moreover have "strSplitN2 (CHR ''='') (tresKey t @ CHR ''='' # ?v) = [tresKey t, ?v]" using k(2) by (rule strSplitN2_split)
  moreover have "parseMemoryValue (itoa n @ ''M'') = Inr (wrap64 (n * (1024 * 1024)))"
    using parseMemoryValue_unit [OF digits(2,1), of "CHR ''M''" "1024 * 1024"] n digits(3) by (simp add: memoryMultiplier_def)
  ultimately show ?thesis
    using assms(2) tresKey_type [of t] atoi_itoa [OF n]
    by (auto simp: parseResource_def countedIn_def lastCount_snoc Let_def)
qed

lemma foldE_tresParts:
  assumes "\<forall>t \<in> set l. plainTres t"
  shows "foldE parseResource (concat (map tresPart l)) (countedIn []) = Inr (countedIn l)"
  using assms
proof (induction l rule: rev_induct)
  case (snoc t l)
  then have IH: "foldE parseResource (concat (map tresPart l)) (countedIn []) = Inr (countedIn l)" by simp
  show ?case
  proof (cases "tr_Count t")
    case None
    then have "countedIn (l @ [t]) = countedIn l" by (simp add: countedIn_def lastCount_snoc)
    with None IH show ?thesis by (simp add: tresPart_None)
  next
    case (Some n)
    with snoc.prems have "plainTres t" by simp
    from parseResource_part [OF this Some] IH Some show ?thesis by (simp add: tresPart_Some foldE_append)
  qed
qed simp

lemma tresParts_split:
  assumes "\<forall>t \<in> set l. plainTres t"
  shows "foldE parseResource (strSplit (CHR '','') (strJoin '','' (concat (map tresPart l)))) s = foldE parseResource (concat (map tresPart l)) s"
proof (cases "concat (map tresPart l) = []")
  case True
  then show ?thesis by (simp only: True strJoin.simps strSplit.simps) (simp add: parseResource_def strSplitN2_def)
next
  case False
  have "CHR '','' \<notin> set p" if p: "p \<in> set (tresPart t)" and l: "t \<in> set l" for p t
  proof -
    have t: "plainTres t" using assms l by blast
    obtain n where n: "tr_Count t = Some n" using p by (cases "tr_Count t") (auto simp: tresPart_None)
    with t have "0 \<le> n" by (simp add: plainTres_def)
    then have "list_all isDigitChar (itoa n)" by (simp add: itoa_natural natToDigits_digits)
    then have "CHR '','' \<notin> set (itoa n)" by (auto simp: list_all_iff)
    then show ?thesis using p t by (auto simp: tresPart_Some [OF n] plainTres_def split: if_splits)
  qed
  then have "\<forall>p \<in> set (concat (map tresPart l)). CHR '','' \<notin> set p" by auto
  with False have "strSplit (CHR '','') (strJoin '','' (concat (map tresPart l))) = concat (map tresPart l)"
    by (intro strSplit_strJoin)
  then show ?thesis by simp
qed

text \<open>
  C22: the trackable resources of an accounting record survive being written as a string and parsed
  again: the last counts of CPUs and GPUs come back as they were, and the memory count, in megabytes,
  as that many bytes modulo 64 bits.
\<close>

theorem ParseTrackableResources_tresListToString:
  assumes "\<forall>t \<in> set l. plainTres t"
  shows "ParseTrackableResources (tresListToString (Some l)) =
    Inr \<lparr>CPUCount = lastCount ''cpu'' l, MemoryBytes = wrap64 (lastCount ''mem'' l * (1024 * 1024)), GPUCount = lastCount ''gres/gpu'' l\<rparr>"
proof -
  have "countedIn [] = \<lparr>CPUCount = 0, MemoryBytes = 0, GPUCount = 0\<rparr>" by (simp add: countedIn_def lastCount_def wrap64_def)
  then show ?thesis
    using foldE_tresParts [OF assms] by (simp add: ParseTrackableResources_def tresListToString_def tresParts_split [OF assms] countedIn_def)
qed

theorem ParseTrackableResources_tresListToString_witness:
  "let l = [\<lparr>tr_Type = ''cpu'', tr_Name = None, tr_Count = Some 16\<rparr>, \<lparr>tr_Type = ''mem'', tr_Name = None, tr_Count = Some 2\<rparr>,
            \<lparr>tr_Type = ''gres'', tr_Name = Some ''gpu'', tr_Count = Some 8\<rparr>, \<lparr>tr_Type = ''energy'', tr_Name = None, tr_Count = None\<rparr>]
   in tresListToString (Some l) = ''cpu=16,mem=2M,gres/gpu=8''
    \<and> ParseTrackableResources (tresListToString (Some l)) = Inr \<lparr>CPUCount = 16, MemoryBytes = 2097152, GPUCount = 8\<rparr>"
proof -
  let ?l = "[\<lparr>tr_Type = ''cpu'', tr_Name = None, tr_Count = Some 16\<rparr>, \<lparr>tr_Type = ''mem'', tr_Name = None, tr_Count = Some 2\<rparr>,
            \<lparr>tr_Type = ''gres'', tr_Name = Some ''gpu'', tr_Count = Some 8\<rparr>, \<lparr>tr_Type = ''energy'', tr_Name = None, tr_Count = None\<rparr>] :: apiTres list"
  have "\<forall>t \<in> set ?l. plainTres t" by code_simp
  moreover have "tresListToString (Some ?l) = ''cpu=16,mem=2M,gres/gpu=8''" by code_simp
  moreover have "lastCount ''cpu'' ?l = 16" "lastCount ''mem'' ?l = 2" "lastCount ''gres/gpu'' ?l = 8" by code_simp+
  ultimately show ?thesis using ParseTrackableResources_tresListToString [of ?l] by (simp add: wrap64_def)
qed

end
