(* ===== verification/Call_Log.thy ===== *)
theory Call_Log
  imports Go_Action
begin

text \<open>
  To state which calls a controller makes, and in which order, its world is paired with a list of events:
  \<open>recorded\<close> appends an event to it whether the call succeeds or not. The theory has the rules by which a
  property of that list is carried through a sequence of calls.
\<close>

definition unrecorded :: "('w, 'a) action \<Rightarrow> ('w \<times> 'e list, 'a) action" where
  "unrecorded m = (\<lambda>(w, log). case m w of (r, w') \<Rightarrow> (r, (w', log)))"

definition recorded :: "'e \<Rightarrow> ('w, 'a) action \<Rightarrow> ('w \<times> 'e list, 'a) action" where
  "recorded ev m = (\<lambda>(w, log). case m w of (r, w') \<Rightarrow> (r, (w', log @ [ev])))"

text \<open>Calls that keep a property of the record.\<close>

definition keepsLog :: "('e list \<Rightarrow> bool) \<Rightarrow> ('w \<times> 'e list, 'a) action \<Rightarrow> bool" where
  "keepsLog I m \<longleftrightarrow> (\<forall>w log. I log \<longrightarrow> I (snd (snd (m (w, log)))))"

named_theorems keepsLog \<open>calls that keep a property of the record\<close>

lemma keepsLogD: "keepsLog I m \<Longrightarrow> m (w, log) = (r, (w', log')) \<Longrightarrow> I log \<Longrightarrow> I log'"
  unfolding keepsLog_def by (metis snd_conv)

lemma keepsLog_basic [keepsLog]: "keepsLog I (ret a)" "keepsLog I (raise e)" "keepsLog I (liftA r)" "keepsLog I (unrecorded m)"
  by (simp_all add: keepsLog_def unrecorded_def split: prod.split)

lemma keepsLog_bindA [keepsLog]: "keepsLog I m \<Longrightarrow> (\<And>a. keepsLog I (k a)) \<Longrightarrow> keepsLog I (bindA m k)"
  unfolding keepsLog_def bindA_def by (auto split: prod.splits sum.splits) (metis snd_conv)+

lemma keepsLog_wrapA [keepsLog]: "keepsLog I m \<Longrightarrow> keepsLog I (wrapA f as m)"
  unfolding keepsLog_def wrapA_def by (auto split: prod.splits sum.splits) (metis snd_conv)+

lemma keepsLog_tryA [keepsLog]: "keepsLog I m \<Longrightarrow> (\<And>r. keepsLog I (k r)) \<Longrightarrow> keepsLog I (tryA m k)"
  unfolding keepsLog_def tryA_def by (auto split: prod.splits sum.splits) (metis snd_conv)+

lemma keepsLog_forA: "(\<And>x s. x \<in> set xs \<Longrightarrow> keepsLog I (f x s)) \<Longrightarrow> keepsLog I (forA f xs s)"
  by (induction xs arbitrary: s) (auto intro: keepsLog_bindA simp: keepsLog_basic)

lemma keepsLog_recorded: "(\<And>log. I log \<Longrightarrow> I (log @ [ev])) \<Longrightarrow> keepsLog I (recorded ev m)"
  by (auto simp: keepsLog_def recorded_def split: prod.split)

lemma keepsLog_bindA_success:
  assumes "keepsLog I m" "\<And>a v v'. m v = (Inr a, v') \<Longrightarrow> keepsLog I (k a)"
  shows "keepsLog I (bindA m k)"
  unfolding keepsLog_def
proof (intro allI impI)
  fix w log assume I: "I log"
  obtain r w' log' where m: "m (w, log) = (r, (w', log'))" by (metis prod.collapse)
  have I': "I log'" using keepsLogD [OF assms(1) m I] .
  show "I (snd (snd (bindA m k (w, log))))"
  proof (cases r)
    case (Inl e)
    then show ?thesis using m I' by (simp add: bindA_def)
  next
    case (Inr a)
    then have "keepsLog I (k a)" using assms(2) m by blast
    then show ?thesis using m Inr I' by (simp add: bindA_def keepsLog_def)
  qed
qed

end
