(* ===== verification/Rolling_Update.thy ===== *)
theory Rolling_Update
  imports Worker_Topology Slurm_Node Call_Log
begin

text \<open>
  The rolling update controller, internal/controller/updatecontroller/statefulset\_controller.go: it
  replaces the outdated pods of a worker StatefulSet by letting Slurm reboot their nodes within a budget,
  and deletes a pod itself only when its hand-over is complete or its node is safely offline.

  The Kubernetes calls and the Slurm client (the interface of internal/slurmapi/interface.go) are
  parameters, the record \<open>rollingApi\<close>; so is intstr.GetScaledValueFromIntOrPercent. The label selector of
  the StatefulSet is part of the call that lists its pods.
\<close>

section \<open>Objects\<close>

text \<open>A container status by its name and the reason of its waiting state.\<close>

record workerPod = pod +
  wp_conditions :: "(string \<times> string) list"
  wp_initContainerStatuses :: "(string \<times> string option) list"
  wp_containerStatuses :: "(string \<times> string option) list"

datatype intOrString = IntVal int | StrVal string

record kruiseStatefulSet =
  ks_meta :: objectMeta
  ks_replicas :: "int option"
  ks_updateStrategyType :: string
  ks_maxUnavailable :: "intOrString option"
  ks_updatedReplicas :: int
  ks_readyReplicas :: int
  ks_updateRevision :: string

record rebootRequest =
  rr_NodeList :: string
  rr_ASAP :: bool
  rr_Force :: bool
  rr_NextState :: "string list"
  rr_Reason :: string
  rr_PowerAction :: string

record 'w slurmClient =
  sl_ListNodes :: "('w, Node list) action"
  sl_UndrainNode :: "string \<Rightarrow> ('w, unit) action"
  sl_RebootNodes :: "rebootRequest \<Rightarrow> ('w, unit) action"

record 'w rollingApi =
  ra_getStatefulSet :: "objectKey \<Rightarrow> ('w, kruiseStatefulSet) action"
  ra_listPods :: "kruiseStatefulSet \<Rightarrow> ('w, workerPod list) action"
  ra_deletePod :: "workerPod \<Rightarrow> ('w, unit) action"
  ra_patchPod :: "workerPod \<Rightarrow> ('w, unit) action"
  ra_slurmClient :: "objectKey \<Rightarrow> 'w slurmClient option"
  ra_scaledValue :: "intOrString \<Rightarrow> int \<Rightarrow> int option"

definition podName :: "workerPod \<Rightarrow> string" where
  "podName p = om_name (pod_meta p)"

definition podLabels :: "workerPod \<Rightarrow> labels" where
  "podLabels p = om_labels (pod_meta p)"

definition LabelSoperatorWorkerOperationID :: string where
  "LabelSoperatorWorkerOperationID = K8sGroupNameSoperator @ ''/worker-operation-id''"
definition LabelSoperatorWorkerOperationPhase :: string where
  "LabelSoperatorWorkerOperationPhase = K8sGroupNameSoperator @ ''/worker-operation-phase''"
definition LabelSoperatorWorkerOperationPhaseStopping :: string where
  "LabelSoperatorWorkerOperationPhaseStopping = ''stopping''"
definition LabelSoperatorWorkerOperationPhaseReady :: string where
  "LabelSoperatorWorkerOperationPhaseReady = ''ready''"
definition ContainerNameWorkerInit :: string where "ContainerNameWorkerInit = ''worker-init''"
definition ContainerNameSlurmd :: string where "ContainerNameSlurmd = ''slurmd''"
definition defaultSTSReplicasCount :: int where "defaultSTSReplicasCount = 1"
definition defaultRebootReason :: string where "defaultRebootReason = ''soperator rolling update''"
definition LabelSoperatorRollingUpdateEnabled :: string where
  "LabelSoperatorRollingUpdateEnabled = K8sGroupNameSoperator @ ''/rolling-update-enabled''"
definition LabelSoperatorRollingUpdateValue :: string where "LabelSoperatorRollingUpdateValue = ''true''"
definition SlurmPowerActionWorkerHandoff :: string where "SlurmPowerActionWorkerHandoff = ''soperator-worker-handoff''"

definition revisionLabel :: string where
  "revisionLabel = ''controller-revision-hash''"

section \<open>Pods and nodes\<close>

definition filterOutdatedPods :: "workerPod list \<Rightarrow> string \<Rightarrow> workerPod list" where
  "filterOutdatedPods podList updateRevision = filter (\<lambda>p. getStr (podLabels p) revisionLabel \<noteq> updateRevision) podList"

definition indexSlurmNodesForPods :: "Node list \<Rightarrow> workerPod list \<Rightarrow> (string, Node) gomap" where
  "indexSlurmNodesForPods slurmNodes pods =
     (let podNames = fold (\<lambda>p. setAdd (podName p)) pods []
      in fold (\<lambda>node m. if n_Name node \<in> set podNames then mapPut (n_Name node) node m else m) slurmNodes [])"

definition podReady :: "workerPod \<Rightarrow> bool" where
  "podReady p = (case find (\<lambda>(ctype, status). ctype = ''Ready'') (wp_conditions p) of
     Some (ctype, status) \<Rightarrow> status = ''True''
   | None \<Rightarrow> False)"

definition containerCrashLoopBackOff :: "(string \<times> string option) list \<Rightarrow> string \<Rightarrow> bool" where
  "containerCrashLoopBackOff statuses containerName =
     list_ex (\<lambda>(name, waiting). name = containerName \<and> waiting = Some ''CrashLoopBackOff'') statuses"

definition workerOperationPhase :: "workerPod \<Rightarrow> string \<Rightarrow> string" where
  "workerOperationPhase p operationID =
     (if getStr (podLabels p) LabelSoperatorWorkerOperationID \<noteq> operationID then []
      else getStr (podLabels p) LabelSoperatorWorkerOperationPhase)"

definition hasRollingUpdateReason :: "Node \<Rightarrow> bool" where
  "hasRollingUpdateReason node = (case n_Reason node of
     None \<Rightarrow> False
   | Some reason \<Rightarrow> nr_Reason reason = defaultRebootReason \<or> hasPrefix (nr_Reason reason) (defaultRebootReason @ '' : ''))"

definition staleRollingUpdateDrain :: "Node \<Rightarrow> bool" where
  "staleRollingUpdateDrain node =
     (if \<not> IsDrainState node \<or> \<not> IsIdleState node \<or> IsNotRespondingState node \<or> IsInvalidState node \<or> IsCompletingState node
      then False
      else if IsRebootIssuedState node \<or> IsRebootRequestedState node then False
      else hasRollingUpdateReason node)"

definition safeToDeleteOfflineSlurmNode :: "Node \<Rightarrow> bool" where
  "safeToDeleteOfflineSlurmNode node =
     (if CPUAllocated node \<noteq> Some 0 then False
      else if n_AllocMemoryMB node \<noteq> Some 0 then False
      else if IsCompletingState node then False
      else IsDownState node \<or> (IsIdleState node \<and> IsNotRespondingState node))"

datatype workerUpdateAction = ScheduleReboot | Wait | TrackInFlight | Undrain | Delete

record workerUpdateDecision =
  wd_action :: workerUpdateAction
  wd_operationPhase :: string
  wd_slurmdCrashLooping :: bool
  wd_rebootHandoffInProgress :: bool
  wd_managedRebootInProgress :: bool

definition decideWorkerUpdateAction :: "workerPod \<Rightarrow> Node \<Rightarrow> string \<Rightarrow> workerUpdateDecision" where
  "decideWorkerUpdateAction p node operationID =
     (let rebootInProgress = (IsRebootIssuedState node \<or> IsRebootRequestedState node);
          operationPhase = workerOperationPhase p operationID;
          slurmdCrashLooping = containerCrashLoopBackOff (wp_containerStatuses p) ContainerNameSlurmd;
          managedRebootInProgress = (rebootInProgress \<and> hasRollingUpdateReason node);
          rebootHandoffInProgress = (rebootInProgress \<and> operationPhase = LabelSoperatorWorkerOperationPhaseStopping)
      in \<lparr>wd_action =
            (if staleRollingUpdateDrain node then Undrain
             else if (slurmdCrashLooping \<or> rebootHandoffInProgress \<or> managedRebootInProgress) \<and> safeToDeleteOfflineSlurmNode node
             then Delete
             else if slurmdCrashLooping then Wait
             else if rebootInProgress then TrackInFlight
             else ScheduleReboot),
          wd_operationPhase = operationPhase, wd_slurmdCrashLooping = slurmdCrashLooping,
          wd_rebootHandoffInProgress = rebootHandoffInProgress, wd_managedRebootInProgress = managedRebootInProgress\<rparr>)"

section \<open>The budget\<close>

definition stsReplicas :: "kruiseStatefulSet \<Rightarrow> int" where
  "stsReplicas sts = (case ks_replicas sts of Some r \<Rightarrow> r | None \<Rightarrow> defaultSTSReplicasCount)"

definition rebootBudget :: "'w rollingApi \<Rightarrow> kruiseStatefulSet \<Rightarrow> int" where
  "rebootBudget api sts =
     (let replicas = stsReplicas sts in
      if replicas \<le> 0 then 0
      else
        let maxUnavailable = (case ks_maxUnavailable sts of Some m \<Rightarrow> m | None \<Rightarrow> IntVal 1) in
        case ra_scaledValue api maxUnavailable replicas of
          None \<Rightarrow> 1
        | Some budget \<Rightarrow> if budget < 1 then 1 else if replicas < budget then replicas else budget)"

definition unavailableReplicas :: "kruiseStatefulSet \<Rightarrow> int" where
  "unavailableReplicas sts =
     (let unavailable = wrap32 (stsReplicas sts - ks_readyReplicas sts) in if unavailable < 0 then 0 else unavailable)"

section \<open>The update\<close>

text \<open>r.Delete with client.IgnoreNotFound.\<close>

definition deletePod :: "'w rollingApi \<Rightarrow> string \<Rightarrow> workerPod \<Rightarrow> ('w, unit) action" where
  "deletePod api msg p = tryA (ra_deletePod api p) (\<lambda>r. case r of
     Inl err \<Rightarrow> if IsNotFound err then ret () else raise (wrapErr msg [om_namespace (pod_meta p), podName p] err)
   | Inr _ \<Rightarrow> ret ())"

text \<open>The first loop: pods whose hand-over is complete are deleted, the others are to be stopped.\<close>

definition deleteHandedOver :: "'w rollingApi \<Rightarrow> string \<Rightarrow> workerPod \<Rightarrow> workerPod list \<times> nat \<Rightarrow> ('w, workerPod list \<times> nat) action" where
  "deleteHandedOver api operationID p = (\<lambda>(podsToStop, deletedPods).
     if workerOperationPhase p operationID \<noteq> LabelSoperatorWorkerOperationPhaseReady then ret (podsToStop @ [p], deletedPods)
     else bindA (deletePod api ''delete pod %s/%s with completed worker handoff: %w'' p) (\<lambda>_. ret (podsToStop, deletedPods + 1)))"

text \<open>The loop over the pods to stop: the reboot candidates and the ready pods that already use the budget.\<close>

definition handlePod :: "'w rollingApi \<Rightarrow> 'w slurmClient \<Rightarrow> (string, Node) gomap \<Rightarrow> string \<Rightarrow> workerPod
    \<Rightarrow> (workerPod \<times> Node) list \<times> int \<Rightarrow> ('w, (workerPod \<times> Node) list \<times> int) action" where
  "handlePod api slurmClient slurmNodesByName operationID p = (\<lambda>(candidates, consuming).
     case map_of slurmNodesByName (podName p) of
       None \<Rightarrow> raise (Errorf ''slurm node %s is missing from list nodes response'' [podName p])
     | Some slurmNode \<Rightarrow>
         (case wd_action (decideWorkerUpdateAction p slurmNode operationID) of
            Undrain \<Rightarrow>
              bindA (wrapA ''undrain stale rolling update node %s: %w'' [n_Name slurmNode] (sl_UndrainNode slurmClient (n_Name slurmNode))) (\<lambda>_.
                ret (candidates, if podReady p then consuming + 1 else consuming))
          | Delete \<Rightarrow>
              bindA (deletePod api ''delete safely offline outdated pod %s/%s: %w'' p) (\<lambda>_.
                ret (candidates, if podReady p then consuming + 1 else consuming))
          | Wait \<Rightarrow> ret (candidates, consuming)
          | TrackInFlight \<Rightarrow> ret (candidates, if podReady p then consuming + 1 else consuming)
          | ScheduleReboot \<Rightarrow> ret (candidates @ [(p, slurmNode)], consuming)))"

definition stoppingPod :: "workerPod \<Rightarrow> string \<Rightarrow> workerPod" where
  "stoppingPod p operationID =
     p\<lparr>pod_meta := (pod_meta p)\<lparr>om_labels :=
        mapPut LabelSoperatorWorkerOperationPhase LabelSoperatorWorkerOperationPhaseStopping
          (mapPut LabelSoperatorWorkerOperationID operationID (podLabels p))\<rparr>\<rparr>"

text \<open>The loop over the candidates stops when the slots are used up.\<close>

fun stopCandidates :: "'w rollingApi \<Rightarrow> string \<Rightarrow> int \<Rightarrow> (workerPod \<times> Node) list \<Rightarrow> string list \<Rightarrow> ('w, string list) action" where
  "stopCandidates api operationID availableSlots [] slurmNodesToReboot = ret slurmNodesToReboot"
| "stopCandidates api operationID availableSlots ((p, slurmNode) # candidates) slurmNodesToReboot =
     (if availableSlots \<le> int (length slurmNodesToReboot) then ret slurmNodesToReboot
      else bindA (if workerOperationPhase p operationID \<noteq> LabelSoperatorWorkerOperationPhaseStopping
                  then wrapA ''start worker operation %s on pod %s/%s: %w'' [operationID, om_namespace (pod_meta p), podName p]
                         (ra_patchPod api (stoppingPod p operationID))
                  else ret ()) (\<lambda>_.
             stopCandidates api operationID availableSlots candidates (slurmNodesToReboot @ [n_Name slurmNode])))"

text \<open>The part after the first loops: talk to Slurm.\<close>

definition rebootOutdated :: "'w rollingApi \<Rightarrow> string \<Rightarrow> string \<Rightarrow> kruiseStatefulSet \<Rightarrow> workerPod list \<Rightarrow> ('w, unit) action" where
  "rebootOutdated api clusterName operationID sts podsToStop =
     (case ra_slurmClient api (om_namespace (ks_meta sts), clusterName) of
        None \<Rightarrow> raise (Errorf ''no slurm api client for %s/%s'' [om_namespace (ks_meta sts), clusterName])
      | Some slurmClient \<Rightarrow>
          bindA (sl_ListNodes slurmClient) (\<lambda>slurmNodes.
          bindA (forA (handlePod api slurmClient (indexSlurmNodesForPods slurmNodes podsToStop) operationID) podsToStop ([], 0)) (\<lambda>(candidates, readyPodsConsumingBudget).
            let availableSlots = rebootBudget api sts - unavailableReplicas sts - readyPodsConsumingBudget in
            if availableSlots \<le> 0 then ret ()
            else bindA (stopCandidates api operationID availableSlots candidates []) (\<lambda>slurmNodesToReboot.
              if slurmNodesToReboot = [] then ret ()
              else wrapA ''schedule slurm reboot through rest api: %w'' [] (sl_RebootNodes slurmClient
                \<lparr>rr_NodeList = strJoin '','' slurmNodesToReboot, rr_ASAP = True, rr_Force = False, rr_NextState = [], rr_Reason = defaultRebootReason,
                 rr_PowerAction = SlurmPowerActionWorkerHandoff\<rparr>)))))"

definition processRollingUpdate :: "'w rollingApi \<Rightarrow> string \<Rightarrow> string \<Rightarrow> kruiseStatefulSet \<Rightarrow> workerPod list \<Rightarrow> ('w, unit) action" where
  "processRollingUpdate api clusterName operationID sts outdatedPods =
     (if length outdatedPods = 0 then ret ()
      else bindA (forA (deleteHandedOver api operationID) (sort_key podName outdatedPods) ([], 0)) (\<lambda>(podsToStop, deletedPods).
        if 0 < deletedPods then ret ()
        else case find (\<lambda>p. containerCrashLoopBackOff (wp_initContainerStatuses p) ContainerNameWorkerInit) podsToStop of
            Some p \<Rightarrow> deletePod api ''delete outdated pod %s/%s with crash-looping worker init: %w'' p
          | None \<Rightarrow> rebootOutdated api clusterName operationID sts podsToStop))"

section \<open>Cleaning up\<close>

definition undrainStale :: "'w slurmClient \<Rightarrow> string list \<Rightarrow> Node \<Rightarrow> string list \<Rightarrow> ('w, string list) action" where
  "undrainStale slurmClient eligibleNodeNames slurmNode undrainedNodes =
     (if n_Name slurmNode \<notin> set eligibleNodeNames then ret undrainedNodes
      else if \<not> staleRollingUpdateDrain slurmNode then ret undrainedNodes
      else bindA (wrapA ''undrain stale rolling update node %s: %w'' [n_Name slurmNode] (sl_UndrainNode slurmClient (n_Name slurmNode))) (\<lambda>_.
        ret (undrainedNodes @ [n_Name slurmNode])))"

definition cleanupStaleRollingUpdateDrains :: "'w rollingApi \<Rightarrow> string \<Rightarrow> kruiseStatefulSet \<Rightarrow> workerPod list \<Rightarrow> ('w, nat) action" where
  "cleanupStaleRollingUpdateDrains api clusterName sts pods =
     (let eligibleNodeNames = fold (\<lambda>p names.
            if getStr (podLabels p) revisionLabel = ks_updateRevision sts \<and> podReady p then setAdd (podName p) names else names) pods []
      in if length eligibleNodeNames = 0 then ret 0
         else case ra_slurmClient api (om_namespace (ks_meta sts), clusterName) of
            None \<Rightarrow> raise (Errorf ''no slurm api client for %s/%s'' [om_namespace (ks_meta sts), clusterName])
          | Some slurmClient \<Rightarrow>
              bindA (sl_ListNodes slurmClient) (\<lambda>slurmNodes.
              bindA (forA (undrainStale slurmClient eligibleNodeNames) slurmNodes []) (\<lambda>undrainedNodes.
                ret (length undrainedNodes))))"

section \<open>Reconcile\<close>

definition rollingUpdateEnabled :: "kruiseStatefulSet \<Rightarrow> bool" where
  "rollingUpdateEnabled sts \<longleftrightarrow> ks_updateStrategyType sts = ''OnDelete''
     \<and> getStr (om_labels (ks_meta sts)) LabelSoperatorRollingUpdateEnabled = LabelSoperatorRollingUpdateValue"

definition getPodList :: "'w rollingApi \<Rightarrow> kruiseStatefulSet \<Rightarrow> ('w, workerPod list) action" where
  "getPodList api sts = wrapA ''failed to list pods: %w'' [] (ra_listPods api sts)"

text \<open>The result is the delay in seconds after which the request is queued again, 0 for none.\<close>

definition Reconcile_rollingUpdate :: "'w rollingApi \<Rightarrow> objectKey \<Rightarrow> ('w, nat) action" where
  "Reconcile_rollingUpdate api key = tryA (ra_getStatefulSet api key) (\<lambda>r. case r of
     Inl err \<Rightarrow> if IsNotFound err then ret 0 else raise err
   | Inr sts \<Rightarrow>
       if \<not> rollingUpdateEnabled sts then ret 0
       else
         let clusterName = getStr (om_labels (ks_meta sts)) LabelInstanceKey in
         if clusterName = [] then
           raise (Errorf ''missing cluster name label %s on statefulset %s/%s''
             [LabelInstanceKey, om_namespace (ks_meta sts), om_name (ks_meta sts)])
         else bindA (getPodList api sts) (\<lambda>podList.
           if ks_updatedReplicas sts = stsReplicas sts then
             bindA (cleanupStaleRollingUpdateDrains api clusterName sts podList) (\<lambda>undrainedNodes.
               ret (if 0 < undrainedNodes then 1 else 0))
           else
             let outdatedPodList = filterOutdatedPods podList (ks_updateRevision sts); operationID = ks_updateRevision sts in
             if operationID = [] then
               raise (Errorf ''missing update revision on statefulset %s/%s'' [om_namespace (ks_meta sts), om_name (ks_meta sts)])
             else bindA (processRollingUpdate api clusterName operationID sts outdatedPodList) (\<lambda>_. ret 60)))"

section \<open>Recorded calls\<close>

text \<open>
  To speak about the calls that the controller makes, any cluster is paired with a record of them: the
  pods it deletes or patches, the nodes it undrains, the reboots it requests and the node lists that
  Slurm answered with. A call is recorded whether it succeeds or not.
\<close>

datatype rollingEvent =
    Deleted workerPod
  | Patched workerPod
  | Undrained string
  | Rebooted rebootRequest
  | Listed "Node list"

definition recordedList :: "('w, Node list) action \<Rightarrow> ('w \<times> rollingEvent list, Node list) action" where
  "recordedList m = (\<lambda>(w, log). case m w of
     (Inr nodes, w') \<Rightarrow> (Inr nodes, (w', log @ [Listed nodes])) | (Inl e, w') \<Rightarrow> (Inl e, (w', log)))"

definition recordingClient :: "'w slurmClient \<Rightarrow> ('w \<times> rollingEvent list) slurmClient" where
  "recordingClient c = \<lparr>
     sl_ListNodes = recordedList (sl_ListNodes c),
     sl_UndrainNode = (\<lambda>name. recorded (Undrained name) (sl_UndrainNode c name)),
     sl_RebootNodes = (\<lambda>req. recorded (Rebooted req) (sl_RebootNodes c req))\<rparr>"

definition recording :: "'w rollingApi \<Rightarrow> ('w \<times> rollingEvent list) rollingApi" where
  "recording api = \<lparr>
     ra_getStatefulSet = (\<lambda>key. unrecorded (ra_getStatefulSet api key)),
     ra_listPods = (\<lambda>sts. unrecorded (ra_listPods api sts)),
     ra_deletePod = (\<lambda>p. recorded (Deleted p) (ra_deletePod api p)),
     ra_patchPod = (\<lambda>p. recorded (Patched p) (ra_patchPod api p)),
     ra_slurmClient = (\<lambda>key. map_option recordingClient (ra_slurmClient api key)),
     ra_scaledValue = ra_scaledValue api\<rparr>"

lemma recording_simps [simp]:
  "ra_getStatefulSet (recording api) key = unrecorded (ra_getStatefulSet api key)"
  "ra_listPods (recording api) sts = unrecorded (ra_listPods api sts)"
  "ra_deletePod (recording api) p = recorded (Deleted p) (ra_deletePod api p)"
  "ra_patchPod (recording api) p = recorded (Patched p) (ra_patchPod api p)"
  "ra_scaledValue (recording api) = ra_scaledValue api"
  "ra_slurmClient (recording api) k = map_option recordingClient (ra_slurmClient api k)"
  "sl_ListNodes (recordingClient c) = recordedList (sl_ListNodes c)"
  "sl_UndrainNode (recordingClient c) name = recorded (Undrained name) (sl_UndrainNode c name)"
  "sl_RebootNodes (recordingClient c) req = recorded (Rebooted req) (sl_RebootNodes c req)"
  by (simp_all add: recording_def recordingClient_def)

lemma rebootBudget_recording [simp]: "rebootBudget (recording api) sts = rebootBudget api sts"
  by (simp add: rebootBudget_def Let_def)

lemma keepsLog_deletePod:
  "(\<And>log. I log \<Longrightarrow> I (log @ [Deleted p])) \<Longrightarrow> keepsLog I (deletePod (recording api) msg p)"
  unfolding deletePod_def by (auto intro!: keepsLog keepsLog_recorded split: sum.split)

section \<open>Deleting pods\<close>

text \<open>
  The reasons for which a pod may be deleted, given the record: its hand-over for the operation is
  complete, its init container is in a crash loop, or Slurm reported its node as offline, not completing
  and with no CPU and no memory allocated.
\<close>

definition mayDelete :: "string \<Rightarrow> rollingEvent list \<Rightarrow> workerPod \<Rightarrow> bool" where
  "mayDelete operationID log p \<longleftrightarrow>
     workerOperationPhase p operationID = LabelSoperatorWorkerOperationPhaseReady
   \<or> containerCrashLoopBackOff (wp_initContainerStatuses p) ContainerNameWorkerInit
   \<or> (\<exists>nodes node. Listed nodes \<in> set log \<and> node \<in> set nodes \<and> n_Name node = podName p \<and> safeToDeleteOfflineSlurmNode node)"

definition deletesOk :: "string \<Rightarrow> workerPod list \<Rightarrow> rollingEvent list \<Rightarrow> bool" where
  "deletesOk operationID pods log \<longleftrightarrow> (\<forall>p. Deleted p \<in> set log \<longrightarrow> p \<in> set pods \<and> mayDelete operationID log p)"

lemma mayDelete_mono: "mayDelete op log p \<Longrightarrow> set log \<subseteq> set log' \<Longrightarrow> mayDelete op log' p"
  unfolding mayDelete_def by blast

lemma deletesOk_snoc:
  "deletesOk op pods log \<Longrightarrow> (\<And>p. ev = Deleted p \<Longrightarrow> p \<in> set pods \<and> mayDelete op log p) \<Longrightarrow> deletesOk op pods (log @ [ev])"
  unfolding deletesOk_def using mayDelete_mono [of op log _ "log @ [ev]"] by fastforce

lemma indexSlurmNodes_facts:
  assumes "map_of (indexSlurmNodesForPods nodes pods) name = Some node"
  shows "node \<in> set nodes \<and> n_Name node = name"
proof -
  let ?names = "fold (\<lambda>p. setAdd (podName p)) pods []"
  let ?step = "\<lambda>node m. if n_Name node \<in> set ?names then mapPut (n_Name node) node m else m"
  have fold: "(\<forall>k v. map_of m k = Some v \<longrightarrow> v \<in> set nodes \<and> n_Name v = k) \<Longrightarrow> set xs \<subseteq> set nodes
      \<Longrightarrow> map_of (fold ?step xs m) k = Some v \<Longrightarrow> v \<in> set nodes \<and> n_Name v = k" for xs m k v
  proof (induction xs arbitrary: m)
    case (Cons x xs)
    have "\<forall>k v. map_of (?step x m) k = Some v \<longrightarrow> v \<in> set nodes \<and> n_Name v = k"
      using Cons.prems(1,2) by (auto simp: go_map split: if_splits)
    moreover have "set xs \<subseteq> set nodes" "map_of (fold ?step xs (?step x m)) k = Some v" using Cons.prems(2,3) by simp_all
    ultimately show ?case by (rule Cons.IH)
  qed auto
  show ?thesis using assms by (intro fold [of "[]" nodes]) (simp_all add: indexSlurmNodesForPods_def Let_def)
qed

lemma decide_Delete: "wd_action (decideWorkerUpdateAction p node op) = Delete \<Longrightarrow> safeToDeleteOfflineSlurmNode node"
  by (auto simp: decideWorkerUpdateAction_def Let_def split: if_splits)

lemma keepsLog_handlePod:
  assumes "p \<in> set pods"
  shows "keepsLog (\<lambda>log. deletesOk op pods log \<and> Listed nodes \<in> set log)
    (handlePod (recording api) (recordingClient c) (indexSlurmNodesForPods nodes stop) op p s)"
proof -
  let ?I = "\<lambda>log. deletesOk op pods log \<and> Listed nodes \<in> set log"
  obtain candidates k where s: "s = (candidates, k)" by fastforce
  show ?thesis
  proof (cases "map_of (indexSlurmNodesForPods nodes stop) (podName p)")
    case None
    then show ?thesis by (simp add: handlePod_def s keepsLog)
  next
    case (Some node)
    note node = indexSlurmNodes_facts [OF Some]
    have delete: "keepsLog ?I (deletePod (recording api) msg p)" if "wd_action (decideWorkerUpdateAction p node op) = Delete" for msg
      using node assms decide_Delete [OF that]
      by (intro keepsLog_deletePod) (auto simp: mayDelete_def intro!: deletesOk_snoc)
    have undrain: "keepsLog ?I (recorded (Undrained name) m)" for name and m :: "('a, unit) action"
      by (intro keepsLog_recorded) (auto intro: deletesOk_snoc)
    show ?thesis using delete undrain
      by (auto simp: handlePod_def s Some intro!: keepsLog split: workerUpdateAction.split)
  qed
qed

lemma keepsLog_list:
  assumes "\<And>log nodes. I log \<Longrightarrow> I (log @ [Listed nodes])" "\<And>nodes. keepsLog (\<lambda>log. I log \<and> Listed nodes \<in> set log) (k nodes)"
  shows "keepsLog I (bindA (recordedList m) k)"
  unfolding keepsLog_def
proof (intro allI impI)
  fix w log assume I: "I log"
  obtain r w' where m: "m w = (r, w')" by fastforce
  show "I (snd (snd (bindA (recordedList m) k (w, log))))"
  proof (cases r)
    case (Inl e)
    then show ?thesis using m I by (simp add: bindA_def recordedList_def)
  next
    case (Inr nodes)
    have "I (log @ [Listed nodes]) \<and> Listed nodes \<in> set (log @ [Listed nodes])" using assms(1) I by simp
    then have "I (snd (snd (k nodes (w', log @ [Listed nodes]))))" using assms(2) [of nodes] unfolding keepsLog_def by blast
    then show ?thesis using m Inr by (simp add: bindA_def recordedList_def)
  qed
qed

lemma keepsLog_stopCandidates:
  assumes "\<And>log p. I log \<Longrightarrow> I (log @ [Patched p])"
  shows "keepsLog I (stopCandidates (recording api) op slots cs names)"
proof (induction cs arbitrary: names)
  case (Cons c cs)
  have "keepsLog I (recorded (Patched p) m)" for p and m :: "('a, unit) action"
    using assms by (rule keepsLog_recorded)
  then show ?case using Cons by (cases c) (auto intro!: keepsLog)
qed (simp add: keepsLog)

lemma deletesOk_other: "deletesOk op pods log \<Longrightarrow> (\<And>p. ev \<noteq> Deleted p) \<Longrightarrow> deletesOk op pods (log @ [ev])"
  by (rule deletesOk_snoc) auto

lemma keepsLog_rebootOutdated:
  assumes "set stop \<subseteq> set pods"
  shows "keepsLog (deletesOk op pods) (rebootOutdated (recording api) cluster op sts stop)"
proof (cases "ra_slurmClient api (om_namespace (ks_meta sts), cluster)")
  case None
  then show ?thesis by (simp add: rebootOutdated_def keepsLog)
next
  case (Some c)
  let ?I = "\<lambda>nodes log. deletesOk op pods log \<and> Listed nodes \<in> set log"
  have loop: "keepsLog (?I nodes) (forA (handlePod (recording api) (recordingClient c) (indexSlurmNodesForPods nodes stop) op) stop s)" for nodes s
    using assms by (intro keepsLog_forA keepsLog_handlePod) blast
  have stops: "keepsLog (?I nodes) (stopCandidates (recording api) op slots cs [])" for nodes slots cs
    by (intro keepsLog_stopCandidates) (auto intro: deletesOk_other)
  have reboot: "keepsLog (?I nodes) (recorded (Rebooted req) m)" for nodes req and m :: "('a, unit) action"
    by (intro keepsLog_recorded) (auto intro: deletesOk_other)
  show ?thesis unfolding rebootOutdated_def recording_simps Some option.map option.case
    by (rule keepsLog_list) (auto intro!: keepsLog loop stops reboot deletesOk_other simp: Let_def split: prod.split)
qed

lemma deleteHandedOver_pods:
  assumes "forA (deleteHandedOver api op) ps ([], 0) v = (Inr (stop, n), v')"
  shows "set stop \<subseteq> set ps"
proof -
  have "list_all (\<lambda>p. p \<in> set ps) (fst (stop, n))"
    by (rule forA_invariant [OF assms, where I = "\<lambda>s w. list_all (\<lambda>p. p \<in> set ps) (fst s)"])
      (auto simp: deleteHandedOver_def bindA_success split: if_splits)
  then show ?thesis by (auto simp: list_all_iff)
qed

lemma keepsLog_processRollingUpdate:
  "keepsLog (deletesOk op pods) (processRollingUpdate (recording api) cluster op sts pods)"
proof -
  let ?loop = "forA (deleteHandedOver (recording api) op) (sort_key podName pods) ([], 0)"
  have first: "keepsLog (deletesOk op pods) ?loop"
  proof (rule keepsLog_forA)
    fix p and s :: "workerPod list \<times> nat" assume "p \<in> set (sort_key podName pods)"
    then have "keepsLog (deletesOk op pods) (deletePod (recording api) msg p)"
      if "workerOperationPhase p op = LabelSoperatorWorkerOperationPhaseReady" for msg
      using that by (intro keepsLog_deletePod) (auto simp: mayDelete_def intro!: deletesOk_snoc)
    then show "keepsLog (deletesOk op pods) (deleteHandedOver (recording api) op p s)"
      by (cases s) (auto simp: deleteHandedOver_def intro!: keepsLog)
  qed
  have rest: "keepsLog (deletesOk op pods) (case s of (stop, n) \<Rightarrow> if 0 < n then ret ()
        else case find (\<lambda>p. containerCrashLoopBackOff (wp_initContainerStatuses p) ContainerNameWorkerInit) stop of
            Some p \<Rightarrow> deletePod (recording api) ''delete outdated pod %s/%s with crash-looping worker init: %w'' p
          | None \<Rightarrow> rebootOutdated (recording api) cluster op sts stop)"
    if run: "?loop v = (Inr s, v')" for s v v'
  proof -
    obtain stop n where s: "s = (stop, n)" by fastforce
    with deleteHandedOver_pods run have stop: "set stop \<subseteq> set pods" by fastforce
    have "keepsLog (deletesOk op pods) (deletePod (recording api) msg p)"
      if "find (\<lambda>p. containerCrashLoopBackOff (wp_initContainerStatuses p) ContainerNameWorkerInit) stop = Some p" for msg p
    proof -
      from that have "p \<in> set stop" "containerCrashLoopBackOff (wp_initContainerStatuses p) ContainerNameWorkerInit"
        by (auto simp: find_Some_iff)
      then show ?thesis using stop by (intro keepsLog_deletePod) (auto simp: mayDelete_def intro!: deletesOk_snoc)
    qed
    then show ?thesis using keepsLog_rebootOutdated [OF stop] by (auto simp: s keepsLog split: option.split)
  qed
  show ?thesis unfolding processRollingUpdate_def
    using keepsLog_bindA_success [OF first rest] by (auto simp: keepsLog)
qed

section \<open>What a reconciliation did\<close>

definition quietEvent :: "rollingEvent \<Rightarrow> bool" where
  "quietEvent ev = (case ev of Undrained n \<Rightarrow> True | Listed ns \<Rightarrow> True | _ \<Rightarrow> False)"

lemma not_quiet: "Deleted p \<in> set log \<Longrightarrow> \<not> list_all quietEvent log" "Rebooted req \<in> set log \<Longrightarrow> \<not> list_all quietEvent log"
proof -
  have "\<not> quietEvent (Deleted p)" "\<not> quietEvent (Rebooted req)" by (simp_all add: quietEvent_def)
  then show "Deleted p \<in> set log \<Longrightarrow> \<not> list_all quietEvent log" "Rebooted req \<in> set log \<Longrightarrow> \<not> list_all quietEvent log"
    unfolding list_all_iff by blast+
qed

lemma keepsLog_cleanup:
  "keepsLog (list_all quietEvent) (cleanupStaleRollingUpdateDrains (recording api) cluster sts pods)"
proof -
  have undrain: "keepsLog (list_all quietEvent) (recorded (Undrained name) m)" for name and m :: "('a, unit) action"
    by (rule keepsLog_recorded) (simp add: quietEvent_def)
  have loop: "keepsLog (list_all quietEvent) (forA (undrainStale (recordingClient c) names) nodes s)" for c :: "'a slurmClient" and names nodes s
    by (rule keepsLog_forA) (auto simp: undrainStale_def intro!: keepsLog undrain)
  have list: "keepsLog (list_all quietEvent) (recordedList m)" for m :: "('a, Node list) action"
    by (auto simp: keepsLog_def recordedList_def quietEvent_def split: prod.split sum.split)
  show ?thesis unfolding cleanupStaleRollingUpdateDrains_def
    by (auto simp: Let_def intro!: keepsLog loop list split: option.split)
qed

text \<open>A reconciliation that deleted, patched or rebooted something went through the update.\<close>

lemma Reconcile_process:
  assumes run: "Reconcile_rollingUpdate (recording api) key (w, []) = (r, (w', log))" and loud: "\<not> list_all quietEvent log"
  obtains sts w1 pods w2 r' where "ra_getStatefulSet api key w = (Inr sts, w1)" "rollingUpdateEnabled sts"
    "ra_listPods api sts w1 = (Inr pods, w2)"
    "processRollingUpdate (recording api) (getStr (om_labels (ks_meta sts)) LabelInstanceKey) (ks_updateRevision sts) sts
       (filterOutdatedPods pods (ks_updateRevision sts)) (w2, []) = (r', (w', log))"
proof -
  obtain r1 w1 where g: "ra_getStatefulSet api key w = (r1, w1)" by fastforce
  have "log = []" if "r1 = Inl e" for e
    using run g that by (auto simp: Reconcile_rollingUpdate_def tryA_def unrecorded_def split: if_splits)
  then obtain sts where sts: "r1 = Inr sts" using loud by (cases r1) auto
  let ?cluster = "getStr (om_labels (ks_meta sts)) LabelInstanceKey"
  obtain r2 w2 where l: "ra_listPods api sts w1 = (r2, w2)" by fastforce
  have en: "rollingUpdateEnabled sts" "?cluster \<noteq> []"
    using run g sts loud by (auto simp: Reconcile_rollingUpdate_def tryA_def unrecorded_def Let_def split: if_splits)
  have "log = []" if "r2 = Inl e" for e
    using run g sts en l that
    by (auto simp: Reconcile_rollingUpdate_def tryA_def unrecorded_def bindA_def getPodList_def wrapA_def Let_def)
  then obtain pods where pods: "r2 = Inr pods" using loud by (cases r2) auto
  let ?process = "processRollingUpdate (recording api) ?cluster (ks_updateRevision sts) sts (filterOutdatedPods pods (ks_updateRevision sts))"
  let ?clean = "cleanupStaleRollingUpdateDrains (recording api) ?cluster sts pods"
  have "Reconcile_rollingUpdate (recording api) key (w, []) =
      (if ks_updatedReplicas sts = stsReplicas sts then bindA ?clean (\<lambda>n. ret (if 0 < n then 1 else 0)) (w2, [])
       else if ks_updateRevision sts = [] then (Inl (Errorf ''missing update revision on statefulset %s/%s'' [om_namespace (ks_meta sts), om_name (ks_meta sts)]), (w2, []))
       else bindA ?process (\<lambda>_. ret 60) (w2, []))"
    using g sts en l pods
    by (simp add: Reconcile_rollingUpdate_def tryA_def unrecorded_def bindA_def getPodList_def wrapA_def Let_def)
  note eq = this [unfolded run]
  have "keepsLog (list_all quietEvent) (bindA ?clean (\<lambda>n. ret (if 0 < n then 1 else 0)))"
    by (intro keepsLog keepsLog_cleanup)
  then have "list_all quietEvent log" if "bindA ?clean (\<lambda>n. ret (if 0 < n then 1 else 0)) (w2, []) = (r, (w', log))"
    using keepsLogD that by fastforce
  then have "bindA ?process (\<lambda>_. ret 60) (w2, []) = (r, (w', log))"
    using eq loud by (auto split: if_splits)
  then have "\<exists>r'. ?process (w2, []) = (r', (w', log))"
    by (cases "?process (w2, [])"; cases "fst (?process (w2, []))") (auto simp: bindA_def)
  then show thesis using that g l en sts pods by blast
qed

text \<open>
  C23: the controller deletes only outdated pods of an enabled StatefulSet, and a pod only for one of three
  reasons: its hand-over for the current operation is complete, its init container never got through, or
  Slurm reported its node as offline, not completing and with no CPU and no memory allocated.
\<close>

theorem Reconcile_rollingUpdate_deletes:
  assumes "Reconcile_rollingUpdate (recording api) key (w, []) = (r, (w', log))" "Deleted p \<in> set log"
  shows "\<exists>sts w1 pods w2. ra_getStatefulSet api key w = (Inr sts, w1) \<and> rollingUpdateEnabled sts
    \<and> ra_listPods api sts w1 = (Inr pods, w2) \<and> p \<in> set (filterOutdatedPods pods (ks_updateRevision sts))
    \<and> mayDelete (ks_updateRevision sts) log p"
proof -
  have "\<not> list_all quietEvent log" using assms(2) by (rule not_quiet)
  from Reconcile_process [OF assms(1) this] obtain sts w1 pods w2 r' where
    sts: "ra_getStatefulSet api key w = (Inr sts, w1)" "rollingUpdateEnabled sts" "ra_listPods api sts w1 = (Inr pods, w2)"
    and run: "processRollingUpdate (recording api) (getStr (om_labels (ks_meta sts)) LabelInstanceKey) (ks_updateRevision sts) sts
      (filterOutdatedPods pods (ks_updateRevision sts)) (w2, []) = (r', (w', log))" .
  have "deletesOk (ks_updateRevision sts) (filterOutdatedPods pods (ks_updateRevision sts)) log"
    by (rule keepsLogD [OF keepsLog_processRollingUpdate run]) (simp add: deletesOk_def)
  with assms(2) sts show ?thesis unfolding deletesOk_def by blast
qed

section \<open>Requesting reboots\<close>

definition slurmAction :: "Node list \<Rightarrow> workerPod list \<Rightarrow> string \<Rightarrow> workerPod \<Rightarrow> workerUpdateAction" where
  "slurmAction nodes pods op p = wd_action (decideWorkerUpdateAction p (the (map_of (indexSlurmNodesForPods nodes pods) (podName p))) op)"

definition usesBudget :: "workerUpdateAction \<Rightarrow> bool" where
  "usesBudget a \<longleftrightarrow> a = Undrain \<or> a = Delete \<or> a = TrackInFlight"

lemma index_cong: "set pods = set pods' \<Longrightarrow> indexSlurmNodesForPods nodes pods = indexSlurmNodesForPods nodes pods'"
proof -
  assume eq: "set pods = set pods'"
  have "set (fold (\<lambda>p. setAdd (podName p)) ps s) = podName ` set ps \<union> set s" for ps s
    by (induction ps arbitrary: s) (auto simp: go_map)
  with eq show ?thesis by (simp add: indexSlurmNodesForPods_def Let_def)
qed

lemma handlePods_result:
  assumes "forA (handlePod api c (indexSlurmNodesForPods nodes pods) op) ps (cs, k) v = (Inr (cs', k'), v')"
  shows "cs' = cs @ map (\<lambda>p. (p, the (map_of (indexSlurmNodesForPods nodes pods) (podName p)))) (filter (\<lambda>p. slurmAction nodes pods op p = ScheduleReboot) ps)
    \<and> k' = k + int (length (filter (\<lambda>p. podReady p \<and> usesBudget (slurmAction nodes pods op p)) ps))
    \<and> (\<forall>p \<in> set ps. map_of (indexSlurmNodesForPods nodes pods) (podName p) \<noteq> None)"
  using assms
proof (induction ps arbitrary: cs k v)
  case (Cons p ps)
  from Cons.prems obtain s v1 where one: "handlePod api c (indexSlurmNodesForPods nodes pods) op p (cs, k) v = (Inr s, v1)"
    and others: "forA (handlePod api c (indexSlurmNodesForPods nodes pods) op) ps s v1 = (Inr (cs', k'), v')"
    by (auto simp: bindA_success)
  obtain cs1 k1 where s: "s = (cs1, k1)" by fastforce
  note IH = Cons.IH [OF others [unfolded s]]
  from one obtain node where node: "map_of (indexSlurmNodesForPods nodes pods) (podName p) = Some node"
    by (auto simp: handlePod_def split: option.splits)
  have "cs1 = cs @ (if slurmAction nodes pods op p = ScheduleReboot then [(p, node)] else [])
      \<and> k1 = k + (if podReady p \<and> usesBudget (slurmAction nodes pods op p) then 1 else 0)"
    using one node
    by (cases "wd_action (decideWorkerUpdateAction p node op)")
      (auto simp: handlePod_def s slurmAction_def usesBudget_def bindA_success)
  then show ?case using IH node by auto
qed simp

lemma stopCandidates_result:
  assumes "stopCandidates api op slots cs names v = (Inr names', v')" "int (length names) \<le> slots"
  shows "names' = names @ map (\<lambda>c. n_Name (snd c)) (take (nat slots - length names) cs)"
  using assms
proof (induction cs arbitrary: names v)
  case (Cons c cs)
  obtain p node where c: "c = (p, node)" by fastforce
  show ?case
  proof (cases "slots \<le> int (length names)")
    case True
    then show ?thesis using Cons.prems by (simp add: c)
  next
    case False
    with Cons.prems obtain v1 where "stopCandidates api op slots cs (names @ [n_Name node]) v1 = (Inr names', v')"
      by (auto simp: c bindA_success)
    from Cons.IH [OF this] False have "names' = (names @ [n_Name node]) @ map (\<lambda>c. n_Name (snd c)) (take (nat slots - length (names @ [n_Name node])) cs)"
      by simp
    moreover have "nat slots - length names = Suc (nat slots - length (names @ [n_Name node]))" using False by simp
    ultimately show ?thesis by (simp add: c)
  qed
qed simp

definition noReboot :: "rollingEvent list \<Rightarrow> bool" where
  "noReboot log \<longleftrightarrow> (\<forall>req. Rebooted req \<notin> set log)"

lemma noReboot_snoc: "noReboot log \<Longrightarrow> (\<And>req. ev \<noteq> Rebooted req) \<Longrightarrow> noReboot (log @ [ev])"
  by (auto simp: noReboot_def)

text \<open>Before the request, the calls keep every property that events other than reboots cannot break.\<close>

lemma keepsLog_unrebooted:
  assumes I: "\<And>log ev. I log \<Longrightarrow> (\<And>req. ev \<noteq> Rebooted req) \<Longrightarrow> I (log @ [ev])"
  shows "keepsLog I (forA (handlePod (recording api) (recordingClient c) idx op) ps s)"
    and "keepsLog I (stopCandidates (recording api) op slots cs names)"
    and "keepsLog I (forA (deleteHandedOver (recording api) op) ps t)"
    and "keepsLog I (deletePod (recording api) msg p)"
proof -
  show del: "keepsLog I (deletePod (recording api) msg p)" for msg p
    by (intro keepsLog_deletePod I) auto
  have undrain: "keepsLog I (recorded (Undrained name) m)" for name and m :: "('a, unit) action"
    by (intro keepsLog_recorded I) auto
  show "keepsLog I (forA (handlePod (recording api) (recordingClient c) idx op) ps s)"
  proof (rule keepsLog_forA)
    fix p and t :: "(workerPod \<times> Node) list \<times> int"
    show "keepsLog I (handlePod (recording api) (recordingClient c) idx op p t)"
      by (cases t) (auto simp: handlePod_def intro!: keepsLog del undrain split: option.split workerUpdateAction.split)
  qed
  show "keepsLog I (stopCandidates (recording api) op slots cs names)"
    by (intro keepsLog_stopCandidates I) auto
  show "keepsLog I (forA (deleteHandedOver (recording api) op) ps t)"
  proof (rule keepsLog_forA)
    fix p and t :: "workerPod list \<times> nat"
    show "keepsLog I (deleteHandedOver (recording api) op p t)"
      by (cases t) (auto simp: deleteHandedOver_def intro!: keepsLog del)
  qed
qed

text \<open>The nodes that a run asks Slurm to reboot, given the nodes that Slurm listed.\<close>

definition slotsFor :: "'w rollingApi \<Rightarrow> kruiseStatefulSet \<Rightarrow> Node list \<Rightarrow> workerPod list \<Rightarrow> string \<Rightarrow> int" where
  "slotsFor api sts nodes pods op = rebootBudget api sts - unavailableReplicas sts
     - int (length (filter (\<lambda>p. podReady p \<and> usesBudget (slurmAction nodes pods op p)) pods))"

definition nodesToReboot :: "'w rollingApi \<Rightarrow> kruiseStatefulSet \<Rightarrow> Node list \<Rightarrow> workerPod list \<Rightarrow> string \<Rightarrow> string list" where
  "nodesToReboot api sts nodes pods op =
     take (nat (slotsFor api sts nodes pods op)) (map podName (filter (\<lambda>p. slurmAction nodes pods op p = ScheduleReboot) pods))"

text \<open>
  A run of this part ends in one of two ways: with the request as its last call, or without any request;
  in the latter case, if it succeeded, there was no slot or no candidate.
\<close>

definition requested :: "'w rollingApi \<Rightarrow> kruiseStatefulSet \<Rightarrow> workerPod list \<Rightarrow> string \<Rightarrow> rollingEvent list \<Rightarrow> Node list \<Rightarrow> bool" where
  "requested api sts stop op log nodes \<longleftrightarrow> (\<exists>req log1. Listed nodes \<in> set log1 \<and> noReboot log1 \<and> log = log1 @ [Rebooted req]
     \<and> nodesToReboot api sts nodes stop op \<noteq> [] \<and> rr_NodeList req = strJoin '','' (nodesToReboot api sts nodes stop op))"

lemma nodesToReboot_names:
  assumes "\<forall>p \<in> set stop. map_of (indexSlurmNodesForPods nodes stop) (podName p) \<noteq> None"
  shows "map (\<lambda>c. n_Name (snd c)) (take n (map (\<lambda>p. (p, the (map_of (indexSlurmNodesForPods nodes stop) (podName p)))) (filter P stop)))
    = take n (map podName (filter P stop))"
proof -
  have "n_Name (the (map_of (indexSlurmNodesForPods nodes stop) (podName p))) = podName p" if "p \<in> set stop" for p
    using assms that indexSlurmNodes_facts [of nodes stop "podName p"] by fastforce
  then show ?thesis by (auto simp: take_map dest: in_set_takeD)
qed

lemma rebootListed_stages:
  assumes loop: "forA (handlePod (recording api) (recordingClient c) (indexSlurmNodesForPods nodes stop) op) stop ([], 0) (w1, log1) = (Inr (cs, k), (w2, log2))"
    and log1: "noReboot log1" "Listed nodes \<in> set log1"
    and run: "(let slots = rebootBudget (recording api) sts - unavailableReplicas sts - k in
      if slots \<le> 0 then ret ()
      else bindA (stopCandidates (recording api) op slots cs []) (\<lambda>names. if names = [] then ret ()
        else wrapA msg [] (recorded (Rebooted (mk names)) (m names)))) (w2, log2) = (r, (w', log))"
    and mk: "\<And>names. rr_NodeList (mk names) = strJoin '','' names"
  shows "requested api sts stop op log nodes \<or> noReboot log \<and> (r = Inr () \<longrightarrow> nodesToReboot api sts nodes stop op = [])"
proof -
  let ?I = "\<lambda>log. noReboot log \<and> Listed nodes \<in> set log"
  have I: "?I log \<Longrightarrow> (\<And>req. ev \<noteq> Rebooted req) \<Longrightarrow> ?I (log @ [ev])" for log ev by (auto intro: noReboot_snoc)
  have log2: "?I log2" using keepsLogD [OF keepsLog_unrebooted(1) [where I = ?I, OF I] loop] log1 by blast
  note res = handlePods_result [OF loop]
  let ?slots = "slotsFor api sts nodes stop op"
  have slots: "rebootBudget (recording api) sts - unavailableReplicas sts - k = ?slots" using res by (simp add: slotsFor_def)
  show ?thesis
  proof (cases "?slots \<le> 0")
    case True
    then show ?thesis using run slots log2 by (simp add: nodesToReboot_def)
  next
    case False
    obtain r3 w3 log3 where s: "stopCandidates (recording api) op ?slots cs [] (w2, log2) = (r3, (w3, log3))" by (metis prod.collapse)
    have log3: "?I log3" using keepsLogD [OF keepsLog_unrebooted(2) [where I = ?I, OF I] s] log2 by blast
    show ?thesis
    proof (cases r3)
      case (Inl e)
      then show ?thesis using run slots False s log3 by (auto simp: bindA_def)
    next
      case (Inr names)
      have names: "names = nodesToReboot api sts nodes stop op"
        using stopCandidates_result [OF s [unfolded Inr]] False res nodesToReboot_names [of stop nodes]
        by (simp add: nodesToReboot_def)
      show ?thesis
      proof (cases "names = []")
        case True
        then show ?thesis using run slots False s Inr log3 names by (simp add: bindA_def)
      next
        case nonempty: False
        have "log = log3 @ [Rebooted (mk names)]"
          using run slots False s Inr nonempty
          by (cases "m names w3"; cases "fst (m names w3)") (auto simp: bindA_def wrapA_def recorded_def)
        then have "requested api sts stop op log nodes"
          using log3 nonempty names mk unfolding requested_def by auto
        then show ?thesis ..
      qed
    qed
  qed
qed

lemma rebootOutdated_stages:
  assumes run: "rebootOutdated (recording api) cluster op sts stop (w, log0) = (r, (w', log))" and quiet: "noReboot log0"
  shows "(\<exists>nodes. requested api sts stop op log nodes)
    \<or> noReboot log \<and> (\<forall>c nodes w1. ra_slurmClient api (om_namespace (ks_meta sts), cluster) = Some c \<longrightarrow> sl_ListNodes c w = (Inr nodes, w1)
        \<longrightarrow> r = Inr () \<longrightarrow> nodesToReboot api sts nodes stop op = [])"
proof (cases "ra_slurmClient api (om_namespace (ks_meta sts), cluster)")
  case None
  then show ?thesis using run quiet by (simp add: rebootOutdated_def)
next
  case (Some c)
  obtain r1 w1 where l: "sl_ListNodes c w = (r1, w1)" by fastforce
  show ?thesis
  proof (cases r1)
    case (Inl e)
    then show ?thesis using run Some l quiet by (simp add: rebootOutdated_def recordedList_def bindA_def)
  next
    case (Inr nodes)
    let ?loop = "forA (handlePod (recording api) (recordingClient c) (indexSlurmNodesForPods nodes stop) op) stop ([], 0)"
    let ?log1 = "log0 @ [Listed nodes]"
    obtain r2 w2 log2 where h: "?loop (w1, ?log1) = (r2, (w2, log2))" by (metis prod.collapse)
    have log1: "noReboot ?log1" "Listed nodes \<in> set ?log1" using quiet by (auto intro: noReboot_snoc)
    show ?thesis
    proof (cases r2)
      case err: (Inl e)
      have "noReboot log2" using keepsLogD [OF keepsLog_unrebooted(1) [where I = noReboot] h log1(1)] noReboot_snoc by blast
      then show ?thesis using run Some l h Inr err by (auto simp: rebootOutdated_def recordedList_def bindA_def)
    next
      case ok: (Inr s)
      obtain cs k where s: "s = (cs, k)" by fastforce
      have list: "recordedList (sl_ListNodes c) (w, log0) = (Inr nodes, (w1, ?log1))" by (simp add: recordedList_def l Inr)
      let ?mk = "\<lambda>names. \<lparr>rr_NodeList = strJoin '','' names, rr_ASAP = True, rr_Force = False, rr_NextState = [], rr_Reason = defaultRebootReason, rr_PowerAction = SlurmPowerActionWorkerHandoff\<rparr>"
      have "requested api sts stop op log nodes \<or> noReboot log \<and> (r = Inr () \<longrightarrow> nodesToReboot api sts nodes stop op = [])"
      proof (rule rebootListed_stages [OF h [unfolded ok s] log1, where mk = ?mk and m = "\<lambda>names. sl_RebootNodes c (?mk names)"])
        show "(let slots = rebootBudget (recording api) sts - unavailableReplicas sts - k in
            if slots \<le> 0 then ret ()
            else bindA (stopCandidates (recording api) op slots cs []) (\<lambda>names. if names = [] then ret ()
              else wrapA ''schedule slurm reboot through rest api: %w'' [] (recorded (Rebooted (?mk names)) (sl_RebootNodes c (?mk names))))) (w2, log2) = (r, (w', log))"
          using run unfolding rebootOutdated_def recording_simps Some option.map option.case
            bindA_Inr [where m = "recordedList (sl_ListNodes c)", OF list] bindA_Inr [where m = ?loop, OF h [unfolded ok s]] prod.case .
      qed simp
      then show ?thesis using Some l Inr by auto
    qed
  qed
qed

lemma deleteHandedOver_result:
  assumes "forA (deleteHandedOver api op) ps (acc, m) v = (Inr (stop, n), v')"
  shows "m \<le> n \<and> (n = m \<longrightarrow> stop = acc @ ps \<and> v' = v)"
  using assms
proof (induction ps arbitrary: acc m v)
  case (Cons p ps)
  then obtain acc1 m1 v1 where one: "deleteHandedOver api op p (acc, m) v = (Inr (acc1, m1), v1)"
    and others: "forA (deleteHandedOver api op) ps (acc1, m1) v1 = (Inr (stop, n), v')"
    by (auto simp: bindA_success)
  have "acc1 = acc @ [p] \<and> m1 = m \<and> v1 = v \<or> m1 = m + 1"
    using one by (auto simp: deleteHandedOver_def bindA_success split: if_splits)
  then show ?case using Cons.IH [OF others] by auto
qed simp

lemma deleteHandedOver_skip:
  assumes "\<forall>p \<in> set ps. workerOperationPhase p op \<noteq> LabelSoperatorWorkerOperationPhaseReady"
  shows "forA (deleteHandedOver api op) ps (acc, m) v = (Inr (acc @ ps, m), v)"
  using assms by (induction ps arbitrary: acc) (simp_all add: deleteHandedOver_def bindA_def)

lemma processRollingUpdate_reboots:
  assumes run: "processRollingUpdate (recording api) cluster op sts pods (w, []) = (r, (w', log))" and loud: "\<not> noReboot log"
  shows "\<exists>nodes. requested api sts (sort_key podName pods) op log nodes"
proof -
  let ?ps = "sort_key podName pods"
  let ?loop = "forA (deleteHandedOver (recording api) op) ?ps ([], 0)"
  have pods: "pods \<noteq> []" using run loud by (auto simp: processRollingUpdate_def noReboot_def)
  obtain r1 w1 log1 where l: "?loop (w, []) = (r1, (w1, log1))" by (metis prod.collapse)
  have log1: "noReboot log1"
    using keepsLogD [OF keepsLog_unrebooted(3) [where I = noReboot] l] noReboot_snoc by (simp add: noReboot_def)
  have "r1 \<noteq> Inl e" for e using run pods l log1 loud by (auto simp: processRollingUpdate_def bindA_def)
  then obtain stop n where s: "r1 = Inr (stop, n)" by (cases r1) auto
  let ?crash = "find (\<lambda>p. containerCrashLoopBackOff (wp_initContainerStatuses p) ContainerNameWorkerInit) stop"
  let ?rest = "if 0 < n then ret () else case ?crash of
      Some p \<Rightarrow> deletePod (recording api) ''delete outdated pod %s/%s with crash-looping worker init: %w'' p
    | None \<Rightarrow> rebootOutdated (recording api) cluster op sts stop"
  have rest: "?rest (w1, log1) = (r, (w', log))"
    using run pods l s by (simp add: processRollingUpdate_def bindA_def)
  have "n = 0" using rest loud log1 by (cases "n = 0") auto
  with deleteHandedOver_result [OF l [unfolded s]] have stop: "stop = ?ps" "w1 = w" "log1 = []" by auto
  have "?crash = None"
  proof (rule ccontr)
    assume "?crash \<noteq> None"
    then obtain p msg where "deletePod (recording api) msg p (w1, log1) = (r, (w', log))" using rest \<open>n = 0\<close> by auto
    from keepsLogD [OF keepsLog_unrebooted(4) [where I = noReboot] this log1] show False using loud noReboot_snoc by blast
  qed
  then have "rebootOutdated (recording api) cluster op sts ?ps (w, []) = (r, (w', log))" using rest \<open>n = 0\<close> stop by simp
  from rebootOutdated_stages [OF this] loud show ?thesis by (auto simp: noReboot_def)
qed

lemma rebootBudget_le: "0 < rebootBudget api sts \<Longrightarrow> rebootBudget api sts \<le> stsReplicas sts"
  by (auto simp: rebootBudget_def Let_def split: if_splits option.splits)

text \<open>
  C24: a reboot is requested only within the budget: the nodes of the request, the replicas that are
  unavailable and the ready pods whose replacement is already under way together do not exceed the
  budget, nor the number of replicas; and every node of the request belongs to an outdated pod for which
  no reboot, undrain or deletion is under way.
\<close>

theorem Reconcile_rollingUpdate_budget:
  assumes "Reconcile_rollingUpdate (recording api) key (w, []) = (r, (w', log))" "Rebooted req \<in> set log"
  shows "\<exists>sts w1 pods w2 nodes names. ra_getStatefulSet api key w = (Inr sts, w1) \<and> rollingUpdateEnabled sts
    \<and> ra_listPods api sts w1 = (Inr pods, w2) \<and> Listed nodes \<in> set log \<and> rr_NodeList req = strJoin '','' names \<and> names \<noteq> []
    \<and> (let op = ks_updateRevision sts; outdated = sort_key podName (filterOutdatedPods pods op); act = slurmAction nodes outdated op
       in set names \<subseteq> podName ` {p \<in> set outdated. act p = ScheduleReboot}
        \<and> int (length names) + unavailableReplicas sts + int (length (filter (\<lambda>p. podReady p \<and> usesBudget (act p)) outdated)) \<le> rebootBudget api sts
        \<and> rebootBudget api sts \<le> stsReplicas sts)"
proof -
  obtain sts w1 pods w2 r' where
    sts: "ra_getStatefulSet api key w = (Inr sts, w1)" "rollingUpdateEnabled sts" "ra_listPods api sts w1 = (Inr pods, w2)"
    and run: "processRollingUpdate (recording api) (getStr (om_labels (ks_meta sts)) LabelInstanceKey) (ks_updateRevision sts) sts
      (filterOutdatedPods pods (ks_updateRevision sts)) (w2, []) = (r', (w', log))"
    using Reconcile_process [OF assms(1) not_quiet(2) [OF assms(2)]] by metis
  let ?op = "ks_updateRevision sts"
  let ?ps = "sort_key podName (filterOutdatedPods pods ?op)"
  have "\<not> noReboot log" using assms(2) by (auto simp: noReboot_def)
  from processRollingUpdate_reboots [OF run this] obtain nodes req' log1 where q: "Listed nodes \<in> set log1" "noReboot log1"
    "log = log1 @ [Rebooted req']" "nodesToReboot api sts nodes ?ps ?op \<noteq> []" "rr_NodeList req' = strJoin '','' (nodesToReboot api sts nodes ?ps ?op)"
    unfolding requested_def by blast
  have req: "req' = req" using assms(2) q(2,3) by (auto simp: noReboot_def)
  let ?names = "nodesToReboot api sts nodes ?ps ?op"
  have len: "int (length ?names) \<le> slotsFor api sts nodes ?ps ?op" using q(4) by (auto simp: nodesToReboot_def)
  then have "0 < rebootBudget api sts"
    using q(4) by (auto simp: slotsFor_def unavailableReplicas_def Let_def nodesToReboot_def split: if_splits)
  moreover have "set ?names \<subseteq> podName ` {p \<in> set ?ps. slurmAction nodes ?ps ?op p = ScheduleReboot}"
    by (auto simp: nodesToReboot_def dest!: in_set_takeD)
  ultimately show ?thesis
    using sts q req len rebootBudget_le [of api sts]
    by (intro exI [of _ sts] exI [of _ w1] exI [of _ pods] exI [of _ w2] exI [of _ nodes] exI [of _ ?names]) (auto simp: Let_def slotsFor_def)
qed

text \<open>
  C25: the update makes progress: when no hand-over is complete and no init container is crash looping, a
  run that succeeds with a free slot and a candidate has requested a reboot.
\<close>

theorem processRollingUpdate_progress:
  assumes run: "processRollingUpdate (recording api) cluster op sts pods (w, []) = (Inr (), (w', log))"
    and none: "\<forall>p \<in> set pods. workerOperationPhase p op \<noteq> LabelSoperatorWorkerOperationPhaseReady
        \<and> \<not> containerCrashLoopBackOff (wp_initContainerStatuses p) ContainerNameWorkerInit"
    and slurm: "ra_slurmClient api (om_namespace (ks_meta sts), cluster) = Some c" "sl_ListNodes c w = (Inr nodes, w1)"
    and slot: "0 < slotsFor api sts nodes (sort_key podName pods) op"
    and candidate: "p \<in> set pods" "slurmAction nodes (sort_key podName pods) op p = ScheduleReboot"
  shows "\<exists>req. Rebooted req \<in> set log"
proof -
  let ?ps = "sort_key podName pods"
  have "forA (deleteHandedOver (recording api) op) ?ps ([], 0) (w, []) = (Inr (?ps, 0), (w, []))"
    using none deleteHandedOver_skip [of ?ps op "recording api" "[]" 0] by simp
  moreover have "find (\<lambda>p. containerCrashLoopBackOff (wp_initContainerStatuses p) ContainerNameWorkerInit) ?ps = None"
    using none by (simp add: find_None_iff)
  moreover have "pods \<noteq> []" using candidate(1) by auto
  ultimately have "rebootOutdated (recording api) cluster op sts ?ps (w, []) = (Inr (), (w', log))"
    using run by (simp add: processRollingUpdate_def bindA_def)
  moreover have "nodesToReboot api sts nodes ?ps op \<noteq> []"
    using slot candidate by (auto simp: nodesToReboot_def filter_empty_conv)
  ultimately have "\<exists>nodes. requested api sts ?ps op log nodes"
    using rebootOutdated_stages [of api cluster op sts ?ps w "[]" "Inr ()" w' log] slurm by (auto simp: noReboot_def)
  then show ?thesis by (auto simp: requested_def)
qed

section \<open>An example\<close>

text \<open>
  A StatefulSet with three replicas, two of them outdated: the node of the first is down with nothing
  allocated while its slurmd is crash looping, the node of the second is idle.
\<close>

definition examplePod :: "string \<Rightarrow> string \<Rightarrow> bool \<Rightarrow> workerPod" where
  "examplePod name revision crash = \<lparr>pod_meta = (newMeta ''ns'' name)\<lparr>om_labels := [(revisionLabel, revision)]\<rparr>, pod_nodeName = [],
     wp_conditions = [(''Ready'', ''True'')], wp_initContainerStatuses = [],
     wp_containerStatuses = [(''slurmd'', if crash then Some ''CrashLoopBackOff'' else None)]\<rparr>"

definition exampleNode :: "string \<Rightarrow> V0044NodeState \<Rightarrow> Node" where
  "exampleNode name state = \<lparr>n_Name = name, n_ClusterName = ''c'', n_InstanceID = ''i'', n_States = [state], n_Reason = None,
     n_Partitions = [], n_Tres = [], n_Address = [], n_BootTime = None, n_Comment = [], n_Reservation = [], n_CPUs = Some 8,
     n_AllocCPUs = Some 0, n_AllocIdleCPUs = Some 8, n_EffectiveCPUs = Some 8, n_AllocMemoryMB = Some 0, n_RealMemoryMB = Some 64,
     n_FreeMemoryMB = Some 64, n_SpecializedMemoryMB = None\<rparr>"

definition exampleSts :: kruiseStatefulSet where
  "exampleSts = \<lparr>ks_meta = (newMeta ''ns'' ''w'')\<lparr>om_labels := [(LabelInstanceKey, ''c''), (LabelSoperatorRollingUpdateEnabled, ''true'')]\<rparr>,
     ks_replicas = Some 3, ks_updateStrategyType = ''OnDelete'', ks_maxUnavailable = Some (IntVal 2),
     ks_updatedReplicas = 1, ks_readyReplicas = 3, ks_updateRevision = ''v2''\<rparr>"

definition exampleSlurm :: "unit slurmClient" where
  "exampleSlurm = \<lparr>sl_ListNodes = ret [exampleNode ''w-0'' StateDOWN, exampleNode ''w-1'' StateIDLE, exampleNode ''w-2'' StateIDLE],
     sl_UndrainNode = (\<lambda>_. ret ()), sl_RebootNodes = (\<lambda>_. ret ())\<rparr>"

definition exampleRolling :: "unit rollingApi" where
  "exampleRolling = \<lparr>ra_getStatefulSet = (\<lambda>_. ret exampleSts),
     ra_listPods = (\<lambda>_. ret [examplePod ''w-1'' ''v1'' False, examplePod ''w-0'' ''v1'' True, examplePod ''w-2'' ''v2'' False]),
     ra_deletePod = (\<lambda>_. ret ()), ra_patchPod = (\<lambda>_. ret ()), ra_slurmClient = (\<lambda>_. Some exampleSlurm),
     ra_scaledValue = (\<lambda>v n. case v of IntVal i \<Rightarrow> Some i | StrVal s \<Rightarrow> None)\<rparr>"

definition exampleLog :: "rollingEvent list" where
  "exampleLog = [Listed [exampleNode ''w-0'' StateDOWN, exampleNode ''w-1'' StateIDLE, exampleNode ''w-2'' StateIDLE],
     Deleted (examplePod ''w-0'' ''v1'' True), Patched (stoppingPod (examplePod ''w-1'' ''v1'' False) ''v2''),
     Rebooted \<lparr>rr_NodeList = ''w-1'', rr_ASAP = True, rr_Force = False, rr_NextState = [], rr_Reason = defaultRebootReason, rr_PowerAction = SlurmPowerActionWorkerHandoff\<rparr>]"

lemma exampleRolling_run: "Reconcile_rollingUpdate (recording exampleRolling) (''ns'', ''w'') ((), []) = (Inr 60, ((), exampleLog))"
  by code_simp

theorem Reconcile_rollingUpdate_deletes_witness:
  "\<exists>sts w1 pods w2. ra_getStatefulSet exampleRolling (''ns'', ''w'') () = (Inr sts, w1) \<and> rollingUpdateEnabled sts
    \<and> ra_listPods exampleRolling sts w1 = (Inr pods, w2) \<and> examplePod ''w-0'' ''v1'' True \<in> set (filterOutdatedPods pods (ks_updateRevision sts))
    \<and> mayDelete (ks_updateRevision sts) exampleLog (examplePod ''w-0'' ''v1'' True)"
  by (rule Reconcile_rollingUpdate_deletes [OF exampleRolling_run]) (simp add: exampleLog_def)

theorem Reconcile_rollingUpdate_budget_witness:
  "\<exists>sts nodes names. Listed nodes \<in> set exampleLog \<and> ''w-1'' = strJoin '','' names \<and> names \<noteq> []
    \<and> int (length names) + unavailableReplicas sts \<le> rebootBudget exampleRolling sts \<and> rebootBudget exampleRolling sts \<le> stsReplicas sts"
proof -
  let ?req = "\<lparr>rr_NodeList = ''w-1'', rr_ASAP = True, rr_Force = False, rr_NextState = [], rr_Reason = defaultRebootReason, rr_PowerAction = SlurmPowerActionWorkerHandoff\<rparr>"
  have "Rebooted ?req \<in> set exampleLog" by (simp add: exampleLog_def)
  from Reconcile_rollingUpdate_budget [OF exampleRolling_run this] obtain sts pods nodes names where
    "Listed nodes \<in> set exampleLog" "rr_NodeList ?req = strJoin '','' names" "names \<noteq> []"
    "int (length names) + unavailableReplicas sts + int (length (filter (\<lambda>p. podReady p \<and> usesBudget (slurmAction nodes (sort_key podName (filterOutdatedPods pods (ks_updateRevision sts))) (ks_updateRevision sts) p)) (sort_key podName (filterOutdatedPods pods (ks_updateRevision sts))))) \<le> rebootBudget exampleRolling sts"
    "rebootBudget exampleRolling sts \<le> stsReplicas sts"
    unfolding Let_def by blast
  then show ?thesis by (intro exI [of _ sts] exI [of _ nodes] exI [of _ names]) auto
qed

theorem processRollingUpdate_progress_witness:
  "\<exists>req. Rebooted req \<in> set (snd (snd (processRollingUpdate (recording exampleRolling) ''c'' ''v2'' exampleSts
     [examplePod ''w-1'' ''v1'' False, examplePod ''w-0'' ''v1'' True] ((), []))))"
proof -
  let ?pods = "[examplePod ''w-1'' ''v1'' False, examplePod ''w-0'' ''v1'' True]"
  let ?nodes = "[exampleNode ''w-0'' StateDOWN, exampleNode ''w-1'' StateIDLE, exampleNode ''w-2'' StateIDLE]"
  have run: "processRollingUpdate (recording exampleRolling) ''c'' ''v2'' exampleSts ?pods ((), []) = (Inr (), ((), exampleLog))" by code_simp
  have "\<forall>p \<in> set ?pods. workerOperationPhase p ''v2'' \<noteq> LabelSoperatorWorkerOperationPhaseReady
      \<and> \<not> containerCrashLoopBackOff (wp_initContainerStatuses p) ContainerNameWorkerInit" by code_simp
  moreover have "ra_slurmClient exampleRolling (om_namespace (ks_meta exampleSts), ''c'') = Some exampleSlurm"
    "sl_ListNodes exampleSlurm () = (Inr ?nodes, ())" by (simp_all add: exampleRolling_def exampleSlurm_def)
  moreover have "0 < slotsFor exampleRolling exampleSts ?nodes (sort_key podName ?pods) ''v2''" by code_simp
  moreover have "examplePod ''w-1'' ''v1'' False \<in> set ?pods" by simp
  moreover have "slurmAction ?nodes (sort_key podName ?pods) ''v2'' (examplePod ''w-1'' ''v1'' False) = ScheduleReboot" by code_simp
  ultimately have "\<exists>req. Rebooted req \<in> set exampleLog" by (rule processRollingUpdate_progress [OF run])
  with run show ?thesis by simp
qed

end
