(* ===== verification/Rebooter.thy ===== *)
theory Rebooter
  imports Kube_Client
begin

text \<open>
  The rebooter, internal/rebooter/reconcile.go: the agent on every node that drains it and reboots it when
  its conditions ask for that, and cleans up after the reboot.

  Parameters (record \<open>rebooterApi\<close>) are the Kubernetes calls on the node, client-go's retry, the raw
  answer of the node proxy and its decoder, the clock, the uptime and the reboot command. A patch answers with the
  node as the server has it, which the client writes back into the object. The Go code updates the node
  through a pointer; here the functions return the updated node. The process exit after a failed uptime
  query is a panic. Times are nanoseconds; the heartbeat time of a
  condition, which no code reads, is left out.

  The function that sets a condition keeps a local condition object across the runs of its retry loop; the
  retry is therefore a parameter on worlds paired with that object.
\<close>

section \<open>Data\<close>

record nodeCondition =
  nc_Type :: string
  nc_Status :: string
  nc_Reason :: string
  nc_Message :: string
  nc_LastTransitionTime :: int

record taint =
  t_Key :: string
  t_Value :: string
  t_Effect :: string

record rnode =
  rn_name :: string
  rn_unschedulable :: bool
  rn_taints :: "taint list"
  rn_conditions :: "nodeCondition list"

record toleration =
  to_Operator :: string
  to_Effect :: string

record nodePod =
  np_name :: string
  np_ownerKinds :: "string list"
  np_tolerations :: "toleration list"

datatype RebooterMethod = RebooterEvict | RebooterDrain | OtherMethod string

record NodeActions =
  Reboot :: bool
  Drain :: bool

record ('w, 'raw) rebooterApi =
  rb_getCached :: "string \<Rightarrow> ('w, rnode) action"
  rb_getLatest :: "string \<Rightarrow> ('w, rnode) action"
  rb_patchSpec :: "rnode \<Rightarrow> rnode \<Rightarrow> ('w, rnode) action"
  rb_patchStatus :: "rnode \<Rightarrow> rnode \<Rightarrow> ('w, rnode) action"
  rb_retrySpec :: "('w, rnode) action \<Rightarrow> ('w, rnode) action"
  rb_retryStatus :: "('w \<times> nodeCondition, rnode) action \<Rightarrow> ('w \<times> nodeCondition, rnode) action"
  rb_proxyPods :: "string \<Rightarrow> ('w, 'raw) action"
  rb_decodePods :: "'raw \<Rightarrow> goError + nodePod list"
  rb_now :: "('w, int) action"
  rb_uptime :: "('w, int) action"
  rb_newCommandRebooter :: "('w, unit) action"
  rb_reboot :: "('w, unit) action"

record rebooter =
  r_nodeName :: string
  r_reconcileTimeout :: int
  r_evictionMethod :: RebooterMethod

definition SlurmNodeDrain :: string where "SlurmNodeDrain = ''SlurmNodeDrain''"
definition SlurmNodeReboot :: string where "SlurmNodeReboot = ''SlurmNodeReboot''"
definition ReasonNodeDraining :: string where "ReasonNodeDraining = ''NodeDraining''"
definition ReasonNodeDrained :: string where "ReasonNodeDrained = ''NodeDrained''"
definition ReasonNodeUndrained :: string where "ReasonNodeUndrained = ''NodeUndrained''"
definition ReasonNodeRebooting :: string where "ReasonNodeRebooting = ''NodeRebooting''"
definition ReasonNodeRebooted :: string where "ReasonNodeRebooted = ''NodeRebooted''"
definition MessageDraining :: string where "MessageDraining = ''Node is draining''"
definition MessageDrained :: string where "MessageDrained = ''Node has been drained''"
definition MessageUndrained :: string where "MessageUndrained = ''Node has been undrained''"
definition MessageRebooting :: string where "MessageRebooting = ''Node is rebooting''"
definition MessageRebooted :: string where "MessageRebooted = ''Node has been rebooted''"
definition ConditionTrue :: string where "ConditionTrue = ''True''"
definition ConditionFalse :: string where "ConditionFalse = ''False''"

text \<open>PodNotEvictableError, and errors.As for it.\<close>

definition PodNotEvictableError :: "string \<Rightarrow> goError" where
  "PodNotEvictableError name = Errorf ''pod %s is not evictable'' [name]"

fun isPodNotEvictable :: "goError \<Rightarrow> bool" where
  "isPodNotEvictable (Errorf f as) = (f = ''pod %s is not evictable'')"
| "isPodNotEvictable (Wrapf f as e) = isPodNotEvictable e"
| "isPodNotEvictable (JoinErr e e') = (isPodNotEvictable e \<or> isPodNotEvictable e')"
| "isPodNotEvictable (ApiError r) = False"
| "isPodNotEvictable (OsError n) = False"
| "isPodNotEvictable DeadlineExceeded = False"
| "isPodNotEvictable (GoPanic m) = False"
| "isPodNotEvictable NoReturn = False"

section \<open>Conditions\<close>

definition GetNodeConditions :: "rnode \<Rightarrow> string \<Rightarrow> nodeCondition option" where
  "GetNodeConditions node conditionType = find (\<lambda>c. nc_Type c = conditionType) (rn_conditions node)"

definition CheckNodeCondition :: "nodeCondition \<Rightarrow> string \<Rightarrow> string \<Rightarrow> bool" where
  "CheckNodeCondition c conditionType conditionStatus \<longleftrightarrow> nc_Type c = conditionType \<and> nc_Status c = conditionStatus"

definition checkIfNodeNeedsDrain :: "nodeCondition \<Rightarrow> bool" where
  "checkIfNodeNeedsDrain c = CheckNodeCondition c SlurmNodeDrain ConditionTrue"

definition checkIfNodeNeedsReboot :: "nodeCondition \<Rightarrow> bool" where
  "checkIfNodeNeedsReboot c = (if nc_Reason c = ReasonNodeRebooted then False else CheckNodeCondition c SlurmNodeReboot ConditionTrue)"

definition IsUptimeGreaterThanLastTransition :: "('w, 'raw) rebooterApi \<Rightarrow> int \<Rightarrow> ('w, bool) action" where
  "IsUptimeGreaterThanLastTransition api lastTransitionTime =
     tryA (rb_uptime api) (\<lambda>r. case r of
       Inl err \<Rightarrow> raise (GoPanic ''os.Exit(1)'')
     | Inr uptimeDuration \<Rightarrow> bindA (rb_now api) (\<lambda>now. ret (now - uptimeDuration < lastTransitionTime)))"

definition patchNodeStatusOnce ::
    "('w, 'raw) rebooterApi \<Rightarrow> string \<Rightarrow> (rnode \<Rightarrow> 'l \<Rightarrow> bool \<times> rnode \<times> 'l) \<Rightarrow> ('w \<times> 'l, rnode) action" where
  "patchNodeStatusOnce api name mutate =
     bindA (wrapA ''get latest node %s: %w'' [name] (withLocal (rb_getLatest api name))) (\<lambda>currentNode (w, l).
       case mutate currentNode l of (changed, modified, l') \<Rightarrow>
         if \<not> changed then (Inr modified, (w, l'))
         else wrapA ''patch object status: %w'' [] (withLocal (rb_patchStatus api currentNode modified)) (w, l'))"

definition setCondition :: "rnode \<Rightarrow> nodeCondition \<Rightarrow> bool \<times> rnode \<times> nodeCondition" where
  "setCondition currentNode new =
     (case find (\<lambda>(i, c). nc_Type c = nc_Type new) (enumerate 0 (rn_conditions currentNode)) of
        Some (i, c) \<Rightarrow>
          let new' = (if nc_Status c = nc_Status new \<and> nc_Reason c = nc_Reason new
                      then new\<lparr>nc_LastTransitionTime := nc_LastTransitionTime c\<rparr> else new)
          in (True, currentNode\<lparr>rn_conditions := (rn_conditions currentNode)[i := new']\<rparr>, new')
      | None \<Rightarrow> (True, currentNode\<lparr>rn_conditions := rn_conditions currentNode @ [new]\<rparr>, new))"

definition SetNodeConditionIfNotExists ::
    "('w, 'raw) rebooterApi \<Rightarrow> rnode \<Rightarrow> string \<Rightarrow> string \<Rightarrow> string \<Rightarrow> string \<Rightarrow> ('w, rnode) action" where
  "SetNodeConditionIfNotExists api node conditionType status reason message =
     bindA (rb_now api) (\<lambda>now w.
       case rb_retryStatus api (patchNodeStatusOnce api (rn_name node) setCondition)
              (w, \<lparr>nc_Type = conditionType, nc_Status = status, nc_Reason = reason, nc_Message = message, nc_LastTransitionTime = now\<rparr>) of
         (r, (w', l)) \<Rightarrow> (r, w'))"

definition setNodeCondition :: "('w, 'raw) rebooterApi \<Rightarrow> rebooter \<Rightarrow> rnode \<Rightarrow> string \<Rightarrow> string \<Rightarrow> string \<Rightarrow> string \<Rightarrow> ('w, rnode) action" where
  "setNodeCondition api r node conditionType status reason message =
     wrapA ''set node condition for node %s: %w'' [r_nodeName r] (SetNodeConditionIfNotExists api node conditionType status reason message)"

section \<open>Draining\<close>

definition patchNodeSpecOnce :: "('w, 'raw) rebooterApi \<Rightarrow> string \<Rightarrow> (rnode \<Rightarrow> bool \<times> rnode) \<Rightarrow> ('w, rnode) action" where
  "patchNodeSpecOnce api name mutate =
     bindA (wrapA ''get latest node %s: %w'' [name] (rb_getLatest api name)) (\<lambda>currentNode.
       case mutate currentNode of (changed, modified) \<Rightarrow>
         if \<not> changed then ret modified
         else wrapA ''patch object: %w'' [] (rb_patchSpec api currentNode modified))"

definition patchNodeSpecWithRetry :: "('w, 'raw) rebooterApi \<Rightarrow> rnode \<Rightarrow> (rnode \<Rightarrow> bool \<times> rnode) \<Rightarrow> ('w, rnode) action" where
  "patchNodeSpecWithRetry api node mutate = rb_retrySpec api (patchNodeSpecOnce api (rn_name node) mutate)"

definition IsNodeUnschedulabled :: "rnode \<Rightarrow> bool" where
  "IsNodeUnschedulabled node = rn_unschedulable node"

definition mutateUnschedulable :: "bool \<Rightarrow> rnode \<Rightarrow> bool \<times> rnode" where
  "mutateUnschedulable unschedulable currentNode =
     (if rn_unschedulable currentNode = unschedulable then (False, currentNode)
      else (True, currentNode\<lparr>rn_unschedulable := unschedulable\<rparr>))"

definition SetNodeUnschedulable :: "('w, 'raw) rebooterApi \<Rightarrow> rnode \<Rightarrow> bool \<Rightarrow> ('w, rnode) action" where
  "SetNodeUnschedulable api node unschedulable =
     wrapA ''failed to update node %s to  is %v: %w'' [rn_name node, if unschedulable then ''true'' else ''false'']
       (patchNodeSpecWithRetry api node (mutateUnschedulable unschedulable))"

definition noExecuteKey :: string where "noExecuteKey = ''node.kubernetes.io/NoExecute''"

definition TaintEffectNoExecute :: string where "TaintEffectNoExecute = ''NoExecute''"

definition IsNodeTaintedWithNoExecute :: "rnode \<Rightarrow> bool" where
  "IsNodeTaintedWithNoExecute node = list_ex (\<lambda>t. t_Key t = noExecuteKey) (rn_taints node)"

definition mutateTaint :: "bool \<Rightarrow> rnode \<Rightarrow> bool \<times> rnode" where
  "mutateTaint addTaint currentNode =
     (let taint = \<lparr>t_Key = noExecuteKey, t_Value = ''true'', t_Effect = TaintEffectNoExecute\<rparr> in
      if addTaint then
        if IsNodeTaintedWithNoExecute currentNode then (False, currentNode)
        else (True, currentNode\<lparr>rn_taints := rn_taints currentNode @ [taint]\<rparr>)
      else
        let newTaints = filter (\<lambda>t. t_Key t \<noteq> t_Key taint \<or> t_Effect t \<noteq> t_Effect taint) (rn_taints currentNode) in
        if length newTaints = length (rn_taints currentNode) then (False, currentNode)
        else (True, currentNode\<lparr>rn_taints := newTaints\<rparr>))"

definition TaintNodeWithNoExecute :: "('w, 'raw) rebooterApi \<Rightarrow> rnode \<Rightarrow> bool \<Rightarrow> ('w, rnode) action" where
  "TaintNodeWithNoExecute api node addTaint = patchNodeSpecWithRetry api node (mutateTaint addTaint)"

definition IsControlledByDaemonSet :: "nodePod \<Rightarrow> bool" where
  "IsControlledByDaemonSet p = list_ex (\<lambda>kind. kind = ''DaemonSet'') (np_ownerKinds p)"

definition HasTolerationForNoExecute :: "nodePod \<Rightarrow> bool" where
  "HasTolerationForNoExecute p = list_ex (\<lambda>t. to_Effect t = TaintEffectNoExecute) (np_tolerations p)"

definition HasTolerationForExists :: "nodePod \<Rightarrow> bool" where
  "HasTolerationForExists p = list_ex (\<lambda>t. to_Operator t = ''Exists'') (np_tolerations p)"

fun firstNotEvicted :: "nodePod list \<Rightarrow> nodePod option" where
  "firstNotEvicted [] = None"
| "firstNotEvicted (p # ps) =
     (if IsControlledByDaemonSet p then firstNotEvicted ps
      else if HasTolerationForNoExecute p then firstNotEvicted ps
      else if HasTolerationForExists p then firstNotEvicted ps
      else Some p)"

definition GetPodsOnNode :: "('w, 'raw) rebooterApi \<Rightarrow> string \<Rightarrow> ('w, nodePod list) action" where
  "GetPodsOnNode api nodeName =
     bindA (wrapA ''node proxy request failed for %s: %w'' [nodeName] (rb_proxyPods api nodeName)) (\<lambda>raw.
       wrapA ''decode proxy response for %s: %w'' [nodeName] (liftA (rb_decodePods api raw)))"

definition AreAllPodsEvicted :: "('w, 'raw) rebooterApi \<Rightarrow> rnode \<Rightarrow> ('w, unit) action" where
  "AreAllPodsEvicted api node =
     bindA (wrapA ''fetch pods on node %s: %w'' [rn_name node] (GetPodsOnNode api (rn_name node))) (\<lambda>podList.
       case firstNotEvicted podList of
         None \<Rightarrow> ret ()
       | Some p \<Rightarrow> raise (PodNotEvictableError (np_name p)))"

definition DrainNodeIfNeeded :: "('w, 'raw) rebooterApi \<Rightarrow> rebooter \<Rightarrow> rnode \<Rightarrow> ('w, rnode) action" where
  "DrainNodeIfNeeded api r node0 =
     bindA (setNodeCondition api r node0 SlurmNodeDrain ConditionTrue ReasonNodeDraining MessageDraining) (\<lambda>node1.
     bindA (if \<not> IsNodeUnschedulabled node1
            then wrapA ''failed to mark node %s as unschedulable: %w'' [rn_name node1] (SetNodeUnschedulable api node1 True)
            else ret node1) (\<lambda>node2.
     bindA (if r_evictionMethod r = RebooterEvict
            then wrapA ''failed to taint node %s with NoExecute: %w'' [rn_name node2] (TaintNodeWithNoExecute api node2 True)
            else ret node2) (\<lambda>node3.
       if r_evictionMethod r = RebooterDrain then ret node3
       else bindA (AreAllPodsEvicted api node3) (\<lambda>_. ret node3))))"

definition UndrainNodeIfNeeded :: "('w, 'raw) rebooterApi \<Rightarrow> rnode \<Rightarrow> ('w, rnode) action" where
  "UndrainNodeIfNeeded api node0 =
     bindA (if IsNodeUnschedulabled node0
            then wrapA ''failed to mark node %s as schedulable: %w'' [rn_name node0] (SetNodeUnschedulable api node0 False)
            else ret node0) (\<lambda>node1.
       wrapA ''failed to remove NoExecute taint from node %s: %w'' [rn_name node1] (TaintNodeWithNoExecute api node1 False))"

definition handleNodeUnDrain :: "('w, 'raw) rebooterApi \<Rightarrow> rebooter \<Rightarrow> rnode \<Rightarrow> ('w, rnode) action" where
  "handleNodeUnDrain api r node0 = bindA (UndrainNodeIfNeeded api node0) (\<lambda>node1.
     setNodeCondition api r node1 SlurmNodeDrain ConditionFalse ReasonNodeUndrained MessageUndrained)"

definition handleNodeDrain :: "('w, 'raw) rebooterApi \<Rightarrow> rebooter \<Rightarrow> rnode \<Rightarrow> NodeActions \<Rightarrow> ('w, rnode) action" where
  "handleNodeDrain api r node0 nodeActions =
     (if Drain nodeActions
      then bindA (DrainNodeIfNeeded api r node0) (\<lambda>node1.
        setNodeCondition api r node1 SlurmNodeDrain ConditionTrue ReasonNodeDrained MessageDrained)
      else ret node0)"

section \<open>Rebooting\<close>

definition GetActions :: "('w, 'raw) rebooterApi \<Rightarrow> rebooter \<Rightarrow> rnode \<Rightarrow> ('w, NodeActions \<times> rnode) action" where
  "GetActions api r node =
     (let drain = (case GetNodeConditions node SlurmNodeDrain of None \<Rightarrow> False | Some c \<Rightarrow> checkIfNodeNeedsDrain c)
      in case GetNodeConditions node SlurmNodeReboot of
           None \<Rightarrow> ret (\<lparr>Reboot = False, Drain = drain\<rparr>, node)
         | Some c \<Rightarrow>
             bindA (IsUptimeGreaterThanLastTransition api (nc_LastTransitionTime c)) (\<lambda>greater.
               if \<not> greater then
                 bindA (if checkIfNodeNeedsReboot c then handleNodeUnDrain api r node else ret node) (\<lambda>node1.
                 bindA (wrapA ''set node condition: %w'' []
                          (setNodeCondition api r node1 SlurmNodeReboot ConditionTrue ReasonNodeRebooted MessageRebooted)) (\<lambda>node2.
                   ret (\<lparr>Reboot = False, Drain = drain\<rparr>, node2)))
               else if checkIfNodeNeedsReboot c then ret (\<lparr>Reboot = True, Drain = True\<rparr>, node)
               else ret (\<lparr>Reboot = False, Drain = drain\<rparr>, node)))"

definition RebootNode :: "('w, 'raw) rebooterApi \<Rightarrow> rnode \<Rightarrow> ('w, unit) action" where
  "RebootNode api node =
     bindA (wrapA ''failed to create reboot command: %w'' [] (rb_newCommandRebooter api)) (\<lambda>_.
       wrapA ''failed to reboot node %s: %w'' [rn_name node] (rb_reboot api))"

definition handleNodeReboot :: "('w, 'raw) rebooterApi \<Rightarrow> rebooter \<Rightarrow> rnode \<Rightarrow> NodeActions \<Rightarrow> ('w, unit) action" where
  "handleNodeReboot api r node nodeActions =
     (if Reboot nodeActions
      then bindA (setNodeCondition api r node SlurmNodeReboot ConditionTrue ReasonNodeRebooting MessageRebooting) (\<lambda>node1.
        RebootNode api node1)
      else ret ())"

text \<open>The result is the delay after which the request is queued again.\<close>

definition handleDrainError :: "rebooter \<Rightarrow> goError \<Rightarrow> ('w, int) action" where
  "handleDrainError r err =
     (if isPodNotEvictable err then ret (r_reconcileTimeout r) else raise (wrapErr ''failed to drain node: %w'' [] err))"

definition getNode_rebooter :: "('w, 'raw) rebooterApi \<Rightarrow> rebooter \<Rightarrow> ('w, rnode) action" where
  "getNode_rebooter api r = wrapA ''failed to get node %s: %w'' [r_nodeName r] (rb_getCached api (r_nodeName r))"

definition Reconcile_rebooter :: "('w, 'raw) rebooterApi \<Rightarrow> rebooter \<Rightarrow> ('w, int) action" where
  "Reconcile_rebooter api r =
     bindA (getNode_rebooter api r) (\<lambda>node0.
     bindA (GetActions api r node0) (\<lambda>(nodeActions, node1).
     tryA (handleNodeDrain api r node1 nodeActions) (\<lambda>res. case res of
       Inl err \<Rightarrow> handleDrainError r err
     | Inr node2 \<Rightarrow> bindA (handleNodeReboot api r node2 nodeActions) (\<lambda>_. ret (r_reconcileTimeout r)))))"

section \<open>Calls that do not reboot\<close>

lemma keepsView_retry:
  assumes "lawfulRetry retry" "keepsView f m"
  shows "keepsView f (retry m)"
proof -
  have "retried m w res \<Longrightarrow> f (snd res) = f w" for w res
  proof (induction rule: retried.induct)
    case (run_again w e v res)
    then show ?case using keepsViewD [OF assms(2)] by metis
  qed (use assms(2) in \<open>simp add: keepsView_def\<close>)
  then show ?thesis using assms(1) by (simp add: keepsView_def lawfulRetry_def)
qed

text \<open>
  What is relied on: \<open>reboots\<close> counts the reboot commands that were run, and no call but the reboot
  command changes it.
\<close>

definition lawfulRebooter :: "('w, 'raw) rebooterApi \<Rightarrow> ('w \<Rightarrow> nat) \<Rightarrow> bool" where
  "lawfulRebooter api reboots \<longleftrightarrow>
     (\<forall>n. keepsView reboots (rb_getCached api n)) \<and> (\<forall>n. keepsView reboots (rb_getLatest api n))
   \<and> (\<forall>a b. keepsView reboots (rb_patchSpec api a b)) \<and> (\<forall>a b. keepsView reboots (rb_patchStatus api a b))
   \<and> (\<forall>n. keepsView reboots (rb_proxyPods api n)) \<and> keepsView reboots (rb_now api) \<and> keepsView reboots (rb_uptime api)
   \<and> keepsView reboots (rb_newCommandRebooter api) \<and> lawfulRetry (rb_retrySpec api) \<and> lawfulRetry (rb_retryStatus api)"

lemma lawfulRebooterD:
  assumes "lawfulRebooter api reboots"
  shows "keepsView reboots (rb_getCached api n)" "keepsView reboots (rb_getLatest api n)"
    "keepsView reboots (rb_patchSpec api a b)" "keepsView reboots (rb_patchStatus api a b)"
    "keepsView reboots (rb_proxyPods api n)" "keepsView reboots (rb_now api)" "keepsView reboots (rb_uptime api)"
    "keepsView reboots (rb_newCommandRebooter api)" "lawfulRetry (rb_retrySpec api)" "lawfulRetry (rb_retryStatus api)"
  using assms unfolding lawfulRebooter_def by blast+

lemma keepsView_setNodeCondition:
  assumes api: "lawfulRebooter api reboots"
  shows "keepsView reboots (setNodeCondition api r node ty st re msg)"
proof -
  note laws = lawfulRebooterD [OF api]
  have once: "keepsView (\<lambda>p. reboots (fst p)) (patchNodeStatusOnce api name setCondition)" for name
    unfolding patchNodeStatusOnce_def
  proof (intro keepsView_bindA keepsView_wrapA keepsView_withLocal laws)
    fix currentNode
    have "keepsView (\<lambda>p. reboots (fst (p :: _ \<times> nodeCondition))) (wrapA ''patch object status: %w'' [] (withLocal (rb_patchStatus api currentNode m)))" for m
      by (intro keepsView_wrapA keepsView_withLocal laws)
    then show "keepsView (\<lambda>p. reboots (fst p)) (\<lambda>(w, l). case setCondition currentNode l of (changed, modified, l') \<Rightarrow>
        if \<not> changed then (Inr modified, (w, l'))
        else wrapA ''patch object status: %w'' [] (withLocal (rb_patchStatus api currentNode modified)) (w, l'))"
      by (auto simp: keepsView_def split: prod.split)
  qed
  have "keepsView (\<lambda>p. reboots (fst p)) (rb_retryStatus api (patchNodeStatusOnce api name setCondition))" for name
    by (rule keepsView_retry [OF laws(10) once])
  then have "keepsView reboots (\<lambda>w. case rb_retryStatus api (patchNodeStatusOnce api name setCondition) (w, l) of (r, (w', l')) \<Rightarrow> (r, w'))" for name l
    unfolding keepsView_def by (auto split: prod.splits) (metis fst_conv snd_conv)
  then show ?thesis unfolding setNodeCondition_def SetNodeConditionIfNotExists_def
    by (intro keepsView_wrapA keepsView_bindA laws)
qed

lemma keepsView_patchSpec:
  assumes api: "lawfulRebooter api reboots"
  shows "keepsView reboots (patchNodeSpecWithRetry api node mutate)"
proof -
  have "keepsView reboots (patchNodeSpecOnce api (rn_name node) mutate)"
    by (auto simp: patchNodeSpecOnce_def intro!: keepsView lawfulRebooterD(2,3) [OF api] split: prod.split)
  then show ?thesis unfolding patchNodeSpecWithRetry_def by (rule keepsView_retry [OF lawfulRebooterD(9) [OF api]])
qed

lemma keepsView_drain:
  assumes api: "lawfulRebooter api reboots"
  shows "keepsView reboots (DrainNodeIfNeeded api r node)" "keepsView reboots (handleNodeUnDrain api r node)"
    "keepsView reboots (handleNodeDrain api r node acts)" "keepsView reboots (GetActions api r node)"
proof -
  note calls = keepsView lawfulRebooterD(1-8) [OF api] keepsView_setNodeCondition [OF api] keepsView_patchSpec [OF api]
  have pods: "keepsView reboots (AreAllPodsEvicted api node)" for node
    by (auto simp: AreAllPodsEvicted_def GetPodsOnNode_def intro!: calls split: option.split)
  show drain: "keepsView reboots (DrainNodeIfNeeded api r node)" for node
    by (auto simp: DrainNodeIfNeeded_def SetNodeUnschedulable_def TaintNodeWithNoExecute_def intro!: calls pods)
  show undrain: "keepsView reboots (handleNodeUnDrain api r node)" for node
    by (auto simp: handleNodeUnDrain_def UndrainNodeIfNeeded_def SetNodeUnschedulable_def TaintNodeWithNoExecute_def intro!: calls)
  show "keepsView reboots (handleNodeDrain api r node acts)"
    by (auto simp: handleNodeDrain_def intro!: calls drain)
  show "keepsView reboots (GetActions api r node)"
    by (auto simp: GetActions_def IsUptimeGreaterThanLastTransition_def Let_def intro!: calls undrain split: option.split sum.split)
qed

section \<open>When the node is rebooted\<close>

lemma firstNotEvicted_None:
  "firstNotEvicted ps = None \<longleftrightarrow> (\<forall>p \<in> set ps. IsControlledByDaemonSet p \<or> HasTolerationForNoExecute p \<or> HasTolerationForExists p)"
  by (induction ps rule: firstNotEvicted.induct) auto

lemma DrainNodeIfNeeded_evicted:
  assumes "DrainNodeIfNeeded api r node w = (Inr node', w')" "r_evictionMethod r \<noteq> RebooterDrain"
  shows "\<exists>name w1 pods w2. GetPodsOnNode api name w1 = (Inr pods, w2) \<and> firstNotEvicted pods = None"
  using assms
  by (auto simp: DrainNodeIfNeeded_def AreAllPodsEvicted_def bindA_success wrapA_success split: option.splits)

lemma GetActions_Reboot:
  assumes "GetActions api r node w = (Inr (acts, node'), w')" "Reboot acts"
  shows "Drain acts \<and> (\<exists>c w1 w2. GetNodeConditions node SlurmNodeReboot = Some c \<and> checkIfNodeNeedsReboot c
    \<and> IsUptimeGreaterThanLastTransition api (nc_LastTransitionTime c) w1 = (Inr True, w2))"
  using assms by (auto simp: GetActions_def bindA_success Let_def split: option.splits if_splits)


section \<open>The life of a node\<close>

text \<open>
  A node in memory: its object, the pods on it, the clock, the time of its last boot and the number of
  reboot commands run. The reboot command restarts the system at once.
\<close>

record rebootWorld =
  rw_node :: rnode
  rw_pods :: "nodePod list"
  rw_now :: int
  rw_boot :: int
  rw_reboots :: nat

definition memRebooter :: "(rebootWorld, nodePod list) rebooterApi" where
  "memRebooter = \<lparr>
     rb_getCached = (\<lambda>name w. (Inr (rw_node w), w)), rb_getLatest = (\<lambda>name w. (Inr (rw_node w), w)),
     rb_patchSpec = (\<lambda>base n w. (Inr n, w\<lparr>rw_node := n\<rparr>)), rb_patchStatus = (\<lambda>base n w. (Inr n, w\<lparr>rw_node := n\<rparr>)),
     rb_retrySpec = retryN 3, rb_retryStatus = retryN 3,
     rb_proxyPods = (\<lambda>name w. (Inr (rw_pods w), w)), rb_decodePods = Inr, rb_now = (\<lambda>w. (Inr (rw_now w), w)),
     rb_uptime = (\<lambda>w. (Inr (rw_now w - rw_boot w), w)), rb_newCommandRebooter = ret (),
     rb_reboot = (\<lambda>w. (Inr (), w\<lparr>rw_boot := rw_now w, rw_reboots := rw_reboots w + 1\<rparr>))\<rparr>"

lemma memRebooter_lawful: "lawfulRebooter memRebooter rw_reboots"
  by (simp add: lawfulRebooter_def memRebooter_def keepsView_def retryN_lawful)

definition rebootCondition :: "rebootWorld \<Rightarrow> nodeCondition option" where
  "rebootCondition w = GetNodeConditions (rw_node w) SlurmNodeReboot"

text \<open>A reboot is pending: it is asked for, and the system has been running since before that.\<close>

definition pending :: "rebootWorld \<Rightarrow> bool" where
  "pending w = (case rebootCondition w of None \<Rightarrow> False
     | Some c \<Rightarrow> checkIfNodeNeedsReboot c \<and> rw_boot w < nc_LastTransitionTime c)"

definition requestReboot :: "string \<Rightarrow> rebootWorld \<Rightarrow> rebootWorld" where
  "requestReboot reason w = w\<lparr>rw_node := fst (snd (setCondition (rw_node w)
     \<lparr>nc_Type = SlurmNodeReboot, nc_Status = ConditionTrue, nc_Reason = reason, nc_Message = [], nc_LastTransitionTime = rw_now w\<rparr>))\<rparr>"

text \<open>
  What can happen to the node, with the number of reboots asked for so far: time passes, pods come and go,
  someone asks for a reboot, the rebooter reconciles.
\<close>

inductive lifeStep :: "rebooter \<Rightarrow> rebootWorld \<times> nat \<Rightarrow> rebootWorld \<times> nat \<Rightarrow> bool" for r where
  time_passes: "0 \<le> t \<Longrightarrow> lifeStep r (w, n) (w\<lparr>rw_now := rw_now w + t\<rparr>, n)"
| pods_change: "lifeStep r (w, n) (w\<lparr>rw_pods := ps\<rparr>, n)"
| reboot_asked: "lifeStep r (w, n) (requestReboot reason w, n + 1)"
| reconciles: "lifeStep r (w, n) (snd (Reconcile_rebooter memRebooter r w), n)"

inductive_cases lifeStepE: "lifeStep r (w, n) (w', n')"

lemma find_enumerate:
  assumes "find (\<lambda>(i, c). P c) (enumerate k cs) = Some (i, c)"
  shows "k \<le> i \<and> i - k < length cs \<and> cs ! (i - k) = c \<and> P c \<and> find P cs = Some c
    \<and> (P x \<longrightarrow> find P (cs[i - k := x]) = Some x)"
  using assms
proof (induction cs arbitrary: k)
  case (Cons d cs)
  show ?case
  proof (cases "P d")
    case False
    then have "find (\<lambda>(i, c). P c) (enumerate (Suc k) cs) = Some (i, c)" using Cons.prems by simp
    from Cons.IH [OF this] have IH: "Suc k \<le> i" "i - Suc k < length cs" "cs ! (i - Suc k) = c" "P c" "find P cs = Some c"
      "P x \<longrightarrow> find P (cs[i - Suc k := x]) = Some x" by auto
    moreover have "i - k = Suc (i - Suc k)" using IH(1) by simp
    ultimately show ?thesis using False by simp
  qed (use Cons.prems in auto)
qed simp

lemma find_enumerate_None: "find (\<lambda>(i, c). P c) (enumerate k cs) = None \<longleftrightarrow> find P cs = None"
  by (induction cs arbitrary: k) auto

lemma find_update_other: "i < length cs \<Longrightarrow> \<not> Q x \<Longrightarrow> \<not> Q (cs ! i) \<Longrightarrow> find Q (cs[i := x]) = find Q cs"
  by (induction cs arbitrary: i) (auto simp: less_Suc_eq_0_disj nth_Cons split: nat.split)

lemma find_append_one: "find P (xs @ [x]) = (case find P xs of Some y \<Rightarrow> Some y | None \<Rightarrow> if P x then Some x else None)"
  by (induction xs) auto

text \<open>Setting a condition sets the one of its type, and keeps its time if nothing but the time is new.\<close>

definition conditionSet :: "nodeCondition option \<Rightarrow> nodeCondition \<Rightarrow> nodeCondition" where
  "conditionSet old new = (case old of None \<Rightarrow> new
     | Some c \<Rightarrow> if nc_Status c = nc_Status new \<and> nc_Reason c = nc_Reason new
                 then new\<lparr>nc_LastTransitionTime := nc_LastTransitionTime c\<rparr> else new)"

lemma setCondition_get:
  "fst (setCondition node new)"
  "GetNodeConditions (fst (snd (setCondition node new))) ty =
     (if ty = nc_Type new then Some (conditionSet (GetNodeConditions node ty) new) else GetNodeConditions node ty)"
proof -
  let ?find = "find (\<lambda>(i, c). nc_Type c = nc_Type new) (enumerate 0 (rn_conditions node))"
  show "fst (setCondition node new)" by (auto simp: setCondition_def Let_def split: option.split)
  show "GetNodeConditions (fst (snd (setCondition node new))) ty =
     (if ty = nc_Type new then Some (conditionSet (GetNodeConditions node ty) new) else GetNodeConditions node ty)"
  proof (cases ?find)
    case None
    then have "find (\<lambda>c. nc_Type c = nc_Type new) (rn_conditions node) = None" using find_enumerate_None by blast
    with None show ?thesis
      by (auto simp: setCondition_def GetNodeConditions_def conditionSet_def find_append_one split: option.split)
  next
    case (Some p)
    obtain i c where p: "p = (i, c)" by fastforce
    have f: "i < length (rn_conditions node)" "rn_conditions node ! i = c" "nc_Type c = nc_Type new"
      "find (\<lambda>c. nc_Type c = nc_Type new) (rn_conditions node) = Some c"
      and upd: "nc_Type x = nc_Type new \<longrightarrow> find (\<lambda>c. nc_Type c = nc_Type new) ((rn_conditions node)[i := x]) = Some x" for x
      using find_enumerate [OF Some [unfolded p]] by simp_all
    let ?new = "conditionSet (Some c) new"
    have ty: "nc_Type ?new = nc_Type new" by (simp add: conditionSet_def)
    have res: "fst (snd (setCondition node new)) = node\<lparr>rn_conditions := (rn_conditions node)[i := ?new]\<rparr>"
      using Some by (simp add: setCondition_def p conditionSet_def Let_def)
    show ?thesis
    proof (cases "ty = nc_Type new")
      case True
      then show ?thesis using res upd [of ?new] ty f by (simp add: GetNodeConditions_def)
    next
      case False
      then show ?thesis using res ty f by (simp add: GetNodeConditions_def find_update_other)
    qed
  qed
qed

subsection \<open>The calls in memory\<close>

lemma retryN_Inr: "m w = (Inr x, w') \<Longrightarrow> retryN (Suc k) m w = (Inr x, w')"
  by (cases k) simp_all

lemma mem_setNodeCondition:
  "setNodeCondition memRebooter r node ty st re msg w =
     (let n = fst (snd (setCondition (rw_node w)
        \<lparr>nc_Type = ty, nc_Status = st, nc_Reason = re, nc_Message = msg, nc_LastTransitionTime = rw_now w\<rparr>))
      in (Inr n, w\<lparr>rw_node := n\<rparr>))"
proof -
  let ?new = "\<lparr>nc_Type = ty, nc_Status = st, nc_Reason = re, nc_Message = msg, nc_LastTransitionTime = rw_now w\<rparr>"
  obtain n l where s: "setCondition (rw_node w) ?new = (True, n, l)" using setCondition_get(1) by (metis prod.collapse)
  then have "patchNodeStatusOnce memRebooter (rn_name node) setCondition (w, ?new) = (Inr n, (w\<lparr>rw_node := n\<rparr>, l))"
    by (simp add: patchNodeStatusOnce_def memRebooter_def bindA_def wrapA_def withLocal_def)
  then have "retryN 3 (patchNodeStatusOnce memRebooter (rn_name node) setCondition) (w, ?new) = (Inr n, (w\<lparr>rw_node := n\<rparr>, l))"
    by (simp add: numeral_3_eq_3 retryN_Inr)
  then show ?thesis using s
    by (simp add: setNodeCondition_def SetNodeConditionIfNotExists_def bindA_def wrapA_def)
      (simp add: memRebooter_def)
qed

lemma mem_patchSpec:
  assumes "\<not> fst (mutate (rw_node w)) \<Longrightarrow> snd (mutate (rw_node w)) = rw_node w"
  shows "patchNodeSpecWithRetry memRebooter node mutate w = (let n = snd (mutate (rw_node w)) in (Inr n, w\<lparr>rw_node := n\<rparr>))"
proof -
  have "patchNodeSpecOnce memRebooter (rn_name node) mutate w = (let n = snd (mutate (rw_node w)) in (Inr n, w\<lparr>rw_node := n\<rparr>))"
    using assms by (auto simp: patchNodeSpecOnce_def memRebooter_def bindA_def wrapA_def Let_def split: prod.splits)
  then have "retryN 3 (patchNodeSpecOnce memRebooter (rn_name node) mutate) w = (let n = snd (mutate (rw_node w)) in (Inr n, w\<lparr>rw_node := n\<rparr>))"
    by (simp add: numeral_3_eq_3 retryN_Inr Let_def)
  then show ?thesis by (simp add: patchNodeSpecWithRetry_def) (simp add: memRebooter_def)
qed

lemma mem_SetNodeUnschedulable:
  "SetNodeUnschedulable memRebooter node b w = (let n = (rw_node w)\<lparr>rn_unschedulable := b\<rparr> in (Inr n, w\<lparr>rw_node := n\<rparr>))"
proof -
  have "snd (mutateUnschedulable b (rw_node w)) = (rw_node w)\<lparr>rn_unschedulable := b\<rparr>"
    by (auto simp: mutateUnschedulable_def)
  moreover have "\<not> fst (mutateUnschedulable b (rw_node w)) \<Longrightarrow> snd (mutateUnschedulable b (rw_node w)) = rw_node w"
    by (auto simp: mutateUnschedulable_def split: if_splits)
  ultimately show ?thesis by (simp add: SetNodeUnschedulable_def wrapA_def mem_patchSpec Let_def)
qed

lemma mem_TaintNodeWithNoExecute:
  "TaintNodeWithNoExecute memRebooter node b w = (let n = snd (mutateTaint b (rw_node w)) in (Inr n, w\<lparr>rw_node := n\<rparr>))"
  unfolding TaintNodeWithNoExecute_def by (rule mem_patchSpec) (auto simp: mutateTaint_def Let_def split: if_splits)

lemma mutateTaint_keeps:
  "rn_conditions (snd (mutateTaint b n)) = rn_conditions n" "rn_unschedulable (snd (mutateTaint b n)) = rn_unschedulable n"
  by (simp_all add: mutateTaint_def Let_def)

lemma mem_uptime: "IsUptimeGreaterThanLastTransition memRebooter t w = (Inr (rw_boot w < t), w)"
  by (simp add: IsUptimeGreaterThanLastTransition_def memRebooter_def tryA_def bindA_def ret_def)

lemma mem_pods:
  "AreAllPodsEvicted memRebooter node w =
     ((case firstNotEvicted (rw_pods w) of None \<Rightarrow> Inr () | Some p \<Rightarrow> Inl (PodNotEvictableError (np_name p))), w)"
  by (simp add: AreAllPodsEvicted_def GetPodsOnNode_def memRebooter_def bindA_def wrapA_def ret_def raise_def liftA_def split: option.split)

lemma mem_reboot: "RebootNode memRebooter node w = (Inr (), w\<lparr>rw_boot := rw_now w, rw_reboots := rw_reboots w + 1\<rparr>)"
  by (simp add: RebootNode_def memRebooter_def bindA_def wrapA_def ret_def)

lemmas memCalls = mem_setNodeCondition mem_SetNodeUnschedulable mem_TaintNodeWithNoExecute mem_uptime mem_pods mem_reboot

subsection \<open>One reconciliation in memory\<close>

text \<open>What a reboot depends on: the reboot condition, the clock, the boot time and the count.\<close>

definition lifeView :: "rebootWorld \<Rightarrow> nodeCondition option \<times> int \<times> int \<times> nat" where
  "lifeView w = (rebootCondition w, rw_now w, rw_boot w, rw_reboots w)"

lemma lifeView_drain:
  "keepsView lifeView (setNodeCondition memRebooter r node SlurmNodeDrain st re msg)"
  "keepsView lifeView (SetNodeUnschedulable memRebooter node b)"
  "keepsView lifeView (TaintNodeWithNoExecute memRebooter node b)"
  "keepsView lifeView (AreAllPodsEvicted memRebooter node)"
  by (simp_all add: keepsView_def lifeView_def rebootCondition_def memCalls Let_def setCondition_get
      SlurmNodeDrain_def SlurmNodeReboot_def GetNodeConditions_def [of "rn_unschedulable_update _ _"]
      GetNodeConditions_def [of "snd (mutateTaint _ _)"] mutateTaint_keeps GetNodeConditions_def [symmetric])

lemma lifeView_handlers:
  "keepsView lifeView (handleNodeDrain memRebooter r node acts)"
  "keepsView lifeView (handleNodeUnDrain memRebooter r node)"
  by (auto simp: handleNodeDrain_def DrainNodeIfNeeded_def handleNodeUnDrain_def UndrainNodeIfNeeded_def
      intro!: keepsView lifeView_drain)

definition rebootMark :: "string \<Rightarrow> string \<Rightarrow> int \<Rightarrow> nodeCondition" where
  "rebootMark reason message now =
     \<lparr>nc_Type = SlurmNodeReboot, nc_Status = ConditionTrue, nc_Reason = reason, nc_Message = message, nc_LastTransitionTime = now\<rparr>"

lemma lifeView_mark:
  "snd (setNodeCondition memRebooter r node SlurmNodeReboot ConditionTrue re msg w) = v \<Longrightarrow>
   lifeView v = (Some (conditionSet (rebootCondition w) (rebootMark re msg (rw_now w))), rw_now w, rw_boot w, rw_reboots w)"
  by (auto simp: mem_setNodeCondition Let_def lifeView_def rebootCondition_def setCondition_get rebootMark_def)

lemma lifeView_eqD:
  "lifeView v = lifeView w \<Longrightarrow> rebootCondition v = rebootCondition w \<and> rw_now v = rw_now w \<and> rw_boot v = rw_boot w \<and> rw_reboots v = rw_reboots w"
  by (simp add: lifeView_def)

text \<open>A reboot that is no longer pending is marked as done, and nothing else changes.\<close>

definition markedDone :: "rebootWorld \<Rightarrow> rebootWorld \<Rightarrow> bool" where
  "markedDone w w' \<longleftrightarrow> (\<exists>c. rebootCondition w = Some c \<and> \<not> rw_boot w < nc_LastTransitionTime c
     \<and> lifeView w' = (Some (conditionSet (Some c) (rebootMark ReasonNodeRebooted MessageRebooted (rw_now w))), rw_now w, rw_boot w, rw_reboots w))"

lemma mem_GetActions:
  assumes run: "GetActions memRebooter r (rw_node w) w = (res, w')"
  shows "lifeView w' = lifeView w \<or> markedDone w w'"
    and "res = Inr (acts, n) \<Longrightarrow> Reboot acts \<Longrightarrow> lifeView w' = lifeView w \<and> pending w"
proof -
  consider "rebootCondition w = None"
    | c where "rebootCondition w = Some c" "rw_boot w < nc_LastTransitionTime c"
    | c where "rebootCondition w = Some c" "\<not> rw_boot w < nc_LastTransitionTime c"
    by (cases "rebootCondition w") auto
  then have "(lifeView w' = lifeView w \<or> markedDone w w') \<and>
    (res = Inr (acts, n) \<longrightarrow> Reboot acts \<longrightarrow> lifeView w' = lifeView w \<and> pending w)"
  proof cases
    case 1
    then show ?thesis using run by (auto simp: GetActions_def rebootCondition_def Let_def)
  next
    case 2
    then show ?thesis using run
      by (auto simp: GetActions_def rebootCondition_def Let_def bindA_def mem_uptime pending_def split: if_splits)
  next
    case (3 c)
    let ?undrain = "if checkIfNodeNeedsReboot c then handleNodeUnDrain memRebooter r (rw_node w) else ret (rw_node w)"
    obtain r1 w1 where u: "?undrain w = (r1, w1)" by fastforce
    have "keepsView lifeView ?undrain" by (simp add: lifeView_handlers keepsView)
    then have v1: "lifeView w1 = lifeView w" using keepsViewD u by fast
    have run': "bindA ?undrain (\<lambda>node1.
          bindA (wrapA ''set node condition: %w'' []
            (setNodeCondition memRebooter r node1 SlurmNodeReboot ConditionTrue ReasonNodeRebooted MessageRebooted)) (\<lambda>node2.
          ret (\<lparr>Reboot = False, Drain = (case GetNodeConditions (rw_node w) SlurmNodeDrain of None \<Rightarrow> False | Some c \<Rightarrow> checkIfNodeNeedsDrain c)\<rparr>, node2))) w
        = (res, w')"
      using run 3 unfolding GetActions_def Let_def rebootCondition_def
      by (simp only: option.case bindA_Inr [where m = "IsUptimeGreaterThanLastTransition memRebooter t" for t, OF mem_uptime]) simp
    show ?thesis
    proof (cases r1)
      case (Inl e)
      then show ?thesis using run' u v1 by (auto simp: bindA_def)
    next
      case (Inr node1)
      let ?set = "setNodeCondition memRebooter r node1 SlurmNodeReboot ConditionTrue ReasonNodeRebooted MessageRebooted"
      have "res \<noteq> Inr (acts, n) \<or> \<not> Reboot acts" "snd (?set w1) = w'"
        using run' unfolding bindA_Inr [where m = ?undrain, OF u [unfolded Inr]]
        by (auto simp: bindA_def wrapA_def mem_setNodeCondition Let_def)
      then have "markedDone w w'" "res \<noteq> Inr (acts, n) \<or> \<not> Reboot acts"
        using lifeView_mark lifeView_eqD [OF v1] 3 by (auto simp: markedDone_def)
      then show ?thesis by auto
    qed
  qed
  then show "lifeView w' = lifeView w \<or> markedDone w w'"
    "res = Inr (acts, n) \<Longrightarrow> Reboot acts \<Longrightarrow> lifeView w' = lifeView w \<and> pending w" by auto
qed

text \<open>A reconciliation changes nothing, marks a reboot as done, or carries out a pending one.\<close>

definition rebooted :: "rebootWorld \<Rightarrow> rebootWorld \<Rightarrow> bool" where
  "rebooted w w' \<longleftrightarrow> pending w \<and> lifeView w' =
     (Some (conditionSet (rebootCondition w) (rebootMark ReasonNodeRebooting MessageRebooting (rw_now w))), rw_now w, rw_now w, rw_reboots w + 1)"

lemma mem_handleNodeReboot:
  assumes "handleNodeReboot memRebooter r node acts w = (res, w')"
  shows "lifeView w' = lifeView w \<or> (Reboot acts \<and> lifeView w' =
     (Some (conditionSet (rebootCondition w) (rebootMark ReasonNodeRebooting MessageRebooting (rw_now w))), rw_now w, rw_now w, rw_reboots w + 1))"
proof (cases "Reboot acts")
  case True
  obtain n w1 where s: "setNodeCondition memRebooter r node SlurmNodeReboot ConditionTrue ReasonNodeRebooting MessageRebooting w = (Inr n, w1)"
    by (simp add: mem_setNodeCondition Let_def)
  with True have "w' = w1\<lparr>rw_boot := rw_now w1, rw_reboots := rw_reboots w1 + 1\<rparr>"
    using assms by (simp add: handleNodeReboot_def bindA_def mem_reboot)
  moreover have "lifeView w1 = (Some (conditionSet (rebootCondition w) (rebootMark ReasonNodeRebooting MessageRebooting (rw_now w))), rw_now w, rw_boot w, rw_reboots w)"
    using lifeView_mark [of r node ReasonNodeRebooting MessageRebooting w w1] s by simp
  ultimately show ?thesis using True by (simp add: lifeView_def rebootCondition_def)
qed (use assms in \<open>simp add: handleNodeReboot_def ret_def\<close>)

lemma mem_Reconcile:
  assumes run: "Reconcile_rebooter memRebooter r w = (res, w')"
  shows "lifeView w' = lifeView w \<or> markedDone w w' \<or> rebooted w w'"
proof -
  have got: "getNode_rebooter memRebooter r w = (Inr (rw_node w), w)" by (simp add: getNode_rebooter_def wrapA_def memRebooter_def)
  obtain r2 w2 where a: "GetActions memRebooter r (rw_node w) w = (r2, w2)" by fastforce
  note ga = mem_GetActions [OF a]
  note run = run [unfolded Reconcile_rebooter_def bindA_Inr [where m = "getNode_rebooter memRebooter r", OF got]]
  show ?thesis
  proof (cases r2)
    case (Inl e)
    then show ?thesis using run a ga(1) by (auto simp: bindA_def)
  next
    case (Inr p)
    then obtain acts node1 where acts: "r2 = Inr (acts, node1)" by (cases p) auto
    obtain r3 w3 where d: "handleNodeDrain memRebooter r node1 acts w2 = (r3, w3)" by fastforce
    have v3: "lifeView w3 = lifeView w2" using keepsViewD [OF lifeView_handlers(1) d] .
    note run = run [unfolded bindA_Inr [where m = "GetActions memRebooter r (rw_node w)", OF a [unfolded acts]] prod.case]
    have "\<exists>res node2. (r3 = Inl res \<and> w' = w3) \<or> handleNodeReboot memRebooter r node2 acts w3 = (Inr (), w')
        \<or> (\<exists>e. handleNodeReboot memRebooter r node2 acts w3 = (Inl e, w'))"
      using run d by (cases r3) (auto simp: tryA_def handleDrainError_def bindA_def ret_def split: if_splits prod.splits sum.splits)
    then have "lifeView w' = lifeView w3 \<or> (Reboot acts \<and> lifeView w' =
        (Some (conditionSet (rebootCondition w3) (rebootMark ReasonNodeRebooting MessageRebooting (rw_now w3))), rw_now w3, rw_now w3, rw_reboots w3 + 1))"
      using mem_handleNodeReboot by blast
    then show ?thesis
    proof
      assume "lifeView w' = lifeView w3"
      then show ?thesis using v3 ga(1) by (auto simp: markedDone_def)
    next
      assume re: "Reboot acts \<and> lifeView w' =
        (Some (conditionSet (rebootCondition w3) (rebootMark ReasonNodeRebooting MessageRebooting (rw_now w3))), rw_now w3, rw_now w3, rw_reboots w3 + 1)"
      with ga(2) [OF acts] have "lifeView w2 = lifeView w" "pending w" by auto
      with re lifeView_eqD [OF v3] lifeView_eqD [of w2 w] show ?thesis by (simp add: rebooted_def)
    qed
  qed
qed

subsection \<open>Reboots and requests\<close>

definition lifeInv :: "rebootWorld \<times> nat \<Rightarrow> bool" where
  "lifeInv = (\<lambda>(w, n). rw_boot w \<le> rw_now w
     \<and> (case rebootCondition w of None \<Rightarrow> True | Some c \<Rightarrow> nc_LastTransitionTime c \<le> rw_now w)
     \<and> rw_reboots w + (if pending w then 1 else 0) \<le> n)"

lemma conditionSet_fields [simp]:
  "nc_Status (conditionSet old new) = nc_Status new" "nc_Reason (conditionSet old new) = nc_Reason new"
  "nc_Type (conditionSet old new) = nc_Type new"
  by (simp_all add: conditionSet_def split: option.split)

lemma conditionSet_time:
  "nc_LastTransitionTime (conditionSet old new) = nc_LastTransitionTime new \<or>
   (\<exists>c. old = Some c \<and> nc_LastTransitionTime (conditionSet old new) = nc_LastTransitionTime c)"
  by (simp add: conditionSet_def split: option.split)

lemma lifeInv_Reconcile:
  assumes "lifeInv (w, n)"
  shows "lifeInv (snd (Reconcile_rebooter memRebooter r w), n)"
proof -
  obtain res w' where run: "Reconcile_rebooter memRebooter r w = (res, w')" by fastforce
  from mem_Reconcile [OF run] have "lifeInv (w', n)"
  proof (elim disjE)
    assume "lifeView w' = lifeView w"
    note same = lifeView_eqD [OF this]
    then have "pending w' = pending w" by (simp add: pending_def split: option.split)
    with same show ?thesis using assms by (auto simp: lifeInv_def split: option.splits)
  next
    assume "markedDone w w'"
    then obtain c where c: "rebootCondition w = Some c" "\<not> rw_boot w < nc_LastTransitionTime c"
      and v: "lifeView w' = (Some (conditionSet (Some c) (rebootMark ReasonNodeRebooted MessageRebooted (rw_now w))), rw_now w, rw_boot w, rw_reboots w)"
      unfolding markedDone_def by blast
    have "\<not> pending w'" using v by (simp add: pending_def lifeView_def rebootMark_def checkIfNodeNeedsReboot_def)
    moreover have "nc_LastTransitionTime (conditionSet (Some c) (rebootMark ReasonNodeRebooted MessageRebooted (rw_now w))) \<le> rw_now w"
      using conditionSet_time [of "Some c"] assms c by (auto simp: lifeInv_def rebootMark_def conditionSet_def)
    ultimately show ?thesis using assms v by (simp add: lifeInv_def lifeView_def)
  next
    assume "rebooted w w'"
    then have p: "pending w" and v: "lifeView w' = (Some (conditionSet (rebootCondition w) (rebootMark ReasonNodeRebooting MessageRebooting (rw_now w))), rw_now w, rw_now w, rw_reboots w + 1)"
      by (simp_all add: rebooted_def)
    let ?c = "conditionSet (rebootCondition w) (rebootMark ReasonNodeRebooting MessageRebooting (rw_now w))"
    have t: "nc_LastTransitionTime ?c \<le> rw_now w"
      using assms by (auto simp: lifeInv_def rebootMark_def conditionSet_def split: option.splits)
    then have "\<not> pending w'" using v by (simp add: pending_def lifeView_def)
    then show ?thesis using assms v p t by (simp add: lifeInv_def lifeView_def)
  qed
  then show ?thesis using run by simp
qed

lemma lifeInv_requestReboot:
  assumes "lifeInv (w, n)"
  shows "lifeInv (requestReboot reason w, n + 1)"
proof -
  let ?new = "\<lparr>nc_Type = SlurmNodeReboot, nc_Status = ConditionTrue, nc_Reason = reason, nc_Message = [], nc_LastTransitionTime = rw_now w\<rparr>"
  have "rebootCondition (requestReboot reason w) = Some (conditionSet (rebootCondition w) ?new)"
    by (simp add: requestReboot_def rebootCondition_def setCondition_get)
  moreover have "nc_LastTransitionTime (conditionSet (rebootCondition w) ?new) \<le> rw_now w"
    using assms by (auto simp: lifeInv_def conditionSet_def split: option.splits)
  ultimately show ?thesis using assms by (auto simp: lifeInv_def requestReboot_def)
qed

lemma lifeInv_step: "lifeStep r s s' \<Longrightarrow> lifeInv s \<Longrightarrow> lifeInv s'"
proof (induction rule: lifeStep.induct)
  case (time_passes t w n)
  then show ?case by (auto simp: lifeInv_def rebootCondition_def pending_def split: option.splits)
next
  case (pods_change w n ps)
  then show ?case by (auto simp: lifeInv_def rebootCondition_def pending_def split: option.splits)
next
  case (reboot_asked w n reason)
  then show ?case by (rule lifeInv_requestReboot)
next
  case (reconciles w n)
  then show ?case by (rule lifeInv_Reconcile)
qed

text \<open>
  However requests, reconciliations, the clock and the pods interleave, the node is never rebooted more
  often than a reboot was asked for.
\<close>

lemma reboots_bounded_by_requests:
  assumes "(lifeStep r)\<^sup>*\<^sup>* (w0, 0) (w, n)" and "rn_conditions (rw_node w0) = []" and "rw_reboots w0 = 0" and "rw_boot w0 \<le> rw_now w0"
  shows "rw_reboots w \<le> n"
proof -
  have init: "lifeInv (w0, 0)"
    using assms(2-4) by (simp add: lifeInv_def pending_def rebootCondition_def GetNodeConditions_def)
  have "(lifeStep r)\<^sup>*\<^sup>* s s' \<Longrightarrow> lifeInv s \<Longrightarrow> lifeInv s'" for s s'
    by (induction rule: rtranclp_induct) (auto intro: lifeInv_step)
  from this [OF assms(1) init] show ?thesis by (simp add: lifeInv_def)
qed

subsection \<open>After the reboot\<close>

definition conditionThat :: "(nodeCondition \<Rightarrow> bool) \<Rightarrow> nodeCondition option \<Rightarrow> bool" where
  "conditionThat P c = (case c of None \<Rightarrow> False | Some c \<Rightarrow> P c)"

lemma conditionThat_iff: "conditionThat P c \<longleftrightarrow> (\<exists>d. c = Some d \<and> P d)"
  by (simp add: conditionThat_def split: option.split)

definition drainedNode :: "rnode \<Rightarrow> bool" where
  "drainedNode n \<longleftrightarrow> rn_unschedulable n \<and> conditionThat (\<lambda>d. nc_Status d = ConditionTrue) (GetNodeConditions n SlurmNodeDrain)"

definition drainSet :: "rnode \<Rightarrow> string \<Rightarrow> string \<Rightarrow> int \<Rightarrow> rnode" where
  "drainSet n re msg now = fst (snd (setCondition n
     \<lparr>nc_Type = SlurmNodeDrain, nc_Status = ConditionTrue, nc_Reason = re, nc_Message = msg, nc_LastTransitionTime = now\<rparr>))"

lemma setCondition_unschedulable: "rn_unschedulable (fst (snd (setCondition n new))) = rn_unschedulable n"
  by (auto simp: setCondition_def Let_def split: option.split)

lemma drainedNode_drainSet: "drainedNode (drainSet n re msg now) \<longleftrightarrow> rn_unschedulable n"
  by (simp add: drainedNode_def conditionThat_iff drainSet_def setCondition_get setCondition_unschedulable)

lemma drainedNode_spec:
  "drainedNode ((drainSet n re msg now)\<lparr>rn_unschedulable := True\<rparr>)"
  "drainedNode (snd (mutateTaint b n)) = drainedNode n"
  by (simp_all add: drainedNode_def conditionThat_iff drainSet_def GetNodeConditions_def mutateTaint_keeps)
    (simp add: GetNodeConditions_def [symmetric] setCondition_get)

lemma mem_DrainNodeIfNeeded:
  "\<exists>res n. DrainNodeIfNeeded memRebooter r node w = (res, w\<lparr>rw_node := n\<rparr>) \<and> drainedNode n \<and> (\<forall>m. res = Inr m \<longrightarrow> m = n)"
proof -
  let ?n1 = "drainSet (rw_node w) ReasonNodeDraining MessageDraining (rw_now w)"
  let ?n2 = "?n1\<lparr>rn_unschedulable := True\<rparr>"
  let ?n3 = "if r_evictionMethod r = RebooterEvict then snd (mutateTaint True ?n2) else ?n2"
  let ?m1 = "setNodeCondition memRebooter r node SlurmNodeDrain ConditionTrue ReasonNodeDraining MessageDraining"
  let ?m2 = "if \<not> IsNodeUnschedulabled ?n1
    then wrapA ''failed to mark node %s as unschedulable: %w'' [rn_name ?n1] (SetNodeUnschedulable memRebooter ?n1 True) else ret ?n1"
  let ?m3 = "if r_evictionMethod r = RebooterEvict
    then wrapA ''failed to taint node %s with NoExecute: %w'' [rn_name ?n2] (TaintNodeWithNoExecute memRebooter ?n2 True) else ret ?n2"
  have s1: "?m1 w = (Inr ?n1, w\<lparr>rw_node := ?n1\<rparr>)"
    by (simp add: mem_setNodeCondition drainSet_def Let_def)
  have s2: "?m2 (w\<lparr>rw_node := ?n1\<rparr>) = (Inr ?n2, w\<lparr>rw_node := ?n2\<rparr>)"
    by (cases ?n1) (auto simp: IsNodeUnschedulabled_def mem_SetNodeUnschedulable wrapA_def Let_def)
  have s3: "?m3 (w\<lparr>rw_node := ?n2\<rparr>) = (Inr ?n3, w\<lparr>rw_node := ?n3\<rparr>)"
    by (simp add: mem_TaintNodeWithNoExecute wrapA_def Let_def)
  have "\<exists>res. DrainNodeIfNeeded memRebooter r node w = (res, w\<lparr>rw_node := ?n3\<rparr>) \<and> (\<forall>m. res = Inr m \<longrightarrow> m = ?n3)"
    unfolding DrainNodeIfNeeded_def bindA_Inr [where m = ?m1, OF s1] bindA_Inr [where m = ?m2, OF s2] bindA_Inr [where m = ?m3, OF s3]
    by (auto simp: bindA_def mem_pods split: option.split)
  moreover have "drainedNode ?n3" by (simp add: drainedNode_spec)
  ultimately show ?thesis by blast
qed

lemma mem_handleNodeDrain:
  assumes "Drain acts"
  shows "\<exists>res n. handleNodeDrain memRebooter r node acts w = (res, w\<lparr>rw_node := n\<rparr>) \<and> drainedNode n"
proof -
  obtain res n where d: "DrainNodeIfNeeded memRebooter r node w = (res, w\<lparr>rw_node := n\<rparr>)" "drainedNode n"
    using mem_DrainNodeIfNeeded by blast
  have n: "drainedNode (drainSet n ReasonNodeDrained MessageDrained (rw_now w))"
    using d(2) by (simp add: drainedNode_drainSet) (simp add: drainedNode_def)
  show ?thesis
  proof (cases res)
    case (Inl e)
    then show ?thesis using assms d by (auto simp: handleNodeDrain_def bindA_def)
  next
    case (Inr m)
    then show ?thesis using assms d(1) n by (auto simp: handleNodeDrain_def bindA_def mem_setNodeCondition drainSet_def Let_def)
  qed
qed

text \<open>
  The node is marked as rebooted, or was booted after the reboot was asked for, and its drain condition is
  true: the state in which the rebooter finds it after a reboot.
\<close>

definition backFromReboot :: "rebootWorld \<Rightarrow> bool" where
  "backFromReboot w \<longleftrightarrow> conditionThat (\<lambda>d. nc_Status d = ConditionTrue) (GetNodeConditions (rw_node w) SlurmNodeDrain)
     \<and> conditionThat (\<lambda>c. nc_LastTransitionTime c \<le> rw_boot w \<or> nc_Reason c = ReasonNodeRebooted) (rebootCondition w)"

definition leftDrained :: "rebootWorld \<Rightarrow> bool" where
  "leftDrained w \<longleftrightarrow> drainedNode (rw_node w) \<and> conditionThat (\<lambda>c. nc_Reason c = ReasonNodeRebooted) (rebootCondition w)"

lemma leftDrained_back: "leftDrained w \<Longrightarrow> backFromReboot w"
  by (auto simp: leftDrained_def backFromReboot_def drainedNode_def conditionThat_iff)

lemma mem_succeeds:
  "succeeds (setNodeCondition memRebooter r node ty st re msg)" "succeeds (SetNodeUnschedulable memRebooter node b)"
  "succeeds (TaintNodeWithNoExecute memRebooter node b)"
  by (simp_all add: succeeds_def memCalls Let_def)

lemma mem_handleNodeUnDrain: "succeeds (handleNodeUnDrain memRebooter r node)"
  unfolding handleNodeUnDrain_def UndrainNodeIfNeeded_def by (intro succeeds_compose mem_succeeds) (simp add: succeeds_compose mem_succeeds)

lemma mem_mark:
  "\<exists>n w' c'. setNodeCondition memRebooter r node SlurmNodeReboot ConditionTrue re msg w = (Inr n, w') \<and> rebootCondition w' = Some c' \<and> nc_Reason c' = re"
  by (simp add: mem_setNodeCondition Let_def rebootCondition_def setCondition_get)

text \<open>The drain decision is taken from the node as it was fetched, before the reboot is cleaned up.\<close>

lemma mem_GetActions_drain:
  assumes "backFromReboot w"
  shows "\<exists>n w' c'. GetActions memRebooter r (rw_node w) w = (Inr (\<lparr>Reboot = False, Drain = True\<rparr>, n), w')
    \<and> rebootCondition w' = Some c' \<and> nc_Reason c' = ReasonNodeRebooted"
proof -
  obtain d c where d: "GetNodeConditions (rw_node w) SlurmNodeDrain = Some d" "nc_Status d = ConditionTrue"
    and c: "GetNodeConditions (rw_node w) SlurmNodeReboot = Some c" "nc_LastTransitionTime c \<le> rw_boot w \<or> nc_Reason c = ReasonNodeRebooted"
    using assms by (auto simp: backFromReboot_def rebootCondition_def conditionThat_iff)
  have drain: "checkIfNodeNeedsDrain d"
    using d by (auto simp: checkIfNodeNeedsDrain_def CheckNodeCondition_def GetNodeConditions_def find_Some_iff)
  let ?clean = "if checkIfNodeNeedsReboot c then handleNodeUnDrain memRebooter r (rw_node w) else ret (rw_node w)"
  obtain n1 w1 where u: "?clean w = (Inr n1, w1)" by (rule succeedsE [of ?clean]) (simp_all add: mem_handleNodeUnDrain succeeds_ret)
  obtain n2 w2 c2 where s: "setNodeCondition memRebooter r n1 SlurmNodeReboot ConditionTrue ReasonNodeRebooted MessageRebooted w1 = (Inr n2, w2)"
    "rebootCondition w2 = Some c2" "nc_Reason c2 = ReasonNodeRebooted" using mem_mark by blast
  show ?thesis
  proof (cases "rw_boot w < nc_LastTransitionTime c")
    case True
    then have "GetActions memRebooter r (rw_node w) w = (Inr (\<lparr>Reboot = False, Drain = True\<rparr>, rw_node w), w)"
      using c d drain by (simp add: GetActions_def bindA_def mem_uptime checkIfNodeNeedsReboot_def ret_def)
    then show ?thesis using True c by (simp add: rebootCondition_def)
  next
    case False
    have "GetActions memRebooter r (rw_node w) w =
      bindA ?clean (\<lambda>node1. bindA (wrapA ''set node condition: %w'' []
          (setNodeCondition memRebooter r node1 SlurmNodeReboot ConditionTrue ReasonNodeRebooted MessageRebooted)) (\<lambda>node2.
        ret (\<lparr>Reboot = False, Drain = True\<rparr>, node2))) w"
      using c d drain False unfolding GetActions_def Let_def
      by (simp only: option.case bindA_Inr [where m = "IsUptimeGreaterThanLastTransition memRebooter t" for t, OF mem_uptime]) simp
    also have "\<dots> = (Inr (\<lparr>Reboot = False, Drain = True\<rparr>, n2), w2)"
      unfolding bindA_Inr [where m = ?clean, OF u] using s(1) by (simp add: bindA_def wrapA_def ret_def)
    finally show ?thesis using s by blast
  qed
qed

lemma Reconcile_leftDrained:
  assumes "backFromReboot w"
  shows "leftDrained (snd (Reconcile_rebooter memRebooter r w))"
proof -
  let ?acts = "\<lparr>Reboot = False, Drain = True\<rparr>"
  obtain n w1 c where a: "GetActions memRebooter r (rw_node w) w = (Inr (?acts, n), w1)"
    and c: "rebootCondition w1 = Some c" "nc_Reason c = ReasonNodeRebooted"
    using mem_GetActions_drain [OF assms] by blast
  obtain res m where d: "handleNodeDrain memRebooter r n ?acts w1 = (res, w1\<lparr>rw_node := m\<rparr>)" "drainedNode m"
    using mem_handleNodeDrain [of ?acts r n w1] by auto
  have got: "getNode_rebooter memRebooter r w = (Inr (rw_node w), w)" by (simp add: getNode_rebooter_def wrapA_def memRebooter_def)
  have "snd (Reconcile_rebooter memRebooter r w) = w1\<lparr>rw_node := m\<rparr>"
    unfolding Reconcile_rebooter_def bindA_Inr [where m = "getNode_rebooter memRebooter r", OF got]
      bindA_Inr [where m = "GetActions memRebooter r (rw_node w)", OF a] prod.case
    using d(1) by (cases res) (auto simp: tryA_def handleDrainError_def handleNodeReboot_def bindA_def)
  moreover have "rebootCondition (w1\<lparr>rw_node := m\<rparr>) = rebootCondition w1"
    using keepsViewD [OF lifeView_handlers(1) d(1)] lifeView_eqD by blast
  ultimately show ?thesis using c d(2) by (simp add: leftDrained_def conditionThat_iff)
qed

text \<open>
  A node that comes back from a reboot with its drain condition still true, as the rebooter left it, is
  drained again by the reconciliation that cleans up, and stays unschedulable with its drain condition true
  through every later step until another reboot is asked for.
\<close>

lemma rebooted_node_stays_drained:
  assumes "backFromReboot w" and "w1 = snd (Reconcile_rebooter memRebooter r w)"
    and "(\<lambda>a b. lifeStep r (a, n) (b, n))\<^sup>*\<^sup>* w1 w2"
  shows "rn_unschedulable (rw_node w2)
    \<and> (\<exists>d. GetNodeConditions (rw_node w2) SlurmNodeDrain = Some d \<and> nc_Status d = ConditionTrue)"
proof -
  have keeps: "lifeStep r (a, n) (b, n) \<Longrightarrow> leftDrained a \<Longrightarrow> leftDrained b" for a b
    by (erule lifeStepE) (simp_all add: Reconcile_leftDrained leftDrained_back, simp_all add: leftDrained_def rebootCondition_def)
  from assms(3) have "leftDrained w2"
  proof (induction rule: rtranclp_induct)
    case base
    show ?case using Reconcile_leftDrained [OF assms(1)] assms(2) by simp
  next
    case (step a b)
    then show ?case using keeps by blast
  qed
  then show ?thesis by (simp add: leftDrained_def drainedNode_def conditionThat_iff)
qed

text \<open>A node that carries the rebooter's taint key with another effect is never tainted with NoExecute.\<close>

lemma TaintNodeWithNoExecute_other_effect:
  assumes "list_ex (\<lambda>t. t_Key t = noExecuteKey) (rn_taints (rw_node w))"
  shows "TaintNodeWithNoExecute memRebooter node True w = (Inr (rw_node w), w)"
  using assms by (simp add: mem_TaintNodeWithNoExecute mutateTaint_def IsNodeTaintedWithNoExecute_def)

section \<open>Witnesses\<close>

definition exampleRebooter :: rebooter where
  "exampleRebooter = \<lparr>r_nodeName = ''n1'', r_reconcileTimeout = 60, r_evictionMethod = RebooterEvict\<rparr>"

definition idleWorld :: rebootWorld where
  "idleWorld = \<lparr>rw_node = \<lparr>rn_name = ''n1'', rn_unschedulable = False, rn_taints = [], rn_conditions = []\<rparr>,
     rw_pods = [\<lparr>np_name = ''agent'', np_ownerKinds = [''DaemonSet''], np_tolerations = []\<rparr>],
     rw_now = 5, rw_boot = 1, rw_reboots = 0\<rparr>"

definition askedWorld :: rebootWorld where
  "askedWorld = requestReboot ''NodeNeedReboot'' idleWorld"

lemmas rebooter_evaluates = Reconcile_rebooter_def getNode_rebooter_def GetActions_def handleNodeDrain_def DrainNodeIfNeeded_def
  handleNodeReboot_def bindA_def wrapA_def tryA_def ret_def memCalls Let_def setCondition_def mutateTaint_def
  IsNodeTaintedWithNoExecute_def IsNodeUnschedulabled_def GetNodeConditions_def checkIfNodeNeedsReboot_def
  CheckNodeCondition_def IsControlledByDaemonSet_def SlurmNodeDrain_def SlurmNodeReboot_def ReasonNodeRebooted_def
  ConditionTrue_def

lemma askedWorld_run:
  "\<exists>w. Reconcile_rebooter memRebooter exampleRebooter askedWorld = (Inr 60, w) \<and> rw_reboots w = 1 \<and> backFromReboot w"
proof -
  have "rb_getCached memRebooter name = (\<lambda>w. (Inr (rw_node w), w))" for name by (simp add: memRebooter_def)
  then show ?thesis
    by (simp add: rebooter_evaluates exampleRebooter_def askedWorld_def requestReboot_def idleWorld_def
        backFromReboot_def conditionThat_def rebootCondition_def)
qed

lemma askedWorld_runs:
  "rw_reboots (snd (Reconcile_rebooter memRebooter exampleRebooter askedWorld)) = 1"
  "backFromReboot (snd (Reconcile_rebooter memRebooter exampleRebooter askedWorld))"
  using askedWorld_run by auto


lemma reboots_bounded_by_requests_witness:
  "rw_reboots (snd (Reconcile_rebooter memRebooter exampleRebooter askedWorld)) \<le> 1"
proof -
  have "lifeStep exampleRebooter (idleWorld, 0) (askedWorld, 1)"
    using reboot_asked [of exampleRebooter idleWorld 0 "''NodeNeedReboot''"] by (simp add: askedWorld_def)
  then have "(lifeStep exampleRebooter)\<^sup>*\<^sup>* (idleWorld, 0) (snd (Reconcile_rebooter memRebooter exampleRebooter askedWorld), 1)"
    by (meson reconciles rtranclp.intros)
  from reboots_bounded_by_requests [OF this] show ?thesis by (simp add: idleWorld_def)
qed

lemma rebooted_node_stays_drained_witness:
  "rn_unschedulable (rw_node (snd (Reconcile_rebooter memRebooter exampleRebooter (snd (Reconcile_rebooter memRebooter exampleRebooter askedWorld)))))"
  using rebooted_node_stays_drained [OF askedWorld_runs(2) refl rtranclp.rtrancl_refl] by simp

end
