(* ===== verification/Go_Path.thy ===== *)
theory Go_Path
  imports Go_Prelude
begin

text \<open>
  Package path/filepath of the Go library on a Unix system: the lexical operations Clean, Join, Base, Dir
  and IsAbs, on paths as strings. A path is taken apart at its slashes; \<open>cleanStep\<close> is one element of
  Clean's loop, with the elements kept so far in reverse. The lemmas give the result of joining a clean
  directory with a path that has no dot elements.
\<close>

abbreviation slash :: char where "slash \<equiv> CHR ''/''"

fun isAbs :: "string \<Rightarrow> bool" where
  "isAbs [] = False"
| "isAbs (c # p) = (c = slash)"

definition cleanStep :: "bool \<Rightarrow> string \<Rightarrow> string list \<Rightarrow> string list" where
  "cleanStep rooted seg acc =
     (if seg = [] \<or> seg = ''.'' then acc
      else if seg = ''..'' then
        (case acc of [] \<Rightarrow> if rooted then [] else [''..''] | x # xs \<Rightarrow> if x = ''..'' then ''..'' # acc else xs)
      else seg # acc)"

definition cleanSegs :: "bool \<Rightarrow> string list \<Rightarrow> string list" where
  "cleanSegs rooted segs = rev (fold (cleanStep rooted) segs [])"

definition pathClean :: "string \<Rightarrow> string" where
  "pathClean p =
     (let segs = cleanSegs (isAbs p) (strSplit slash p)
      in if isAbs p then slash # strJoin [slash] segs else if segs = [] then ''.'' else strJoin [slash] segs)"

definition pathJoin :: "string \<Rightarrow> string \<Rightarrow> string" where
  "pathJoin a b = (if a \<noteq> [] then pathClean (a @ slash # b) else if b \<noteq> [] then pathClean b else [])"

definition pathBase :: "string \<Rightarrow> string" where
  "pathBase p =
     (if p = [] then ''.''
      else let q = rev (dropWhile (\<lambda>c. c = slash) (rev p))
           in if q = [] then ''/'' else last (strSplit slash q))"

definition pathDir :: "string \<Rightarrow> string" where
  "pathDir p = pathClean (case lastIndex slash p of None \<Rightarrow> [] | Some i \<Rightarrow> take (Suc i) p)"

text \<open>The path of a list of elements below a directory.\<close>

definition below :: "string \<Rightarrow> string list \<Rightarrow> string" where
  "below d segs = d @ concat (map (\<lambda>s. slash # s) segs)"

definition plainSeg :: "string \<Rightarrow> bool" where
  "plainSeg s \<longleftrightarrow> s \<noteq> [] \<and> s \<noteq> ''.'' \<and> s \<noteq> ''..'' \<and> slash \<notin> set s"

text \<open>A directory as Clean returns it, other than the root.\<close>

definition cleanDir :: "string \<Rightarrow> bool" where
  "cleanDir d \<longleftrightarrow> isAbs d \<and> pathClean d = d \<and> d \<noteq> ''/''"

lemma strSplit_cut: "strSplit c (a @ c # b) = strSplit c a @ strSplit c b"
  by (induction a) (auto split: list.split)

lemma strSplit_no_sep: "s \<in> set (strSplit c p) \<Longrightarrow> c \<notin> set s"
proof (induction p arbitrary: s)
  case (Cons x p)
  then show ?case by (auto split: if_splits list.splits)
qed simp

lemma strSplit_below: "(\<And>s. s \<in> set segs \<Longrightarrow> slash \<notin> set s) \<Longrightarrow> strSplit slash (below d segs) = strSplit slash d @ segs"
proof (induction segs arbitrary: d)
  case (Cons s segs)
  have "below d (s # segs) = below (d @ slash # s) segs" by (simp add: below_def)
  then show ?case using Cons.IH [of "d @ slash # s"] Cons.prems by (simp add: strSplit_cut strSplit_single)
qed (simp add: below_def)

lemma isAbs_append: "isAbs d \<Longrightarrow> isAbs (d @ p)"
  by (cases d) simp_all

lemma fold_cleanStep:
  "(\<And>s. s \<in> set segs \<Longrightarrow> s \<noteq> ''.'' \<and> s \<noteq> ''..'') \<Longrightarrow> fold (cleanStep r) segs acc = rev (filter (\<lambda>s. s \<noteq> []) segs) @ acc"
  by (induction segs arbitrary: acc) (auto simp: cleanStep_def)

lemma cleanSegs_append:
  "(\<And>s. s \<in> set segs \<Longrightarrow> s \<noteq> ''.'' \<and> s \<noteq> ''..'') \<Longrightarrow> cleanSegs r (xs @ segs) = cleanSegs r xs @ filter (\<lambda>s. s \<noteq> []) segs"
  by (simp add: cleanSegs_def fold_cleanStep)

lemma strJoin_below: "as \<noteq> [] \<Longrightarrow> slash # strJoin [slash] (as @ bs) = below (slash # strJoin [slash] as) bs"
proof (induction as rule: induct_list012)
  case (2 a)
  show ?case
  proof (cases bs)
    case (Cons b bs')
    have "strJoin [slash] (b # bs') = b @ concat (map (\<lambda>s. slash # s) bs')"
      by (induction bs' arbitrary: b) auto
    with Cons show ?thesis by (simp add: below_def)
  qed (simp add: below_def)
next
  case (3 a b zs)
  then show ?case by (simp add: below_def)
qed simp

lemma cleanDir_segs: "cleanDir d \<Longrightarrow> cleanSegs True (strSplit slash d) \<noteq> [] \<and> d = slash # strJoin [slash] (cleanSegs True (strSplit slash d))"
  by (auto simp: cleanDir_def pathClean_def Let_def)

text \<open>Joining a clean directory with a path without dot elements appends its elements.\<close>

lemma pathJoin_below:
  assumes "cleanDir d" "\<And>s. s \<in> set (strSplit slash p) \<Longrightarrow> s \<noteq> ''.'' \<and> s \<noteq> ''..''"
  shows "pathJoin d p = below d (filter (\<lambda>s. s \<noteq> []) (strSplit slash p))"
proof -
  let ?ds = "cleanSegs True (strSplit slash d)"
  have d: "d \<noteq> []" "isAbs d" "?ds \<noteq> []" "d = slash # strJoin [slash] ?ds"
    using assms(1) cleanDir_segs [OF assms(1)] by (auto simp: cleanDir_def)
  then have "pathJoin d p = slash # strJoin [slash] (?ds @ filter (\<lambda>s. s \<noteq> []) (strSplit slash p))"
    using assms(2) by (simp add: pathJoin_def pathClean_def strSplit_cut cleanSegs_append isAbs_append Let_def)
  also have "\<dots> = below d (filter (\<lambda>s. s \<noteq> []) (strSplit slash p))" using d strJoin_below by metis
  finally show ?thesis .
qed

lemma below_snoc: "below d (segs @ [s]) = below d segs @ slash # s"
  by (simp add: below_def)

lemma below_inject_dir: "below d segs = d @ q \<Longrightarrow> q = concat (map (\<lambda>s. slash # s) segs)"
  by (simp add: below_def)

text \<open>What is below a clean directory is again a clean directory.\<close>

lemma cleanDir_below:
  assumes "cleanDir d" "\<And>s. s \<in> set segs \<Longrightarrow> plainSeg s"
  shows "cleanDir (below d segs)"
proof -
  let ?ds = "cleanSegs True (strSplit slash d)"
  have d: "isAbs d" "?ds \<noteq> []" "d = slash # strJoin [slash] ?ds" using assms(1) cleanDir_segs [OF assms(1)] by (auto simp: cleanDir_def)
  have abs: "isAbs (below d segs)" using d(1) by (cases d) (simp_all add: below_def)
  have "cleanSegs True (strSplit slash (below d segs)) = ?ds @ segs"
    using assms(2) by (subst strSplit_below) (auto simp: plainSeg_def cleanSegs_append intro!: filter_True)
  then have "pathClean (below d segs) = below d segs"
    using abs d strJoin_below [of ?ds segs] by (simp add: pathClean_def)
  moreover have "below d segs \<noteq> ''/''"
    using d(1) assms(1) by (cases d; cases segs) (auto simp: below_def cleanDir_def)
  ultimately show ?thesis using abs by (simp add: cleanDir_def)
qed

lemma lastIndex_cut: "c \<notin> set s \<Longrightarrow> lastIndex c (p @ c # s) = Some (length p)"
proof (induction p)
  case Nil
  have "lastIndex c s = None" using Nil by (induction s) auto
  then show ?case by simp
qed simp

lemma pathDir_below:
  assumes "cleanDir d" "\<And>t. t \<in> set segs \<Longrightarrow> plainSeg t" "plainSeg s"
  shows "pathDir (below d (segs @ [s])) = below d segs"
proof -
  have "cleanDir (below d segs)" using assms(1,2) by (rule cleanDir_below)
  then have c: "pathClean (below d segs) = below d segs" "isAbs (below d segs)" by (simp_all add: cleanDir_def)
  have "pathClean (below d segs @ [slash]) = pathClean (below d segs)"
    using c(2) by (simp add: pathClean_def strSplit_cut cleanSegs_def cleanStep_def isAbs_append Let_def)
  then show ?thesis using assms(3) c
    by (simp add: below_snoc pathDir_def lastIndex_cut plainSeg_def)
qed

lemma pathBase_below: "plainSeg s \<Longrightarrow> pathBase (below d (segs @ [s])) = s"
proof -
  assume s: "plainSeg s"
  then obtain c t where "rev s = c # t" "c \<noteq> slash" by (cases s rule: rev_cases) (auto simp: plainSeg_def)
  then have "dropWhile (\<lambda>c. c = slash) (rev (below d segs @ slash # s)) = rev (below d segs @ slash # s)" by simp
  then show ?thesis using s by (simp add: below_snoc pathBase_def strSplit_cut strSplit_single plainSeg_def)
qed

end
