(* ===== verification/Jail_Fs.thy ===== *)
theory Jail_Fs
  imports Go_Action Go_Path
begin

text \<open>
  The file system of the configuration controller, internal/controller/sconfigcontroller/fs.go and
  fs_linux.go: the interface \<open>Fs\<close>, and its implementation \<open>PrefixFs\<close> that maps the paths of the jail to
  paths below a prefix directory.

  The system calls (record \<open>osCalls\<close>) are parameters. What they are relied on for is the locale
  \<open>os_calls\<close>: it speaks of the regular files by path, of their inodes and of the content and mode of an
  inode, and of the paths that are directories or other special files. The locale \<open>jail_fs\<close> states what a
  client of \<open>Fs\<close> relies on, in the same terms but by path inside the jail. \<open>PrefixFs\<close> gives the second
  from the first (sublocale), and both are interpreted on a file system in memory. A handle of an open
  temporary file is its name.
\<close>

section \<open>System calls and the interface\<close>

record 'w osCalls =
  os_Lstat :: "string \<Rightarrow> ('w, bool) action"
  os_MkdirAll :: "string \<Rightarrow> int \<Rightarrow> ('w, unit) action"
  os_CreateTemp :: "string \<Rightarrow> string \<Rightarrow> ('w, string) action"
  os_Write :: "string \<Rightarrow> string \<Rightarrow> ('w, unit) action"
  os_Close :: "string \<Rightarrow> ('w, unit) action"
  os_Chmod :: "string \<Rightarrow> int \<Rightarrow> ('w, unit) action"
  os_Remove :: "string \<Rightarrow> ('w, unit) action"
  os_Rename :: "string \<Rightarrow> string \<Rightarrow> ('w, unit) action"
  os_RenameExchange :: "string \<Rightarrow> string \<Rightarrow> ('w, unit) action"
  os_RenameNoReplace :: "string \<Rightarrow> string \<Rightarrow> ('w, unit) action"
  os_Sleep :: "int \<Rightarrow> ('w, unit) action"

record 'w Fs =
  fs_MkdirAll :: "string \<Rightarrow> int \<Rightarrow> ('w, unit) action"
  fs_PrepareNewFile :: "string \<Rightarrow> string \<Rightarrow> int \<Rightarrow> ('w, string) action"
  fs_RenameExchange :: "string \<Rightarrow> string \<Rightarrow> ('w, unit) action"
  fs_RenameNoReplace :: "string \<Rightarrow> string \<Rightarrow> ('w, unit) action"
  fs_Remove :: "string \<Rightarrow> ('w, unit) action"
  fs_SyncCaches :: "('w, unit) action"

definition isRenameNotSupported :: "goError \<Rightarrow> bool" where
  "isRenameNotSupported err \<longleftrightarrow> errorsIs err (OsError EINVAL) \<or> errorsIs err (OsError ENOTSUP) \<or> errorsIs err (OsError ENOSYS)"

definition renameExchange :: "'w osCalls \<Rightarrow> string \<Rightarrow> string \<Rightarrow> ('w, unit) action" where
  "renameExchange os oldPath newPath =
     tryA (os_RenameExchange os oldPath newPath) (\<lambda>r. case r of
       Inl err \<Rightarrow> if isRenameNotSupported err then os_Rename os oldPath newPath else raise err
     | Inr _ \<Rightarrow> ret ())"

definition renameNoReplace :: "'w osCalls \<Rightarrow> string \<Rightarrow> string \<Rightarrow> ('w, unit) action" where
  "renameNoReplace os oldPath newPath =
     tryA (os_RenameNoReplace os oldPath newPath) (\<lambda>r. case r of
       Inl err \<Rightarrow> if isRenameNotSupported err then os_Rename os oldPath newPath else raise err
     | Inr _ \<Rightarrow> ret ())"

section \<open>PrefixFs\<close>

record PrefixFs =
  Prefix :: string

definition delayBetweenWriteAndReconfigure :: int where
  "delayBetweenWriteAndReconfigure = 15 * 10 ^ 9 + 10 ^ 9"

fun checkSegments :: "'w osCalls \<Rightarrow> string \<Rightarrow> string \<Rightarrow> string list \<Rightarrow> ('w, unit) action" where
  "checkSegments os prefix acc [] = ret ()"
| "checkSegments os prefix acc (segment # segments) =
     (if segment = ''.'' \<or> segment = ''..'' then raise (Errorf ''path traversal is not supported'' [])
      else let acc' = pathJoin acc segment in
        if acc' = prefix then checkSegments os prefix acc' segments
        else tryA (os_Lstat os acc') (\<lambda>r. case r of
          Inl err \<Rightarrow> if errorsIs err (OsError ENOENT) then checkSegments os prefix acc' segments else raise err
        | Inr symlink \<Rightarrow> if symlink then raise (Errorf ''symlinks in path are not supported: %q'' [acc'])
                        else checkSegments os prefix acc' segments))"

definition checkPath :: "'w osCalls \<Rightarrow> PrefixFs \<Rightarrow> string \<Rightarrow> ('w, unit) action" where
  "checkPath os pfs innerPath =
     (if \<not> isAbs innerPath then raise (Errorf ''path is not absolute'' [])
      else checkSegments os (Prefix pfs) (Prefix pfs) (strSplit slash innerPath))"

definition addPrefix :: "'w osCalls \<Rightarrow> PrefixFs \<Rightarrow> string \<Rightarrow> ('w, string) action" where
  "addPrefix os pfs innerPath = bindA (checkPath os pfs innerPath) (\<lambda>_. ret (pathJoin (Prefix pfs) innerPath))"

definition removePrefix :: "PrefixFs \<Rightarrow> string \<Rightarrow> goError + string" where
  "removePrefix pfs path =
     (if hasPrefix path (Prefix pfs) then Inr (drop (length (Prefix pfs)) path)
      else Inl (Errorf ''path %q does not have prefix %q'' [path, Prefix pfs]))"

definition MkdirAll :: "'w osCalls \<Rightarrow> PrefixFs \<Rightarrow> string \<Rightarrow> int \<Rightarrow> ('w, unit) action" where
  "MkdirAll os pfs path mode = bindA (addPrefix os pfs path) (\<lambda>prefixed. os_MkdirAll os prefixed mode)"

text \<open>An error path of PrepareNewFile: the deferred removal of the temporary file joins its own error.\<close>

definition removeTemp :: "'w osCalls \<Rightarrow> string \<Rightarrow> goError \<Rightarrow> ('w, 'a) action" where
  "removeTemp os tempFileName err =
     tryA (os_Remove os tempFileName) (\<lambda>r. raise (case r of Inl e \<Rightarrow> JoinErr err e | Inr _ \<Rightarrow> err))"

definition tempInfix :: string where
  "tempInfix = ''-sconfigcontroller-''"

definition tempPattern :: "string \<Rightarrow> string" where
  "tempPattern baseName = baseName @ tempInfix @ ''*''"

text \<open>The part of PrepareNewFile after the file is created.\<close>

definition fillTemp :: "'w osCalls \<Rightarrow> PrefixFs \<Rightarrow> string \<Rightarrow> string \<Rightarrow> int \<Rightarrow> ('w, string) action" where
  "fillTemp os pfs tempFileName content mode =
     tryA (wrapA ''write temp file: %w'' [] (os_Write os tempFileName content)) (\<lambda>r. case r of
       Inl err \<Rightarrow> tryA (os_Close os tempFileName) (\<lambda>c.
         removeTemp os tempFileName (case c of Inl e \<Rightarrow> JoinErr err e | Inr _ \<Rightarrow> err))
     | Inr _ \<Rightarrow> tryA (wrapA ''close temp file: %w'' [] (os_Close os tempFileName)) (\<lambda>r. case r of
         Inl err \<Rightarrow> removeTemp os tempFileName err
       | Inr _ \<Rightarrow> tryA (wrapA ''chmod temp file: %w'' [] (os_Chmod os tempFileName mode)) (\<lambda>r. case r of
           Inl err \<Rightarrow> removeTemp os tempFileName err
         | Inr _ \<Rightarrow> liftA (removePrefix pfs tempFileName))))"

definition PrepareNewFile :: "'w osCalls \<Rightarrow> PrefixFs \<Rightarrow> string \<Rightarrow> string \<Rightarrow> int \<Rightarrow> ('w, string) action" where
  "PrepareNewFile os pfs oldFile content mode =
     bindA (addPrefix os pfs oldFile) (\<lambda>prefixed.
     bindA (wrapA ''create temp file: %w'' [] (os_CreateTemp os (pathDir prefixed) (tempPattern (pathBase prefixed)))) (\<lambda>tempFileName.
       fillTemp os pfs tempFileName content mode))"

definition withPrefixes :: "'w osCalls \<Rightarrow> PrefixFs \<Rightarrow> (string \<Rightarrow> string \<Rightarrow> ('w, unit) action) \<Rightarrow> string \<Rightarrow> string \<Rightarrow> ('w, unit) action" where
  "withPrefixes os pfs f oldPath newPath =
     bindA (addPrefix os pfs oldPath) (\<lambda>prefixedOld. bindA (addPrefix os pfs newPath) (\<lambda>prefixedNew. f prefixedOld prefixedNew))"

definition RenameExchange :: "'w osCalls \<Rightarrow> PrefixFs \<Rightarrow> string \<Rightarrow> string \<Rightarrow> ('w, unit) action" where
  "RenameExchange os pfs = withPrefixes os pfs (renameExchange os)"

definition RenameNoReplace :: "'w osCalls \<Rightarrow> PrefixFs \<Rightarrow> string \<Rightarrow> string \<Rightarrow> ('w, unit) action" where
  "RenameNoReplace os pfs = withPrefixes os pfs (renameNoReplace os)"

definition Remove :: "'w osCalls \<Rightarrow> PrefixFs \<Rightarrow> string \<Rightarrow> ('w, unit) action" where
  "Remove os pfs name = bindA (addPrefix os pfs name) (\<lambda>prefixed. os_Remove os prefixed)"

definition SyncCaches :: "'w osCalls \<Rightarrow> ('w, unit) action" where
  "SyncCaches os = bindA (os_Sleep os delayBetweenWriteAndReconfigure) (\<lambda>_. ret ())"

definition prefixFs :: "'w osCalls \<Rightarrow> PrefixFs \<Rightarrow> 'w Fs" where
  "prefixFs os pfs = \<lparr>fs_MkdirAll = MkdirAll os pfs, fs_PrepareNewFile = PrepareNewFile os pfs,
     fs_RenameExchange = RenameExchange os pfs, fs_RenameNoReplace = RenameNoReplace os pfs,
     fs_Remove = Remove os pfs, fs_SyncCaches = SyncCaches os\<rparr>"

section \<open>What the calls promise\<close>

text \<open>Regular files by path, content and mode by inode, and the paths of directories and special files.\<close>

record fsView =
  v_names :: "string \<Rightarrow> nat option"
  v_data :: "nat \<Rightarrow> string \<times> int"
  v_dirs :: "string \<Rightarrow> bool"

definition moveName :: "string \<Rightarrow> string \<Rightarrow> nat \<Rightarrow> fsView \<Rightarrow> fsView" where
  "moveName a b i v = v\<lparr>v_names := (v_names v)(a := None, b \<mapsto> i)\<rparr>"

definition swapNames :: "string \<Rightarrow> string \<Rightarrow> nat \<Rightarrow> nat \<Rightarrow> fsView \<Rightarrow> fsView" where
  "swapNames a b i j v = v\<lparr>v_names := (v_names v)(a \<mapsto> j, b \<mapsto> i)\<rparr>"

definition unlinkName :: "string \<Rightarrow> fsView \<Rightarrow> fsView" where
  "unlinkName a v = v\<lparr>v_names := (v_names v)(a := None)\<rparr>"

definition newFile :: "string \<Rightarrow> nat \<Rightarrow> string \<times> int \<Rightarrow> fsView \<Rightarrow> fsView" where
  "newFile a i d v = v\<lparr>v_names := (v_names v)(a \<mapsto> i), v_data := (v_data v)(i := d)\<rparr>"

definition setData :: "nat \<Rightarrow> string \<times> int \<Rightarrow> fsView \<Rightarrow> fsView" where
  "setData i d v = v\<lparr>v_data := (v_data v)(i := d)\<rparr>"

lemmas fs_updates = moveName_def swapNames_def unlinkName_def newFile_def setData_def

text \<open>A directory and those above it, as paths.\<close>

definition dirsTo :: "string \<Rightarrow> string list" where
  "dirsTo p = map (\<lambda>i. take i p) (filter (\<lambda>i. i = length p \<or> p ! i = slash) [1..<Suc (length p)])"

text \<open>
  The system calls. \<open>swaps\<close> says that the file system implements the flags of renameat2. A call that
  fails changes no name; a failed write or close may leave anything in the file it was for.
\<close>

locale os_calls =
  fixes os :: "'w osCalls" and view :: "'w \<Rightarrow> fsView" and swaps :: bool
  assumes os_lstat: "keepsView view (os_Lstat os p)"
    and os_mkdir: "os_MkdirAll os p m w = (r, w') \<Longrightarrow> v_names (view w') = v_names (view w) \<and> v_data (view w') = v_data (view w)
      \<and> (\<forall>k. v_dirs (view w') k \<longrightarrow> v_dirs (view w) k \<or> k \<in> set (dirsTo p) \<and> v_names (view w) k = None)"
    and os_create: "cleanDir d \<Longrightarrow> os_CreateTemp os d (b @ ''*'') w = (Inr n, w') \<Longrightarrow>
      \<exists>rnd i. n = d @ slash # b @ rnd \<and> slash \<notin> set rnd \<and> v_names (view w) n = None \<and> \<not> v_dirs (view w) n
        \<and> i \<notin> ran (v_names (view w)) \<and> view w' = newFile n i ([], 384) (view w)"
    and os_create_err: "os_CreateTemp os d pat w = (Inl e, w') \<Longrightarrow> view w' = view w"
    and os_write: "v_names (view w) n = Some i \<Longrightarrow> os_Write os n c w = (Inr u, w') \<Longrightarrow>
      view w' = setData i (fst (v_data (view w) i) @ c, snd (v_data (view w) i)) (view w)"
    and os_write_err: "v_names (view w) n = Some i \<Longrightarrow> os_Write os n c w = (Inl e, w') \<Longrightarrow> \<exists>d. view w' = setData i d (view w)"
    and os_close: "os_Close os n w = (Inr u, w') \<Longrightarrow> view w' = view w"
    and os_close_err: "v_names (view w) n = Some i \<Longrightarrow> os_Close os n w = (Inl e, w') \<Longrightarrow> \<exists>d. view w' = setData i d (view w)"
    and os_chmod: "v_names (view w) n = Some i \<Longrightarrow> os_Chmod os n m w = (Inr u, w') \<Longrightarrow> view w' = setData i (fst (v_data (view w) i), m) (view w)"
    and os_chmod_err: "os_Chmod os n m w = (Inl e, w') \<Longrightarrow> view w' = view w"
    and os_remove: "\<not> v_dirs (view w) n \<Longrightarrow> os_Remove os n w = (Inr u, w') \<Longrightarrow> view w' = unlinkName n (view w)"
    and os_remove_err: "os_Remove os n w = (Inl e, w') \<Longrightarrow> view w' = view w"
    and os_remove_missing: "os_Remove os n w = (Inl (OsError ENOENT), w') \<Longrightarrow> v_names (view w) n = None"
    and os_rename: "a \<noteq> b \<Longrightarrow> v_names (view w) a = Some i \<Longrightarrow> \<not> v_dirs (view w) b \<Longrightarrow> os_Rename os a b w = (Inr u, w') \<Longrightarrow>
      view w' = moveName a b i (view w)"
    and os_rename_err: "os_Rename os a b w = (Inl e, w') \<Longrightarrow> view w' = view w"
    and os_exchange: "v_names (view w) a = Some i \<Longrightarrow> \<not> v_dirs (view w) b \<Longrightarrow> os_RenameExchange os a b w = (Inr u, w') \<Longrightarrow>
      \<exists>j. v_names (view w) b = Some j \<and> view w' = swapNames a b i j (view w)"
    and os_exchange_err: "os_RenameExchange os a b w = (Inl e, w') \<Longrightarrow> view w' = view w"
    and os_exchange_supported: "swaps \<Longrightarrow> v_names (view w) a = Some i \<Longrightarrow> os_RenameExchange os a b w = (Inl e, w') \<Longrightarrow> \<not> isRenameNotSupported e"
    and os_noreplace: "a \<noteq> b \<Longrightarrow> v_names (view w) a = Some i \<Longrightarrow> \<not> v_dirs (view w) b \<Longrightarrow> os_RenameNoReplace os a b w = (Inr u, w') \<Longrightarrow>
      v_names (view w) b = None \<and> view w' = moveName a b i (view w)"
    and os_noreplace_err: "os_RenameNoReplace os a b w = (Inl e, w') \<Longrightarrow> view w' = view w"
    and os_noreplace_supported: "swaps \<Longrightarrow> v_names (view w) a = Some i \<Longrightarrow> os_RenameNoReplace os a b w = (Inl e, w') \<Longrightarrow> \<not> isRenameNotSupported e"
    and os_sleep: "keepsView view (os_Sleep os t)"

text \<open>
  The interface, by the key of a path, which is the same for the spellings of one path. Temporary files
  have names of their own; \<open>usable\<close> are the paths that name something below the root of the jail.
\<close>

locale jail_fs =
  fixes fs :: "'w Fs" and key :: "string \<Rightarrow> string" and view :: "'w \<Rightarrow> fsView" and swaps :: bool
    and isTemp :: "string \<Rightarrow> bool" and usable :: "string \<Rightarrow> bool"
  assumes mkdir: "fs_MkdirAll fs d m w = (r, w') \<Longrightarrow> v_names (view w') = v_names (view w) \<and> v_data (view w') = v_data (view w)
      \<and> (\<forall>k. v_dirs (view w') k \<longrightarrow> v_dirs (view w) k \<or> k \<in> set (dirsTo (key d)) \<and> v_names (view w) k = None)"
    and prepare: "usable p \<Longrightarrow> fs_PrepareNewFile fs p c m w = (Inr t, w') \<Longrightarrow>
      \<exists>i. isTemp (key t) \<and> v_names (view w) (key t) = None \<and> \<not> v_dirs (view w) (key t) \<and> i \<notin> ran (v_names (view w))
        \<and> view w' = newFile (key t) i (c, m) (view w)"
    and prepare_err: "usable p \<Longrightarrow> fs_PrepareNewFile fs p c m w = (Inl e, w') \<Longrightarrow>
      v_dirs (view w') = v_dirs (view w)
      \<and> (\<forall>k. v_names (view w') k \<noteq> v_names (view w) k \<longrightarrow> isTemp k \<and> v_names (view w) k = None)
      \<and> (\<forall>i \<in> ran (v_names (view w)). v_data (view w') i = v_data (view w) i)"
    and exchange: "key a \<noteq> key b \<Longrightarrow> v_names (view w) (key a) = Some i \<Longrightarrow> \<not> v_dirs (view w) (key b) \<Longrightarrow>
      fs_RenameExchange fs a b w = (Inr u, w') \<Longrightarrow>
      (\<exists>j. v_names (view w) (key b) = Some j \<and> view w' = swapNames (key a) (key b) i j (view w))
      \<or> (\<not> swaps \<and> view w' = moveName (key a) (key b) i (view w))"
    and exchange_err: "fs_RenameExchange fs a b w = (Inl e, w') \<Longrightarrow> view w' = view w"
    and noreplace: "key a \<noteq> key b \<Longrightarrow> v_names (view w) (key a) = Some i \<Longrightarrow> \<not> v_dirs (view w) (key b) \<Longrightarrow>
      fs_RenameNoReplace fs a b w = (Inr u, w') \<Longrightarrow>
      (swaps \<longrightarrow> v_names (view w) (key b) = None) \<and> view w' = moveName (key a) (key b) i (view w)"
    and noreplace_err: "fs_RenameNoReplace fs a b w = (Inl e, w') \<Longrightarrow> view w' = view w"
    and remove: "\<not> v_dirs (view w) (key a) \<Longrightarrow> fs_Remove fs a w = (Inr u, w') \<Longrightarrow> view w' = unlinkName (key a) (view w)"
    and remove_err: "fs_Remove fs a w = (Inl e, w') \<Longrightarrow> view w' = view w"
    and remove_missing: "fs_Remove fs a w = (Inl (OsError ENOENT), w') \<Longrightarrow> v_names (view w) (key a) = None"
    and sync: "keepsView view (fs_SyncCaches fs)"

section \<open>PrefixFs keeps the promises\<close>

lemma checkSegments_ok:
  "checkSegments os prefix acc segs w = (Inr u, w') \<Longrightarrow> s \<in> set segs \<Longrightarrow> s \<noteq> ''.'' \<and> s \<noteq> ''..''"
proof (induction segs arbitrary: acc w)
  case (Cons seg segs)
  have seg: "seg \<noteq> ''.''" "seg \<noteq> ''..''" using Cons.prems(1) by (simp_all split: if_splits)
  let ?acc = "pathJoin acc seg"
  have "\<exists>v. checkSegments os prefix ?acc segs v = (Inr u, w')"
  proof (cases "?acc = prefix")
    case True
    with seg Cons.prems(1) have "checkSegments os prefix ?acc segs w = (Inr u, w')" by (simp add: Let_def)
    then show ?thesis ..
  next
    case False
    obtain r v where l: "os_Lstat os ?acc w = (r, v)" by fastforce
    with seg False Cons.prems(1) have "checkSegments os prefix ?acc segs v = (Inr u, w')"
      by (simp add: Let_def tryA_def split: sum.splits if_splits)
    then show ?thesis ..
  qed
  then obtain v where "checkSegments os prefix ?acc segs v = (Inr u, w')" ..
  from Cons.IH [OF this] seg Cons.prems(2) show ?case by (cases "s = seg") simp_all
qed simp

lemma addPrefix_ok:
  assumes "addPrefix os pfs p w = (Inr q, w')"
  shows "q = pathJoin (Prefix pfs) p" "isAbs p" "\<And>s. s \<in> set (strSplit slash p) \<Longrightarrow> s \<noteq> ''.'' \<and> s \<noteq> ''..''"
proof -
  from assms show "q = pathJoin (Prefix pfs) p" "isAbs p"
    by (auto simp: addPrefix_def checkPath_def bindA_success split: if_splits)
  from assms obtain u v where "checkSegments os (Prefix pfs) (Prefix pfs) (strSplit slash p) w = (Inr u, v)"
    by (auto simp: addPrefix_def checkPath_def bindA_success split: if_splits)
  from checkSegments_ok [OF this] show "\<And>s. s \<in> set (strSplit slash p) \<Longrightarrow> s \<noteq> ''.'' \<and> s \<noteq> ''..''" .
qed

text \<open>The paths that name something below the root, and their elements.\<close>

definition pathSegs :: "string \<Rightarrow> string list" where
  "pathSegs p = filter (\<lambda>s. s \<noteq> []) (strSplit slash p)"

definition belowRoot :: "string \<Rightarrow> bool" where
  "belowRoot p \<longleftrightarrow> pathSegs p \<noteq> []"

definition tempName :: "string \<Rightarrow> bool" where
  "tempName k \<longleftrightarrow> contains (pathBase k) tempInfix"

lemma pathSegs_plain:
  assumes "\<And>s. s \<in> set (strSplit slash p) \<Longrightarrow> s \<noteq> ''.'' \<and> s \<noteq> ''..''" "s \<in> set (pathSegs p)"
  shows "plainSeg s"
  using assms strSplit_no_sep by (auto simp: pathSegs_def plainSeg_def)

lemma contains_infix: "contains (a @ p @ b) p"
proof (induction a)
  case Nil
  show ?case by (cases "p @ b") (use hasPrefix_append [of p b] in \<open>auto simp: hasPrefix_def\<close>)
qed simp


text \<open>A path below the prefix leads back to itself when the prefix is cut off and put on again.\<close>

lemma inner_path:
  assumes "cleanDir d" "\<And>s. s \<in> set segs \<Longrightarrow> plainSeg s"
  shows "hasPrefix (below d segs) d" "pathJoin d (drop (length d) (below d segs)) = below d segs"
proof -
  show "hasPrefix (below d segs) d" by (simp add: below_def)
  have inner: "drop (length d) (below d segs) = below [] segs" by (simp add: below_def)
  have split: "strSplit slash (below [] segs) = [] # segs"
    using assms(2) by (subst strSplit_below) (auto simp: plainSeg_def)
  have "filter (\<lambda>s. s \<noteq> []) segs = segs" using assms(2) by (auto simp: plainSeg_def intro!: filter_True)
  moreover have "pathJoin d (below [] segs) = below d (filter (\<lambda>s. s \<noteq> []) (strSplit slash (below [] segs)))"
    by (rule pathJoin_below [OF assms(1)]) (use assms(2) split in \<open>auto simp: plainSeg_def\<close>)
  ultimately show "pathJoin d (drop (length d) (below d segs)) = below d segs"
    unfolding inner split by simp
qed

text \<open>A temporary file lies beside its target.\<close>

lemma temp_path:
  assumes "cleanDir d" "\<And>s. s \<in> set segs \<Longrightarrow> plainSeg s" "plainSeg b" "slash \<notin> set rnd"
    and n: "n = below d segs @ slash # (b @ tempInfix) @ rnd"
  shows "hasPrefix n d" "pathJoin d (drop (length d) n) = n" "tempName n"
proof -
  let ?t = "b @ tempInfix @ rnd"
  have t: "plainSeg ?t" using assms(3,4) by (auto simp: plainSeg_def tempInfix_def)
  have n': "n = below d (segs @ [?t])" using n by (simp add: below_snoc)
  have plain: "s \<in> set (segs @ [?t]) \<Longrightarrow> plainSeg s" for s using assms(2) t by auto
  show "hasPrefix n d" "pathJoin d (drop (length d) n) = n" unfolding n' using inner_path [OF assms(1) plain] by blast+
  show "tempName n" unfolding n' tempName_def pathBase_below [OF t] by (rule contains_infix)
qed

locale jail_prefix = os_calls +
  fixes pfs :: PrefixFs
  assumes cleanPrefix: "cleanDir (Prefix pfs)"
begin

abbreviation key :: "string \<Rightarrow> string" where
  "key \<equiv> pathJoin (Prefix pfs)"

lemma checkSegments_keeps: "keepsView view (checkSegments os prefix acc segs)"
proof (induction segs arbitrary: acc)
  case (Cons s segs)
  have "keepsView view (tryA (os_Lstat os (pathJoin acc s)) (\<lambda>r. case r of
      Inl err \<Rightarrow> if errorsIs err (OsError ENOENT) then checkSegments os prefix (pathJoin acc s) segs else raise err
    | Inr symlink \<Rightarrow> if symlink then raise (Errorf ''symlinks in path are not supported: %q'' [pathJoin acc s])
                    else checkSegments os prefix (pathJoin acc s) segs))"
    by (rule keepsView_tryA [OF os_lstat]) (simp add: keepsView_basic Cons.IH split: sum.split)
  then show ?case using Cons.IH by (simp add: Let_def keepsView_basic)
qed (simp add: keepsView_basic)

lemma addPrefix_keeps: "keepsView view (addPrefix os pfs p)"
  by (auto simp: addPrefix_def checkPath_def intro!: keepsView_bindA keepsView_basic checkSegments_keeps)

lemma addPrefixD:
  assumes "addPrefix os pfs p w = (Inr q, w')"
  shows "q = key p" "view w' = view w"
  using addPrefix_ok(1) [OF assms] keepsViewD [OF addPrefix_keeps assms] by simp_all

lemma withPrefixes_ok:
  assumes "withPrefixes os pfs f a b w = (Inr u, w')"
  shows "\<exists>v. view v = view w \<and> f (key a) (key b) v = (Inr u, w')"
proof -
  from assms obtain qa va qb vb where h: "addPrefix os pfs a w = (Inr qa, va)" "addPrefix os pfs b va = (Inr qb, vb)" "f qa qb vb = (Inr u, w')"
    unfolding withPrefixes_def bindA_success by blast
  then show ?thesis using addPrefixD [OF h(1)] addPrefixD [OF h(2)] by auto
qed

lemma withPrefixes_err:
  assumes "withPrefixes os pfs f a b w = (Inl e, w')" "\<And>v. f (key a) (key b) v = (Inl e, w') \<Longrightarrow> view w' = view v"
  shows "view w' = view w"
proof -
  obtain ra v where a: "addPrefix os pfs a w = (ra, v)" by fastforce
  obtain rb v' where b: "addPrefix os pfs b v = (rb, v')" by fastforce
  have same: "view v = view w" "view v' = view v" using keepsViewD [OF addPrefix_keeps a] keepsViewD [OF addPrefix_keeps b] by simp_all
  show ?thesis
  proof (cases ra)
    case (Inl e)
    then show ?thesis using assms(1) a same by (simp add: withPrefixes_def bindA_def)
  next
    case qa: (Inr qa)
    show ?thesis
    proof (cases rb)
      case (Inl e)
      then show ?thesis using assms(1) a b qa same by (simp add: withPrefixes_def bindA_def)
    next
      case (Inr qb)
      have "f (key a) (key b) v' = (Inl e, w')"
        using assms(1) a b qa Inr addPrefixD(1) [of a w] addPrefixD(1) [of b v] by (simp add: withPrefixes_def bindA_def)
      from assms(2) [OF this] same show ?thesis by simp
    qed
  qed
qed

lemma remove_keeps_or_unlinks:
  assumes "\<not> v_dirs (view w) n" "os_Remove os n w = (r, w')"
  shows "view w' = view w \<or> view w' = unlinkName n (view w)"
  using os_remove [OF assms(1)] os_remove_err [of n w] assms(2) by (cases r) simp_all

lemma rename_fallback_ok:
  assumes "a \<noteq> b" "v_names (view w) a = Some i" "\<not> v_dirs (view w) b" "renameExchange os a b w = (Inr u, w')"
  shows "(\<exists>j. v_names (view w) b = Some j \<and> view w' = swapNames a b i j (view w)) \<or> (\<not> swaps \<and> view w' = moveName a b i (view w))"
proof -
  obtain r v where ex: "os_RenameExchange os a b w = (r, v)" by fastforce
  show ?thesis
  proof (cases r)
    case (Inl e)
    have same: "view v = view w" using os_exchange_err [of a b w e v] ex Inl by simp
    have "isRenameNotSupported e" "os_Rename os a b v = (Inr u, w')"
      using assms(4) ex Inl by (auto simp: renameExchange_def tryA_def split: if_splits)
    then show ?thesis using os_rename [OF assms(1), of v i u w'] os_exchange_supported [of w a i b e v] assms(2,3) ex Inl same by auto
  next
    case (Inr u')
    then have "w' = v" using assms(4) ex by (simp add: renameExchange_def tryA_def)
    then show ?thesis using os_exchange [OF assms(2,3), of u' v] ex Inr by simp
  qed
qed

lemma noreplace_fallback_ok:
  assumes "a \<noteq> b" "v_names (view w) a = Some i" "\<not> v_dirs (view w) b" "renameNoReplace os a b w = (Inr u, w')"
  shows "(swaps \<longrightarrow> v_names (view w) b = None) \<and> view w' = moveName a b i (view w)"
proof -
  obtain r v where ex: "os_RenameNoReplace os a b w = (r, v)" by fastforce
  show ?thesis
  proof (cases r)
    case (Inl e)
    have same: "view v = view w" using os_noreplace_err [of a b w e v] ex Inl by simp
    have "isRenameNotSupported e" "os_Rename os a b v = (Inr u, w')"
      using assms(4) ex Inl by (auto simp: renameNoReplace_def tryA_def split: if_splits)
    then show ?thesis using os_rename [OF assms(1), of v i u w'] os_noreplace_supported [of w a i b e v] assms(2,3) ex Inl same by auto
  next
    case (Inr u')
    then have "w' = v" using assms(4) ex by (simp add: renameNoReplace_def tryA_def)
    then show ?thesis using os_noreplace [OF assms(1-3), of u' v] ex Inr by simp
  qed
qed

lemma rename_err:
  "renameExchange os a b w = (Inl e, w') \<Longrightarrow> view w' = view w"
  "renameNoReplace os a b w = (Inl e, w') \<Longrightarrow> view w' = view w"
proof -
  have fallback: "view w' = view w"
    if "tryA m (\<lambda>r. case r of Inl err \<Rightarrow> if isRenameNotSupported err then os_Rename os a b else raise err | Inr _ \<Rightarrow> ret ()) w = (Inl e, w')"
      and "\<And>e v. m w = (Inl e, v) \<Longrightarrow> view v = view w" for m :: "'a \<Rightarrow> (goError + unit) \<times> 'a"
  proof -
    obtain r v where m: "m w = (r, v)" by fastforce
    show ?thesis
    proof (cases r)
      case (Inl err)
      then show ?thesis using that m os_rename_err [of a b v e w'] by (auto simp: tryA_def split: if_splits)
    qed (use that(1) m in \<open>simp add: tryA_def\<close>)
  qed
  show "renameExchange os a b w = (Inl e, w') \<Longrightarrow> view w' = view w"
    unfolding renameExchange_def by (erule fallback) (rule os_exchange_err)
  show "renameNoReplace os a b w = (Inl e, w') \<Longrightarrow> view w' = view w"
    unfolding renameNoReplace_def by (erule fallback) (rule os_noreplace_err)
qed

end

text \<open>What a call leaves behind that works on a new file only: that file, removed or not.\<close>

definition onlyFile :: "string \<Rightarrow> nat \<Rightarrow> fsView \<Rightarrow> fsView \<Rightarrow> bool" where
  "onlyFile n i v v' \<longleftrightarrow> v_dirs v' = v_dirs v \<and> (\<forall>k. k \<noteq> n \<longrightarrow> v_names v' k = v_names v k) \<and> (\<forall>j. j \<noteq> i \<longrightarrow> v_data v' j = v_data v j)"

lemma onlyFile_updates:
  "onlyFile n i v v' \<Longrightarrow> onlyFile n i v (setData i d v')" "onlyFile n i v v' \<Longrightarrow> onlyFile n i v (unlinkName n v')"
  "onlyFile n i v (newFile n i d v)"
  by (simp_all add: onlyFile_def fs_updates)

lemma removeTemp_fails: "removeTemp os n e w \<noteq> (Inr t, w')"
  by (auto simp: removeTemp_def tryA_def split: prod.split sum.split)

text \<open>A call whose error branch returns an error succeeds through its other branch.\<close>

lemma tryA_other:
  assumes "tryA m (\<lambda>r. case r of Inl e \<Rightarrow> f e | Inr a \<Rightarrow> k a) w = (Inr b, w')" "\<And>e v. f e v \<noteq> (Inr b, w')"
  obtains a w1 where "m w = (Inr a, w1)" "k a w1 = (Inr b, w')"
proof -
  obtain r w1 where m: "m w = (r, w1)" by fastforce
  with assms that show thesis by (cases r) (auto simp: tryA_def split: if_splits)
qed

context jail_prefix
begin

lemma removeTemp_err:
  assumes "removeTemp os n e0 w = (r, w')" "onlyFile n i v (view w)" "\<not> v_dirs v n"
  shows "onlyFile n i v (view w')"
proof -
  obtain r1 w1 where rm: "os_Remove os n w = (r1, w1)" by fastforce
  then have "w' = w1" using assms(1) by (auto simp: removeTemp_def tryA_def split: sum.splits if_splits)
  moreover have "\<not> v_dirs (view w) n" using assms(2,3) by (simp add: onlyFile_def)
  ultimately show ?thesis using remove_keeps_or_unlinks [OF _ rm] assms(2) onlyFile_updates(2) by metis
qed

lemma fillTemp_ok:
  assumes "fillTemp os pfs n c m w = (Inr t, w')" "v_names (view w) n = Some i" "v_data (view w) i = ([], m0)"
  shows "removePrefix pfs n = Inr t \<and> view w' = setData i (c, m) (view w)"
proof -
  have closes: "tryA (os_Close os n) (\<lambda>c. removeTemp os n (f c)) v \<noteq> (Inr t, w')" for f v
    by (auto simp: tryA_def removeTemp_fails split: prod.split sum.split)
  obtain u1 w1 where w1: "wrapA ''write temp file: %w'' [] (os_Write os n c) w = (Inr u1, w1)"
    and "tryA (wrapA ''close temp file: %w'' [] (os_Close os n)) (\<lambda>r. case r of Inl err \<Rightarrow> removeTemp os n err
       | Inr _ \<Rightarrow> tryA (wrapA ''chmod temp file: %w'' [] (os_Chmod os n m)) (\<lambda>r. case r of
           Inl err \<Rightarrow> removeTemp os n err | Inr _ \<Rightarrow> liftA (removePrefix pfs n))) w1 = (Inr t, w')"
    using assms(1) unfolding fillTemp_def by (rule tryA_other [OF _ closes]) (rule that)
  from this(2) obtain u2 w2 where w2: "wrapA ''close temp file: %w'' [] (os_Close os n) w1 = (Inr u2, w2)"
    and "tryA (wrapA ''chmod temp file: %w'' [] (os_Chmod os n m)) (\<lambda>r. case r of
           Inl err \<Rightarrow> removeTemp os n err | Inr _ \<Rightarrow> liftA (removePrefix pfs n)) w2 = (Inr t, w')"
    by (rule tryA_other [OF _ removeTemp_fails]) (rule that)
  from this(2) obtain u3 w3 where w3: "wrapA ''chmod temp file: %w'' [] (os_Chmod os n m) w2 = (Inr u3, w3)" "liftA (removePrefix pfs n) w3 = (Inr t, w')"
    by (rule tryA_other [OF _ removeTemp_fails]) (rule that)
  note v1 = os_write [OF assms(2) w1 [unfolded wrapA_success]] and v2 = os_close [OF w2 [unfolded wrapA_success]]
  have "v_names (view w2) n = Some i" using v1 v2 assms(2) by (simp add: setData_def)
  from os_chmod [OF this w3(1) [unfolded wrapA_success]] v1 v2 assms(3) w3(2) show ?thesis by (simp add: setData_def)
qed

lemma fillTemp_any:
  assumes run: "fillTemp os pfs n c m w = (r, w')" and w: "v_names (view w) n = Some i" "onlyFile n i v (view w)" "\<not> v_dirs v n"
  shows "onlyFile n i v (view w')"
proof -
  obtain r1 w1 where s1: "os_Write os n c w = (r1, w1)" by fastforce
  have v1: "onlyFile n i v (view w1) \<and> v_names (view w1) n = Some i"
    using os_write [OF w(1), of c] os_write_err [OF w(1), of c] s1 w onlyFile_updates(1) by (cases r1) (fastforce simp: setData_def)+
  obtain r2 w2 where s2: "os_Close os n w1 = (r2, w2)" by fastforce
  have v2: "onlyFile n i v (view w2) \<and> v_names (view w2) n = Some i"
    using os_close [of n w1] os_close_err [of w1 n i] s2 v1 onlyFile_updates(1) by (cases r2) (fastforce simp: setData_def)+
  obtain r3 w3 where s3: "os_Chmod os n m w2 = (r3, w3)" by fastforce
  have v3: "onlyFile n i v (view w3)"
    using os_chmod [of w2 n i m] os_chmod_err [of n m w2] s3 v2 onlyFile_updates(1) by (cases r3) (fastforce simp: setData_def)+
  have "w' = w1 \<or> w' = w2 \<or> w' = w3 \<or> (\<exists>e. removeTemp os n e w2 = (r, w')) \<or> (\<exists>e. removeTemp os n e w3 = (r, w'))"
    using run s1 s2 s3 unfolding fillTemp_def
    by (cases r1; cases r2; cases r3) (auto simp: tryA_def wrapA_def split: if_splits)
  then show ?thesis using v1 v2 v3 removeTemp_err [OF _ _ w(3)] by metis
qed

text \<open>Where the temporary file of a path below the root is created.\<close>

lemma created:
  assumes "belowRoot p" "addPrefix os pfs p w = (Inr q, w1)" "os_CreateTemp os (pathDir q) (tempPattern (pathBase q)) w1 = (Inr n, w2)"
  shows "\<exists>i. tempName n \<and> hasPrefix n (Prefix pfs) \<and> key (drop (length (Prefix pfs)) n) = n \<and> v_names (view w) n = None \<and> \<not> v_dirs (view w) n
    \<and> i \<notin> ran (v_names (view w)) \<and> view w2 = newFile n i ([], 384) (view w)"
proof -
  note ok = addPrefix_ok [OF assms(2)]
  have plain: "s \<in> set (pathSegs p) \<Longrightarrow> plainSeg s" for s using pathSegs_plain ok(3) by blast
  obtain segs b where segs: "pathSegs p = segs @ [b]" using assms(1) by (cases "pathSegs p" rule: rev_cases) (auto simp: belowRoot_def)
  have parts: "\<And>s. s \<in> set segs \<Longrightarrow> plainSeg s" "plainSeg b" using plain segs by simp_all
  have q: "q = below (Prefix pfs) (segs @ [b])"
    using ok(1) pathJoin_below [OF cleanPrefix ok(3)] segs by (simp add: pathSegs_def)
  have dir: "pathDir q = below (Prefix pfs) segs" "pathBase q = b"
    unfolding q using pathDir_below [OF cleanPrefix parts(1) parts(2)] pathBase_below [OF parts(2)] by blast+
  have clean: "cleanDir (below (Prefix pfs) segs)" using cleanDir_below [OF cleanPrefix parts(1)] by blast
  have "os_CreateTemp os (below (Prefix pfs) segs) ((b @ tempInfix) @ ''*'') w1 = (Inr n, w2)"
    using assms(3) dir by (simp add: tempPattern_def)
  from os_create [OF clean this] obtain rnd i where c: "n = below (Prefix pfs) segs @ slash # (b @ tempInfix) @ rnd" "slash \<notin> set rnd"
    "v_names (view w1) n = None" "\<not> v_dirs (view w1) n" "i \<notin> ran (v_names (view w1))" "view w2 = newFile n i ([], 384) (view w1)" by blast
  moreover note temp_path [OF cleanPrefix parts(1) parts(2) c(2) c(1)]
  moreover have "view w1 = view w" using addPrefixD(2) [OF assms(2)] .
  ultimately show ?thesis by auto
qed

end

context jail_prefix
begin

lemma PrepareNewFile_ok:
  assumes "belowRoot p" "PrepareNewFile os pfs p c m w = (Inr t, w')"
  shows "\<exists>i. tempName (key t) \<and> v_names (view w) (key t) = None \<and> \<not> v_dirs (view w) (key t) \<and> i \<notin> ran (v_names (view w))
    \<and> view w' = newFile (key t) i (c, m) (view w)"
proof -
  from assms(2) obtain q w1 n w2 where h: "addPrefix os pfs p w = (Inr q, w1)"
      "os_CreateTemp os (pathDir q) (tempPattern (pathBase q)) w1 = (Inr n, w2)" "fillTemp os pfs n c m w2 = (Inr t, w')"
    unfolding PrepareNewFile_def bindA_success wrapA_success by blast
  from created [OF assms(1) h(1,2)] obtain i where n: "tempName n" "key (drop (length (Prefix pfs)) n) = n" "hasPrefix n (Prefix pfs)"
    "v_names (view w) n = None" "\<not> v_dirs (view w) n" "i \<notin> ran (v_names (view w))" "view w2 = newFile n i ([], 384) (view w)" by blast
  have "removePrefix pfs n = Inr t \<and> view w' = setData i (c, m) (view w2)"
    by (rule fillTemp_ok [OF h(3), of i 384]) (simp_all add: n(7) newFile_def)
  then have "key t = n" "view w' = newFile n i (c, m) (view w)" using n by (auto simp: removePrefix_def setData_def newFile_def)
  with n show ?thesis by auto
qed

lemma PrepareNewFile_err:
  assumes "belowRoot p" "PrepareNewFile os pfs p c m w = (Inl e, w')"
  shows "v_dirs (view w') = v_dirs (view w)
    \<and> (\<forall>k. v_names (view w') k \<noteq> v_names (view w) k \<longrightarrow> tempName k \<and> v_names (view w) k = None)
    \<and> (\<forall>i \<in> ran (v_names (view w)). v_data (view w') i = v_data (view w) i)"
proof -
  obtain rq w1 where a: "addPrefix os pfs p w = (rq, w1)" by fastforce
  have v1: "view w1 = view w" using keepsViewD [OF addPrefix_keeps a] .
  show ?thesis
  proof (cases rq)
    case (Inl e)
    then show ?thesis using assms(2) a v1 by (simp add: PrepareNewFile_def bindA_def)
  next
    case q: (Inr q)
    obtain rn w2 where c: "os_CreateTemp os (pathDir q) (tempPattern (pathBase q)) w1 = (rn, w2)" by fastforce
    show ?thesis
    proof (cases rn)
      case (Inl e)
      then show ?thesis using assms(2) a q c v1 os_create_err [of "pathDir q" "tempPattern (pathBase q)" w1] 
        by (simp add: PrepareNewFile_def bindA_def wrapA_def)
    next
      case (Inr n)
      from created [OF assms(1) a [unfolded q] c [unfolded Inr]] obtain i where n: "tempName n"
        "v_names (view w) n = None" "\<not> v_dirs (view w) n" "i \<notin> ran (v_names (view w))" "view w2 = newFile n i ([], 384) (view w)" by blast
      have fill: "fillTemp os pfs n c m w2 = (Inl e, w')"
        using assms(2) a q c Inr by (simp add: PrepareNewFile_def bindA_def wrapA_def)
      have "onlyFile n i (view w) (view w')"
        by (rule fillTemp_any [OF fill _ _ n(3)]) (simp_all add: n(5) onlyFile_updates, simp add: newFile_def)
      then have dirs: "v_dirs (view w') = v_dirs (view w)"
        and names: "\<And>k. k \<noteq> n \<Longrightarrow> v_names (view w') k = v_names (view w) k"
        and data: "\<And>j. j \<noteq> i \<Longrightarrow> v_data (view w') j = v_data (view w) j" by (simp_all add: onlyFile_def)
      show ?thesis
      proof (intro conjI allI impI ballI)
        fix k assume "v_names (view w') k \<noteq> v_names (view w) k"
        then have "k = n" using names by (cases "k = n") simp_all
        then show "tempName k" "v_names (view w) k = None" using n(1,2) by simp_all
      next
        fix j assume "j \<in> ran (v_names (view w))"
        then have "j \<noteq> i" using n(4) by auto
        then show "v_data (view w') j = v_data (view w) j" by (rule data)
      qed (rule dirs)
    qed
  qed
qed

lemma bind_addPrefix_err:
  assumes "bindA (addPrefix os pfs p) f w = (Inl e, w')" "\<And>v. f (key p) v = (Inl e, w') \<Longrightarrow> view w' = view v"
  shows "view w' = view w"
proof -
  obtain r v where a: "addPrefix os pfs p w = (r, v)" by fastforce
  have "view v = view w" using keepsViewD [OF addPrefix_keeps a] .
  then show ?thesis using assms a addPrefixD(1) [of p w] by (cases r) (auto simp: bindA_def)
qed

lemma MkdirAll_names:
  assumes "MkdirAll os pfs d m w = (r, w')"
  shows "v_names (view w') = v_names (view w) \<and> v_data (view w') = v_data (view w)
    \<and> (\<forall>k. v_dirs (view w') k \<longrightarrow> v_dirs (view w) k \<or> k \<in> set (dirsTo (key d)) \<and> v_names (view w) k = None)"
proof -
  obtain rq w1 where a: "addPrefix os pfs d w = (rq, w1)" by fastforce
  have v1: "view w1 = view w" using keepsViewD [OF addPrefix_keeps a] .
  show ?thesis
  proof (cases rq)
    case (Inl e)
    then show ?thesis using assms a v1 by (simp add: MkdirAll_def bindA_def)
  next
    case (Inr q)
    then have "os_MkdirAll os (key d) m w1 = (r, w')" using assms a addPrefixD(1) [of d w q w1] by (simp add: MkdirAll_def bindA_def)
    from os_mkdir [OF this] v1 show ?thesis by simp
  qed
qed

lemma Remove_ok:
  assumes "\<not> v_dirs (view w) (key a)" "Remove os pfs a w = (Inr u, w')"
  shows "view w' = unlinkName (key a) (view w)"
proof -
  from assms(2) obtain q w1 where h: "addPrefix os pfs a w = (Inr q, w1)" "os_Remove os q w1 = (Inr u, w')"
    unfolding Remove_def bindA_success by blast
  then show ?thesis using addPrefixD [OF h(1)] os_remove [of w1 q u w'] assms(1) by simp
qed

lemma checkSegments_not_ENOENT: "checkSegments os prefix acc segs w \<noteq> (Inl (OsError ENOENT), w')"
proof (induction segs arbitrary: acc w)
  case (Cons s segs)
  obtain r v where l: "os_Lstat os (pathJoin acc s) w = (r, v)" by fastforce
  show ?case using Cons.IH [of "pathJoin acc s"] Cons.IH [of prefix] l
    by (cases r) (auto simp: Let_def tryA_def isPanic_def)
qed simp

lemma Remove_missing:
  assumes "Remove os pfs a w = (Inl (OsError ENOENT), w')"
  shows "v_names (view w) (key a) = None"
proof -
  obtain rq w1 where q: "addPrefix os pfs a w = (rq, w1)" by fastforce
  have "rq \<noteq> Inl (OsError ENOENT)"
    using q checkSegments_not_ENOENT by (auto simp: addPrefix_def checkPath_def bindA_def split: if_splits prod.splits sum.splits)
  then obtain p where p: "rq = Inr p" using assms q by (cases rq) (auto simp: Remove_def bindA_def)
  then show ?thesis using assms q addPrefixD [of a w p w1] os_remove_missing [of p w1 w'] by (simp add: Remove_def bindA_def)
qed

lemma Exchange_ok:
  assumes "key a \<noteq> key b" "v_names (view w) (key a) = Some i" "\<not> v_dirs (view w) (key b)" "RenameExchange os pfs a b w = (Inr u, w')"
  shows "(\<exists>j. v_names (view w) (key b) = Some j \<and> view w' = swapNames (key a) (key b) i j (view w))
    \<or> (\<not> swaps \<and> view w' = moveName (key a) (key b) i (view w))"
proof -
  from withPrefixes_ok [OF assms(4) [unfolded RenameExchange_def]]
  obtain v where v: "view v = view w" "renameExchange os (key a) (key b) v = (Inr u, w')" by blast
  show ?thesis using rename_fallback_ok [OF assms(1) _ _ v(2), of i] assms(2,3) v(1) by simp
qed

lemma NoReplace_ok:
  assumes "key a \<noteq> key b" "v_names (view w) (key a) = Some i" "\<not> v_dirs (view w) (key b)" "RenameNoReplace os pfs a b w = (Inr u, w')"
  shows "(swaps \<longrightarrow> v_names (view w) (key b) = None) \<and> view w' = moveName (key a) (key b) i (view w)"
proof -
  from withPrefixes_ok [OF assms(4) [unfolded RenameNoReplace_def]]
  obtain v where v: "view v = view w" "renameNoReplace os (key a) (key b) v = (Inr u, w')" by blast
  show ?thesis using noreplace_fallback_ok [OF assms(1) _ _ v(2), of i] assms(2,3) v(1) by simp
qed

lemma Rename_errs:
  "RenameExchange os pfs a b w = (Inl e, w') \<Longrightarrow> view w' = view w"
  "RenameNoReplace os pfs a b w = (Inl e, w') \<Longrightarrow> view w' = view w"
  "Remove os pfs a w = (Inl e, w') \<Longrightarrow> view w' = view w"
proof -
  show "RenameExchange os pfs a b w = (Inl e, w') \<Longrightarrow> view w' = view w"
    unfolding RenameExchange_def by (erule withPrefixes_err) (rule rename_err(1))
  show "RenameNoReplace os pfs a b w = (Inl e, w') \<Longrightarrow> view w' = view w"
    unfolding RenameNoReplace_def by (erule withPrefixes_err) (rule rename_err(2))
  show "Remove os pfs a w = (Inl e, w') \<Longrightarrow> view w' = view w"
    unfolding Remove_def by (erule bind_addPrefix_err) (rule os_remove_err)
qed

lemma Sync_keeps: "keepsView view (SyncCaches os)"
  unfolding SyncCaches_def by (intro keepsView_bindA os_sleep keepsView_basic)

end

lemma prefixFs_simps:
  "fs_MkdirAll (prefixFs os pfs) = MkdirAll os pfs" "fs_PrepareNewFile (prefixFs os pfs) = PrepareNewFile os pfs"
  "fs_RenameExchange (prefixFs os pfs) = RenameExchange os pfs" "fs_RenameNoReplace (prefixFs os pfs) = RenameNoReplace os pfs"
  "fs_Remove (prefixFs os pfs) = Remove os pfs" "fs_SyncCaches (prefixFs os pfs) = SyncCaches os"
  by (simp_all add: prefixFs_def)

sublocale jail_prefix \<subseteq> jail: jail_fs "prefixFs os pfs" "pathJoin (Prefix pfs)" view swaps tempName belowRoot
  by (unfold_locales, unfold prefixFs_simps)
    ((rule MkdirAll_names PrepareNewFile_ok PrepareNewFile_err Exchange_ok NoReplace_ok Remove_ok Rename_errs Remove_missing Sync_keeps; assumption)+)

section \<open>A file system in memory\<close>

text \<open>
  Directories, symbolic links and regular files by path. It refuses to move or to remove directories and
  symbolic links. The random part of the name of a temporary file is longer than all names.
\<close>

datatype entry = EDir | ELink | EFile nat

record memFs =
  m_entries :: "(string \<times> entry) list"
  m_data :: "nat \<Rightarrow> string \<times> int"

definition fileOf :: "entry option \<Rightarrow> nat option" where
  "fileOf e = (case e of Some (EFile i) \<Rightarrow> Some i | _ \<Rightarrow> None)"

definition specialFile :: "entry option \<Rightarrow> bool" where
  "specialFile e \<longleftrightarrow> e = Some EDir \<or> e = Some ELink"

definition memView :: "memFs \<Rightarrow> fsView" where
  "memView w = \<lparr>v_names = (\<lambda>k. fileOf (map_of (m_entries w) k)), v_data = m_data w, v_dirs = (\<lambda>k. specialFile (map_of (m_entries w) k))\<rparr>"

definition putEntry :: "string \<Rightarrow> entry \<Rightarrow> memFs \<Rightarrow> memFs" where
  "putEntry k e w = w\<lparr>m_entries := AList.update k e (m_entries w)\<rparr>"

definition dropEntry :: "string \<Rightarrow> memFs \<Rightarrow> memFs" where
  "dropEntry k w = w\<lparr>m_entries := AList.delete k (m_entries w)\<rparr>"

definition mkDir :: "string \<Rightarrow> memFs \<Rightarrow> memFs" where
  "mkDir k w = (if map_of (m_entries w) k = None then putEntry k EDir w else w)"

definition freshInode :: "memFs \<Rightarrow> nat" where
  "freshInode w = Suc (foldr (\<lambda>(k, e). max (case e of EFile i \<Rightarrow> i | _ \<Rightarrow> 0)) (m_entries w) 0)"

definition freshName :: "string \<Rightarrow> memFs \<Rightarrow> string" where
  "freshName p w = p @ replicate (Suc (foldr (\<lambda>(k, e). max (length k)) (m_entries w) 0)) CHR ''0''"

definition memMove :: "string \<Rightarrow> string \<Rightarrow> nat \<Rightarrow> memFs \<Rightarrow> memFs" where
  "memMove a b i w = putEntry b (EFile i) (dropEntry a w)"

definition memMkdirAll :: "string \<Rightarrow> int \<Rightarrow> (memFs, unit) action" where
  "memMkdirAll p m w = (if list_ex (\<lambda>k. fileOf (map_of (m_entries w) k) \<noteq> None) (dirsTo p) then (Inl (OsError EOTHER), w)
     else (Inr (), fold mkDir (dirsTo p) w))"

definition memCreateTemp :: "string \<Rightarrow> string \<Rightarrow> (memFs, string) action" where
  "memCreateTemp d pat w = (if map_of (m_entries w) d \<noteq> Some EDir then (Inl (OsError ENOENT), w)
     else let n = freshName (d @ slash # butlast pat) w; i = freshInode w
          in (Inr n, (putEntry n (EFile i) w)\<lparr>m_data := (m_data w)(i := ([], 384))\<rparr>))"

definition memUpdate :: "(string \<times> int \<Rightarrow> string \<times> int) \<Rightarrow> string \<Rightarrow> (memFs, unit) action" where
  "memUpdate f n w = (case fileOf (map_of (m_entries w) n) of None \<Rightarrow> (Inl (OsError ENOENT), w)
     | Some i \<Rightarrow> (Inr (), w\<lparr>m_data := (m_data w)(i := f (m_data w i))\<rparr>))"

definition memRemove :: "string \<Rightarrow> (memFs, unit) action" where
  "memRemove n w = (case map_of (m_entries w) n of None \<Rightarrow> (Inl (OsError ENOENT), w)
     | Some (EFile i) \<Rightarrow> (Inr (), dropEntry n w) | Some e \<Rightarrow> (Inl (OsError EOTHER), w))"

definition memRename :: "string \<Rightarrow> string \<Rightarrow> (memFs, unit) action" where
  "memRename a b w = (case fileOf (map_of (m_entries w) a) of None \<Rightarrow> (Inl (OsError ENOENT), w)
     | Some i \<Rightarrow> if specialFile (map_of (m_entries w) b) then (Inl (OsError EOTHER), w)
                 else if a = b then (Inr (), w) else (Inr (), memMove a b i w))"

definition memExchange :: "bool \<Rightarrow> string \<Rightarrow> string \<Rightarrow> (memFs, unit) action" where
  "memExchange swaps a b w = (if \<not> swaps then (Inl (OsError EINVAL), w)
     else case (fileOf (map_of (m_entries w) a), fileOf (map_of (m_entries w) b)) of
       (Some i, Some j) \<Rightarrow> (Inr (), putEntry b (EFile i) (putEntry a (EFile j) w))
     | _ \<Rightarrow> (Inl (OsError ENOENT), w))"

definition memNoReplace :: "bool \<Rightarrow> string \<Rightarrow> string \<Rightarrow> (memFs, unit) action" where
  "memNoReplace swaps a b w = (if \<not> swaps then (Inl (OsError EINVAL), w)
     else if map_of (m_entries w) b \<noteq> None then (Inl (OsError EEXIST), w)
     else case fileOf (map_of (m_entries w) a) of None \<Rightarrow> (Inl (OsError ENOENT), w) | Some i \<Rightarrow> (Inr (), memMove a b i w))"

definition memOs :: "bool \<Rightarrow> memFs osCalls" where
  "memOs swaps = \<lparr>
     os_Lstat = (\<lambda>p w. (case map_of (m_entries w) p of None \<Rightarrow> Inl (OsError ENOENT) | Some e \<Rightarrow> Inr (e = ELink), w)),
     os_MkdirAll = memMkdirAll, os_CreateTemp = memCreateTemp,
     os_Write = (\<lambda>n c. memUpdate (\<lambda>(d, m). (d @ c, m)) n), os_Close = (\<lambda>n. ret ()),
     os_Chmod = (\<lambda>n m. memUpdate (\<lambda>(d, m'). (d, m)) n), os_Remove = memRemove, os_Rename = memRename,
     os_RenameExchange = memExchange swaps, os_RenameNoReplace = memNoReplace swaps, os_Sleep = (\<lambda>t. ret ())\<rparr>"

subsection \<open>It keeps the promises of the system calls\<close>

lemma map_of_entries [simp]:
  "map_of (m_entries (putEntry k e w)) = (map_of (m_entries w))(k \<mapsto> e)" "map_of (m_entries (dropEntry k w)) = (map_of (m_entries w))(k := None)"
  "m_data (putEntry k e w) = m_data w" "m_data (dropEntry k w) = m_data w"
  by (simp_all add: putEntry_def dropEntry_def update_conv' delete_conv')

lemma fileOf_simps [simp]: "fileOf None = None" "fileOf (Some (EFile i)) = Some i" "fileOf (Some EDir) = None" "fileOf (Some ELink) = None"
  "specialFile (Some (EFile i)) = False" "specialFile None = False"
  by (simp_all add: fileOf_def specialFile_def)

lemma fileOf_Some: "fileOf e = Some i \<longleftrightarrow> e = Some (EFile i)"
  by (auto simp: fileOf_def split: option.splits entry.splits)

lemma memView_fields [simp]: "v_names (memView w) k = fileOf (map_of (m_entries w) k)" "v_data (memView w) = m_data w"
  "v_dirs (memView w) k = specialFile (map_of (m_entries w) k)"
  by (simp_all add: memView_def)

lemma memView_put: "\<not> specialFile (map_of (m_entries w) k) \<Longrightarrow> memView (putEntry k (EFile i) w) = (memView w)\<lparr>v_names := (v_names (memView w))(k \<mapsto> i)\<rparr>"
  by (auto simp: memView_def fun_eq_iff)

lemma memView_drop: "\<not> specialFile (map_of (m_entries w) k) \<Longrightarrow> memView (dropEntry k w) = (memView w)\<lparr>v_names := (v_names (memView w))(k := None)\<rparr>"
  by (auto simp: memView_def fun_eq_iff)

lemma memView_data: "memView (w\<lparr>m_data := d\<rparr>) = (memView w)\<lparr>v_data := d\<rparr>"
  by (simp add: memView_def)

lemma mkDir_view:
  "v_names (memView (mkDir k w)) = v_names (memView w)" "m_data (mkDir k w) = m_data w"
  "specialFile (map_of (m_entries (mkDir k w)) l) \<Longrightarrow> specialFile (map_of (m_entries w) l) \<or> l = k \<and> v_names (memView w) l = None"
  by (auto simp: mkDir_def fun_eq_iff split: if_splits)

lemma fold_mkDir_view:
  "v_names (memView (fold mkDir ks w)) = v_names (memView w) \<and> m_data (fold mkDir ks w) = m_data w
   \<and> (\<forall>l. specialFile (map_of (m_entries (fold mkDir ks w)) l) \<longrightarrow>
        specialFile (map_of (m_entries w) l) \<or> l \<in> set ks \<and> v_names (memView w) l = None)"
proof (induction ks arbitrary: w)
  case (Cons k ks)
  show ?case using Cons.IH [of "mkDir k w"] mkDir_view [of k w] by (auto simp del: memView_fields(1))
qed simp

lemma freshInode_fresh: "freshInode w \<notin> ran (v_names (memView w))"
proof
  assume "freshInode w \<in> ran (v_names (memView w))"
  then obtain k where "map_of (m_entries w) k = Some (EFile (freshInode w))" by (auto simp: ran_def fileOf_Some)
  then have "(k, EFile (freshInode w)) \<in> set (m_entries w)" by (rule map_of_SomeD)
  moreover have "(k, EFile i) \<in> set es \<Longrightarrow> i \<le> foldr (\<lambda>(k, e). max (case e of EFile i \<Rightarrow> i | _ \<Rightarrow> 0)) es 0" for i es
    by (induction es) auto
  ultimately show False by (fastforce simp: freshInode_def)
qed

lemma freshName_fresh: "map_of (m_entries w) (freshName p w) = None"
proof (rule ccontr)
  assume "map_of (m_entries w) (freshName p w) \<noteq> None"
  then obtain e where "(freshName p w, e) \<in> set (m_entries w)" using map_of_SomeD by fastforce
  moreover have "(k, e) \<in> set es \<Longrightarrow> length k \<le> foldr (\<lambda>(k, e). max (length k)) es 0" for k es
    by (induction es) auto
  ultimately show False by (fastforce simp: freshName_def)
qed

lemma memOs_simps:
  "os_Lstat (memOs s) = (\<lambda>p w. (case map_of (m_entries w) p of None \<Rightarrow> Inl (OsError ENOENT) | Some e \<Rightarrow> Inr (e = ELink), w))"
  "os_MkdirAll (memOs s) = memMkdirAll" "os_CreateTemp (memOs s) = memCreateTemp"
  "os_Write (memOs s) = (\<lambda>n c. memUpdate (\<lambda>(d, m). (d @ c, m)) n)" "os_Close (memOs s) = (\<lambda>n. ret ())"
  "os_Chmod (memOs s) = (\<lambda>n m. memUpdate (\<lambda>(d, m'). (d, m)) n)" "os_Remove (memOs s) = memRemove" "os_Rename (memOs s) = memRename"
  "os_RenameExchange (memOs s) = memExchange s" "os_RenameNoReplace (memOs s) = memNoReplace s" "os_Sleep (memOs s) = (\<lambda>t. ret ())"
  by (simp_all add: memOs_def)

lemma memMkdirAll_view:
  "memMkdirAll p m w = (r, w') \<Longrightarrow> v_names (memView w') = v_names (memView w) \<and> v_data (memView w') = v_data (memView w)
    \<and> (\<forall>k. v_dirs (memView w') k \<longrightarrow> v_dirs (memView w) k \<or> k \<in> set (dirsTo p) \<and> v_names (memView w) k = None)"
  using fold_mkDir_view [of "dirsTo p" w] by (auto simp: memMkdirAll_def split: if_splits)

lemma memCreateTemp_view:
  assumes "memCreateTemp d (b @ ''*'') w = (Inr n, w')"
  shows "\<exists>rnd i. n = d @ slash # b @ rnd \<and> slash \<notin> set rnd \<and> v_names (memView w) n = None \<and> \<not> v_dirs (memView w) n
    \<and> i \<notin> ran (v_names (memView w)) \<and> memView w' = newFile n i ([], 384) (memView w)"
proof -
  have n: "n = freshName (d @ slash # b) w" and w': "w' = (putEntry n (EFile (freshInode w)) w)\<lparr>m_data := (m_data w)(freshInode w := ([], 384))\<rparr>"
    using assms by (auto simp: memCreateTemp_def Let_def butlast_append split: if_splits)
  have fresh: "map_of (m_entries w) n = None" using n freshName_fresh by simp
  then have "memView w' = newFile n (freshInode w) ([], 384) (memView w)"
    unfolding w' memView_data by (simp add: memView_put newFile_def)
  moreover have "\<exists>rnd. n = d @ slash # b @ rnd \<and> slash \<notin> set rnd" unfolding n freshName_def by (simp add: exI)
  ultimately show ?thesis using fresh freshInode_fresh by auto
qed

lemma memUpdate_view:
  assumes "memUpdate f n w = (Inr u, w')" "v_names (memView w) n = Some i"
  shows "memView w' = setData i (f (v_data (memView w) i)) (memView w)"
proof -
  have "w' = w\<lparr>m_data := (m_data w)(i := f (m_data w i))\<rparr>" using assms by (simp add: memUpdate_def)
  then show ?thesis by (simp add: memView_data setData_def)
qed

lemma memMove_view:
  assumes "a \<noteq> b" "fileOf (map_of (m_entries w) a) = Some i" "\<not> specialFile (map_of (m_entries w) b)"
  shows "memView (memMove a b i w) = moveName a b i (memView w)"
proof -
  have "memView (dropEntry a w) = (memView w)\<lparr>v_names := (v_names (memView w))(a := None)\<rparr>"
    by (rule memView_drop) (use assms(2) in \<open>auto simp: fileOf_Some\<close>)
  moreover have "memView (memMove a b i w) = (memView (dropEntry a w))\<lparr>v_names := (v_names (memView (dropEntry a w)))(b \<mapsto> i)\<rparr>"
    unfolding memMove_def by (rule memView_put) (use assms in simp)
  ultimately show ?thesis by (simp add: moveName_def)
qed

lemma memExchange_view:
  assumes "memExchange s a b w = (Inr u, w')" "v_names (memView w) a = Some i"
  shows "\<exists>j. v_names (memView w) b = Some j \<and> memView w' = swapNames a b i j (memView w)"
proof -
  obtain j where j: "fileOf (map_of (m_entries w) b) = Some j" and w': "w' = putEntry b (EFile i) (putEntry a (EFile j) w)"
    using assms by (auto simp: memExchange_def split: if_splits option.splits)
  have "memView (putEntry a (EFile j) w) = (memView w)\<lparr>v_names := (v_names (memView w))(a \<mapsto> j)\<rparr>"
    by (rule memView_put) (use assms(2) in \<open>auto simp: fileOf_Some\<close>)
  moreover have "memView w' = (memView (putEntry a (EFile j) w))\<lparr>v_names := (v_names (memView (putEntry a (EFile j) w)))(b \<mapsto> i)\<rparr>"
    unfolding w' by (rule memView_put) (use j in \<open>auto simp: fileOf_Some\<close>)
  ultimately show ?thesis using j by (simp add: swapNames_def)
qed

lemma memOs_errors:
  "memCreateTemp d pat w = (Inl e, w') \<Longrightarrow> memView w' = memView w" "memUpdate f n w = (Inl e, w') \<Longrightarrow> memView w' = memView w"
  "memRemove n w = (Inl e, w') \<Longrightarrow> memView w' = memView w" "memRename a b w = (Inl e, w') \<Longrightarrow> memView w' = memView w"
  "memExchange s a b w = (Inl e, w') \<Longrightarrow> memView w' = memView w" "memNoReplace s a b w = (Inl e, w') \<Longrightarrow> memView w' = memView w"
  by (auto simp: memCreateTemp_def memUpdate_def memRemove_def memRename_def memExchange_def memNoReplace_def Let_def
      split: if_splits option.splits entry.splits)

lemma memRemove_missing: "memRemove n w = (Inl (OsError ENOENT), w') \<Longrightarrow> v_names (memView w) n = None"
  by (auto simp: memRemove_def split: option.splits entry.splits)

lemma memUpdate_err: "v_names (memView w) n = Some i \<Longrightarrow> memUpdate f n w = (Inl e, w') \<Longrightarrow> thesis"
  by (simp add: memUpdate_def)

lemma memRename_view:
  "a \<noteq> b \<Longrightarrow> v_names (memView w) a = Some i \<Longrightarrow> \<not> v_dirs (memView w) b \<Longrightarrow> memRename a b w = (Inr u, w') \<Longrightarrow> memView w' = moveName a b i (memView w)"
  using memMove_view [of a b w i] by (auto simp: memRename_def split: if_splits)

lemma memNoReplace_view:
  "a \<noteq> b \<Longrightarrow> v_names (memView w) a = Some i \<Longrightarrow> \<not> v_dirs (memView w) b \<Longrightarrow> memNoReplace s a b w = (Inr u, w') \<Longrightarrow>
    v_names (memView w) b = None \<and> memView w' = moveName a b i (memView w)"
  using memMove_view [of a b w i] by (auto simp: memNoReplace_def split: if_splits)

lemma memRemove_view: "\<not> v_dirs (memView w) n \<Longrightarrow> memRemove n w = (Inr u, w') \<Longrightarrow> memView w' = unlinkName n (memView w)"
  using memView_drop [of w n] by (auto simp: memRemove_def unlinkName_def split: option.splits entry.splits)

lemma memOs_supported:
  "s \<Longrightarrow> memExchange s a b w = (Inl e, w') \<Longrightarrow> \<not> isRenameNotSupported e" "s \<Longrightarrow> memNoReplace s a b w = (Inl e, w') \<Longrightarrow> \<not> isRenameNotSupported e"
  by (auto simp: memExchange_def memNoReplace_def isRenameNotSupported_def split: if_splits option.splits)

definition jailPrefix :: PrefixFs where
  "jailPrefix = \<lparr>Prefix = ''/jail''\<rparr>"

lemma jailPrefix_clean: "cleanDir (Prefix jailPrefix)"
  by (simp add: jailPrefix_def cleanDir_def pathClean_def cleanSegs_def cleanStep_def)

interpretation memJail: jail_prefix "memOs swaps" memView swaps jailPrefix for swaps
proof (unfold_locales, unfold memOs_simps)
  fix w n i c u w' and m :: int
  assume "v_names (memView w) n = Some i"
  then show "memUpdate (\<lambda>(d, m). (d @ c, m)) n w = (Inr u, w') \<Longrightarrow>
      memView w' = setData i (fst (v_data (memView w) i) @ c, snd (v_data (memView w) i)) (memView w)"
    "memUpdate (\<lambda>(d, m'). (d, m)) n w = (Inr u, w') \<Longrightarrow> memView w' = setData i (fst (v_data (memView w) i), m) (memView w)"
    using memUpdate_view [of _ n w u w' i] by (simp_all add: case_prod_beta)
qed ((rule memMkdirAll_view memCreateTemp_view memExchange_view memOs_errors memOs_supported memRename_view memNoReplace_view
  memRemove_view memRemove_missing jailPrefix_clean; assumption) | (erule memUpdate_err, assumption) | simp add: keepsView_def)+


end
