(* ===== verification/Replaced_Files.thy ===== *)
theory Replaced_Files
  imports Jail_Fs
begin

text \<open>
  Replacing a batch of files, internal/controller/sconfigcontroller/replaced_files_batch.go. The methods of
  the batch act on the world paired with the list of pending files. A new file is written under a
  temporary name and exchanged with its target; the old file then carries the temporary name until
  \<open>Finish\<close> removes it after the caches have expired, or until \<open>Cleanup\<close> exchanges it back.

  The lemmas are proved in the locale \<open>jail_fs\<close>, for any file system that keeps its promises and
  implements the exchange of names.
\<close>

section \<open>The batch\<close>

record replacedFile =
  rf_targetName :: string
  rf_tempName :: string

type_synonym 'w batch = "'w \<times> replacedFile list"

definition NewReplacedFilesBatch :: "replacedFile list" where
  "NewReplacedFilesBatch = []"

text \<open>The part of Replace after the new file is prepared.\<close>

definition switchFile :: "'w Fs \<Rightarrow> string \<Rightarrow> string \<Rightarrow> ('w batch, unit) action" where
  "switchFile fs filePath tempFileName =
     tryA (withLocal (fs_RenameExchange fs tempFileName filePath)) (\<lambda>r. case r of
       Inl err \<Rightarrow>
         if errorsIs err (OsError ENOENT) then
           wrapA ''rename temp to target file (%s => %s): %w'' [tempFileName, filePath] (withLocal (fs_RenameNoReplace fs tempFileName filePath))
         else
           tryA (withLocal (fs_Remove fs tempFileName)) (\<lambda>r.
             let err' = wrapErr ''switch temp and target files (%s and %s): %w'' [tempFileName, filePath] err
             in raise (case r of Inl e \<Rightarrow> JoinErr err' e | Inr _ \<Rightarrow> err'))
     | Inr _ \<Rightarrow> (\<lambda>(w, pendingFiles). (Inr (), (w, pendingFiles @ [\<lparr>rf_targetName = filePath, rf_tempName = tempFileName\<rparr>]))))"

definition Replace :: "'w Fs \<Rightarrow> string \<Rightarrow> string \<Rightarrow> int \<Rightarrow> ('w batch, unit) action" where
  "Replace fs filePath content mode =
     bindA (wrapA ''preparing dir for file: %w'' [] (withLocal (fs_MkdirAll fs (pathDir filePath) 493))) (\<lambda>_.
     bindA (wrapA ''preparing new file: %w'' [] (withLocal (fs_PrepareNewFile fs filePath content mode))) (\<lambda>tempFileName.
       switchFile fs filePath tempFileName))"

definition cleanupFile :: "'w Fs \<Rightarrow> replacedFile \<Rightarrow> ('w, unit) action" where
  "cleanupFile fs file = bindA (fs_RenameExchange fs (rf_tempName file) (rf_targetName file)) (\<lambda>_. fs_Remove fs (rf_tempName file))"

text \<open>os.IsNotExist does not look inside wrapped errors.\<close>

definition osIsNotExist :: "goError \<Rightarrow> bool" where
  "osIsNotExist err \<longleftrightarrow> err = OsError ENOENT"

definition finishFile :: "'w Fs \<Rightarrow> replacedFile \<Rightarrow> ('w, unit) action" where
  "finishFile fs file = tryA (fs_Remove fs (rf_tempName file)) (\<lambda>r. case r of
     Inl err \<Rightarrow> if \<not> osIsNotExist err then raise err else ret () | Inr _ \<Rightarrow> ret ())"

text \<open>A loop that goes on after an error and collects the errors.\<close>

fun collectErrs :: "('f \<Rightarrow> ('w, unit) action) \<Rightarrow> 'f list \<Rightarrow> ('w, goError list) action" where
  "collectErrs f [] = ret []"
| "collectErrs f (x # xs) = tryA (f x) (\<lambda>r. bindA (collectErrs f xs) (\<lambda>errs. ret (case r of Inl e \<Rightarrow> e # errs | Inr _ \<Rightarrow> errs)))"

text \<open>Run a loop over the pending files and forget them.\<close>

definition drainBatch :: "('w, goError list) action \<Rightarrow> ('w batch, unit) action" where
  "drainBatch m = (\<lambda>(w, pendingFiles). case m w of
     (Inl e, w') \<Rightarrow> (Inl e, (w', pendingFiles))
   | (Inr errs, w') \<Rightarrow> (case joinErrs errs of None \<Rightarrow> Inr () | Some e \<Rightarrow> Inl e, (w', [])))"

definition Cleanup :: "'w Fs \<Rightarrow> ('w batch, unit) action" where
  "Cleanup fs = (\<lambda>(w, pendingFiles). drainBatch (collectErrs (cleanupFile fs) pendingFiles) (w, pendingFiles))"

definition Finish :: "'w Fs \<Rightarrow> ('w batch, unit) action" where
  "Finish fs = (\<lambda>(w, pendingFiles).
     if pendingFiles = [] then (Inr (), (w, pendingFiles))
     else case fs_SyncCaches fs w of
       (Inl err, w') \<Rightarrow> (Inl err, (w', []))
     | (Inr _, w') \<Rightarrow> drainBatch (collectErrs (finishFile fs) pendingFiles) (w', pendingFiles))"

text \<open>
  The loops of the reconcilers over the files of a payload, up to the first that fails; they differ in how
  they wrap the error.
\<close>

type_synonym newFile = "string \<times> string \<times> int"

definition replaceFiles :: "string \<Rightarrow> (string \<Rightarrow> string list) \<Rightarrow> 'w Fs \<Rightarrow> newFile list \<Rightarrow> ('w batch, unit) action" where
  "replaceFiles fmt args fs files = forA (\<lambda>(path, content, mode) _. wrapA fmt (args path) (Replace fs path content mode)) files ()"

section \<open>What a batch has done so far\<close>

definition tempKeys :: "(string \<Rightarrow> string) \<Rightarrow> replacedFile list \<Rightarrow> string list" where
  "tempKeys key pend = map (\<lambda>f. key (rf_tempName f)) pend"

definition targetKeys :: "(string \<Rightarrow> string) \<Rightarrow> newFile list \<Rightarrow> string list" where
  "targetKeys key files = map (\<lambda>f. key (fst f)) files"

text \<open>
  Targets that a batch can handle: paths below the root, no two spellings of one file, none looks like a
  temporary file, none is a directory or would be made one for another target.
\<close>

definition goodTargets :: "(string \<Rightarrow> string) \<Rightarrow> (string \<Rightarrow> bool) \<Rightarrow> (string \<Rightarrow> bool) \<Rightarrow> fsView \<Rightarrow> newFile list \<Rightarrow> bool" where
  "goodTargets key isTemp usable v files \<longleftrightarrow> distinct (targetKeys key files)
     \<and> list_all (\<lambda>f. usable (fst f) \<and> \<not> isTemp (key (fst f)) \<and> \<not> v_dirs v (key (fst f))
         \<and> list_all (\<lambda>g. key (fst f) \<notin> set (dirsTo (key (pathDir (fst g))))) files) files"

text \<open>
  The state after some files of a batch (\<open>made\<close>), with leftovers \<open>left\<close> of a failed replacement: the old
  file of a target carries the temporary name, the new one the target name, everything else is untouched.
\<close>

definition batchState :: "(string \<Rightarrow> string) \<Rightarrow> (string \<Rightarrow> bool) \<Rightarrow> fsView \<Rightarrow> newFile list \<Rightarrow> newFile list \<Rightarrow> string set \<Rightarrow> fsView \<Rightarrow> replacedFile list \<Rightarrow> bool" where
  "batchState key isTemp v0 files made left v pend \<longleftrightarrow>
     distinct (tempKeys key pend) \<and> distinct (map (\<lambda>f. key (rf_targetName f)) pend)
   \<and> (\<forall>f \<in> set pend. isTemp (key (rf_tempName f)) \<and> v_names v0 (key (rf_tempName f)) = None
        \<and> v_names v0 (key (rf_targetName f)) \<noteq> None \<and> v_names v (key (rf_tempName f)) = v_names v0 (key (rf_targetName f))
        \<and> key (rf_targetName f) \<in> set (targetKeys key made))
   \<and> (\<forall>(p, c, m) \<in> set made. \<exists>i. v_names v (key p) = Some i \<and> v_data v i = (c, m) \<and> i \<notin> ran (v_names v0))
   \<and> (\<forall>k \<in> set (targetKeys key made). v_names v0 k \<noteq> None \<longrightarrow> (\<exists>f \<in> set pend. key (rf_targetName f) = k))
   \<and> (\<forall>k. k \<notin> set (targetKeys key made) \<longrightarrow> k \<notin> set (tempKeys key pend) \<longrightarrow> k \<notin> left \<longrightarrow> v_names v k = v_names v0 k)
   \<and> (\<forall>i \<in> ran (v_names v0). v_data v i = v_data v0 i)
   \<and> (\<forall>k \<in> left. isTemp k \<and> v_names v0 k = None)
   \<and> (\<forall>k \<in> set (targetKeys key files). \<not> v_dirs v k) \<and> (\<forall>k \<in> set (tempKeys key pend). \<not> v_dirs v k)"

section \<open>One replacement, on the view of the file system\<close>

lemma batchStateD:
  assumes "batchState key isTemp v0 files made left v pend"
  shows "distinct (tempKeys key pend)" "distinct (map (\<lambda>f. key (rf_targetName f)) pend)"
    "\<And>f. f \<in> set pend \<Longrightarrow> isTemp (key (rf_tempName f)) \<and> v_names v0 (key (rf_tempName f)) = None
        \<and> v_names v0 (key (rf_targetName f)) \<noteq> None \<and> v_names v (key (rf_tempName f)) = v_names v0 (key (rf_targetName f))
        \<and> key (rf_targetName f) \<in> set (targetKeys key made)"
    "\<And>p c m. (p, c, m) \<in> set made \<Longrightarrow> \<exists>i. v_names v (key p) = Some i \<and> v_data v i = (c, m) \<and> i \<notin> ran (v_names v0)"
    "\<And>k. k \<in> set (targetKeys key made) \<Longrightarrow> v_names v0 k \<noteq> None \<Longrightarrow> \<exists>f \<in> set pend. key (rf_targetName f) = k"
    "\<And>k. k \<notin> set (targetKeys key made) \<Longrightarrow> k \<notin> set (tempKeys key pend) \<Longrightarrow> k \<notin> left \<Longrightarrow> v_names v k = v_names v0 k"
    "\<And>i. i \<in> ran (v_names v0) \<Longrightarrow> v_data v i = v_data v0 i" "\<And>k. k \<in> left \<Longrightarrow> isTemp k \<and> v_names v0 k = None"
    "\<And>k. k \<in> set (targetKeys key files) \<Longrightarrow> \<not> v_dirs v k" "\<And>k. k \<in> set (tempKeys key pend) \<Longrightarrow> \<not> v_dirs v k"
proof -
  note h = assms [unfolded batchState_def]
  show "distinct (tempKeys key pend)" "distinct (map (\<lambda>f. key (rf_targetName f)) pend)" using h by simp_all
  show "\<And>f. f \<in> set pend \<Longrightarrow> isTemp (key (rf_tempName f)) \<and> v_names v0 (key (rf_tempName f)) = None
        \<and> v_names v0 (key (rf_targetName f)) \<noteq> None \<and> v_names v (key (rf_tempName f)) = v_names v0 (key (rf_targetName f))
        \<and> key (rf_targetName f) \<in> set (targetKeys key made)" using h by (elim conjE) (rule bspec)
  show "\<And>p c m. (p, c, m) \<in> set made \<Longrightarrow> \<exists>i. v_names v (key p) = Some i \<and> v_data v i = (c, m) \<and> i \<notin> ran (v_names v0)"
    using h by (elim conjE) (drule (1) bspec, simp)
  show "\<And>k. k \<in> set (targetKeys key made) \<Longrightarrow> v_names v0 k \<noteq> None \<Longrightarrow> \<exists>f \<in> set pend. key (rf_targetName f) = k"
    using h by (elim conjE) blast
  show "\<And>k. k \<notin> set (targetKeys key made) \<Longrightarrow> k \<notin> set (tempKeys key pend) \<Longrightarrow> k \<notin> left \<Longrightarrow> v_names v k = v_names v0 k"
    using h by (elim conjE) blast
  show "\<And>i. i \<in> ran (v_names v0) \<Longrightarrow> v_data v i = v_data v0 i" "\<And>k. k \<in> left \<Longrightarrow> isTemp k \<and> v_names v0 k = None"
    "\<And>k. k \<in> set (targetKeys key files) \<Longrightarrow> \<not> v_dirs v k" "\<And>k. k \<in> set (tempKeys key pend) \<Longrightarrow> \<not> v_dirs v k"
    using h by (elim conjE; blast)+
qed

lemma batchStateI:
  assumes "distinct (tempKeys key pend)" "distinct (map (\<lambda>f. key (rf_targetName f)) pend)"
    "\<And>f. f \<in> set pend \<Longrightarrow> isTemp (key (rf_tempName f)) \<and> v_names v0 (key (rf_tempName f)) = None
        \<and> v_names v0 (key (rf_targetName f)) \<noteq> None \<and> v_names v (key (rf_tempName f)) = v_names v0 (key (rf_targetName f))
        \<and> key (rf_targetName f) \<in> set (targetKeys key made)"
    "\<And>p c m. (p, c, m) \<in> set made \<Longrightarrow> \<exists>i. v_names v (key p) = Some i \<and> v_data v i = (c, m) \<and> i \<notin> ran (v_names v0)"
    "\<And>k. k \<in> set (targetKeys key made) \<Longrightarrow> v_names v0 k \<noteq> None \<Longrightarrow> \<exists>f \<in> set pend. key (rf_targetName f) = k"
    "\<And>k. k \<notin> set (targetKeys key made) \<Longrightarrow> k \<notin> set (tempKeys key pend) \<Longrightarrow> k \<notin> left \<Longrightarrow> v_names v k = v_names v0 k"
    "\<And>i. i \<in> ran (v_names v0) \<Longrightarrow> v_data v i = v_data v0 i" "\<And>k. k \<in> left \<Longrightarrow> isTemp k \<and> v_names v0 k = None"
    "\<And>k. k \<in> set (targetKeys key files) \<Longrightarrow> \<not> v_dirs v k" "\<And>k. k \<in> set (tempKeys key pend) \<Longrightarrow> \<not> v_dirs v k"
  shows "batchState key isTemp v0 files made left v pend"
  unfolding batchState_def
proof (intro conjI)
  show "\<forall>(p, c, m) \<in> set made. \<exists>i. v_names v (key p) = Some i \<and> v_data v i = (c, m) \<and> i \<notin> ran (v_names v0)"
    using assms(4) by blast
qed (use assms in \<open>(intro ballI allI impI)?, blast\<close>)+

lemma tempKeys_simps [simp]: "tempKeys key [] = []" "tempKeys key (f # pend) = key (rf_tempName f) # tempKeys key pend"
  "tempKeys key (pend @ pend') = tempKeys key pend @ tempKeys key pend'"
  by (simp_all add: tempKeys_def)

lemma targetKeys_simps [simp]: "targetKeys key [] = []" "targetKeys key (f # files) = key (fst f) # targetKeys key files"
  "targetKeys key (files @ files') = targetKeys key files @ targetKeys key files'"
  by (simp_all add: targetKeys_def)

lemma tempKeysE: "k \<in> set (tempKeys key pend) \<Longrightarrow> (\<And>f. f \<in> set pend \<Longrightarrow> k = key (rf_tempName f) \<Longrightarrow> thesis) \<Longrightarrow> thesis"
  by (auto simp: tempKeys_def)

lemma batchState_start:
  "goodTargets key isTemp usable v files \<Longrightarrow> batchState key isTemp v files [] {} v []"
  by (auto simp: batchState_def goodTargets_def targetKeys_def list_all_iff)

text \<open>No file that was there before the batch is unlinked by it.\<close>

lemma batchState_linked:
  assumes st: "batchState key isTemp v0 files made left v pend"
  shows "ran (v_names v0) \<subseteq> ran (v_names v)"
proof
  fix i assume "i \<in> ran (v_names v0)"
  then obtain k where k: "v_names v0 k = Some i" by (auto simp: ran_def)
  show "i \<in> ran (v_names v)"
  proof (cases "k \<in> set (targetKeys key made)")
    case True
    then obtain f where "f \<in> set pend" "key (rf_targetName f) = k" using batchStateD(5) [OF st True] k by auto
    then have "v_names v (key (rf_tempName f)) = Some i" using batchStateD(3) [OF st] k by auto
    then show ?thesis by (rule ranI)
  next
    case False
    have "k \<notin> set (tempKeys key pend)" using batchStateD(3) [OF st] k by (auto elim!: tempKeysE)
    moreover have "k \<notin> left" using batchStateD(8) [OF st] k by auto
    ultimately have "v_names v k = Some i" using batchStateD(6) [OF st False] k by simp
    then show ?thesis by (rule ranI)
  qed
qed

lemma batchState_mkdir:
  assumes st: "batchState key isTemp v0 files made left v pend" and good: "goodTargets key isTemp usable v0 files" and p: "f \<in> set files"
    and v': "v_names v' = v_names v" "v_data v' = v_data v"
      "\<And>k. v_dirs v' k \<Longrightarrow> v_dirs v k \<or> k \<in> set (dirsTo (key (pathDir (fst f)))) \<and> v_names v k = None"
  shows "batchState key isTemp v0 files made left v' pend"
proof -
  have "\<not> v_dirs v' k" if "k \<in> set (targetKeys key files)" for k
  proof -
    from that obtain g where g: "g \<in> set files" "k = key (fst g)" by (auto simp: targetKeys_def)
    then have "k \<notin> set (dirsTo (key (pathDir (fst f))))" using good p by (simp add: goodTargets_def list_all_iff)
    then show ?thesis using v'(3) [of k] batchStateD(9) [OF st that] by blast
  qed
  moreover have "\<not> v_dirs v' k" if k: "k \<in> set (tempKeys key pend)" for k
  proof -
    from k have "v_names v k \<noteq> None" using batchStateD(3) [OF st] by (auto elim!: tempKeysE)
    then show ?thesis using v'(3) [of k] batchStateD(10) [OF st k] by auto
  qed
  ultimately show ?thesis using st v'(1,2) by (simp add: batchState_def)
qed

text \<open>What is true of a target that is not replaced yet, and of a fresh temporary file.\<close>

lemma batchState_target:
  assumes st: "batchState key isTemp v0 files made {} v pend" and good: "goodTargets key isTemp usable v0 files"
    and f: "f \<in> set files" "key (fst f) \<notin> set (targetKeys key made)"
  shows "v_names v (key (fst f)) = v_names v0 (key (fst f))" "\<not> v_dirs v (key (fst f))" "\<not> isTemp (key (fst f))" "usable (fst f)"
proof -
  show nt: "\<not> isTemp (key (fst f))" and "usable (fst f)" using good f(1) by (auto simp: goodTargets_def list_all_iff)
  then have "key (fst f) \<notin> set (tempKeys key pend)" using batchStateD(3) [OF st] by (auto elim!: tempKeysE)
  then show "v_names v (key (fst f)) = v_names v0 (key (fst f))" using batchStateD(6) [OF st f(2)] by simp
  show "\<not> v_dirs v (key (fst f))" using batchStateD(9) [OF st] f(1) by (auto simp: targetKeys_def)
qed

lemma batchState_temp:
  assumes st: "batchState key isTemp v0 files made {} v pend" and good: "goodTargets key isTemp usable v0 files"
    and sub: "set (targetKeys key made) \<subseteq> set (targetKeys key files)" and t: "isTemp t" "v_names v t = None"
  shows "t \<notin> set (targetKeys key files)" "t \<notin> set (tempKeys key pend)" "v_names v0 t = None"
proof -
  show nt: "t \<notin> set (targetKeys key files)" using good t(1) by (auto simp: goodTargets_def list_all_iff targetKeys_def)
  show np: "t \<notin> set (tempKeys key pend)"
  proof
    assume "t \<in> set (tempKeys key pend)"
    then obtain f where "f \<in> set pend" "t = key (rf_tempName f)" by (rule tempKeysE)
    then show False using batchStateD(3) [OF st] t(2) by fastforce
  qed
  have "t \<notin> set (targetKeys key made)" using nt sub by blast
  from batchStateD(6) [OF st this np] t(2) show "v_names v0 t = None" by simp
qed

lemma batchState_replaced:
  assumes st: "batchState key isTemp v0 files made {} v pend" and good: "goodTargets key isTemp usable v0 files"
    and sub: "set (targetKeys key made) \<subseteq> set (targetKeys key files)"
    and f: "(p, c, m) \<in> set files" "key p \<notin> set (targetKeys key made)"
    and t: "isTemp (key t)" "v_names v (key t) = None" "\<not> v_dirs v (key t)" "i \<notin> ran (v_names v)"
    and names: "v_names v' (key p) = Some i" "v_names v' (key t) = v_names v0 (key p)"
      "\<And>k. k \<noteq> key p \<Longrightarrow> k \<noteq> key t \<Longrightarrow> v_names v' k = v_names v k"
    and data: "v_data v' = (v_data v)(i := (c, m))" and dirs: "v_dirs v' = v_dirs v"
  shows "batchState key isTemp v0 files (made @ [(p, c, m)]) {} v'
    (pend @ (if v_names v0 (key p) = None then [] else [\<lparr>rf_targetName = p, rf_tempName = t\<rparr>]))"
proof -
  note D = batchStateD [OF st]
  note target = batchState_target [OF st good f(1), simplified, OF f(2)]
  note temp = batchState_temp [OF st good sub t(1,2)]
  have pt: "key p \<noteq> key t" using t(1) target(3) by auto
  have fresh: "i \<notin> ran (v_names v0)" using batchState_linked [OF st] t(4) by auto
  have pendTarget: "key (rf_targetName g) \<noteq> key p" if "g \<in> set pend" for g using D(3) [OF that] f(2) by auto
  have notPend: "key p \<notin> (\<lambda>f. key (rf_targetName f)) ` set pend" using pendTarget by (metis imageE)
  have pendTemp: "key (rf_tempName g) \<noteq> key p \<and> key (rf_tempName g) \<noteq> key t" if "g \<in> set pend" for g
    using D(3) [OF that] target(3) t(2) by auto
  have made: "\<exists>j. v_names v' (key q) = Some j \<and> v_data v' j = (d, n) \<and> j \<notin> ran (v_names v0)" if q: "(q, d, n) \<in> set made" for q d n
  proof -
    obtain j where j: "v_names v (key q) = Some j" "v_data v j = (d, n)" "j \<notin> ran (v_names v0)" using D(4) [OF q] by blast
    moreover have "key q \<in> set (targetKeys key made)" using q by (force simp: targetKeys_def)
    then have "key q \<noteq> key p" "key q \<noteq> key t" using f(2) temp(1) sub by auto
    moreover have "j \<noteq> i" using t(4) j(1) by (auto simp: ran_def)
    ultimately show ?thesis using names(3) [of "key q"] data by simp
  qed
  have rest: "v_names v' k = v_names v0 k"
    if "k \<notin> set (targetKeys key made)" "k \<noteq> key p" "k \<notin> set (tempKeys key pend)" "k = key t \<longrightarrow> v_names v0 (key p) = None" for k
    using that names D(6) [of k] temp(3) by (cases "k = key t") simp_all
  have old: "v_data v' j = v_data v0 j" if "j \<in> ran (v_names v0)" for j using D(7) [OF that] data that fresh by auto
  let ?new = "if v_names v0 (key p) = None then [] else [\<lparr>rf_targetName = p, rf_tempName = t\<rparr>]"
  let ?keys = "set (targetKeys key (made @ [(p, c, m)]))"
  show ?thesis
  proof (rule batchStateI)
    show "distinct (tempKeys key (pend @ ?new))" using D(1) temp(2) by simp
    show "distinct (map (\<lambda>f. key (rf_targetName f)) (pend @ ?new))" using D(2) notPend by simp
  next
    fix g assume "g \<in> set (pend @ ?new)"
    then have "g \<in> set pend \<or> g = \<lparr>rf_targetName = p, rf_tempName = t\<rparr> \<and> v_names v0 (key p) \<noteq> None" by (auto split: if_splits)
    then show "isTemp (key (rf_tempName g)) \<and> v_names v0 (key (rf_tempName g)) = None \<and> v_names v0 (key (rf_targetName g)) \<noteq> None
      \<and> v_names v' (key (rf_tempName g)) = v_names v0 (key (rf_targetName g)) \<and> key (rf_targetName g) \<in> ?keys"
      using D(3) [of g] pendTemp [of g] names t(1) temp(3) by auto
  next
    fix q d n assume "(q, d, n) \<in> set (made @ [(p, c, m)])"
    then consider "(q, d, n) \<in> set made" | "q = p" "d = c" "n = m" by auto
    then show "\<exists>j. v_names v' (key q) = Some j \<and> v_data v' j = (d, n) \<and> j \<notin> ran (v_names v0)"
      by cases (rule made, assumption, use names(1) data fresh in simp)
  next
    fix k assume "k \<in> ?keys" "v_names v0 k \<noteq> None"
    then show "\<exists>g \<in> set (pend @ ?new). key (rf_targetName g) = k" using D(5) [of k] by auto
  next
    fix k assume "k \<notin> ?keys" "k \<notin> set (tempKeys key (pend @ ?new))"
    then show "v_names v' k = v_names v0 k" using rest [of k] by (auto split: if_splits)
  next
    fix j assume "j \<in> ran (v_names v0)"
    then show "v_data v' j = v_data v0 j" by (rule old)
  next
    fix k assume "k \<in> set (targetKeys key files)"
    then show "\<not> v_dirs v' k" using D(9) dirs by simp
  next
    fix k assume "k \<in> set (tempKeys key (pend @ ?new))"
    then show "\<not> v_dirs v' k" using D(10) dirs t(3) by (auto split: if_splits)
  qed simp_all
qed

text \<open>A replacement that fails may leave a temporary file behind, and nothing else.\<close>

lemma batchState_failed:
  assumes st: "batchState key isTemp v0 files made {} v pend" and good: "goodTargets key isTemp usable v0 files"
    and sub: "set (targetKeys key made) \<subseteq> set (targetKeys key files)"
    and dirs: "v_dirs v' = v_dirs v" and names: "\<And>k. v_names v' k \<noteq> v_names v k \<Longrightarrow> isTemp k \<and> v_names v k = None"
    and data: "\<And>i. i \<in> ran (v_names v) \<Longrightarrow> v_data v' i = v_data v i"
  shows "\<exists>left. batchState key isTemp v0 files made left v' pend"
proof
  note D = batchStateD [OF st]
  have same: "v_names v' k = v_names v k" if "v_names v k \<noteq> None" for k using names [of k] that by blast
  show "batchState key isTemp v0 files made {k. v_names v' k \<noteq> v_names v k} v' pend"
  proof (rule batchStateI)
    fix f assume "f \<in> set pend"
    then show "isTemp (key (rf_tempName f)) \<and> v_names v0 (key (rf_tempName f)) = None \<and> v_names v0 (key (rf_targetName f)) \<noteq> None
      \<and> v_names v' (key (rf_tempName f)) = v_names v0 (key (rf_targetName f)) \<and> key (rf_targetName f) \<in> set (targetKeys key made)"
      using D(3) [of f] same [of "key (rf_tempName f)"] by simp
  next
    fix p c m assume "(p, c, m) \<in> set made"
    then obtain i where i: "v_names v (key p) = Some i" "v_data v i = (c, m)" "i \<notin> ran (v_names v0)" using D(4) by blast
    then have "v_data v' i = (c, m)" using data ranI by metis
    then show "\<exists>i. v_names v' (key p) = Some i \<and> v_data v' i = (c, m) \<and> i \<notin> ran (v_names v0)" using i same by auto
  next
    fix i assume i: "i \<in> ran (v_names v0)"
    then show "v_data v' i = v_data v0 i" using batchState_linked [OF st] data [of i] D(7) [OF i] by auto
  next
    fix k assume "k \<in> {k. v_names v' k \<noteq> v_names v k}"
    then have "isTemp k" "v_names v k = None" using names by blast+
    then show "isTemp k \<and> v_names v0 k = None" using batchState_temp(3) [OF st good sub] by blast
  next
    fix k assume "k \<notin> set (targetKeys key made)" "k \<notin> set (tempKeys key pend)" "k \<notin> {k. v_names v' k \<noteq> v_names v k}"
    then show "v_names v' k = v_names v0 k" using D(6) [of k] by simp
  qed (use D dirs in simp_all)
qed

section \<open>The methods of the batch\<close>

lemma withLocal_apply: "withLocal m (w, l) = (fst (m w), (snd (m w), l))"
  by (simp add: withLocal_def split: prod.split)

context jail_fs
begin

abbreviation goodFiles :: "fsView \<Rightarrow> newFile list \<Rightarrow> bool" where
  "goodFiles \<equiv> goodTargets key isTemp usable"

text \<open>
  The exchange of a prepared file with its target, on a world in which the file exists: it succeeds and the
  target is replaced, or it fails and at most the temporary file is left.
\<close>

lemma switchFile_ok:
  assumes "swaps" and pt: "key t \<noteq> key p" and w: "v_names (view w) (key t) = Some i" "\<not> v_dirs (view w) (key p)"
    and run: "switchFile fs p t (w, pend) = (Inr u, (w', pend'))"
  shows "(\<exists>j. v_names (view w) (key p) = Some j \<and> view w' = swapNames (key t) (key p) i j (view w) \<and> pend' = pend @ [\<lparr>rf_targetName = p, rf_tempName = t\<rparr>])
    \<or> v_names (view w) (key p) = None \<and> view w' = moveName (key t) (key p) i (view w) \<and> pend' = pend"
proof -
  obtain r3 w3 where s3: "fs_RenameExchange fs t p w = (r3, w3)" by fastforce
  show ?thesis
  proof (cases r3)
    case (Inr u3)
    then have "w' = w3" "pend' = pend @ [\<lparr>rf_targetName = p, rf_tempName = t\<rparr>]"
      using run s3 by (simp_all add: switchFile_def tryA_def withLocal_apply)
    then show ?thesis using exchange [OF pt w s3 [unfolded Inr]] \<open>swaps\<close> by blast
  next
    case (Inl e)
    have v3: "view w3 = view w" using exchange_err s3 Inl by blast
    obtain r4 w4 where s4: "fs_RenameNoReplace fs t p w3 = (r4, w4)" by fastforce
    have "r4 = Inr u \<and> w' = w4 \<and> pend' = pend"
      using run s3 s4 Inl by (cases r4) (auto simp: switchFile_def tryA_def withLocal_apply wrapA_def Let_def split: if_splits prod.splits sum.splits)
    then show ?thesis using noreplace [OF pt, of w3 i u w4] s4 w v3 \<open>swaps\<close> by simp
  qed
qed

lemma switchFile_err:
  assumes w: "\<not> v_dirs (view w) (key t)" and run: "switchFile fs p t (w, pend) = (Inl e, (w', pend'))"
  shows "pend' = pend \<and> (view w' = view w \<or> view w' = unlinkName (key t) (view w))"
proof -
  obtain r3 w3 where s3: "fs_RenameExchange fs t p w = (r3, w3)" by fastforce
  obtain e3 where r3: "r3 = Inl e3" using run s3 by (cases r3) (simp_all add: switchFile_def tryA_def withLocal_apply)
  have v3: "view w3 = view w" using exchange_err s3 r3 by blast
  obtain r4 w4 where s4: "fs_RenameNoReplace fs t p w3 = (r4, w4)" by fastforce
  obtain r5 w5 where s5: "fs_Remove fs t w3 = (r5, w5)" by fastforce
  have v4: "view w4 = view w" if "r4 = Inl e4" for e4 using noreplace_err s4 v3 that by metis
  have v5: "view w5 = view w \<or> view w5 = unlinkName (key t) (view w)"
    using remove_err [of t w3] remove [of w3 t] s5 v3 w by (cases r5) auto
  have "pend' = pend \<and> (w' = w3 \<or> w' = w4 \<and> (\<exists>e4. r4 = Inl e4) \<or> w' = w5)"
    using run s3 s4 s5 r3 by (cases r4; cases r5) (auto simp: switchFile_def tryA_def withLocal_apply wrapA_def Let_def split: if_splits)
  then show ?thesis using v3 v4 v5 by auto
qed

lemma Replace_step:
  assumes "swaps" and st: "batchState key isTemp v0 files made {} (view w) pend" and good: "goodFiles v0 files"
    and sub: "set (targetKeys key made) \<subseteq> set (targetKeys key files)"
    and f: "(p, c, m) \<in> set files" "key p \<notin> set (targetKeys key made)"
    and run: "Replace fs p c m (w, pend) = (res, (w', pend'))"
  shows "case res of Inr _ \<Rightarrow> batchState key isTemp v0 files (made @ [(p, c, m)]) {} (view w') pend'
    | Inl e \<Rightarrow> pend' = pend \<and> (\<exists>left. batchState key isTemp v0 files made left (view w') pend)"
proof -
  obtain r1 w1 where s1: "fs_MkdirAll fs (pathDir p) 493 w = (r1, w1)" by fastforce
  have st1: "batchState key isTemp v0 files made {} (view w1) pend"
    by (rule batchState_mkdir [OF st good f(1)]) (use mkdir [OF s1] in auto)
  note target = batchState_target [OF st1 good f(1), simplified, OF f(2)]
  obtain r2 w2 where s2: "fs_PrepareNewFile fs p c m w1 = (r2, w2)" by fastforce
  consider e where "r1 = Inl e" | u e where "r1 = Inr u" "r2 = Inl e" | u t where "r1 = Inr u" "r2 = Inr t"
    by (cases r1; cases r2) auto
  then show ?thesis
  proof cases
    case 1
    then show ?thesis using run s1 st1 by (auto simp: Replace_def bindA_def wrapA_def withLocal_apply)
  next
    case (2 u e)
    then have "res = Inl (wrapErr ''preparing new file: %w'' [] e)" "w' = w2" "pend' = pend"
      using run s1 s2 by (simp_all add: Replace_def bindA_def wrapA_def withLocal_apply)
    moreover have "\<exists>left. batchState key isTemp v0 files made left (view w2) pend"
      by (rule batchState_failed [OF st1 good sub]) (use prepare_err [OF target(4) s2 [unfolded 2]] in auto)
    ultimately show ?thesis by simp
  next
    case (3 u t)
    from prepare [OF target(4) s2 [unfolded 3(2)]] obtain i where t: "isTemp (key t)" "v_names (view w1) (key t) = None"
      "\<not> v_dirs (view w1) (key t)" "i \<notin> ran (v_names (view w1))" "view w2 = newFile (key t) i (c, m) (view w1)" by blast
    have pt: "key t \<noteq> key p" using t(1) target(3) by auto
    have at: "v_names (view w2) (key t) = Some i" "\<not> v_dirs (view w2) (key p)" "v_names (view w2) (key p) = v_names v0 (key p)" "\<not> v_dirs (view w2) (key t)"
      using t(3,5) target(1,2) pt by (simp_all add: newFile_def)
    have switch: "switchFile fs p t (w2, pend) = (res, (w', pend'))"
      using run s1 s2 3 by (simp add: Replace_def bindA_def wrapA_def withLocal_apply)
    show ?thesis
    proof (cases res)
      case (Inl e)
      have "\<exists>left. batchState key isTemp v0 files made left (view w') pend"
        by (rule batchState_failed [OF st1 good sub])
          (use switchFile_err [OF at(4) switch [unfolded Inl]] t in \<open>auto simp: newFile_def unlinkName_def split: if_splits\<close>)
      then show ?thesis using switchFile_err [OF at(4) switch [unfolded Inl]] Inl by simp
    next
      case (Inr u')
      note ok = switchFile_ok [OF \<open>swaps\<close> pt at(1,2) switch [unfolded Inr]]
      have "batchState key isTemp v0 files (made @ [(p, c, m)]) {} (view w')
          (pend @ (if v_names v0 (key p) = None then [] else [\<lparr>rf_targetName = p, rf_tempName = t\<rparr>]))"
        by (rule batchState_replaced [OF st1 good sub f t(1-4)]) (use ok at(3) t(5) pt in \<open>auto simp: moveName_def swapNames_def newFile_def\<close>)
      moreover have "pend' = pend @ (if v_names v0 (key p) = None then [] else [\<lparr>rf_targetName = p, rf_tempName = t\<rparr>])"
        using ok at(3) by auto
      ultimately show ?thesis using Inr by simp
    qed
  qed
qed

end

text \<open>Putting the old files back, as an update of the names.\<close>

definition restoreNames :: "(string \<Rightarrow> string) \<Rightarrow> replacedFile list \<Rightarrow> (string \<Rightarrow> nat option) \<Rightarrow> string \<Rightarrow> nat option" where
  "restoreNames key = fold (\<lambda>f n. n(key (rf_targetName f) := n (key (rf_tempName f)), key (rf_tempName f) := None))"

lemma restoreNames_other:
  "k \<notin> set (tempKeys key pend) \<Longrightarrow> k \<notin> (\<lambda>f. key (rf_targetName f)) ` set pend \<Longrightarrow> restoreNames key pend n k = n k"
  unfolding restoreNames_def by (induction pend arbitrary: n) auto

lemma restoreNames_temp:
  assumes "k \<in> set (tempKeys key pend)" "set (tempKeys key pend) \<inter> (\<lambda>f. key (rf_targetName f)) ` set pend = {}"
  shows "restoreNames key pend n k = None"
  using assms
proof (induction pend arbitrary: n)
  case (Cons f pend)
  let ?n = "n(key (rf_targetName f) := n (key (rf_tempName f)), key (rf_tempName f) := None)"
  have step: "restoreNames key (f # pend) n = restoreNames key pend ?n" by (simp add: restoreNames_def)
  show ?case
  proof (cases "k \<in> set (tempKeys key pend)")
    case True
    then show ?thesis using Cons step by auto
  next
    case False
    then have "k = key (rf_tempName f)" "k \<notin> (\<lambda>f. key (rf_targetName f)) ` set pend" using Cons.prems by auto
    then show ?thesis using step restoreNames_other [OF False] by simp
  qed
qed simp

lemma restoreNames_target:
  assumes "f \<in> set pend" "distinct (map (\<lambda>f. key (rf_targetName f)) pend)" "distinct (tempKeys key pend)"
    "set (tempKeys key pend) \<inter> (\<lambda>f. key (rf_targetName f)) ` set pend = {}"
  shows "restoreNames key pend n (key (rf_targetName f)) = n (key (rf_tempName f))"
  using assms
proof (induction pend arbitrary: n)
  case (Cons g pend)
  let ?n = "n(key (rf_targetName g) := n (key (rf_tempName g)), key (rf_tempName g) := None)"
  have step: "restoreNames key (g # pend) n = restoreNames key pend ?n" by (simp add: restoreNames_def)
  show ?case
  proof (cases "f = g")
    case True
    have "key (rf_targetName f) \<notin> set (tempKeys key pend)" "key (rf_targetName f) \<notin> (\<lambda>f. key (rf_targetName f)) ` set pend"
      "key (rf_targetName f) \<noteq> key (rf_tempName f)" using Cons.prems True by auto
    then show ?thesis using step restoreNames_other True by simp
  next
    case False
    then have f: "f \<in> set pend" using Cons.prems(1) by simp
    then have "key (rf_tempName f) \<in> set (tempKeys key pend)" by (simp add: tempKeys_def)
    then have same: "?n (key (rf_tempName f)) = n (key (rf_tempName f))" using Cons.prems f by auto
    have "restoreNames key pend ?n (key (rf_targetName f)) = ?n (key (rf_tempName f))"
      by (rule Cons.IH [OF f]) (use Cons.prems in auto)
    then show ?thesis unfolding step same .
  qed
qed simp

lemma joinErrs_None: "joinErrs errs = None \<longleftrightarrow> errs = []"
  by (cases errs) auto

lemma collectErrs_ok:
  assumes "collectErrs f (x # xs) w = (Inr [], w')"
  obtains u w1 where "f x w = (Inr u, w1)" "collectErrs f xs w1 = (Inr [], w')"
proof -
  obtain r w1 where "f x w = (r, w1)" by fastforce
  with assms that show thesis
    by (cases r) (auto simp: tryA_def bindA_def split: if_splits prod.splits sum.splits)
qed

lemma drainBatch_ok: "drainBatch m (w, pend) = (Inr u, (w', pend')) \<Longrightarrow> m w = (Inr [], w') \<and> pend' = []"
  by (auto simp: drainBatch_def joinErrs_None split: prod.splits sum.splits option.splits)

context jail_fs
begin

lemma finishFile_ok:
  assumes "finishFile fs f w = (Inr u, w')" "\<not> v_dirs (view w) (key (rf_tempName f))"
  shows "view w' = unlinkName (key (rf_tempName f)) (view w)"
proof -
  obtain r w1 where rm: "fs_Remove fs (rf_tempName f) w = (r, w1)" by fastforce
  show ?thesis
  proof (cases r)
    case (Inr u')
    then show ?thesis using assms rm remove [OF assms(2), of u' w1] by (simp add: finishFile_def tryA_def)
  next
    case (Inl e)
    then have "e = OsError ENOENT" "w' = w1" using assms(1) rm by (auto simp: finishFile_def tryA_def osIsNotExist_def split: if_splits)
    then have "v_names (view w) (key (rf_tempName f)) = None" "view w' = view w"
      using rm Inl remove_missing remove_err by blast+
    then show ?thesis by (simp add: unlinkName_def fun_upd_idem)
  qed
qed

lemma finish_names:
  assumes "collectErrs (finishFile fs) pend w = (Inr [], w')" "\<And>k. k \<in> set (tempKeys key pend) \<Longrightarrow> \<not> v_dirs (view w) k"
  shows "view w' = (view w)\<lparr>v_names := (\<lambda>k. if k \<in> set (tempKeys key pend) then None else v_names (view w) k)\<rparr>"
  using assms
proof (induction pend arbitrary: w)
  case (Cons f pend)
  from Cons.prems(1) obtain u w1 where h: "finishFile fs f w = (Inr u, w1)" "collectErrs (finishFile fs) pend w1 = (Inr [], w')"
    by (rule collectErrs_ok)
  have v1: "view w1 = unlinkName (key (rf_tempName f)) (view w)" using finishFile_ok [OF h(1)] Cons.prems(2) by simp
  have "\<not> v_dirs (view w1) k" if "k \<in> set (tempKeys key pend)" for k using Cons.prems(2) [of k] that v1 by (simp add: unlinkName_def)
  from Cons.IH [OF h(2) this] v1 show ?case by (auto simp: unlinkName_def fun_eq_iff)
qed simp

lemma cleanupFile_ok:
  assumes "swaps" "cleanupFile fs f w = (Inr u, w')" "key (rf_tempName f) \<noteq> key (rf_targetName f)"
    "v_names (view w) (key (rf_tempName f)) = Some i" "\<not> v_dirs (view w) (key (rf_targetName f))" "\<not> v_dirs (view w) (key (rf_tempName f))"
  shows "view w' = (view w)\<lparr>v_names := (v_names (view w))(key (rf_targetName f) := Some i, key (rf_tempName f) := None)\<rparr>"
proof -
  from assms(2) obtain u1 w1 where h: "fs_RenameExchange fs (rf_tempName f) (rf_targetName f) w = (Inr u1, w1)" "fs_Remove fs (rf_tempName f) w1 = (Inr u, w')"
    unfolding cleanupFile_def bindA_success by blast
  from exchange [OF assms(3-5) h(1)] \<open>swaps\<close> obtain j where "view w1 = swapNames (key (rf_tempName f)) (key (rf_targetName f)) i j (view w)" by blast
  with remove [OF _ h(2)] assms(3,6) show ?thesis by (simp add: swapNames_def unlinkName_def fun_upd_twist)
qed

lemma cleanup_names:
  assumes "swaps" "collectErrs (cleanupFile fs) pend w = (Inr [], w')" "distinct (tempKeys key pend)"
    "set (tempKeys key pend) \<inter> (\<lambda>f. key (rf_targetName f)) ` set pend = {}"
    "\<And>f. f \<in> set pend \<Longrightarrow> v_names (view w) (key (rf_tempName f)) \<noteq> None \<and> \<not> v_dirs (view w) (key (rf_targetName f)) \<and> \<not> v_dirs (view w) (key (rf_tempName f))"
  shows "view w' = (view w)\<lparr>v_names := restoreNames key pend (v_names (view w))\<rparr>"
  using assms(2-5)
proof (induction pend arbitrary: w)
  case (Cons f pend)
  from Cons.prems(1) obtain u w1 where h: "cleanupFile fs f w = (Inr u, w1)" "collectErrs (cleanupFile fs) pend w1 = (Inr [], w')"
    by (rule collectErrs_ok)
  obtain i where i: "v_names (view w) (key (rf_tempName f)) = Some i" using Cons.prems(4) [of f] by auto
  let ?n = "(v_names (view w))(key (rf_targetName f) := v_names (view w) (key (rf_tempName f)), key (rf_tempName f) := None)"
  have v1: "view w1 = (view w)\<lparr>v_names := ?n\<rparr>"
    using cleanupFile_ok [OF \<open>swaps\<close> h(1) _ i] Cons.prems(3) Cons.prems(4) [of f] i by auto
  have "v_names (view w1) (key (rf_tempName g)) \<noteq> None \<and> \<not> v_dirs (view w1) (key (rf_targetName g)) \<and> \<not> v_dirs (view w1) (key (rf_tempName g))"
    if "g \<in> set pend" for g
  proof -
    have "key (rf_tempName g) \<in> set (tempKeys key pend)" using that by (simp add: tempKeys_def)
    then have "key (rf_tempName g) \<noteq> key (rf_tempName f)" using Cons.prems(2) by auto
    then show ?thesis using Cons.prems(4) [of g] that v1 i by auto
  qed
  then have "view w' = (view w1)\<lparr>v_names := restoreNames key pend (v_names (view w1))\<rparr>"
    using Cons.IH [OF h(2)] Cons.prems(2,3) by auto
  then show ?case unfolding v1 by (simp add: restoreNames_def del: fun_upd_apply)
qed (simp add: restoreNames_def)

end

section \<open>Whole batches\<close>

text \<open>The files that a batch has to leave alone are untouched: what a reader of another path sees is the same.\<close>

definition untouched :: "fsView \<Rightarrow> fsView \<Rightarrow> string \<Rightarrow> bool" where
  "untouched v v' k \<longleftrightarrow> v_names v' k = v_names v k \<and> (\<forall>i. v_names v k = Some i \<longrightarrow> v_data v' i = v_data v i)"

definition holds :: "(string \<Rightarrow> string) \<Rightarrow> fsView \<Rightarrow> newFile \<Rightarrow> bool" where
  "holds key v f \<longleftrightarrow> (\<exists>i. v_names v (key (fst f)) = Some i \<and> v_data v i = snd f)"

context jail_fs
begin

lemma replaceFiles_state:
  assumes "swaps" and good: "goodFiles v0 files"
    and "batchState key isTemp v0 files made {} (view w) pend" "files = made @ todo @ rest"
    and "replaceFiles fmt args fs todo (w, pend) = (res, (w', pend'))"
  shows "case res of Inr _ \<Rightarrow> batchState key isTemp v0 files (made @ todo) {} (view w') pend'
    | Inl e \<Rightarrow> (\<exists>made' left. batchState key isTemp v0 files made' left (view w') pend' \<and> set made' \<subseteq> set files)"
  using assms(3-5)
proof (induction todo arbitrary: made w pend)
  case Nil
  then show ?case by (auto simp: replaceFiles_def)
next
  case (Cons f todo)
  obtain p c m where f: "f = (p, c, m)" by (cases f)
  have sub: "set (targetKeys key made) \<subseteq> set (targetKeys key files)" using Cons.prems(2) by auto
  have new: "(p, c, m) \<in> set files" "key p \<notin> set (targetKeys key made)"
    using good Cons.prems(2) f by (auto simp: goodTargets_def)
  obtain r1 w1 pend1 where s: "Replace fs p c m (w, pend) = (r1, (w1, pend1))" by (metis prod.collapse)
  note step = Replace_step [OF \<open>swaps\<close> Cons.prems(1) good sub new s]
  show ?case
  proof (cases r1)
    case (Inl e)
    then have "res = Inl (wrapErr fmt (args p) e)" "w' = w1" "pend' = pend1"
      using Cons.prems(3) f s by (simp_all add: replaceFiles_def bindA_def wrapA_def)
    then show ?thesis using step Inl Cons.prems(2) by auto
  next
    case (Inr u)
    then have "replaceFiles fmt args fs todo (w1, pend1) = (res, (w', pend'))" using Cons.prems(3) f s by (simp add: replaceFiles_def bindA_def wrapA_def)
    from Cons.IH [OF _ _ this, of "made @ [f]"] step Inr f Cons.prems(2) show ?thesis by (simp split: sum.splits)
  qed
qed

lemma replaceFiles_start:
  assumes "swaps" "goodFiles (view w) files" "replaceFiles fmt args fs files (w, NewReplacedFilesBatch) = (res, (w', pend))"
  shows "\<exists>made left. batchState key isTemp (view w) files made left (view w') pend \<and> set made \<subseteq> set files
    \<and> (\<forall>u. res = Inr u \<longrightarrow> made = files \<and> left = {})"
  using replaceFiles_state [OF assms(1,2) batchState_start [OF assms(2)], of files "[]" fmt args res w' pend] assms(3)
  by (cases res) (auto simp: NewReplacedFilesBatch_def)

lemma Finish_state:
  assumes st: "batchState key isTemp v0 files made {} (view w) pend" and good: "goodFiles v0 files" and sub: "set made \<subseteq> set files"
    and run: "Finish fs (w, pend) = (Inr u, (w', pend'))"
  shows "pend' = []" "\<And>f. f \<in> set made \<Longrightarrow> holds key (view w') f" "\<And>k. k \<notin> set (targetKeys key made) \<Longrightarrow> untouched v0 (view w') k"
proof -
  note D = batchStateD [OF st]
  have final: "pend' = [] \<and> view w' = (view w)\<lparr>v_names := (\<lambda>k. if k \<in> set (tempKeys key pend) then None else v_names (view w) k)\<rparr>"
  proof (cases "pend = []")
    case True
    then show ?thesis using run by (simp add: Finish_def)
  next
    case False
    obtain r1 w1 where s: "fs_SyncCaches fs w = (r1, w1)" by fastforce
    have v1: "view w1 = view w" using keepsViewD [OF sync s] .
    obtain u1 where "r1 = Inr u1" using run False s by (cases r1) (auto simp: Finish_def)
    then have "collectErrs (finishFile fs) pend w1 = (Inr [], w')" "pend' = []"
      using run False s drainBatch_ok [of "collectErrs (finishFile fs) pend" w1 pend u w' pend'] by (simp_all add: Finish_def)
    then show ?thesis using finish_names [of pend w1 w', unfolded v1] D(10) by simp
  qed
  then show "pend' = []" ..
  have notTemp: "key (fst f) \<notin> set (tempKeys key pend)" if "f \<in> set files" for f
    using good D(3) that by (fastforce simp: goodTargets_def list_all_iff elim!: tempKeysE)
  show "holds key (view w') f" if "f \<in> set made" for f
    using D(4) [of "fst f" "fst (snd f)" "snd (snd f)"] that notTemp [of f] sub final by (auto simp: holds_def)
  show "untouched v0 (view w') k" if "k \<notin> set (targetKeys key made)" for k
  proof -
    have "v_names (view w') k = v_names v0 k"
      using D(3) D(6) [OF that] final by (auto elim!: tempKeysE)
    then show ?thesis using D(7) final by (auto simp: untouched_def ran_def)
  qed
qed

lemma Cleanup_state:
  assumes "swaps" and st: "batchState key isTemp v0 files made left (view w) pend" and good: "goodFiles v0 files" and sub: "set made \<subseteq> set files"
    and run: "Cleanup fs (w, pend) = (Inr u, (w', pend'))"
  shows "pend' = []" "\<And>k. v_names v0 k \<noteq> None \<Longrightarrow> untouched v0 (view w') k"
    "\<And>k. v_names (view w') k \<noteq> v_names v0 k \<Longrightarrow> k \<in> set (targetKeys key files) \<or> isTemp k"
proof -
  note D = batchStateD [OF st]
  have sub': "set (targetKeys key made) \<subseteq> set (targetKeys key files)" using sub by (auto simp: targetKeys_def)
  have temps: "isTemp k \<and> v_names v0 k = None" if "k \<in> set (tempKeys key pend)" for k
    using that D(3) by (elim tempKeysE) simp
  have targets: "k \<in> set (targetKeys key made)" if "k \<in> (\<lambda>f. key (rf_targetName f)) ` set pend" for k
    using that D(3) by (elim imageE) simp
  have "\<not> isTemp k" if "k \<in> set (targetKeys key files)" for k
    using that good by (auto simp: goodTargets_def list_all_iff targetKeys_def)
  then have disj: "set (tempKeys key pend) \<inter> (\<lambda>f. key (rf_targetName f)) ` set pend = {}"
    using temps targets sub' by blast
  have loop: "collectErrs (cleanupFile fs) pend w = (Inr [], w')" and pend': "pend' = []"
    using drainBatch_ok [of "collectErrs (cleanupFile fs) pend" w pend u w' pend'] run by (simp_all add: Cleanup_def)
  show "pend' = []" by (rule pend')
  have final: "view w' = (view w)\<lparr>v_names := restoreNames key pend (v_names (view w))\<rparr>"
    by (rule cleanup_names [OF \<open>swaps\<close> loop D(1) disj]) (use D(3,9,10) sub' in \<open>auto simp: tempKeys_def\<close>)
  show "untouched v0 (view w') k" if k: "v_names v0 k \<noteq> None" for k
  proof -
    have "v_names (view w') k = v_names v0 k"
    proof (cases "k \<in> set (targetKeys key made)")
      case True
      then obtain f where f: "f \<in> set pend" "key (rf_targetName f) = k" using D(5) k by blast
      then show ?thesis using restoreNames_target [OF f(1) D(2,1) disj] D(3) [OF f(1)] final by auto
    next
      case False
      have "k \<notin> set (tempKeys key pend)" "k \<notin> left" using temps [of k] D(8) [of k] k by auto
      moreover have "k \<notin> (\<lambda>f. key (rf_targetName f)) ` set pend" using targets False by blast
      ultimately show ?thesis using restoreNames_other D(6) [OF False] final by simp
    qed
    then show ?thesis using D(7) final by (auto simp: untouched_def ran_def)
  qed
  show "k \<in> set (targetKeys key files) \<or> isTemp k" if "v_names (view w') k \<noteq> v_names v0 k" for k
  proof (rule ccontr)
    assume n: "\<not> (k \<in> set (targetKeys key files) \<or> isTemp k)"
    then have "k \<notin> set (targetKeys key made)" "k \<notin> set (tempKeys key pend)" "k \<notin> left" using sub' temps [of k] D(8) [of k] by auto
    moreover from this have "k \<notin> (\<lambda>f. key (rf_targetName f)) ` set pend" using targets by blast
    ultimately show False using that restoreNames_other D(6) final by simp
  qed
qed

end

text \<open>The new file of a target that was missing is not removed if it cannot be renamed.\<close>

context jail_fs
begin

lemma switchFile_leak:
  assumes "fs_RenameExchange fs t p w = (Inl e, w1)" "errorsIs e (OsError ENOENT)" "\<not> isPanic e"
    "fs_RenameNoReplace fs t p w1 = (Inl e', w2)"
  shows "\<exists>e''. switchFile fs p t (w, pend) = (Inl e'', (w2, pend)) \<and> view w2 = view w"
  using assms exchange_err [OF assms(1)] noreplace_err [OF assms(4)]
  by (simp add: switchFile_def tryA_def wrapA_def withLocal_apply)

end

section \<open>Properties\<close>

context jail_prefix
begin

lemma prefixFs_jail_fs: "jail_fs (prefixFs os pfs) (pathJoin (Prefix pfs)) view swaps tempName belowRoot"
  by (rule jail.jail_fs_axioms)

end

lemmas jail_prefix_fs = jail_prefix.prefixFs_jail_fs


section \<open>Witnesses\<close>

text \<open>A jail with one file, and two files to write, of which one exists.\<close>

definition smallJail :: memFs where
  "smallJail = \<lparr>m_entries = [(''/jail'', EDir), (''/jail/a'', EFile 1)], m_data = (\<lambda>i. (''old'', 420))\<rparr>"

definition smallBatch :: "newFile list" where
  "smallBatch = [(''/a'', ''x'', 420), (''/d/b'', ''y'', 420)]"

lemma smallBatch_good: "goodTargets (pathJoin (Prefix jailPrefix)) tempName belowRoot (memView smallJail) smallBatch"
  by code_simp

lemma smallBatch_cleans:
  "fst (Cleanup (prefixFs (memOs True) jailPrefix) (snd (replaceFiles [] (\<lambda>p. []) (prefixFs (memOs True) jailPrefix) smallBatch (smallJail, NewReplacedFilesBatch)))) = Inr ()"
  by code_simp

text \<open>
  The restriction to different targets is needed: when a path is replaced twice in a batch, the clean-up
  goes through the replacements in their order and leaves the content of the first one.
\<close>

lemma Cleanup_same_target:
  "(let w = fst (snd (Cleanup (prefixFs (memOs True) jailPrefix) (snd (replaceFiles [] (\<lambda>p. []) (prefixFs (memOs True) jailPrefix)
        [(''/a'', ''x'', 420), (''/a'', ''y'', 420)] (smallJail, NewReplacedFilesBatch)))))
    in map_option (v_data (memView w)) (v_names (memView w) ''/jail/a'')) = Some (''x'', 420)"
  by code_simp


end
