(* ===== verification/Jailed_Config.thy ===== *)
theory Jailed_Config
  imports Replaced_Files Worker_Topology Slurm_Node
begin

text \<open>
  The controller of JailedConfig resources, internal/controller/sconfigcontroller/jailedconfig\_controller.go:
  it writes the data of ConfigMaps into the jail, records the progress in the conditions of the resource
  and has Slurm reread its configuration.

  Parameters (record \<open>jailedApi\<close>) are the Kubernetes calls, apimachinery's functions on conditions and the
  marking of an error as terminal, the Slurm API, the order in which Go visits the payload map, and the
  wait of the polling loop, which answers whether the deadline has passed. The polling loop ends only when the
  nodes have restarted or the deadline has passed; it is modelled with fuel, and \<open>NoReturn\<close> stands for
  running on. A status patch answers with the resource as the server has it.
\<close>

section \<open>Data\<close>

record keyToPath =
  ktp_Key :: string
  ktp_Path :: string
  ktp_Mode :: "int option"

record metaCondition =
  mc_Type :: string
  mc_Status :: string
  mc_Reason :: string
  mc_Message :: string

record JailedConfig =
  j_meta :: objectMeta
  j_configMap :: string
  j_items :: "keyToPath list"
  j_defaultMode :: "int option"
  j_updateActions :: "string list"
  j_conditions :: "metaCondition list"

record dataMap =
  dm_Data :: "(string, string) gomap"
  dm_BinaryData :: "(string, string) gomap"

record JailedFile =
  jf_Data :: string
  jf_Mode :: int

record apiError =
  ae_number :: int
  ae_error :: "string option"
  ae_source :: "string option"

record startTime =
  st_Infinite :: "bool option"
  st_Set :: "bool option"
  st_Number :: "int option"

record workerNode =
  wn_Name :: "string option"
  wn_State :: "string list option"
  wn_SlurmdStartTime :: "startTime option"

record responseBody =
  rb_Errors :: "apiError list option"
  rb_Nodes :: "workerNode list"

record apiResponse =
  ar_StatusCode :: int
  ar_JSON200 :: "responseBody option"

record 'w jailedApi =
  ja_getConfig :: "objectKey \<Rightarrow> ('w, JailedConfig) action"
  ja_listConfigs :: "string \<Rightarrow> labels \<Rightarrow> ('w, JailedConfig list) action"
  ja_getConfigMap :: "objectKey \<Rightarrow> ('w, dataMap) action"
  ja_patchStatus :: "JailedConfig \<Rightarrow> JailedConfig \<Rightarrow> ('w, JailedConfig) action"
  ja_SetStatusCondition :: "metaCondition list \<Rightarrow> metaCondition \<Rightarrow> metaCondition list"
  ja_FindStatusCondition :: "metaCondition list \<Rightarrow> string \<Rightarrow> metaCondition option"
  ja_TerminalError :: "goError \<Rightarrow> goError"
  ja_rangeFiles :: "(string, JailedFile) gomap \<Rightarrow> (string \<times> JailedFile) list"
  ja_getNodes :: "('w, apiResponse) action"
  ja_reconfigure :: "('w, apiResponse) action"
  ja_waitPoll :: "('w, bool) action"

definition FilesWritten :: string where "FilesWritten = ''FilesWritten''"
definition UpdateActionsCompleted :: string where "UpdateActionsCompleted = ''UpdateActionsCompleted''"
definition UpdateActionReconfigure :: string where "UpdateActionReconfigure = ''Reconfigure''"
definition DefaultMode :: int where "DefaultMode = 420"
definition JReasonInit :: string where "JReasonInit = ''Init''"
definition JReasonRefresh :: string where "JReasonRefresh = ''Refresh''"
definition JReasonSuccess :: string where "JReasonSuccess = ''Success''"
definition JReasonNotFound :: string where "JReasonNotFound = ''NotFound''"
definition JReasonNotWritten :: string where "JReasonNotWritten = ''NotWritten''"
definition JReasonMissingAction :: string where "JReasonMissingAction = ''MissingAction''"

definition cond :: "string \<Rightarrow> string \<Rightarrow> string \<Rightarrow> string \<Rightarrow> metaCondition" where
  "cond type status reason message = \<lparr>mc_Type = type, mc_Status = status, mc_Reason = reason, mc_Message = message\<rparr>"

section \<open>The payload\<close>

fun payloadItems :: "keyToPath list \<Rightarrow> dataMap \<Rightarrow> int \<Rightarrow> (string, JailedFile) gomap \<Rightarrow> goError + (string, JailedFile) gomap" where
  "payloadItems [] configMap defaultMode payload = Inr payload"
| "payloadItems (ktp # ktps) configMap defaultMode payload =
     (let found = (case map_of (dm_Data configMap) (ktp_Key ktp) of Some d \<Rightarrow> Some d | None \<Rightarrow> map_of (dm_BinaryData configMap) (ktp_Key ktp));
          mode = (case ktp_Mode ktp of Some m \<Rightarrow> m | None \<Rightarrow> defaultMode)
      in case found of
           None \<Rightarrow> Inl (Errorf ''JailedConfig items references non-existent config key: %s'' [ktp_Key ktp])
         | Some d \<Rightarrow> payloadItems ktps configMap defaultMode (mapPut (ktp_Path ktp) \<lparr>jf_Data = d, jf_Mode = mode\<rparr> payload))"

definition makePayload :: "keyToPath list \<Rightarrow> dataMap \<Rightarrow> int option \<Rightarrow> goError + (string, JailedFile) gomap" where
  "makePayload mappings configMap defaultMode = (case defaultMode of
     None \<Rightarrow> Inl (Errorf ''no defaultMode used, not even the default value for it'' [])
   | Some mode \<Rightarrow>
       if mappings = [] then
         Inr (fold (\<lambda>(name, d). mapPut name \<lparr>jf_Data = d, jf_Mode = mode\<rparr>) (dm_BinaryData configMap)
               (fold (\<lambda>(name, d). mapPut name \<lparr>jf_Data = d, jf_Mode = mode\<rparr>) (dm_Data configMap) []))
       else payloadItems mappings configMap mode [])"

definition validatePayloadPath :: "string \<Rightarrow> goError option" where
  "validatePayloadPath path = (if \<not> isAbs path then Some (Errorf ''must be absolute'' []) else None)"

fun validatePaths :: "string list \<Rightarrow> (string \<times> goError) option" where
  "validatePaths [] = None"
| "validatePaths (path # paths) = (case validatePayloadPath path of Some err \<Rightarrow> Some (path, err) | None \<Rightarrow> validatePaths paths)"

text \<open>os.FileMode of an int32.\<close>

definition fileMode :: "int \<Rightarrow> int" where
  "fileMode m = m mod 2 ^ 32"

definition payloadFiles :: "(string \<times> JailedFile) list \<Rightarrow> newFile list" where
  "payloadFiles files = map (\<lambda>(path, f). (path, jf_Data f, fileMode (jf_Mode f))) files"

section \<open>Conditions\<close>

definition patchStatus :: "'w jailedApi \<Rightarrow> JailedConfig \<Rightarrow> (metaCondition list \<Rightarrow> metaCondition list) \<Rightarrow> ('w, JailedConfig) action" where
  "patchStatus api jailedConfig patcher =
     wrapA ''patching JailedConfig status: %w'' []
       (ja_patchStatus api jailedConfig (jailedConfig\<lparr>j_conditions := patcher (j_conditions jailedConfig)\<rparr>))"

definition initializeCondition :: "'w jailedApi \<Rightarrow> string \<Rightarrow> metaCondition list \<Rightarrow> metaCondition list" where
  "initializeCondition api type conditions =
     ja_SetStatusCondition api conditions (cond type ''Unknown'' JReasonInit ''Conditions was just initialized'')"

definition initializeConditions :: "'w jailedApi \<Rightarrow> JailedConfig \<Rightarrow> ('w, JailedConfig) action" where
  "initializeConditions api jailedConfig = patchStatus api jailedConfig (\<lambda>conditions.
     initializeCondition api UpdateActionsCompleted (initializeCondition api FilesWritten conditions))"

definition setConditions :: "'w jailedApi \<Rightarrow> JailedConfig \<Rightarrow> metaCondition list \<Rightarrow> ('w, JailedConfig) action" where
  "setConditions api jailedConfig conds =
     patchStatus api jailedConfig (\<lambda>conditions. fold (\<lambda>c cs. ja_SetStatusCondition api cs c) conds conditions)"

definition shouldInitializeConditions :: "'w jailedApi \<Rightarrow> JailedConfig \<Rightarrow> ('w, JailedConfig) action" where
  "shouldInitializeConditions api jailedConfig =
     (let conditions = j_conditions jailedConfig in
      bindA (if conditions = [] then wrapA ''initializing conditions: %w'' [] (initializeConditions api jailedConfig) else ret jailedConfig) (\<lambda>jc1.
        let jc2 = (if ja_FindStatusCondition api conditions FilesWritten = None
                   then jc1\<lparr>j_conditions := initializeCondition api FilesWritten (j_conditions jc1)\<rparr> else jc1);
            jc3 = (if ja_FindStatusCondition api conditions UpdateActionsCompleted = None
                   then jc2\<lparr>j_conditions := initializeCondition api UpdateActionsCompleted (j_conditions jc2)\<rparr> else jc2)
        in ret jc3))"

definition hasFailedFilesWrittenCondition :: "'w jailedApi \<Rightarrow> JailedConfig \<Rightarrow> bool" where
  "hasFailedFilesWrittenCondition api jailedConfig = (case ja_FindStatusCondition api (j_conditions jailedConfig) FilesWritten of
     None \<Rightarrow> False | Some c \<Rightarrow> mc_Reason c = JReasonNotFound)"

section \<open>Reconfiguring Slurm\<close>

definition checkStatus :: "apiResponse \<Rightarrow> ('w, unit) action" where
  "checkStatus response = (if ar_StatusCode response \<noteq> 200
     then raise (Errorf ''unexpected status code: %d'' [itoa (ar_StatusCode response)]) else ret ())"

definition formatApiError :: "apiError \<Rightarrow> goError" where
  "formatApiError err = (case (ae_error err, ae_source err) of
     (Some e, Some s) \<Rightarrow> Errorf ''API error %d %s, source %s'' [itoa (ae_number err), e, s]
   | _ \<Rightarrow> nilDereference)"

definition checkApiErrors :: "apiError list option \<Rightarrow> ('w, unit) action" where
  "checkApiErrors responseErrors = (case responseErrors of
     None \<Rightarrow> raise nilDereference
   | Some errs \<Rightarrow>
       case find (\<lambda>e. e = nilDereference) (map formatApiError errs) of
         Some p \<Rightarrow> raise p
       | None \<Rightarrow> case joinErrs (map formatApiError errs) of None \<Rightarrow> ret () | Some e \<Rightarrow> raise e)"

definition responseJson :: "apiResponse \<Rightarrow> ('w, responseBody) action" where
  "responseJson response = (case ar_JSON200 response of None \<Rightarrow> raise nilDereference | Some body \<Rightarrow> ret body)"

definition getNodes :: "'w jailedApi \<Rightarrow> ('w, responseBody) action" where
  "getNodes api =
     bindA (wrapA ''listing workers via Slurm API: %w'' [] (ja_getNodes api)) (\<lambda>nodesBefore.
     bindA (wrapA ''listing workers via Slurm API: %w'' [] (checkStatus nodesBefore)) (\<lambda>_.
     bindA (responseJson nodesBefore) (\<lambda>body.
     bindA (wrapA ''listing workers via Slurm API: %w'' [] (checkApiErrors (rb_Errors body))) (\<lambda>_. ret body))))"

definition ignoredState :: "string \<Rightarrow> bool" where
  "ignoredState state \<longleftrightarrow> state = ''NOT_RESPONDING'' \<or> state = ''POWERING_DOWN'' \<or> state = ''POWERED_DOWN''"

definition nodeStartTime :: "string \<Rightarrow> workerNode \<Rightarrow> goError + int" where
  "nodeStartTime name node = (case wn_SlurmdStartTime node of
     None \<Rightarrow> Inl nilDereference
   | Some t \<Rightarrow> case st_Infinite t of
       None \<Rightarrow> Inl nilDereference
     | Some True \<Rightarrow> Inl (Errorf ''unexpected infinite start time for worker in Slurm API: %s'' [name])
     | Some False \<Rightarrow> case st_Set t of
         None \<Rightarrow> Inl nilDereference
       | Some False \<Rightarrow> Inl (Errorf ''unexpected unset start time for worker in Slurm API: %s'' [name])
       | Some True \<Rightarrow> case st_Number t of None \<Rightarrow> Inl nilDereference | Some n \<Rightarrow> Inr n)"

fun collectStartTimes :: "workerNode list \<Rightarrow> (string, int) gomap \<Rightarrow> goError + (string, int) gomap" where
  "collectStartTimes [] nodeToStart = Inr nodeToStart"
| "collectStartTimes (node # nodes) nodeToStart = (case wn_Name node of
     None \<Rightarrow> Inl nilDereference
   | Some name \<Rightarrow>
       if map_of nodeToStart name \<noteq> None then Inl (Errorf ''duplicated worker name in Slurm API: %s'' [name])
       else case wn_State node of
         None \<Rightarrow> Inl nilDereference
       | Some states \<Rightarrow>
           if list_ex ignoredState states then collectStartTimes nodes nodeToStart
           else case nodeStartTime name node of
             Inl e \<Rightarrow> Inl e
           | Inr t \<Rightarrow> collectStartTimes nodes (mapPut name t nodeToStart))"

definition getNodesStartTime :: "'w jailedApi \<Rightarrow> ('w, (string, int) gomap) action" where
  "getNodesStartTime api = bindA (getNodes api) (\<lambda>nodes. liftA (collectStartTimes (rb_Nodes nodes) []))"

text \<open>One round of the loop: the nodes that have restarted or are gone are no longer waited for.\<close>

definition stillWaiting :: "(string, int) gomap \<Rightarrow> (string, int) gomap \<Rightarrow> (string, int) gomap" where
  "stillWaiting after before =
     (let left = fold (\<lambda>(name, slurmdStartTimeAfter) m. case map_of m name of
            None \<Rightarrow> m
          | Some slurmdStartTimeBefore \<Rightarrow> if slurmdStartTimeAfter > slurmdStartTimeBefore then mapDelete name m else m) after before
      in filter (\<lambda>(name, t). map_of after name \<noteq> None) left)"

fun pollSlurmNodesRestart :: "nat \<Rightarrow> 'w jailedApi \<Rightarrow> (string, int) gomap \<Rightarrow> ('w, unit) action" where
  "pollSlurmNodesRestart 0 api nodeToStartBefore = raise NoReturn"
| "pollSlurmNodesRestart (Suc fuel) api nodeToStartBefore =
     bindA (getNodesStartTime api) (\<lambda>nodeToStartAfter.
       let left = stillWaiting nodeToStartAfter nodeToStartBefore in
       if left = [] then ret ()
       else bindA (ja_waitPoll api) (\<lambda>expired.
         if expired then raise DeadlineExceeded else pollSlurmNodesRestart fuel api left))"

definition reconfigureCluster :: "nat \<Rightarrow> 'w jailedApi \<Rightarrow> ('w, unit) action" where
  "reconfigureCluster fuel api =
     bindA (getNodesStartTime api) (\<lambda>nodeToStartBefore.
     bindA (wrapA ''requesting Slurm API to reconfigure nodes: %w'' [] (ja_reconfigure api)) (\<lambda>reconfigureResponse.
     bindA (wrapA ''reconfigure via Slurm API: %w'' [] (checkStatus reconfigureResponse)) (\<lambda>_.
     bindA (responseJson reconfigureResponse) (\<lambda>body.
     bindA (wrapA ''reconfigure via Slurm API: %w'' [] (checkApiErrors (rb_Errors body))) (\<lambda>_.
     tryA (pollSlurmNodesRestart fuel api nodeToStartBefore) (\<lambda>r. case r of
       Inl err \<Rightarrow> if errorsIs err DeadlineExceeded then raise (wrapErr ''nodes did not restart: %w'' [] err) else ret ()
     | Inr _ \<Rightarrow> ret ()))))))"

section \<open>The reconcilers\<close>

record jailedReconciler =
  jr_clusterName :: string

text \<open>
  A deferred clean-up of the batch. The functions that defer it have unnamed results, so the error that
  the deferred function joins to its variable is dropped.
\<close>

definition deferCleanup :: "'w Fs \<Rightarrow> ('w batch, 'a) action \<Rightarrow> ('w, 'a) action" where
  "deferCleanup fs body = (\<lambda>w. case body (w, NewReplacedFilesBatch) of (res, s) \<Rightarrow> (res, fst (snd (Cleanup fs s))))"

definition refreshing :: "string \<Rightarrow> metaCondition list" where
  "refreshing message = [cond FilesWritten ''False'' JReasonRefresh message, cond UpdateActionsCompleted ''False'' JReasonRefresh message]"

definition effectiveMode :: "JailedConfig \<Rightarrow> int option" where
  "effectiveMode jailedConfig = (case j_defaultMode jailedConfig of None \<Rightarrow> Some DefaultMode | Some m \<Rightarrow> Some m)"

definition configMapKey :: "JailedConfig \<Rightarrow> objectKey" where
  "configMapKey jailedConfig = (om_namespace (j_meta jailedConfig), j_configMap jailedConfig)"

definition performActions :: "nat \<Rightarrow> 'w jailedApi \<Rightarrow> JailedConfig \<Rightarrow> ('w, unit) action" where
  "performActions fuel api jailedConfig =
     bindA (if j_updateActions jailedConfig = []
            then wrapA ''setting conditions: %w'' [] (setConditions api jailedConfig
                   [cond UpdateActionsCompleted ''True'' JReasonMissingAction ''No update actions specified, skipping further processing''])
            else ret jailedConfig) (\<lambda>jc1.
     bindA (forA (\<lambda>action jc.
         if action = UpdateActionReconfigure then
           bindA (wrapA ''reconfiguring Slurm cluster: %w'' [] (reconfigureCluster fuel api)) (\<lambda>_.
             wrapA ''setting conditions: %w'' [] (setConditions api jc
               [cond UpdateActionsCompleted ''True'' JReasonSuccess ''Update actions were called successfully'']))
         else ret jc) (j_updateActions jailedConfig) jc1) (\<lambda>_. ret ()))"

definition writeIndividual :: "nat \<Rightarrow> 'w jailedApi \<Rightarrow> 'w Fs \<Rightarrow> JailedConfig \<Rightarrow> (string \<times> JailedFile) list \<Rightarrow> ('w, unit) action" where
  "writeIndividual fuel api fs jailedConfig files =
     deferCleanup fs (
       bindA (replaceFiles ''replacing file %q in FS: %w'' (\<lambda>path. [path]) fs (payloadFiles files)) (\<lambda>_.
       bindA (withLocal (wrapA ''setting conditions: %w'' [] (setConditions api jailedConfig
               [cond FilesWritten ''True'' JReasonSuccess ''Files were written to jail FS'']))) (\<lambda>jc1.
       bindA (wrapA ''finishing replacing files in FS: %w'' [] (Finish fs)) (\<lambda>_.
         withLocal (performActions fuel api jc1)))))"

definition reconcileIndividual :: "nat \<Rightarrow> 'w jailedApi \<Rightarrow> 'w Fs \<Rightarrow> jailedReconciler \<Rightarrow> JailedConfig \<Rightarrow> ('w, unit) action" where
  "reconcileIndividual fuel api fs r jailedConfig =
     (if getStr (om_labels (j_meta jailedConfig)) LabelInstanceKey \<noteq> jr_clusterName r then ret ()
      else bindA (wrapA ''initializing conditions: %w'' [] (shouldInitializeConditions api jailedConfig)) (\<lambda>jc1.
        tryA (ja_getConfigMap api (configMapKey jc1)) (\<lambda>res. case res of
          Inl err \<Rightarrow> if IsNotFound err then ret () else raise (wrapErr ''getting ConfigMap %s: %w'' [j_configMap jc1] err)
        | Inr configMap \<Rightarrow>
            bindA (wrapA ''setting conditions: %w'' [] (setConditions api jc1 (refreshing ''Refreshing files in jail FS''))) (\<lambda>jc2.
              case makePayload (j_items jc2) configMap (effectiveMode jc2) of
                Inl err \<Rightarrow> raise (ja_TerminalError api (wrapErr ''making JailedConfig payload: %w'' [] err))
              | Inr jailPayload \<Rightarrow>
                  case validatePaths (map fst (ja_rangeFiles api jailPayload)) of
                    Some (path, err) \<Rightarrow> raise (ja_TerminalError api (wrapErr ''invalid config path %q: %w'' [path] err))
                  | None \<Rightarrow> writeIndividual fuel api fs jc2 (ja_rangeFiles api jailPayload)))))"

definition nameArgs :: "JailedConfig \<Rightarrow> string list" where
  "nameArgs jailedConfig = [om_namespace (j_meta jailedConfig), om_name (j_meta jailedConfig)]"

definition refreshAggregated :: "'w jailedApi \<Rightarrow> JailedConfig \<Rightarrow> JailedConfig list \<Rightarrow> ('w, JailedConfig list) action" where
  "refreshAggregated api jailedConfig acc =
     bindA (wrapA ''initializing conditions for %s/%s: %w'' (nameArgs jailedConfig) (shouldInitializeConditions api jailedConfig)) (\<lambda>jc1.
     bindA (wrapA ''setting conditions for %s/%s: %w'' (nameArgs jc1)
             (setConditions api jc1 (refreshing ''Refreshing files in jail FS (aggregated)''))) (\<lambda>jc2. ret (acc @ [jc2])))"

definition writeAggregated :: "'w jailedApi \<Rightarrow> 'w Fs \<Rightarrow> JailedConfig \<Rightarrow> JailedConfig list \<Rightarrow> ('w batch, JailedConfig list) action" where
  "writeAggregated api fs jailedConfig acc =
     tryA (withLocal (ja_getConfigMap api (configMapKey jailedConfig))) (\<lambda>res. case res of
       Inl err \<Rightarrow>
         if IsNotFound err then
           bindA (withLocal (wrapA ''setting files written condition for %s/%s: %w'' (nameArgs jailedConfig) (setConditions api jailedConfig
             [cond FilesWritten ''False'' JReasonNotFound ''ConfigMap not found, files were not written (aggregated)'']))) (\<lambda>jc1. ret (acc @ [jc1]))
         else raise (wrapErr ''getting ConfigMap %s for %s/%s: %w'' (j_configMap jailedConfig # nameArgs jailedConfig) err)
     | Inr configMap \<Rightarrow>
         (case makePayload (j_items jailedConfig) configMap (effectiveMode jailedConfig) of
            Inl err \<Rightarrow> raise (ja_TerminalError api (wrapErr ''making JailedConfig payload for %s/%s: %w'' (nameArgs jailedConfig) err))
          | Inr jailPayload \<Rightarrow>
              let files = ja_rangeFiles api jailPayload in
              case validatePaths (map fst files) of
                Some (path, err) \<Rightarrow> raise (ja_TerminalError api (wrapErr ''invalid config path %q in %s/%s: %w'' (path # nameArgs jailedConfig) err))
              | None \<Rightarrow>
                  bindA (replaceFiles ''replacing file %q for %s/%s: %w'' (\<lambda>path. path # nameArgs jailedConfig) fs (payloadFiles files)) (\<lambda>_.
                  bindA (withLocal (wrapA ''setting conditions: %w'' [] (setConditions api jailedConfig
                    [cond FilesWritten ''True'' JReasonSuccess ''Files were written to jail FS (aggregated)'']))) (\<lambda>jc1. ret (acc @ [jc1])))))"

definition needsReconfigure :: "JailedConfig list \<Rightarrow> bool" where
  "needsReconfigure configs = list_ex (\<lambda>c. list_ex (\<lambda>action. action = UpdateActionReconfigure) (j_updateActions c)) configs"

definition completedCondition :: "'w jailedApi \<Rightarrow> bool \<Rightarrow> JailedConfig \<Rightarrow> metaCondition" where
  "completedCondition api reconfigured jailedConfig =
     (if reconfigured then
        if hasFailedFilesWrittenCondition api jailedConfig
        then cond UpdateActionsCompleted ''False'' JReasonNotWritten ''Update actions were not called because files were not written (aggregated)''
        else cond UpdateActionsCompleted ''True'' JReasonSuccess ''Update actions were called successfully (aggregated)''
      else cond UpdateActionsCompleted ''True'' JReasonSuccess ''Update actions were not called because no reconfigure needed (aggregated)'')"

definition setUpdateActionsCompletedForConfigs :: "'w jailedApi \<Rightarrow> JailedConfig list \<Rightarrow> bool \<Rightarrow> ('w, unit) action" where
  "setUpdateActionsCompletedForConfigs api configs reconfigured =
     forA (\<lambda>jailedConfig _. bindA (wrapA ''setting update actions completed condition for %s/%s: %w'' (nameArgs jailedConfig)
       (setConditions api jailedConfig [completedCondition api reconfigured jailedConfig])) (\<lambda>_. ret ())) configs ()"

definition finishAggregated :: "nat \<Rightarrow> 'w jailedApi \<Rightarrow> JailedConfig list \<Rightarrow> ('w, unit) action" where
  "finishAggregated fuel api configs =
     bindA (if needsReconfigure configs
            then wrapA ''reconfiguring Slurm cluster for aggregated group: %w'' [] (reconfigureCluster fuel api) else ret ()) (\<lambda>_.
       setUpdateActionsCompletedForConfigs api configs (needsReconfigure configs))"

definition reconcileWithAggregation :: "nat \<Rightarrow> 'w jailedApi \<Rightarrow> 'w Fs \<Rightarrow> jailedReconciler \<Rightarrow> JailedConfig \<Rightarrow> string \<Rightarrow> ('w, unit) action" where
  "reconcileWithAggregation fuel api fs r jailedConfig aggregationKey =
     bindA (wrapA ''listing JailedConfigs with aggregation key %q: %w'' [aggregationKey]
             (ja_listConfigs api (om_namespace (j_meta jailedConfig))
                [(LabelJailedAggregationKey, aggregationKey), (LabelInstanceKey, jr_clusterName r)])) (\<lambda>items.
     bindA (forA (refreshAggregated api) items []) (\<lambda>refreshed.
       deferCleanup fs (
         bindA (forA (writeAggregated api fs) refreshed []) (\<lambda>written.
         bindA (wrapA ''finishing replacing files in FS: %w'' [] (Finish fs)) (\<lambda>_.
           withLocal (finishAggregated fuel api written))))))"

definition Reconcile_jailedConfig :: "nat \<Rightarrow> 'w jailedApi \<Rightarrow> 'w Fs \<Rightarrow> jailedReconciler \<Rightarrow> objectKey \<Rightarrow> ('w, unit) action" where
  "Reconcile_jailedConfig fuel api fs r req =
     tryA (ja_getConfig api req) (\<lambda>res. case res of
       Inl err \<Rightarrow> if IsNotFound err then ret () else raise (wrapErr ''getting JailedConfig: %w'' [] err)
     | Inr jailedConfig \<Rightarrow>
         case map_of (om_labels (j_meta jailedConfig)) LabelJailedAggregationKey of
           None \<Rightarrow> reconcileIndividual fuel api fs r jailedConfig
         | Some aggregationKey \<Rightarrow> reconcileWithAggregation fuel api fs r jailedConfig aggregationKey)"

text \<open>
  The watch on ConfigMaps: a changed ConfigMap leads to a request for every resource that names it. The listing by the
  field index is a parameter.
\<close>

definition configMapField :: "JailedConfig \<Rightarrow> string list" where
  "configMapField jailedConfig = (if j_configMap jailedConfig = [] then [] else [j_configMap jailedConfig])"

definition findObjectsForConfigMap :: "(string \<Rightarrow> string \<Rightarrow> ('w, JailedConfig list) action) \<Rightarrow> objectKey \<Rightarrow> ('w, objectKey list) action" where
  "findObjectsForConfigMap listByField configMap =
     tryA (listByField (snd configMap) (fst configMap)) (\<lambda>res. case res of
       Inl err \<Rightarrow> ret []
     | Inr items \<Rightarrow> ret (map (\<lambda>item. metaKey (j_meta item)) items))"

section \<open>Calls that leave the files alone\<close>

text \<open>What is relied on: no call of the Kubernetes and Slurm clients touches the jail.\<close>

definition apartFromFs :: "'w jailedApi \<Rightarrow> ('w \<Rightarrow> 'v) \<Rightarrow> bool" where
  "apartFromFs api view \<longleftrightarrow> (\<forall>k. keepsView view (ja_getConfig api k)) \<and> (\<forall>ns ls. keepsView view (ja_listConfigs api ns ls))
     \<and> (\<forall>k. keepsView view (ja_getConfigMap api k)) \<and> (\<forall>a b. keepsView view (ja_patchStatus api a b))
     \<and> keepsView view (ja_getNodes api) \<and> keepsView view (ja_reconfigure api) \<and> keepsView view (ja_waitPoll api)"

lemma apartFromFsD:
  assumes "apartFromFs api view"
  shows "keepsView view (ja_getConfig api k)" "keepsView view (ja_listConfigs api ns ls)" "keepsView view (ja_getConfigMap api k)"
    "keepsView view (ja_patchStatus api a b)" "keepsView view (ja_getNodes api)" "keepsView view (ja_reconfigure api)" "keepsView view (ja_waitPoll api)"
  using assms unfolding apartFromFs_def by blast+

lemma setConditions_keeps: "apartFromFs api view \<Longrightarrow> keepsView view (setConditions api jc cs)"
  unfolding setConditions_def patchStatus_def by (intro keepsView_wrapA apartFromFsD)

lemma shouldInitializeConditions_keeps: "apartFromFs api view \<Longrightarrow> keepsView view (shouldInitializeConditions api jc)"
  unfolding shouldInitializeConditions_def initializeConditions_def patchStatus_def Let_def
  by (intro keepsView_bindA) (auto intro: keepsView_wrapA keepsView_basic apartFromFsD)

lemma refreshAggregated_keeps: "apartFromFs api view \<Longrightarrow> keepsView view (refreshAggregated api jc acc)"
  unfolding refreshAggregated_def
  by (intro keepsView_bindA keepsView_wrapA keepsView_basic shouldInitializeConditions_keeps setConditions_keeps)

lemma getNodesStartTime_keeps:
  assumes "apartFromFs api view"
  shows "keepsView view (getNodesStartTime api)"
proof -
  have "keepsView view (checkStatus x)" "keepsView view (checkApiErrors y)" "keepsView view (responseJson x)" for x y
    by (simp_all add: checkStatus_def checkApiErrors_def responseJson_def keepsView_basic split: option.split)
  then show ?thesis unfolding getNodesStartTime_def getNodes_def
    by (intro keepsView_bindA keepsView_wrapA keepsView_basic apartFromFsD [OF assms])
qed

lemma pollSlurmNodesRestart_keeps:
  assumes "apartFromFs api view"
  shows "keepsView view (pollSlurmNodesRestart fuel api before)"
proof (induction fuel arbitrary: before)
  case (Suc fuel)
  have "keepsView view (bindA (ja_waitPoll api) (\<lambda>expired. if expired then raise DeadlineExceeded else pollSlurmNodesRestart fuel api left))" for left
    by (intro keepsView_bindA apartFromFsD [OF assms]) (simp add: keepsView_basic Suc.IH)
  then show ?case
    by (auto simp: Let_def keepsView_basic intro!: keepsView_bindA getNodesStartTime_keeps [OF assms])
qed (simp add: keepsView_basic)

lemma reconfigureCluster_keeps:
  assumes "apartFromFs api view"
  shows "keepsView view (reconfigureCluster fuel api)"
proof -
  have checks: "keepsView view (checkStatus x)" "keepsView view (checkApiErrors y)" "keepsView view (responseJson x)" for x y
    by (simp_all add: checkStatus_def checkApiErrors_def responseJson_def keepsView_basic split: option.split)
  have poll: "keepsView view (tryA (pollSlurmNodesRestart fuel api before) (\<lambda>r. case r of
       Inl err \<Rightarrow> if errorsIs err DeadlineExceeded then raise (wrapErr ''nodes did not restart: %w'' [] err) else ret ()
     | Inr _ \<Rightarrow> ret ()))" for before
    by (rule keepsView_tryA [OF pollSlurmNodesRestart_keeps [OF assms]]) (simp add: keepsView_basic split: sum.split)
  show ?thesis unfolding reconfigureCluster_def
    by (intro keepsView_bindA keepsView_wrapA getNodesStartTime_keeps [OF assms] apartFromFsD [OF assms] checks poll)
qed

lemma performActions_keeps:
  assumes "apartFromFs api view"
  shows "keepsView view (performActions fuel api jc)"
  unfolding performActions_def
  by (intro keepsView_bindA keepsView_forA)
    (auto simp: keepsView_basic intro!: keepsView_bindA keepsView_wrapA setConditions_keeps [OF assms] reconfigureCluster_keeps [OF assms])

lemma finishAggregated_keeps:
  assumes "apartFromFs api view"
  shows "keepsView view (finishAggregated fuel api configs)"
proof -
  have "keepsView view (setUpdateActionsCompletedForConfigs api configs b)" for b
    unfolding setUpdateActionsCompletedForConfigs_def
    by (intro keepsView_forA keepsView_bindA keepsView_wrapA keepsView_basic setConditions_keeps [OF assms])
  then show ?thesis unfolding finishAggregated_def
    by (auto simp: keepsView_basic intro!: keepsView_bindA keepsView_wrapA reconfigureCluster_keeps [OF assms])
qed

section \<open>What a run writes\<close>

text \<open>
  The files of a resource, by what the ConfigMaps hold: none if its ConfigMap does not exist. What is relied
  on is that the ConfigMaps do not change during a run and that patching the status leaves the rest of a
  resource alone.
\<close>

definition filesOf :: "'w jailedApi \<Rightarrow> (objectKey \<Rightarrow> goError + dataMap) \<Rightarrow> JailedConfig \<Rightarrow> newFile list" where
  "filesOf api cms jc = (case cms (configMapKey jc) of
     Inl _ \<Rightarrow> []
   | Inr configMap \<Rightarrow> (case makePayload (j_items jc) configMap (effectiveMode jc) of
       Inl _ \<Rightarrow> [] | Inr payload \<Rightarrow> payloadFiles (ja_rangeFiles api payload)))"

definition configMapsAre :: "'w jailedApi \<Rightarrow> (objectKey \<Rightarrow> goError + dataMap) \<Rightarrow> bool" where
  "configMapsAre api cms \<longleftrightarrow> (\<forall>k w. fst (ja_getConfigMap api k w) = cms k)"

definition patchesStatusOnly :: "'w jailedApi \<Rightarrow> bool" where
  "patchesStatusOnly api \<longleftrightarrow> (\<forall>a b w c w'. ja_patchStatus api a b w = (Inr c, w') \<longrightarrow> (\<exists>cs. c = b\<lparr>j_conditions := cs\<rparr>))"

lemma withLocal_success: "withLocal m (w, l) = (Inr a, (w', l')) \<longleftrightarrow> m w = (Inr a, w') \<and> l' = l"
  by (auto simp: withLocal_def split: prod.splits)

lemma bind_withLocal:
  assumes "bindA (withLocal (wrapA f as m)) (\<lambda>a. ret (g a)) (w, l) = (Inr b, (w', l'))"
  obtains a where "m w = (Inr a, w')" "l' = l"
proof -
  obtain r v where "m w = (r, v)" by fastforce
  with assms that show thesis by (cases r) (simp_all add: bindA_def withLocal_apply wrapA_def)
qed

lemma deferCleanup_done:
  assumes "deferCleanup fs body w = (Inr a, w')" "\<And>w' pend. body (w, NewReplacedFilesBatch) = (Inr a, (w', pend)) \<Longrightarrow> pend = []"
  shows "body (w, NewReplacedFilesBatch) = (Inr a, (w', []))"
proof -
  obtain r v pend where b: "body (w, NewReplacedFilesBatch) = (r, (v, pend))" by (metis prod.collapse)
  with assms(1) have r: "r = Inr a" "w' = fst (snd (Cleanup fs (v, pend)))" by (simp_all add: deferCleanup_def)
  moreover have "pend = []" using assms(2) b r(1) by simp
  ultimately show ?thesis using b by (simp add: Cleanup_def drainBatch_def)
qed

context jail_fs
begin

text \<open>Replacing further files of a batch whose earlier files are given.\<close>

abbreviation advances :: "newFile list \<Rightarrow> 'w \<Rightarrow> replacedFile list \<Rightarrow> 'w \<Rightarrow> replacedFile list \<Rightarrow> bool" where
  "advances files w pend w' pend' \<equiv> (\<forall>v0 made rest. goodFiles v0 (made @ files @ rest) \<longrightarrow>
     batchState key isTemp v0 (made @ files @ rest) made {} (view w) pend \<longrightarrow>
     batchState key isTemp v0 (made @ files @ rest) (made @ files) {} (view w') pend')"

lemma replaceFiles_advances:
  assumes "swaps" "replaceFiles fmt args fs files (w, pend) = (Inr u, (w', pend'))"
  shows "advances files w pend w' pend'"
  using replaceFiles_state [OF assms(1) _ _ _ assms(2)] by auto

lemma writeAggregated_writes:
  assumes "swaps" and apart: "apartFromFs api view" and cms: "configMapsAre api cms" and run: "writeAggregated api fs jc acc (w, pend) = (Inr acc', (w', pend'))"
  shows "advances (filesOf api cms jc) w pend w' pend'"
proof -
  obtain r w1 where g: "ja_getConfigMap api (configMapKey jc) w = (r, w1)" by fastforce
  then have r: "cms (configMapKey jc) = r" using cms by (metis configMapsAre_def fst_conv)
  have v1: "view w1 = view w" using keepsViewD [OF apartFromFsD(3) [OF apart] g] .
  show ?thesis
  proof (cases r)
    case (Inl e)
    have nf: "IsNotFound e" using run g Inl by (auto simp: writeAggregated_def tryA_def withLocal_apply split: if_splits)
    let ?set = "setConditions api jc [cond FilesWritten ''False'' JReasonNotFound ''ConfigMap not found, files were not written (aggregated)'']"
    have "bindA (withLocal (wrapA ''setting files written condition for %s/%s: %w'' (nameArgs jc) ?set)) (\<lambda>jc1. ret (acc @ [jc1])) (w1, pend) = (Inr acc', (w', pend'))"
      using run g Inl nf by (auto simp: writeAggregated_def tryA_def withLocal_apply [of "ja_getConfigMap api _"] split: if_splits)
    then obtain c where "?set w1 = (Inr c, w')" "pend' = pend" by (rule bind_withLocal)
    then have "view w' = view w" "pend' = pend" using v1 keepsViewD [OF setConditions_keeps [OF apart]] by metis+
    then show ?thesis using r Inl by (simp add: filesOf_def)
  next
    case (Inr configMap)
    let ?set = "setConditions api jc [cond FilesWritten ''True'' JReasonSuccess ''Files were written to jail FS (aggregated)'']"
    obtain payload where p: "makePayload (j_items jc) configMap (effectiveMode jc) = Inr payload"
      using run g Inr by (cases "makePayload (j_items jc) configMap (effectiveMode jc)") (auto simp: writeAggregated_def tryA_def withLocal_def)
    let ?files = "payloadFiles (ja_rangeFiles api payload)"
    have "bindA (replaceFiles ''replacing file %q for %s/%s: %w'' (\<lambda>path. path # nameArgs jc) fs ?files) (\<lambda>_.
        bindA (withLocal (wrapA ''setting conditions: %w'' [] ?set)) (\<lambda>jc1. ret (acc @ [jc1]))) (w1, pend) = (Inr acc', (w', pend'))"
      using run g Inr p by (auto simp: writeAggregated_def tryA_def withLocal_def [of "ja_getConfigMap api _"] Let_def split: option.splits)
    then obtain u s2 where s: "replaceFiles ''replacing file %q for %s/%s: %w'' (\<lambda>path. path # nameArgs jc) fs ?files (w1, pend) = (Inr u, s2)"
        "bindA (withLocal (wrapA ''setting conditions: %w'' [] ?set)) (\<lambda>jc1. ret (acc @ [jc1])) s2 = (Inr acc', (w', pend'))"
      unfolding bindA_success [of "replaceFiles _ _ _ _"] by blast
    obtain w2 pend2 where s2: "s2 = (w2, pend2)" by fastforce
    obtain jc1 where set: "?set w2 = (Inr jc1, w')" "pend' = pend2" using s(2) unfolding s2 by (rule bind_withLocal)
    have "view w' = view w2" using keepsViewD [OF setConditions_keeps [OF apart] set(1)] .
    moreover have "advances ?files w1 pend w2 pend2" using replaceFiles_advances [OF assms(1) s(1) [unfolded s2]] .
    ultimately have "advances ?files w pend w' pend'" using v1 set(2) by simp
    then show ?thesis using r Inr p by (simp add: filesOf_def)
  qed
qed

lemma writeAggregated_loop:
  assumes "swaps" "apartFromFs api view" "configMapsAre api cms"
    and "forA (writeAggregated api fs) jcs acc (w, pend) = (Inr acc', (w', pend'))"
  shows "advances (concat (map (filesOf api cms) jcs)) w pend w' pend'"
  using assms(4)
proof (induction jcs arbitrary: acc w pend)
  case (Cons jc jcs)
  from Cons.prems obtain acc1 w1 pend1 where s: "writeAggregated api fs jc acc (w, pend) = (Inr acc1, (w1, pend1))"
      "forA (writeAggregated api fs) jcs acc1 (w1, pend1) = (Inr acc', (w', pend'))"
    by (auto simp: bindA_success)
  show ?case
  proof (intro allI impI)
    fix v0 made rest
    let ?a = "filesOf api cms jc" and ?b = "concat (map (filesOf api cms) jcs)"
    assume good: "goodFiles v0 (made @ concat (map (filesOf api cms) (jc # jcs)) @ rest)"
      and st: "batchState key isTemp v0 (made @ concat (map (filesOf api cms) (jc # jcs)) @ rest) made {} (view w) pend"
    have "batchState key isTemp v0 (made @ ?a @ (?b @ rest)) (made @ ?a) {} (view w1) pend1"
      using writeAggregated_writes [OF assms(1-3) s(1), rule_format, of v0 made "?b @ rest"] good st by simp
    then show "batchState key isTemp v0 (made @ concat (map (filesOf api cms) (jc # jcs)) @ rest)
        (made @ concat (map (filesOf api cms) (jc # jcs))) {} (view w') pend'"
      using Cons.IH [OF s(2), rule_format, of v0 "made @ ?a" rest] good by simp
  qed
qed simp

end
text \<open>A batch written in full and nothing else changed.\<close>

definition written :: "(string \<Rightarrow> string) \<Rightarrow> fsView \<Rightarrow> fsView \<Rightarrow> newFile list \<Rightarrow> bool" where
  "written key v v' files \<longleftrightarrow> (\<forall>f \<in> set files. holds key v' f) \<and> (\<forall>k. k \<notin> set (targetKeys key files) \<longrightarrow> untouched v v' k)"

lemma written_nothing: "written key v v []"
  by (simp add: written_def untouched_def targetKeys_def)

lemma deferCleanup_body:
  assumes "deferCleanup fs body w = (Inr a, w')" and "\<And>w1 pend. body (w, NewReplacedFilesBatch) = (Inr a, (w1, pend)) \<Longrightarrow> pend = [] \<and> P w1"
  shows "P w'"
  using deferCleanup_done [OF assms(1)] assms(2) by blast

context jail_fs
begin

lemma finish_written:
  assumes st: "batchState key isTemp v0 files files {} (view w) pend" and good: "goodFiles v0 files" and keeps: "keepsView view m"
    and run: "bindA (wrapA f as (Finish fs)) (\<lambda>_. withLocal m) (w, pend) = (Inr a, (w', pend'))"
  shows "pend' = [] \<and> written key v0 (view w') files"
proof -
  from run obtain u w1 pend1 where s: "Finish fs (w, pend) = (Inr u, (w1, pend1))" "withLocal m (w1, pend1) = (Inr a, (w', pend'))"
    unfolding bindA_success wrapA_success by (metis prod.collapse)
  then have "m w1 = (Inr a, w')" "pend' = pend1" by (simp_all add: withLocal_success)
  then show ?thesis using Finish_state [OF st good order.refl s(1)] keepsViewD [OF keeps, of w1] by (simp add: written_def)
qed

lemma writeIndividual_written:
  assumes "swaps" and apart: "apartFromFs api view" and good: "goodFiles (view w) (payloadFiles files)"
    and run: "writeIndividual fuel api fs jc files w = (Inr u, w')"
  shows "written key (view w) (view w') (payloadFiles files)"
proof (rule deferCleanup_body [OF run [unfolded writeIndividual_def]])
  let ?set = "setConditions api jc [cond FilesWritten ''True'' JReasonSuccess ''Files were written to jail FS'']"
  let ?finish = "\<lambda>jc1. bindA (wrapA ''finishing replacing files in FS: %w'' [] (Finish fs)) (\<lambda>_. withLocal (performActions fuel api jc1))"
  fix w3 pend3
  assume "bindA (replaceFiles ''replacing file %q in FS: %w'' (\<lambda>path. [path]) fs (payloadFiles files)) (\<lambda>_.
      bindA (withLocal (wrapA ''setting conditions: %w'' [] ?set)) ?finish) (w, NewReplacedFilesBatch) = (Inr u, (w3, pend3))"
  then obtain a w1 pend1 where r: "replaceFiles ''replacing file %q in FS: %w'' (\<lambda>path. [path]) fs (payloadFiles files) (w, NewReplacedFilesBatch) = (Inr a, (w1, pend1))"
      "bindA (withLocal (wrapA ''setting conditions: %w'' [] ?set)) ?finish (w1, pend1) = (Inr u, (w3, pend3))"
    unfolding bindA_success [of "replaceFiles _ _ _ _"] by (metis prod.collapse)
  from r(2) obtain jc1 w2 pend2 where s: "withLocal (wrapA ''setting conditions: %w'' [] ?set) (w1, pend1) = (Inr jc1, (w2, pend2))"
      "?finish jc1 (w2, pend2) = (Inr u, (w3, pend3))"
    unfolding bindA_success [of "withLocal _"] by (metis prod.collapse)
  from s(1) have set: "?set w1 = (Inr jc1, w2)" "pend2 = pend1" by (simp_all add: withLocal_success wrapA_success)
  have "batchState key isTemp (view w) (payloadFiles files) (payloadFiles files) {} (view w1) pend1"
    using replaceFiles_start [OF assms(1) good r(1)] by auto
  then have st: "batchState key isTemp (view w) (payloadFiles files) (payloadFiles files) {} (view w2) pend2"
    using keepsViewD [OF setConditions_keeps [OF apart] set(1)] set(2) by simp
  show "pend3 = [] \<and> written key (view w) (view w3) (payloadFiles files)"
    by (rule finish_written [OF st good performActions_keeps [OF apart] s(2)])
qed

lemma writeAggregated_written:
  assumes "swaps" and apart: "apartFromFs api view" and cms: "configMapsAre api cms"
    and good: "goodFiles (view w) (concat (map (filesOf api cms) jcs))"
    and run: "deferCleanup fs (bindA (forA (writeAggregated api fs) jcs []) (\<lambda>done.
      bindA (wrapA ''finishing replacing files in FS: %w'' [] (Finish fs)) (\<lambda>_. withLocal (finishAggregated fuel api done)))) w = (Inr u, w')"
  shows "written key (view w) (view w') (concat (map (filesOf api cms) jcs))"
proof (rule deferCleanup_body [OF run])
  let ?files = "concat (map (filesOf api cms) jcs)"
  let ?finish = "\<lambda>done. bindA (wrapA ''finishing replacing files in FS: %w'' [] (Finish fs)) (\<lambda>_. withLocal (finishAggregated fuel api done))"
  fix w2 pend2
  assume "bindA (forA (writeAggregated api fs) jcs []) ?finish (w, NewReplacedFilesBatch) = (Inr u, (w2, pend2))"
  then obtain acc w1 pend1 where s: "forA (writeAggregated api fs) jcs [] (w, NewReplacedFilesBatch) = (Inr acc, (w1, pend1))"
      "?finish acc (w1, pend1) = (Inr u, (w2, pend2))"
    unfolding bindA_success [of "forA _ _ _"] by (metis prod.collapse)
  have "batchState key isTemp (view w) ?files ?files {} (view w1) pend1"
    using writeAggregated_loop [OF assms(1) apart cms s(1), rule_format, of "view w" "[]" "[]"] good batchState_start [OF good]
    by (simp add: NewReplacedFilesBatch_def)
  then show "pend2 = [] \<and> written key (view w) (view w2) ?files"
    by (rule finish_written [OF _ good finishAggregated_keeps [OF apart] s(2)])
qed

end
text \<open>Refreshing the conditions leaves the files of a resource alone.\<close>

lemma conditions_keep [simp]:
  "configMapKey (jc\<lparr>j_conditions := cs\<rparr>) = configMapKey jc" "effectiveMode (jc\<lparr>j_conditions := cs\<rparr>) = effectiveMode jc"
  by (simp_all add: configMapKey_def effectiveMode_def)

lemma filesOf_conditions [simp]: "filesOf api cms (jc\<lparr>j_conditions := cs\<rparr>) = filesOf api cms jc"
  by (simp add: filesOf_def split: sum.split)

lemma setConditions_spec:
  assumes "patchesStatusOnly api" "setConditions api jc conds w = (Inr c, w')"
  obtains cs where "c = jc\<lparr>j_conditions := cs\<rparr>"
proof -
  from assms obtain cs where "c = jc\<lparr>j_conditions := cs\<rparr>"
    unfolding setConditions_def patchStatus_def patchesStatusOnly_def wrapA_success by fastforce
  then show thesis by (rule that)
qed

lemma shouldInitializeConditions_spec:
  assumes "patchesStatusOnly api" "shouldInitializeConditions api jc w = (Inr c, w')"
  obtains cs where "c = jc\<lparr>j_conditions := cs\<rparr>"
proof -
  from assms(2) obtain jc1 w1 where s: "(if j_conditions jc = [] then wrapA ''initializing conditions: %w'' [] (initializeConditions api jc) else ret jc) w = (Inr jc1, w1)"
      "\<exists>f. c = jc1\<lparr>j_conditions := f\<rparr> \<or> c = jc1"
    unfolding shouldInitializeConditions_def Let_def bindA_success by (auto split: if_splits)
  have "\<exists>cs. jc1 = jc\<lparr>j_conditions := cs\<rparr>"
  proof (cases "j_conditions jc = []")
    case True
    then have "initializeConditions api jc w = (Inr jc1, w1)" using s(1) by (simp add: wrapA_success)
    then show ?thesis using assms(1) unfolding initializeConditions_def patchStatus_def patchesStatusOnly_def wrapA_success by fastforce
  next
    case False
    then show ?thesis using s(1) by (intro exI [of _ "j_conditions jc"]) simp
  qed
  with s(2) that show thesis by fastforce
qed

lemma refreshAggregated_spec:
  assumes "patchesStatusOnly api" "refreshAggregated api jc acc w = (Inr acc', w')"
  shows "map (filesOf api cms) acc' = map (filesOf api cms) acc @ [filesOf api cms jc]"
proof -
  from assms(2) obtain jc1 w1 jc2 where s: "shouldInitializeConditions api jc w = (Inr jc1, w1)"
      "setConditions api jc1 (refreshing ''Refreshing files in jail FS (aggregated)'') w1 = (Inr jc2, w')" "acc' = acc @ [jc2]"
    unfolding refreshAggregated_def bindA_success wrapA_success by auto
  obtain cs1 where "jc1 = jc\<lparr>j_conditions := cs1\<rparr>" using shouldInitializeConditions_spec [OF assms(1) s(1)] .
  moreover obtain cs2 where "jc2 = jc1\<lparr>j_conditions := cs2\<rparr>" using setConditions_spec [OF assms(1) s(2)] .
  ultimately show ?thesis using s(3) by simp
qed

lemma refreshAggregated_loop:
  assumes "patchesStatusOnly api" "forA (refreshAggregated api) jcs acc w = (Inr acc', w')"
  shows "map (filesOf api cms) acc' = map (filesOf api cms) acc @ map (filesOf api cms) jcs"
  using assms(2)
proof (induction jcs arbitrary: acc w)
  case (Cons jc jcs)
  then obtain acc1 w1 where s: "refreshAggregated api jc acc w = (Inr acc1, w1)" "forA (refreshAggregated api) jcs acc1 w1 = (Inr acc', w')"
    by (auto simp: bindA_success)
  show ?case using Cons.IH [OF s(2)] refreshAggregated_spec [OF assms(1) s(1), of cms] by simp
qed simp

text \<open>The files a request is to write: those of the resource, or those of its aggregation group.\<close>

definition groupLabels :: "jailedReconciler \<Rightarrow> string \<Rightarrow> labels" where
  "groupLabels r aggregationKey = [(LabelJailedAggregationKey, aggregationKey), (LabelInstanceKey, jr_clusterName r)]"

definition dueFiles :: "'w jailedApi \<Rightarrow> (objectKey \<Rightarrow> goError + dataMap) \<Rightarrow> jailedReconciler \<Rightarrow> JailedConfig \<Rightarrow> 'w \<Rightarrow> newFile list" where
  "dueFiles api cms r jc w = (case map_of (om_labels (j_meta jc)) LabelJailedAggregationKey of
     None \<Rightarrow> if getStr (om_labels (j_meta jc)) LabelInstanceKey = jr_clusterName r then filesOf api cms jc else []
   | Some aggregationKey \<Rightarrow> (case fst (ja_listConfigs api (om_namespace (j_meta jc)) (groupLabels r aggregationKey) w) of
       Inl _ \<Rightarrow> [] | Inr items \<Rightarrow> concat (map (filesOf api cms) items)))"

context jail_fs
begin

lemma reconcileIndividual_written:
  assumes "swaps" and apart: "apartFromFs api view" and cms: "configMapsAre api cms" and status: "patchesStatusOnly api"
    and label: "getStr (om_labels (j_meta jc)) LabelInstanceKey = jr_clusterName r"
    and good: "goodFiles (view w) (filesOf api cms jc)" and run: "reconcileIndividual fuel api fs r jc w = (Inr u, w')"
  shows "written key (view w) (view w') (filesOf api cms jc)"
proof -
  let ?rest = "\<lambda>jc1 res. case res of
          Inl err \<Rightarrow> if IsNotFound err then ret () else raise (wrapErr ''getting ConfigMap %s: %w'' [j_configMap jc1] err)
        | Inr configMap \<Rightarrow>
            bindA (wrapA ''setting conditions: %w'' [] (setConditions api jc1 (refreshing ''Refreshing files in jail FS''))) (\<lambda>jc2.
              case makePayload (j_items jc2) configMap (effectiveMode jc2) of
                Inl err \<Rightarrow> raise (ja_TerminalError api (wrapErr ''making JailedConfig payload: %w'' [] err))
              | Inr jailPayload \<Rightarrow>
                  case validatePaths (map fst (ja_rangeFiles api jailPayload)) of
                    Some (path, err) \<Rightarrow> raise (ja_TerminalError api (wrapErr ''invalid config path %q: %w'' [path] err))
                  | None \<Rightarrow> writeIndividual fuel api fs jc2 (ja_rangeFiles api jailPayload))"
  from run label obtain jc1 w1 where s1: "shouldInitializeConditions api jc w = (Inr jc1, w1)"
      "tryA (ja_getConfigMap api (configMapKey jc1)) (?rest jc1) w1 = (Inr u, w')"
    unfolding reconcileIndividual_def by (auto simp: bindA_success wrapA_success)
  obtain res w2 where g: "ja_getConfigMap api (configMapKey jc1) w1 = (res, w2)" by fastforce
  obtain cs where jc1: "jc1 = jc\<lparr>j_conditions := cs\<rparr>" using shouldInitializeConditions_spec [OF status s1(1)] .
  have r: "cms (configMapKey jc) = res" using cms g jc1 by (metis configMapsAre_def conditions_keep(1) fst_conv)
  have v2: "view w2 = view w"
    using keepsViewD [OF shouldInitializeConditions_keeps [OF apart] s1(1)] keepsViewD [OF apartFromFsD(3) [OF apart] g] by simp
  show ?thesis
  proof (cases res)
    case (Inl e)
    then have "w' = w2" using s1(2) g by (auto simp: tryA_def split: if_splits)
    then show ?thesis using r Inl v2 written_nothing by (simp add: filesOf_def)
  next
    case (Inr configMap)
    then have "?rest jc1 (Inr configMap) w2 = (Inr u, w')" using s1(2) g by (simp add: tryA_def)
    then obtain jc2 w3 where s3: "setConditions api jc1 (refreshing ''Refreshing files in jail FS'') w2 = (Inr jc2, w3)"
        "(case makePayload (j_items jc2) configMap (effectiveMode jc2) of
                Inl err \<Rightarrow> raise (ja_TerminalError api (wrapErr ''making JailedConfig payload: %w'' [] err))
              | Inr jailPayload \<Rightarrow>
                  case validatePaths (map fst (ja_rangeFiles api jailPayload)) of
                    Some (path, err) \<Rightarrow> raise (ja_TerminalError api (wrapErr ''invalid config path %q: %w'' [path] err))
                  | None \<Rightarrow> writeIndividual fuel api fs jc2 (ja_rangeFiles api jailPayload)) w3 = (Inr u, w')"
      by (auto simp: bindA_success wrapA_success)
    then obtain payload where p: "makePayload (j_items jc2) configMap (effectiveMode jc2) = Inr payload"
        "writeIndividual fuel api fs jc2 (ja_rangeFiles api payload) w3 = (Inr u, w')"
      by (auto split: sum.splits option.splits)
    obtain cs2 where "jc2 = jc1\<lparr>j_conditions := cs2\<rparr>" using setConditions_spec [OF status s3(1)] .
    then have f: "filesOf api cms jc = payloadFiles (ja_rangeFiles api payload)"
      using p(1) r Inr jc1 by (simp add: filesOf_def effectiveMode_def)
    have v3: "view w3 = view w" using keepsViewD [OF setConditions_keeps [OF apart] s3(1)] v2 by simp
    show ?thesis using writeIndividual_written [OF assms(1) apart _ p(2)] good unfolding f v3 by blast
  qed
qed

lemma reconcileWithAggregation_written:
  assumes "swaps" and apart: "apartFromFs api view" and cms: "configMapsAre api cms" and status: "patchesStatusOnly api"
    and l: "ja_listConfigs api (om_namespace (j_meta jc)) (groupLabels r aggregationKey) w = (Inr items, w1)"
    and good: "goodFiles (view w) (concat (map (filesOf api cms) items))"
    and run: "reconcileWithAggregation fuel api fs r jc aggregationKey w = (Inr u, w')"
  shows "written key (view w) (view w') (concat (map (filesOf api cms) items))"
proof -
  from run l obtain refreshed w2 where s: "forA (refreshAggregated api) items [] w1 = (Inr refreshed, w2)"
      "deferCleanup fs (bindA (forA (writeAggregated api fs) refreshed []) (\<lambda>done.
        bindA (wrapA ''finishing replacing files in FS: %w'' [] (Finish fs)) (\<lambda>_. withLocal (finishAggregated fuel api done)))) w2 = (Inr u, w')"
    unfolding reconcileWithAggregation_def groupLabels_def by (auto simp: bindA_success wrapA_success)
  have files: "map (filesOf api cms) refreshed = map (filesOf api cms) items" using refreshAggregated_loop [OF status s(1), of cms] by simp
  have "keepsView view (forA (refreshAggregated api) items [])" by (rule keepsView_forA) (rule refreshAggregated_keeps [OF apart])
  from keepsViewD [OF this s(1)] keepsViewD [OF apartFromFsD(2) [OF apart] l] have v: "view w2 = view w" by simp
  from writeAggregated_written [OF assms(1) apart cms _ s(2)] good show ?thesis unfolding files v by blast
qed

lemma Reconcile_written:
  assumes "swaps" and apart: "apartFromFs api view" and cms: "configMapsAre api cms" and status: "patchesStatusOnly api"
    and g: "ja_getConfig api req w = (Inr jc, w1)" and good: "goodFiles (view w) (dueFiles api cms r jc w1)"
    and run: "Reconcile_jailedConfig fuel api fs r req w = (Inr u, w')"
  shows "written key (view w) (view w') (dueFiles api cms r jc w1)"
proof -
  have v: "view w1 = view w" using keepsViewD [OF apartFromFsD(1) [OF apart] g] .
  show ?thesis
  proof (cases "map_of (om_labels (j_meta jc)) LabelJailedAggregationKey")
    case None
    then have i: "reconcileIndividual fuel api fs r jc w1 = (Inr u, w')" using run g by (simp add: Reconcile_jailedConfig_def tryA_def)
    show ?thesis
    proof (cases "getStr (om_labels (j_meta jc)) LabelInstanceKey = jr_clusterName r")
      case True
      then show ?thesis using reconcileIndividual_written [OF assms(1) apart cms status True _ i] good None v by (simp add: dueFiles_def)
    next
      case False
      then show ?thesis using i None v written_nothing by (simp add: dueFiles_def reconcileIndividual_def)
    qed
  next
    case (Some k)
    then have a: "reconcileWithAggregation fuel api fs r jc k w1 = (Inr u, w')" using run g by (simp add: Reconcile_jailedConfig_def tryA_def)
    then obtain items w2 where l: "ja_listConfigs api (om_namespace (j_meta jc)) (groupLabels r k) w1 = (Inr items, w2)"
      unfolding reconcileWithAggregation_def groupLabels_def by (auto simp: bindA_success wrapA_success)
    then show ?thesis using reconcileWithAggregation_written [OF assms(1) apart cms status l _ a] good Some v by (simp add: dueFiles_def)
  qed
qed

end
section \<open>Properties\<close>


section \<open>Witnesses\<close>

text \<open>A group of two resources, one of which asks for a reconfiguration.\<close>

definition demoMeta :: objectMeta where
  "demoMeta = \<lparr>om_name = ''a'', om_namespace = ''ns'', om_labels = [(LabelJailedAggregationKey, ''g''), (LabelInstanceKey, ''c'')], om_annotations = []\<rparr>"

definition demoConfig :: "string \<Rightarrow> string \<Rightarrow> string list \<Rightarrow> JailedConfig" where
  "demoConfig configMap path actions = \<lparr>j_meta = demoMeta, j_configMap = configMap,
     j_items = [\<lparr>ktp_Key = ''k'', ktp_Path = path, ktp_Mode = None\<rparr>], j_defaultMode = None, j_updateActions = actions, j_conditions = []\<rparr>"

definition demoConfigMaps :: "objectKey \<Rightarrow> goError + dataMap" where
  "demoConfigMaps k = Inr \<lparr>dm_Data = [(''k'', if snd k = ''cm1'' then ''x'' else ''y'')], dm_BinaryData = []\<rparr>"

definition demoSet :: "metaCondition list \<Rightarrow> metaCondition \<Rightarrow> metaCondition list" where
  "demoSet cs c = filter (\<lambda>d. mc_Type d \<noteq> mc_Type c) cs @ [c]"

definition demoResponse :: apiResponse where
  "demoResponse = \<lparr>ar_StatusCode = 200, ar_JSON200 = Some \<lparr>rb_Errors = Some [], rb_Nodes = []\<rparr>\<rparr>"

definition demoApi :: "memFs jailedApi" where
  "demoApi = \<lparr>ja_getConfig = (\<lambda>k. ret (demoConfig ''cm1'' ''/a'' [UpdateActionReconfigure])),
     ja_listConfigs = (\<lambda>ns ls. ret [demoConfig ''cm1'' ''/a'' [UpdateActionReconfigure], demoConfig ''cm2'' ''/d/b'' []]),
     ja_getConfigMap = (\<lambda>k. liftA (demoConfigMaps k)), ja_patchStatus = (\<lambda>a b. ret b),
     ja_SetStatusCondition = demoSet, ja_FindStatusCondition = (\<lambda>cs t. find (\<lambda>c. mc_Type c = t) cs),
     ja_TerminalError = (\<lambda>e. e), ja_rangeFiles = (\<lambda>m. m), ja_getNodes = ret demoResponse, ja_reconfigure = ret demoResponse,
     ja_waitPoll = ret True\<rparr>"

lemma demoApi_laws: "apartFromFs demoApi view" "configMapsAre demoApi demoConfigMaps" "patchesStatusOnly demoApi"
proof -
  show "apartFromFs demoApi view" by (simp add: apartFromFs_def demoApi_def keepsView_basic)
  show "configMapsAre demoApi demoConfigMaps" by (simp add: configMapsAre_def demoApi_def liftA_def)
  have "\<exists>cs. c = c\<lparr>j_conditions := cs\<rparr>" for c :: JailedConfig by (rule exI [of _ "j_conditions c"]) simp
  then show "patchesStatusOnly demoApi" unfolding patchesStatusOnly_def by (auto simp: demoApi_def)
qed

lemma demo_due: "dueFiles demoApi demoConfigMaps \<lparr>jr_clusterName = ''c''\<rparr> (demoConfig ''cm1'' ''/a'' [UpdateActionReconfigure]) smallJail = smallBatch"
  by code_simp

lemma demo_run: "fst (Reconcile_jailedConfig 1 demoApi (prefixFs (memOs True) jailPrefix) \<lparr>jr_clusterName = ''c''\<rparr> (''ns'', ''a'') smallJail) = Inr ()"
  by code_simp


text \<open>
  Two things the code does not do. The wait for the nodes reports only a deadline: any other error of
  the polling counts as a restart. And a resource that names no items never writes its ConfigMap: the keys of a
  ConfigMap are no absolute paths, and the payload is refused.
\<close>

lemma reconfigureCluster_swallows:
  assumes "getNodesStartTime api w = (Inr before, w1)" "ja_reconfigure api w1 = (Inr demoResponse, w2)"
    and "pollSlurmNodesRestart fuel api before w2 = (Inl e, w3)" "\<not> isPanic e" "\<not> errorsIs e DeadlineExceeded"
  shows "reconfigureCluster fuel api w = (Inr (), w3)"
  using assms
  by (simp add: reconfigureCluster_def bindA_def wrapA_def tryA_def demoResponse_def checkStatus_def responseJson_def checkApiErrors_def)

lemma keys_fold_mapPut: "fst ` set (fold (\<lambda>(name, d). mapPut name (f d)) m acc) = fst ` set m \<union> fst ` set acc"
  by (induction m arbitrary: acc) (simp_all add: keys_mapPut case_prod_beta)

lemma validatePaths_None: "validatePaths paths = None \<longleftrightarrow> list_all isAbs paths"
  by (induction paths) (simp_all add: validatePayloadPath_def)

lemma no_items_refused:
  assumes "makePayload [] configMap (Some mode) = Inr payload" "k \<in> fst ` set (dm_Data configMap)" "\<not> isAbs k"
  shows "validatePaths (map fst payload) \<noteq> None"
proof -
  let ?put = "\<lambda>(name, d). mapPut name \<lparr>jf_Data = d, jf_Mode = mode\<rparr>"
  have "payload = fold ?put (dm_BinaryData configMap) (fold ?put (dm_Data configMap) [])" using assms(1) by (simp add: makePayload_def)
  then have "fst ` set payload = fst ` set (dm_BinaryData configMap) \<union> fst ` set (dm_Data configMap)"
    by (simp only: keys_fold_mapPut [of "\<lambda>d. \<lparr>jf_Data = d, jf_Mode = mode\<rparr>"] list.set image_empty Un_empty_right)
  then show ?thesis using assms(2,3) unfolding validatePaths_None list_all_iff set_map by blast
qed

end
