(* ===== verification/Node_Checks.thy ===== *)
theory Node_Checks
  imports Rebooter Call_Log
begin

text \<open>
  The controller of Kubernetes nodes, internal/controller/soperatorchecks/k8s\_nodes\_controller.go, with the
  helpers of soperatorchecks.go and of internal/check: it asks for drains and reboots through the conditions
  of a node, takes these back when they are done, and deletes a node that is drained for maintenance or has been
  not ready for too long.

  Parameters (record \<open>checksApi\<close>) are the Kubernetes calls on nodes and the clock. A node object is the part
  that the rebooter works on, its labels and its creation time. As in Rebooter the heartbeat time of a condition is left
  out; the zero time is \<open>zeroTime\<close>.
\<close>

section \<open>Data\<close>

record k8sNodeObj =
  ko_node :: rnode
  ko_labels :: "(string, string) gomap"
  ko_created :: int

record 'w checksApi =
  kc_getNode :: "string \<Rightarrow> ('w, k8sNodeObj) action"
  kc_patchStatus :: "k8sNodeObj \<Rightarrow> k8sNodeObj \<Rightarrow> ('w, unit) action"
  kc_updateStatus :: "k8sNodeObj \<Rightarrow> ('w, unit) action"
  kc_deleteNode :: "k8sNodeObj \<Rightarrow> ('w, unit) action"
  kc_now :: "('w, int) action"

definition zeroTime :: int where "zeroTime = - 62135596800000000000"

definition emptyCondition :: nodeCondition where
  "emptyCondition = \<lparr>nc_Type = [], nc_Status = [], nc_Reason = [], nc_Message = [], nc_LastTransitionTime = zeroTime\<rparr>"

definition nodeConds :: "k8sNodeObj \<Rightarrow> nodeCondition list" where
  "nodeConds k8sNode = rn_conditions (ko_node k8sNode)"

definition withConds :: "nodeCondition list \<Rightarrow> k8sNodeObj \<Rightarrow> k8sNodeObj" where
  "withConds cs k8sNode = k8sNode\<lparr>ko_node := (ko_node k8sNode)\<lparr>rn_conditions := cs\<rparr>\<rparr>"

definition SoperatorChecksK8SNodeDegraded :: string where "SoperatorChecksK8SNodeDegraded = ''SoperatorChecksNodeDegraded''"
definition SoperatorChecksK8SNodeMaintenance :: string where "SoperatorChecksK8SNodeMaintenance = ''SoperatorChecksNodeMaintenance''"
definition HardwareIssuesSuspected :: string where "HardwareIssuesSuspected = ''HardwareIssuesSuspected''"
definition DefaultMaintenanceConditionType :: string where "DefaultMaintenanceConditionType = ''NebiusMaintenanceScheduled''"
definition ReasonNodeNeedDrain :: string where "ReasonNodeNeedDrain = ''NodeNeedDrain''"
definition ReasonNodeNeedReboot :: string where "ReasonNodeNeedReboot = ''NodeNeedReboot''"
definition MessageSlurmNodeDegraded :: string where "MessageSlurmNodeDegraded = ''Some slurm nodes on the k8s nod are degraded''"
definition MessageMaintenanceScheduled :: string where "MessageMaintenanceScheduled = ''Maintenance is scheduled on k8s node''"
definition MessageHardwareIssuesSuspected :: string where "MessageHardwareIssuesSuspected = ''Hardware issues suspected on k8s node''"
definition MessageNodeIsRebooted :: string where "MessageNodeIsRebooted = ''Node is rebooted''"
definition NodeReady :: string where "NodeReady = ''Ready''"

section \<open>Ignored labels\<close>

fun parseLabelPairs :: "string list \<Rightarrow> (string, string list) gomap \<Rightarrow> goError + (string, string list) gomap" where
  "parseLabelPairs [] ignoredLabels = Inr ignoredLabels"
| "parseLabelPairs (p # pairs) ignoredLabels =
     (let pair = trimSpace p in
      if pair = [] then parseLabelPairs pairs ignoredLabels
      else case strSplitN2 (CHR ''='') pair of
        [k, v] \<Rightarrow>
          let key = trimSpace k; val = trimSpace v in
          if key = [] \<or> val = [] then Inl (Errorf ''invalid label format: %q, key and value cannot be empty'' [pair])
          else
            let vals = getList ignoredLabels key in
            parseLabelPairs pairs (if val \<in> set vals then ignoredLabels else mapPut key (vals @ [val]) ignoredLabels)
      | _ \<Rightarrow> Inl (Errorf ''invalid label format: %q, expected key=value'' [pair]))"

definition NewNodeLabelMatcher :: "string \<Rightarrow> goError + (string, string list) gomap" where
  "NewNodeLabelMatcher maintenanceIgnoreNodeLabels =
     (if maintenanceIgnoreNodeLabels = [] then Inr []
      else parseLabelPairs (strSplit (CHR '','') maintenanceIgnoreNodeLabels) [])"

definition ShouldIgnoreNode :: "(string, string list) gomap \<Rightarrow> (string, string) gomap \<Rightarrow> bool" where
  "ShouldIgnoreNode ignoredLabels nodeLabels =
     list_ex (\<lambda>(key, expectedValues). case map_of nodeLabels key of
        None \<Rightarrow> False
      | Some actualValue \<Rightarrow> list_ex (\<lambda>expectedValue. actualValue = expectedValue) expectedValues) ignoredLabels"

definition HasIgnoredLabels :: "(string, string list) gomap \<Rightarrow> bool" where
  "HasIgnoredLabels ignoredLabels \<longleftrightarrow> ignoredLabels \<noteq> []"

section \<open>Conditions\<close>

definition IsConditionFalseOrEmpty :: "nodeCondition \<Rightarrow> bool" where
  "IsConditionFalseOrEmpty condition \<longleftrightarrow> condition = emptyCondition \<or> nc_Status condition = ConditionFalse"

definition IsConditionTrue :: "nodeCondition \<Rightarrow> bool" where
  "IsConditionTrue condition \<longleftrightarrow> condition \<noteq> emptyCondition \<and> nc_Status condition = ConditionTrue"

text \<open>The two ways in which the code looks up a condition: the last one of a type, and the first one.\<close>

definition lastCond :: "string \<Rightarrow> nodeCondition list \<Rightarrow> nodeCondition" where
  "lastCond ty conds = fold (\<lambda>cond acc. if nc_Type cond = ty then cond else acc) conds emptyCondition"

definition firstCond :: "string \<Rightarrow> nodeCondition list \<Rightarrow> nodeCondition" where
  "firstCond ty conds = (case find (\<lambda>cond. nc_Type cond = ty) conds of None \<Rightarrow> emptyCondition | Some cond \<Rightarrow> cond)"

definition newNodeCondition :: "'w checksApi \<Rightarrow> string \<Rightarrow> string \<Rightarrow> string \<Rightarrow> string \<Rightarrow> ('w, nodeCondition) action" where
  "newNodeCondition api conditionType status reason message = bindA (kc_now api) (\<lambda>now.
     ret \<lparr>nc_Type = conditionType, nc_Status = status, nc_Reason = reason, nc_Message = message, nc_LastTransitionTime = now\<rparr>)"

text \<open>
  A condition that is there already only gets a new heartbeat time, which is set before the base of the patch
  is copied: base and node are equal and the patch is empty.
\<close>

definition setK8SNodeCondition :: "'w checksApi \<Rightarrow> string \<Rightarrow> nodeCondition \<Rightarrow> ('w, unit) action" where
  "setK8SNodeCondition api nodeName condition =
     tryA (kc_getNode api nodeName) (\<lambda>res. case res of
       Inl err \<Rightarrow> if IsNotFound err then ret () else raise err
     | Inr node \<Rightarrow>
         (case find (\<lambda>(i, cond). nc_Type cond = nc_Type condition) (enumerate 0 (nodeConds node)) of
            Some (i, cond) \<Rightarrow>
              if nc_Status cond = nc_Status condition \<and> nc_Reason cond = nc_Reason condition
              then kc_patchStatus api node node
              else kc_patchStatus api node (withConds ((nodeConds node)[i := condition]) node)
          | None \<Rightarrow> wrapA ''failed to update object status: %w'' [] (kc_updateStatus api (withConds (nodeConds node @ [condition]) node))))"

definition setK8SNodeConditions :: "'w checksApi \<Rightarrow> string \<Rightarrow> nodeCondition list \<Rightarrow> ('w, unit) action" where
  "setK8SNodeConditions api nodeName conditions =
     forA (\<lambda>cond _. wrapA ''set k8s node condition: %w'' [] (setK8SNodeCondition api nodeName cond)) conditions ()"

text \<open>A new condition, and setting it.\<close>

definition setNewCondition :: "'w checksApi \<Rightarrow> string \<Rightarrow> string \<Rightarrow> string \<Rightarrow> string \<Rightarrow> string \<Rightarrow> ('w, unit) action" where
  "setNewCondition api nodeName conditionType status reason message =
     bindA (newNodeCondition api conditionType status reason message) (setK8SNodeCondition api nodeName)"

section \<open>The controller\<close>

record K8SNodesController =
  kn_NotReadyTimeout :: int
  kn_DeleteNotReadyNodes :: bool
  kn_MaintenanceConditionType :: string
  kn_nodeLabelMatcher :: "(string, string list) gomap"

definition NewK8SNodesController :: "int \<Rightarrow> bool \<Rightarrow> string \<Rightarrow> string \<Rightarrow> K8SNodesController" where
  "NewK8SNodesController notReadyTimeout deleteNotReadyNodes maintenanceConditionType maintenanceIgnoreNodeLabels =
     \<lparr>kn_NotReadyTimeout = notReadyTimeout, kn_DeleteNotReadyNodes = deleteNotReadyNodes,
      kn_MaintenanceConditionType = (if maintenanceConditionType = [] then DefaultMaintenanceConditionType else maintenanceConditionType),
      kn_nodeLabelMatcher = (case NewNodeLabelMatcher maintenanceIgnoreNodeLabels of Inl err \<Rightarrow> [] | Inr matcher \<Rightarrow> matcher)\<rparr>"

text \<open>The predicate of the watch: an update counts when one of the conditions of interest has changed.\<close>

definition populateConditions :: "K8SNodesController \<Rightarrow> nodeCondition list \<Rightarrow> (string, nodeCondition) gomap" where
  "populateConditions c conditions = fold (\<lambda>condition m.
     if nc_Type condition \<in> {SlurmNodeDrain, SlurmNodeReboot, kn_MaintenanceConditionType c, HardwareIssuesSuspected,
          SoperatorChecksK8SNodeDegraded, SoperatorChecksK8SNodeMaintenance, NodeReady}
     then mapPut (nc_Type condition) condition m else m) conditions []"

definition mapsEqual :: "('k, 'v) gomap \<Rightarrow> ('k, 'v) gomap \<Rightarrow> bool" where
  "mapsEqual a b \<longleftrightarrow> length a = length b \<and> list_all (\<lambda>(k, v). map_of b k = Some v) a"

definition nodeUpdateFunc :: "K8SNodesController \<Rightarrow> k8sNodeObj \<Rightarrow> k8sNodeObj \<Rightarrow> bool" where
  "nodeUpdateFunc c oldNode newNode =
     (\<not> mapsEqual (populateConditions c (nodeConds oldNode)) (populateConditions c (nodeConds newNode)))"

definition nodeName_of :: "k8sNodeObj \<Rightarrow> string" where
  "nodeName_of k8sNode = rn_name (ko_node k8sNode)"

definition deleteK8SNode :: "'w checksApi \<Rightarrow> k8sNodeObj \<Rightarrow> ('w, unit) action" where
  "deleteK8SNode api k8sNode =
     tryA (kc_deleteNode api k8sNode) (\<lambda>res. case res of
       Inl err \<Rightarrow> if IsNotFound err then ret () else raise (wrapErr ''delete k8s node: %w'' [] err)
     | Inr _ \<Rightarrow> ret ())"

definition processDrainCondition :: "'w checksApi \<Rightarrow> K8SNodesController \<Rightarrow> k8sNodeObj \<Rightarrow> ('w, unit) action" where
  "processDrainCondition api c k8sNode =
     (if ShouldIgnoreNode (kn_nodeLabelMatcher c) (ko_labels k8sNode) then ret ()
      else
        let drainCondition = lastCond SlurmNodeDrain (nodeConds k8sNode);
            maintenanceCondition = lastCond SoperatorChecksK8SNodeMaintenance (nodeConds k8sNode);
            hardwareIssuesCondition = lastCond HardwareIssuesSuspected (nodeConds k8sNode);
            name = nodeName_of k8sNode
        in if IsConditionFalseOrEmpty drainCondition then
             if IsConditionTrue hardwareIssuesCondition
             then setNewCondition api name SlurmNodeDrain ConditionTrue ReasonNodeNeedDrain MessageHardwareIssuesSuspected
             else if IsConditionFalseOrEmpty maintenanceCondition then ret ()
             else setNewCondition api name SlurmNodeDrain ConditionTrue ReasonNodeNeedDrain MessageMaintenanceScheduled
           else if nc_Reason drainCondition \<noteq> ReasonNodeDrained then ret ()
           else if nc_Status maintenanceCondition \<noteq> ConditionTrue
           then setNewCondition api name SlurmNodeDrain ConditionFalse ReasonNodeRebooted MessageNodeIsRebooted
           else deleteK8SNode api k8sNode)"

definition rebootedCondition :: "'w checksApi \<Rightarrow> string \<Rightarrow> ('w, nodeCondition) action" where
  "rebootedCondition api conditionType = newNodeCondition api conditionType ConditionFalse ReasonNodeRebooted MessageNodeIsRebooted"

definition processRebootCondition :: "'w checksApi \<Rightarrow> k8sNodeObj \<Rightarrow> ('w, unit) action" where
  "processRebootCondition api k8sNode =
     (let rebootCondition = lastCond SlurmNodeReboot (nodeConds k8sNode);
          degradedCondition = lastCond SoperatorChecksK8SNodeDegraded (nodeConds k8sNode);
          name = nodeName_of k8sNode;
          finish =
            (if nc_Reason rebootCondition \<noteq> ReasonNodeRebooted then ret ()
             else bindA (rebootedCondition api SlurmNodeReboot) (\<lambda>reboot.
               bindA (rebootedCondition api SlurmNodeDrain) (\<lambda>drain.
               bindA (rebootedCondition api SoperatorChecksK8SNodeDegraded) (\<lambda>degraded.
                 setK8SNodeConditions api name [reboot, drain, degraded]))))
      in if IsConditionFalseOrEmpty rebootCondition then
           if IsConditionFalseOrEmpty degradedCondition then ret ()
           else if nc_LastTransitionTime rebootCondition < nc_LastTransitionTime degradedCondition
           then setNewCondition api name SlurmNodeReboot ConditionTrue ReasonNodeNeedReboot MessageSlurmNodeDegraded
           else finish
         else finish)"

definition processNotReadyCondition :: "'w checksApi \<Rightarrow> K8SNodesController \<Rightarrow> k8sNodeObj \<Rightarrow> ('w, unit) action" where
  "processNotReadyCondition api c k8sNode =
     (let readyCondition = firstCond NodeReady (nodeConds k8sNode) in
      if nc_Status readyCondition = ConditionTrue \<or> nc_Type readyCondition = [] then ret ()
      else bindA (kc_now api) (\<lambda>now.
        if now - nc_LastTransitionTime readyCondition < kn_NotReadyTimeout c then ret ()
        else deleteK8SNode api k8sNode))"

definition requeueDurationForNotReady :: "'w checksApi \<Rightarrow> K8SNodesController \<Rightarrow> k8sNodeObj \<Rightarrow> ('w, int) action" where
  "requeueDurationForNotReady api c k8sNode =
     (let readyCondition = firstCond NodeReady (nodeConds k8sNode) in
      if nc_Status readyCondition = ConditionTrue \<or> nc_Type readyCondition = [] then ret 0
      else bindA (kc_now api) (\<lambda>now.
        let notReadyDuration = now - nc_LastTransitionTime readyCondition in
        ret (if notReadyDuration < kn_NotReadyTimeout c then kn_NotReadyTimeout c - notReadyDuration + 30000000000 else 0)))"

text \<open>The result is the delay after which the request is queued again, zero for none.\<close>

definition Reconcile_k8sNodes :: "'w checksApi \<Rightarrow> K8SNodesController \<Rightarrow> string \<Rightarrow> ('w, int) action" where
  "Reconcile_k8sNodes api c name =
     tryA (kc_getNode api name) (\<lambda>res. case res of
       Inl err \<Rightarrow> if IsNotFound err then ret 0 else raise (wrapErr ''get k8s node: %w'' [] err)
     | Inr k8sNode \<Rightarrow>
         bindA (wrapA ''process drain condition: %w'' [] (processDrainCondition api c k8sNode)) (\<lambda>_.
         bindA (wrapA ''process reboot condition: %w'' [] (processRebootCondition api k8sNode)) (\<lambda>_.
           if kn_DeleteNotReadyNodes c
           then bindA (wrapA ''process NotReady condition: %w'' [] (processNotReadyCondition api c k8sNode)) (\<lambda>_.
             bindA (requeueDurationForNotReady api c k8sNode) (\<lambda>requeueAfter. ret (if requeueAfter > 0 then requeueAfter else 0)))
           else ret 0)))"
section \<open>Reading the ignored labels\<close>

text \<open>The values that a matcher ignores for a key, and what adding a pair does to them.\<close>

lemma ShouldIgnoreNode_iff:
  assumes "wfMap m"
  shows "ShouldIgnoreNode m nodeLabels \<longleftrightarrow> (\<exists>k v. map_of nodeLabels k = Some v \<and> v \<in> set (getList m k))"
proof -
  have "ShouldIgnoreNode m nodeLabels \<longleftrightarrow> (\<exists>k vs v. (k, vs) \<in> set m \<and> map_of nodeLabels k = Some v \<and> v \<in> set vs)"
    by (fastforce simp: ShouldIgnoreNode_def list_ex_iff split: option.splits)
  also have "\<dots> \<longleftrightarrow> (\<exists>k v. map_of nodeLabels k = Some v \<and> v \<in> set (getList m k))"
    using assms by (auto simp: getList_def split: option.splits)
  finally show ?thesis .
qed

definition labelPair :: "string \<times> string \<Rightarrow> string" where
  "labelPair kv = fst kv @ CHR ''='' # snd kv"

definition plainLabel :: "string \<times> string \<Rightarrow> bool" where
  "plainLabel kv \<longleftrightarrow> fst kv \<noteq> [] \<and> snd kv \<noteq> [] \<and> list_all graphic (fst kv @ snd kv)
     \<and> CHR ''='' \<notin> set (fst kv) \<and> CHR '','' \<notin> set (fst kv @ snd kv)"

lemma trimSpace_plain: "list_all graphic s \<Longrightarrow> trimSpace s = s"
  by (rule trimSpace_graphic) (cases s, auto simp: list_all_iff)

lemma plainLabel_trim:
  assumes "plainLabel kv"
  shows "trimSpace (labelPair kv) = labelPair kv" "labelPair kv \<noteq> []" "trimSpace (fst kv) = fst kv" "trimSpace (snd kv) = snd kv"
    "strSplitN2 (CHR ''='') (labelPair kv) = [fst kv, snd kv]" "CHR '','' \<notin> set (labelPair kv)"
proof -
  have "graphic (CHR ''='')" by (simp add: graphic_def)
  then show "trimSpace (labelPair kv) = labelPair kv" "trimSpace (fst kv) = fst kv" "trimSpace (snd kv) = snd kv"
    using assms by (simp_all add: trimSpace_plain plainLabel_def labelPair_def)
qed (use assms in \<open>auto simp: labelPair_def plainLabel_def strSplitN2_split\<close>)

lemma parseLabelPairs_plain:
  assumes "list_all plainLabel kvs" "wfMap acc"
  shows "\<exists>m. parseLabelPairs (map labelPair kvs) acc = Inr m \<and> wfMap m
    \<and> (\<forall>k v. v \<in> set (getList m k) \<longleftrightarrow> v \<in> set (getList acc k) \<or> (k, v) \<in> set kvs)"
  using assms
proof (induction kvs arbitrary: acc)
  case (Cons kv kvs)
  obtain k v where kv: "kv = (k, v)" by fastforce
  have plain: "plainLabel kv" "list_all plainLabel kvs" using Cons.prems(1) by auto
  let ?acc = "if v \<in> set (getList acc k) then acc else mapPut k (getList acc k @ [v]) acc"
  have "parseLabelPairs (map labelPair (kv # kvs)) acc = parseLabelPairs (map labelPair kvs) ?acc"
    using plainLabel_trim [OF plain(1)] plain(1) by (simp add: kv plainLabel_def Let_def)
  moreover have "wfMap ?acc" using Cons.prems(2) by simp
  ultimately obtain m where m: "parseLabelPairs (map labelPair (kv # kvs)) acc = Inr m" "wfMap m"
    "\<forall>k' v'. v' \<in> set (getList m k') \<longleftrightarrow> v' \<in> set (getList ?acc k') \<or> (k', v') \<in> set kvs"
    using Cons.IH [OF plain(2)] by metis
  have "v' \<in> set (getList ?acc k') \<longleftrightarrow> v' \<in> set (getList acc k') \<or> (k', v') = kv" for k' v'
    by (auto simp: kv getList_mapPut)
  with m show ?case by (intro exI [of _ m]) auto
qed simp

text \<open>
  The flag with the labels to ignore is read as it is written: for pairs \<open>key=value\<close> separated by commas the
  matcher ignores exactly the nodes that carry one of the pairs as a label.
\<close>

lemma NewNodeLabelMatcher_ignores:
  assumes "list_all plainLabel kvs"
  shows "\<exists>m. NewNodeLabelMatcher (strJoin '','' (map labelPair kvs)) = Inr m
    \<and> (\<forall>nodeLabels. ShouldIgnoreNode m nodeLabels \<longleftrightarrow> (\<exists>(k, v) \<in> set kvs. map_of nodeLabels k = Some v))"
proof (cases "kvs = []")
  case True
  then show ?thesis by (simp add: NewNodeLabelMatcher_def ShouldIgnoreNode_def)
next
  case False
  have sep: "\<forall>p \<in> set (map labelPair kvs). CHR '','' \<notin> set p" using assms plainLabel_trim(6) by (auto simp: list_all_iff)
  have split: "strSplit (CHR '','') (strJoin '','' (map labelPair kvs)) = map labelPair kvs"
    using strSplit_strJoin [OF _ sep] False by simp
  have "strJoin '','' (map labelPair kvs) \<noteq> []"
  proof
    assume "strJoin '','' (map labelPair kvs) = []"
    with split have "map labelPair kvs = [[]]" by simp
    then show False using assms plainLabel_trim(2) by (auto simp: list_all_iff Cons_eq_map_conv)
  qed
  moreover obtain m where m: "parseLabelPairs (map labelPair kvs) [] = Inr m" "wfMap m"
      "\<forall>k v. v \<in> set (getList m k) \<longleftrightarrow> (k, v) \<in> set kvs"
    using parseLabelPairs_plain [OF assms, of "[]"] by auto
  ultimately have "NewNodeLabelMatcher (strJoin '','' (map labelPair kvs)) = Inr m" by (simp add: NewNodeLabelMatcher_def split)
  moreover have "ShouldIgnoreNode m nodeLabels \<longleftrightarrow> (\<exists>(k, v) \<in> set kvs. map_of nodeLabels k = Some v)" for nodeLabels
    unfolding ShouldIgnoreNode_iff [OF m(2)] using m(3) by blast
  ultimately show ?thesis by blast
qed

section \<open>Which nodes are deleted\<close>

datatype nodeCall = NodeDeleted k8sNodeObj

definition recordingChecks :: "'w checksApi \<Rightarrow> ('w \<times> nodeCall list) checksApi" where
  "recordingChecks api = \<lparr>kc_getNode = (\<lambda>name. unrecorded (kc_getNode api name)),
     kc_patchStatus = (\<lambda>base node. unrecorded (kc_patchStatus api base node)),
     kc_updateStatus = (\<lambda>node. unrecorded (kc_updateStatus api node)),
     kc_deleteNode = (\<lambda>node. recorded (NodeDeleted node) (kc_deleteNode api node)), kc_now = unrecorded (kc_now api)\<rparr>"

definition drainedForMaintenance :: "K8SNodesController \<Rightarrow> k8sNodeObj \<Rightarrow> bool" where
  "drainedForMaintenance c node \<longleftrightarrow> \<not> ShouldIgnoreNode (kn_nodeLabelMatcher c) (ko_labels node)
     \<and> \<not> IsConditionFalseOrEmpty (lastCond SlurmNodeDrain (nodeConds node))
     \<and> nc_Reason (lastCond SlurmNodeDrain (nodeConds node)) = ReasonNodeDrained
     \<and> nc_Status (lastCond SoperatorChecksK8SNodeMaintenance (nodeConds node)) = ConditionTrue"

definition notReadyTooLong :: "'w checksApi \<Rightarrow> K8SNodesController \<Rightarrow> k8sNodeObj \<Rightarrow> bool" where
  "notReadyTooLong api c node \<longleftrightarrow> kn_DeleteNotReadyNodes c
     \<and> (\<exists>cond. find (\<lambda>cond. nc_Type cond = NodeReady) (nodeConds node) = Some cond \<and> nc_Status cond \<noteq> ConditionTrue
         \<and> (\<exists>v now v'. kc_now api v = (Inr now, v') \<and> kn_NotReadyTimeout c \<le> now - nc_LastTransitionTime cond))"

definition deletesOnly :: "(k8sNodeObj \<Rightarrow> bool) \<Rightarrow> nodeCall list \<Rightarrow> bool" where
  "deletesOnly P log \<longleftrightarrow> (\<forall>node. NodeDeleted node \<in> set log \<longrightarrow> P node)"

lemma recordingChecks_keeps:
  "keepsLog I (kc_getNode (recordingChecks api) name)" "keepsLog I (kc_patchStatus (recordingChecks api) base node)"
  "keepsLog I (kc_updateStatus (recordingChecks api) node)" "keepsLog I (kc_now (recordingChecks api))"
  "keepsLog I (setK8SNodeCondition (recordingChecks api) name cond)"
  "keepsLog I (setNewCondition (recordingChecks api) name ty st re msg)"
  "keepsLog I (processRebootCondition (recordingChecks api) node)"
  "keepsLog I (requeueDurationForNotReady (recordingChecks api) c node)"
proof -
  show calls: "keepsLog I (kc_getNode (recordingChecks api) name)" "keepsLog I (kc_patchStatus (recordingChecks api) base node)"
    "keepsLog I (kc_updateStatus (recordingChecks api) node)" "keepsLog I (kc_now (recordingChecks api))" for name base node
    by (simp_all add: recordingChecks_def keepsLog_basic)
  show set: "keepsLog I (setK8SNodeCondition (recordingChecks api) name cond)" for name cond
    unfolding setK8SNodeCondition_def
    by (intro keepsLog_tryA calls) (auto intro!: calls keepsLog_wrapA simp: keepsLog_basic split: sum.split option.split)
  have new: "keepsLog I (newNodeCondition (recordingChecks api) ty st re msg)" for ty st re msg
    unfolding newNodeCondition_def by (intro keepsLog_bindA calls keepsLog_basic)
  show snew: "keepsLog I (setNewCondition (recordingChecks api) name ty st re msg)" for name ty st re msg
    unfolding setNewCondition_def by (intro keepsLog_bindA new set)
  have "keepsLog I (setK8SNodeConditions (recordingChecks api) name conds)" for name conds
    unfolding setK8SNodeConditions_def by (intro keepsLog_forA keepsLog_wrapA set)
  then show "keepsLog I (processRebootCondition (recordingChecks api) node)"
    unfolding processRebootCondition_def rebootedCondition_def Let_def
    by (auto intro!: snew keepsLog_bindA new simp: keepsLog_basic)
  show "keepsLog I (requeueDurationForNotReady (recordingChecks api) c node)"
    unfolding requeueDurationForNotReady_def Let_def by (auto intro!: keepsLog_bindA calls simp: keepsLog_basic)
qed

lemma deleteK8SNode_keeps:
  assumes "P node"
  shows "keepsLog (deletesOnly P) (deleteK8SNode (recordingChecks api) node)"
proof -
  have "keepsLog (deletesOnly P) (kc_deleteNode (recordingChecks api) node)"
    using assms by (auto simp: recordingChecks_def deletesOnly_def intro!: keepsLog_recorded)
  then show ?thesis unfolding deleteK8SNode_def by (intro keepsLog_tryA) (auto simp: keepsLog_basic split: sum.split)
qed

lemma processDrainCondition_keeps:
  assumes "drainedForMaintenance c node \<Longrightarrow> P node"
  shows "keepsLog (deletesOnly P) (processDrainCondition (recordingChecks api) c node)"
  using assms unfolding processDrainCondition_def Let_def
  by (auto intro!: recordingChecks_keeps deleteK8SNode_keeps simp: keepsLog_basic drainedForMaintenance_def)

lemma firstCond_found: "nc_Type (firstCond ty conds) \<noteq> [] \<Longrightarrow> find (\<lambda>cond. nc_Type cond = ty) conds = Some (firstCond ty conds)"
  by (simp add: firstCond_def emptyCondition_def split: option.splits)

lemma processNotReadyCondition_keeps:
  assumes P: "notReadyTooLong api c node \<Longrightarrow> P node" and "kn_DeleteNotReadyNodes c"
  shows "keepsLog (deletesOnly P) (processNotReadyCondition (recordingChecks api) c node)"
proof -
  let ?ready = "firstCond NodeReady (nodeConds node)"
  have "keepsLog (deletesOnly P) (bindA (kc_now (recordingChecks api)) (\<lambda>now.
      if now - nc_LastTransitionTime ?ready < kn_NotReadyTimeout c then ret () else deleteK8SNode (recordingChecks api) node))"
    if "nc_Status ?ready \<noteq> ConditionTrue" "nc_Type ?ready \<noteq> []"
  proof (rule keepsLog_bindA_success)
    fix now v v'
    assume "kc_now (recordingChecks api) v = (Inr now, v')"
    then have "kc_now api (fst v) = (Inr now, fst v')"
      by (auto simp: recordingChecks_def unrecorded_def split: prod.splits)
    then have "P node" if "\<not> now - nc_LastTransitionTime ?ready < kn_NotReadyTimeout c"
      using P assms(2) firstCond_found \<open>nc_Status ?ready \<noteq> ConditionTrue\<close> \<open>nc_Type ?ready \<noteq> []\<close> that
      by (fastforce simp: notReadyTooLong_def)
    then show "keepsLog (deletesOnly P) (if now - nc_LastTransitionTime ?ready < kn_NotReadyTimeout c then ret ()
        else deleteK8SNode (recordingChecks api) node)"
      by (auto simp: keepsLog_basic intro: deleteK8SNode_keeps)
  qed (rule recordingChecks_keeps)
  then show ?thesis unfolding processNotReadyCondition_def Let_def by (auto simp: keepsLog_basic)
qed

section \<open>A node in memory\<close>

text \<open>The node of the rebooter with its labels; a deleted node is gone for every later call.\<close>

record nodeWorld =
  nw_life :: rebootWorld
  nw_labels :: "(string, string) gomap"
  nw_created :: int
  nw_exists :: bool

definition nodeObj :: "nodeWorld \<Rightarrow> k8sNodeObj" where
  "nodeObj w = \<lparr>ko_node = rw_node (nw_life w), ko_labels = nw_labels w, ko_created = nw_created w\<rparr>"

definition storeNode :: "k8sNodeObj \<Rightarrow> (nodeWorld, unit) action" where
  "storeNode node w = (if nw_exists w then (Inr (), w\<lparr>nw_life := (nw_life w)\<lparr>rw_node := ko_node node\<rparr>\<rparr>) else (Inl (ApiError ReasonNotFound), w))"

definition memChecks :: "nodeWorld checksApi" where
  "memChecks = \<lparr>kc_getNode = (\<lambda>name w. (if nw_exists w then Inr (nodeObj w) else Inl (ApiError ReasonNotFound), w)),
     kc_patchStatus = (\<lambda>base. storeNode), kc_updateStatus = storeNode,
     kc_deleteNode = (\<lambda>node w. if nw_exists w then (Inr (), w\<lparr>nw_exists := False\<rparr>) else (Inl (ApiError ReasonNotFound), w)),
     kc_now = (\<lambda>w. (Inr (rw_now (nw_life w)), w))\<rparr>"

section \<open>Witnesses\<close>

definition maintainedWorld :: nodeWorld where
  "maintainedWorld = \<lparr>nw_life = \<lparr>rw_node = \<lparr>rn_name = ''n1'', rn_unschedulable = True, rn_taints = [], rn_conditions =
       [\<lparr>nc_Type = SlurmNodeDrain, nc_Status = ConditionTrue, nc_Reason = ReasonNodeDrained, nc_Message = [], nc_LastTransitionTime = 3\<rparr>,
        \<lparr>nc_Type = SoperatorChecksK8SNodeMaintenance, nc_Status = ConditionTrue, nc_Reason = [], nc_Message = [], nc_LastTransitionTime = 2\<rparr>]\<rparr>,
       rw_pods = [], rw_now = 5, rw_boot = 1, rw_reboots = 0\<rparr>, nw_labels = [(''zone'', ''a'')], nw_created = 1, nw_exists = True\<rparr>"

lemma NewNodeLabelMatcher_ignores_witness:
  "\<exists>m. NewNodeLabelMatcher ''zone=a,zone=b'' = Inr m \<and> ShouldIgnoreNode m [(''zone'', ''b'')] \<and> \<not> ShouldIgnoreNode m [(''zone'', ''c'')]"
proof -
  let ?kvs = "[(''zone'', ''a''), (''zone'', ''b'')]"
  have "list_all plainLabel ?kvs" by code_simp
  from NewNodeLabelMatcher_ignores [OF this] obtain m where
    m: "NewNodeLabelMatcher (strJoin '','' (map labelPair ?kvs)) = Inr m"
      "\<And>nodeLabels. ShouldIgnoreNode m nodeLabels \<longleftrightarrow> (\<exists>(k, v) \<in> set ?kvs. map_of nodeLabels k = Some v)" by blast
  have "strJoin '','' (map labelPair ?kvs) = ''zone=a,zone=b''" by (simp add: labelPair_def)
  with m show ?thesis by auto
qed

definition exampleChecks :: K8SNodesController where
  "exampleChecks = NewK8SNodesController 600 True [] ''zone=b''"

lemma maintainedWorld_run:
  "snd (snd (Reconcile_k8sNodes (recordingChecks memChecks) exampleChecks ''n1'' (maintainedWorld, []))) = [NodeDeleted (nodeObj maintainedWorld)]"
  by code_simp


end
