(* ===== verification/Node_Lifecycle.thy ===== *)
theory Node_Lifecycle
  imports Node_Checks
begin

text \<open>
  The rebooter and the controller of Kubernetes nodes on one node. The two programs meet only in the conditions of the
  node object: the controller asks for a reboot when the node is degraded, the rebooter carries it
  out, and the controller takes the conditions back. The steps of the node are whole reconciliations of either program, in
  any order, the clock, pods, and conditions that others set. The properties: reboots are paid for by degradations, the way back
  into service, and the order of reconciliations after which a node never comes back.
\<close>

section \<open>Conditions in memory\<close>

definition conds :: "nodeWorld \<Rightarrow> nodeCondition list" where
  "conds w = rn_conditions (rw_node (nw_life w))"

definition condAt :: "string \<Rightarrow> nodeWorld \<Rightarrow> nodeCondition option" where
  "condAt ty w = GetNodeConditions (rw_node (nw_life w)) ty"

definition putConds :: "nodeCondition list \<Rightarrow> nodeWorld \<Rightarrow> nodeWorld" where
  "putConds cs w = w\<lparr>nw_life := (nw_life w)\<lparr>rw_node := (rw_node (nw_life w))\<lparr>rn_conditions := cs\<rparr>\<rparr>\<rparr>"

definition k8sSet :: "nodeCondition list \<Rightarrow> nodeCondition \<Rightarrow> nodeCondition list" where
  "k8sSet cs new = (case find (\<lambda>(i, c). nc_Type c = nc_Type new) (enumerate 0 cs) of
     Some (i, c) \<Rightarrow> if nc_Status c = nc_Status new \<and> nc_Reason c = nc_Reason new then cs else cs[i := new]
   | None \<Rightarrow> cs @ [new])"

definition conditionKept :: "nodeCondition option \<Rightarrow> nodeCondition \<Rightarrow> nodeCondition" where
  "conditionKept old new = (case old of None \<Rightarrow> new
     | Some c \<Rightarrow> if nc_Status c = nc_Status new \<and> nc_Reason c = nc_Reason new then c else new)"

lemma conditionKept_fields [simp]:
  "nc_Status (conditionKept old new) = nc_Status new" "nc_Reason (conditionKept old new) = nc_Reason new"
  by (simp_all add: conditionKept_def split: option.split)

lemma k8sSet_find:
  "find (\<lambda>c. nc_Type c = ty) (k8sSet cs new) =
     (if ty = nc_Type new then Some (conditionKept (find (\<lambda>c. nc_Type c = ty) cs) new) else find (\<lambda>c. nc_Type c = ty) cs)"
proof (cases "find (\<lambda>(i, c). nc_Type c = nc_Type new) (enumerate 0 cs)")
  case None
  then have "find (\<lambda>c. nc_Type c = nc_Type new) cs = None" using find_enumerate_None by blast
  then show ?thesis using None by (auto simp: k8sSet_def conditionKept_def find_append_one split: option.split)
next
  case (Some p)
  obtain i c where p: "p = (i, c)" by fastforce
  have f: "i < length cs" "cs ! i = c" "nc_Type c = nc_Type new" "find (\<lambda>c. nc_Type c = nc_Type new) cs = Some c"
      "find (\<lambda>c. nc_Type c = nc_Type new) (cs[i := new]) = Some new"
    using find_enumerate [OF Some [unfolded p], of new] by simp_all
  show ?thesis
  proof (cases "ty = nc_Type new")
    case True
    then show ?thesis using Some p f by (simp add: k8sSet_def conditionKept_def)
  next
    case False
    then show ?thesis using Some p f find_update_other [of i cs "\<lambda>c. nc_Type c = ty" new] by (simp add: k8sSet_def)
  qed
qed

text \<open>The types of the conditions are different, and no condition is younger than the clock.\<close>

definition condsOk :: "int \<Rightarrow> nodeCondition list \<Rightarrow> bool" where
  "condsOk now cs \<longleftrightarrow> distinct (map nc_Type cs) \<and> list_all (\<lambda>c. nc_LastTransitionTime c \<le> now) cs"

lemma condsOk_append: "condsOk now cs \<Longrightarrow> find (\<lambda>c. nc_Type c = nc_Type new) cs = None \<Longrightarrow> nc_LastTransitionTime new \<le> now \<Longrightarrow> condsOk now (cs @ [new])"
  by (auto simp: condsOk_def find_None_iff)

lemma condsOk_update:
  assumes "condsOk now cs" "i < length cs" "nc_Type new = nc_Type (cs ! i)" "nc_LastTransitionTime new \<le> now"
  shows "condsOk now (cs[i := new])"
proof -
  have "map nc_Type (cs[i := new]) = map nc_Type cs" using assms(2,3) by (simp add: map_update) (metis list_update_id nth_map)
  moreover have "list_all (\<lambda>c. nc_LastTransitionTime c \<le> now) (cs[i := new])"
    using assms(1,4) set_update_subset_insert [of cs i new] by (auto simp: condsOk_def list_all_iff)
  ultimately show ?thesis using assms(1) by (simp add: condsOk_def)
qed

lemma condsOk_k8sSet:
  assumes "condsOk now cs" "nc_LastTransitionTime new \<le> now"
  shows "condsOk now (k8sSet cs new)"
proof (cases "find (\<lambda>(i, c). nc_Type c = nc_Type new) (enumerate 0 cs)")
  case None
  then have "find (\<lambda>c. nc_Type c = nc_Type new) cs = None" using find_enumerate_None by blast
  then show ?thesis using None condsOk_append [OF assms(1) _ assms(2)] by (simp add: k8sSet_def)
next
  case (Some p)
  obtain i c where p: "p = (i, c)" by fastforce
  have "i < length cs" "nc_Type new = nc_Type (cs ! i)" using find_enumerate [OF Some [unfolded p], of new] by auto
  then show ?thesis using Some p condsOk_update [OF assms(1)] assms by (simp add: k8sSet_def)
qed

lemma condsOk_setCondition:
  assumes "condsOk now (rn_conditions n)" "nc_LastTransitionTime new \<le> now"
  shows "condsOk now (rn_conditions (fst (snd (setCondition n new))))"
proof (cases "find (\<lambda>(i, c). nc_Type c = nc_Type new) (enumerate 0 (rn_conditions n))")
  case None
  then have "find (\<lambda>c. nc_Type c = nc_Type new) (rn_conditions n) = None" using find_enumerate_None by blast
  then show ?thesis using None condsOk_append [OF assms(1) _ assms(2)] by (simp add: setCondition_def)
next
  case (Some p)
  obtain i c where p: "p = (i, c)" by fastforce
  have i: "i < length (rn_conditions n)" "nc_Type new = nc_Type (rn_conditions n ! i)" "rn_conditions n ! i = c"
    using find_enumerate [OF Some [unfolded p], of new] by auto
  then have "nc_LastTransitionTime c \<le> now" using assms(1) by (auto simp: condsOk_def list_all_iff)
  then show ?thesis using Some p i condsOk_update [OF assms(1) i(1)] assms by (simp add: setCondition_def Let_def)
qed

lemma lastCond_find:
  assumes "distinct (map nc_Type cs)"
  shows "lastCond ty cs = (case find (\<lambda>c. nc_Type c = ty) cs of None \<Rightarrow> emptyCondition | Some c \<Rightarrow> c)"
proof -
  have "distinct (map nc_Type cs) \<Longrightarrow>
    fold (\<lambda>cond acc. if nc_Type cond = ty then cond else acc) cs acc = (case find (\<lambda>c. nc_Type c = ty) cs of None \<Rightarrow> acc | Some c \<Rightarrow> c)" for acc
  proof (induction cs arbitrary: acc)
    case (Cons c cs)
    have "nc_Type c = ty \<Longrightarrow> find (\<lambda>c. nc_Type c = ty) cs = None" using Cons.prems by (auto simp: find_None_iff) (metis imageI)
    with Cons show ?case by (cases "nc_Type c = ty") simp_all
  qed simp
  then show ?thesis using assms by (simp add: lastCond_def)
qed

section \<open>The calls of the controller in memory\<close>

lemma putConds_simps [simp]:
  "conds (putConds cs w) = cs" "nw_exists (putConds cs w) = nw_exists w" "nw_labels (putConds cs w) = nw_labels w"
  "rw_now (nw_life (putConds cs w)) = rw_now (nw_life w)" "rw_boot (nw_life (putConds cs w)) = rw_boot (nw_life w)"
  "rw_reboots (nw_life (putConds cs w)) = rw_reboots (nw_life w)"
  "rn_unschedulable (rw_node (nw_life (putConds cs w))) = rn_unschedulable (rw_node (nw_life w))"
  "rn_taints (rw_node (nw_life (putConds cs w))) = rn_taints (rw_node (nw_life w))"
  by (simp_all add: putConds_def conds_def)

lemma condAt_find: "condAt ty w = find (\<lambda>c. nc_Type c = ty) (conds w)"
  by (simp add: condAt_def GetNodeConditions_def conds_def)

lemma condAt_k8sSet:
  "condAt ty (putConds (k8sSet (conds w) new) w) = (if ty = nc_Type new then Some (conditionKept (condAt ty w) new) else condAt ty w)"
  by (simp add: condAt_find k8sSet_find)

lemma memChecks_simps:
  "kc_getNode memChecks name w = (if nw_exists w then Inr (nodeObj w) else Inl (ApiError ReasonNotFound), w)"
  "kc_patchStatus memChecks base = storeNode" "kc_updateStatus memChecks = storeNode"
  "kc_deleteNode memChecks node w = (if nw_exists w then (Inr (), w\<lparr>nw_exists := False\<rparr>) else (Inl (ApiError ReasonNotFound), w))"
  "kc_now memChecks w = (Inr (rw_now (nw_life w)), w)"
  by (simp_all add: memChecks_def)

lemma storeNode_conds: "nw_exists w \<Longrightarrow> storeNode (withConds cs (nodeObj w)) w = (Inr (), putConds cs w)"
  by (simp add: storeNode_def withConds_def nodeObj_def putConds_def)

lemma notFound_simps: "IsNotFound (ApiError ReasonNotFound)" "\<not> isPanic (ApiError r)"
  by (simp_all add: IsNotFound_def isPanic_def)

lemma mem_setK8SNodeCondition:
  "setK8SNodeCondition memChecks name new w = (Inr (), if nw_exists w then putConds (k8sSet (conds w) new) w else w)"
proof (cases "nw_exists w")
  case True
  have same: "storeNode (nodeObj w) w = (Inr (), putConds (conds w) w)" using True by (simp add: storeNode_def nodeObj_def putConds_def conds_def)
  have n: "nodeConds (nodeObj w) = conds w" by (simp add: nodeConds_def nodeObj_def conds_def)
  show ?thesis using True
    by (auto simp: setK8SNodeCondition_def tryA_def wrapA_def memChecks_simps n same storeNode_conds k8sSet_def split: option.split)
next
  case False
  then show ?thesis by (simp add: setK8SNodeCondition_def tryA_def memChecks_simps notFound_simps)
qed

definition conditionNow :: "string \<Rightarrow> string \<Rightarrow> string \<Rightarrow> string \<Rightarrow> nodeWorld \<Rightarrow> nodeCondition" where
  "conditionNow ty st re msg w = \<lparr>nc_Type = ty, nc_Status = st, nc_Reason = re, nc_Message = msg, nc_LastTransitionTime = rw_now (nw_life w)\<rparr>"

lemma conditionNow_simps [simp]:
  "nc_Type (conditionNow ty st re msg w) = ty" "nc_Status (conditionNow ty st re msg w) = st" "nc_Reason (conditionNow ty st re msg w) = re"
  "nc_LastTransitionTime (conditionNow ty st re msg w) = rw_now (nw_life w)"
  by (simp_all add: conditionNow_def)

lemma mem_newNodeCondition: "newNodeCondition memChecks ty st re msg w = (Inr (conditionNow ty st re msg w), w)"
  by (simp add: newNodeCondition_def bindA_def memChecks_simps conditionNow_def)

lemma mem_setNewCondition:
  "setNewCondition memChecks name ty st re msg w =
     (Inr (), if nw_exists w then putConds (k8sSet (conds w) (conditionNow ty st re msg w)) w else w)"
  by (simp add: setNewCondition_def bindA_def mem_newNodeCondition mem_setK8SNodeCondition)

lemma mem_deleteK8SNode: "deleteK8SNode memChecks node w = (Inr (), w\<lparr>nw_exists := False\<rparr>)"
  by (cases w) (simp add: deleteK8SNode_def tryA_def memChecks_simps notFound_simps)
section \<open>One reconciliation of the controller\<close>

text \<open>What the reboots of a node depend on.\<close>

definition nodeView :: "nodeWorld \<Rightarrow> nodeCondition option \<times> nodeCondition option \<times> int \<times> int \<times> nat" where
  "nodeView w = (condAt SlurmNodeReboot w, condAt SoperatorChecksK8SNodeDegraded w, rw_now (nw_life w), rw_boot (nw_life w), rw_reboots (nw_life w))"

definition condOr :: "string \<Rightarrow> nodeWorld \<Rightarrow> nodeCondition" where
  "condOr ty w = (case condAt ty w of None \<Rightarrow> emptyCondition | Some c \<Rightarrow> c)"

definition wfConds :: "nodeWorld \<Rightarrow> bool" where
  "wfConds w \<longleftrightarrow> condsOk (rw_now (nw_life w)) (conds w)"

lemmas conditionTypes = SlurmNodeDrain_def SlurmNodeReboot_def SoperatorChecksK8SNodeDegraded_def
  SoperatorChecksK8SNodeMaintenance_def HardwareIssuesSuspected_def

lemma lastCond_condOr: "wfConds w \<Longrightarrow> lastCond ty (nodeConds (nodeObj w)) = condOr ty w"
  by (simp add: wfConds_def condsOk_def lastCond_find condOr_def condAt_find nodeConds_def nodeObj_def conds_def)

lemma condAt_type: "condAt ty w = Some c \<Longrightarrow> nc_Type c = ty"
  by (auto simp: condAt_find find_Some_iff)

lemma condAt_time: "wfConds w \<Longrightarrow> condAt ty w = Some c \<Longrightarrow> nc_LastTransitionTime c \<le> rw_now (nw_life w)"
  by (auto simp: wfConds_def condsOk_def list_all_iff condAt_find find_Some_iff)

lemma falseOrEmpty_condOr:
  "ty \<noteq> [] \<Longrightarrow> IsConditionFalseOrEmpty (condOr ty w) \<longleftrightarrow> (\<forall>c. condAt ty w = Some c \<longrightarrow> nc_Status c = ConditionFalse)"
  by (cases "condAt ty w") (auto simp: IsConditionFalseOrEmpty_def condOr_def emptyCondition_def dest: condAt_type)

lemma nodeView_putConds:
  "ty \<noteq> SlurmNodeReboot \<Longrightarrow> ty \<noteq> SoperatorChecksK8SNodeDegraded \<Longrightarrow> nc_Type new = ty \<Longrightarrow>
    nodeView (putConds (k8sSet (conds w) new) w) = nodeView w"
  by (auto simp: nodeView_def condAt_k8sSet)

lemma nodeView_setNewCondition:
  "ty \<noteq> SlurmNodeReboot \<Longrightarrow> ty \<noteq> SoperatorChecksK8SNodeDegraded \<Longrightarrow> keepsView nodeView (setNewCondition memChecks name ty st re msg)"
  by (simp add: keepsView_def mem_setNewCondition nodeView_putConds)

lemma nodeView_exists: "nodeView (w\<lparr>nw_exists := b\<rparr>) = nodeView w" "wfConds (w\<lparr>nw_exists := b\<rparr>) = wfConds w" "conds (w\<lparr>nw_exists := b\<rparr>) = conds w"
  by (simp_all add: nodeView_def condAt_def wfConds_def conds_def)

lemma nodeView_drain: "keepsView nodeView (processDrainCondition memChecks c node)"
proof -
  have "keepsView nodeView (deleteK8SNode memChecks node)" for node by (simp add: keepsView_def mem_deleteK8SNode nodeView_exists)
  then show ?thesis unfolding processDrainCondition_def Let_def
    by (auto simp: keepsView_basic conditionTypes intro!: nodeView_setNewCondition)
qed

lemma nodeView_now: "keepsView nodeView (kc_now memChecks)"
  by (simp add: keepsView_def memChecks_simps)

lemma nodeView_notReady:
  "keepsView nodeView (processNotReadyCondition memChecks c node)" "keepsView nodeView (requeueDurationForNotReady memChecks c node)"
proof -
  have "keepsView nodeView (deleteK8SNode memChecks node)" for node by (simp add: keepsView_def mem_deleteK8SNode nodeView_exists)
  then show "keepsView nodeView (processNotReadyCondition memChecks c node)" "keepsView nodeView (requeueDurationForNotReady memChecks c node)"
    unfolding processNotReadyCondition_def requeueDurationForNotReady_def Let_def
    by (auto intro!: keepsView_bindA nodeView_now simp: keepsView_basic)
qed

text \<open>A degradation for which no reboot was asked yet.\<close>

definition askable :: "nodeWorld \<Rightarrow> bool" where
  "askable w \<longleftrightarrow> (\<exists>d. condAt SoperatorChecksK8SNodeDegraded w = Some d \<and> nc_Status d \<noteq> ConditionFalse
     \<and> nc_LastTransitionTime (condOr SlurmNodeReboot w) < nc_LastTransitionTime d)"

definition asked :: "nodeWorld \<Rightarrow> nodeWorld \<Rightarrow> bool" where
  "asked w w' \<longleftrightarrow> askable w \<and> (\<forall>c. condAt SlurmNodeReboot w = Some c \<longrightarrow> nc_Status c = ConditionFalse)
     \<and> nodeView w' = (Some (conditionKept (condAt SlurmNodeReboot w)
           (conditionNow SlurmNodeReboot ConditionTrue ReasonNodeNeedReboot MessageSlurmNodeDegraded w)),
         condAt SoperatorChecksK8SNodeDegraded w, rw_now (nw_life w), rw_boot (nw_life w), rw_reboots (nw_life w))"

definition takenBack :: "string \<Rightarrow> nodeWorld \<Rightarrow> nodeCondition" where
  "takenBack ty w = conditionKept (condAt ty w) (conditionNow ty ConditionFalse ReasonNodeRebooted MessageNodeIsRebooted w)"

definition finished :: "nodeWorld \<Rightarrow> nodeWorld \<Rightarrow> bool" where
  "finished w w' \<longleftrightarrow> nodeView w' = (Some (takenBack SlurmNodeReboot w), Some (takenBack SoperatorChecksK8SNodeDegraded w),
     rw_now (nw_life w), rw_boot (nw_life w), rw_reboots (nw_life w))"

lemma mem_takeBack:
  assumes "nw_exists w"
  shows "\<exists>w'. bindA (rebootedCondition memChecks SlurmNodeReboot) (\<lambda>reboot.
        bindA (rebootedCondition memChecks SlurmNodeDrain) (\<lambda>drain.
        bindA (rebootedCondition memChecks SoperatorChecksK8SNodeDegraded) (\<lambda>degraded.
          setK8SNodeConditions memChecks name [reboot, drain, degraded]))) w = (Inr (), w')
      \<and> finished w w' \<and> condAt SlurmNodeDrain w' = Some (takenBack SlurmNodeDrain w)
      \<and> rw_node (nw_life w') = (rw_node (nw_life w))\<lparr>rn_conditions := conds w'\<rparr> \<and> (wfConds w \<longrightarrow> wfConds w')"
proof -
  let ?c = "\<lambda>ty. conditionNow ty ConditionFalse ReasonNodeRebooted MessageNodeIsRebooted w"
  let ?w1 = "putConds (k8sSet (conds w) (?c SlurmNodeReboot)) w"
  let ?w2 = "putConds (k8sSet (conds ?w1) (?c SlurmNodeDrain)) ?w1"
  let ?w3 = "putConds (k8sSet (conds ?w2) (?c SoperatorChecksK8SNodeDegraded)) ?w2"
  have "bindA (rebootedCondition memChecks SlurmNodeReboot) (\<lambda>reboot.
        bindA (rebootedCondition memChecks SlurmNodeDrain) (\<lambda>drain.
        bindA (rebootedCondition memChecks SoperatorChecksK8SNodeDegraded) (\<lambda>degraded.
          setK8SNodeConditions memChecks name [reboot, drain, degraded]))) w = (Inr (), ?w3)"
    using assms by (simp add: rebootedCondition_def bindA_def mem_newNodeCondition setK8SNodeConditions_def wrapA_def mem_setK8SNodeCondition)
  moreover have at: "condAt ty ?w3 = (if ty \<in> {SlurmNodeReboot, SlurmNodeDrain, SoperatorChecksK8SNodeDegraded} then Some (takenBack ty w) else condAt ty w)" for ty
    by (simp only: condAt_k8sSet) (auto simp: takenBack_def conditionTypes condAt_k8sSet)
  moreover have "rw_now (nw_life ?w3) = rw_now (nw_life w)" "rw_boot (nw_life ?w3) = rw_boot (nw_life w)"
      "rw_reboots (nw_life ?w3) = rw_reboots (nw_life w)" by (simp_all only: putConds_simps)
  then have "finished w ?w3" unfolding finished_def nodeView_def at by simp
  moreover have "rw_node (nw_life ?w3) = (rw_node (nw_life w))\<lparr>rn_conditions := conds ?w3\<rparr>" by (simp add: putConds_def conds_def)
  moreover have "wfConds w \<longrightarrow> wfConds ?w3" by (simp add: wfConds_def condsOk_k8sSet)
  ultimately show ?thesis by (intro exI [of _ ?w3]) simp
qed

lemma mem_processRebootCondition:
  assumes wf: "wfConds w0" and same: "nodeView w = nodeView w0"
  shows "\<exists>w'. processRebootCondition memChecks (nodeObj w0) w = (Inr (), w')
    \<and> (nodeView w' = nodeView w \<or> asked w w' \<or> finished w w') \<and> (wfConds w \<longrightarrow> wfConds w')"
proof -
  have at: "condAt SlurmNodeReboot w0 = condAt SlurmNodeReboot w" "condAt SoperatorChecksK8SNodeDegraded w0 = condAt SoperatorChecksK8SNodeDegraded w"
    using same by (simp_all add: nodeView_def)
  then have cond: "lastCond SlurmNodeReboot (nodeConds (nodeObj w0)) = condOr SlurmNodeReboot w"
      "lastCond SoperatorChecksK8SNodeDegraded (nodeConds (nodeObj w0)) = condOr SoperatorChecksK8SNodeDegraded w"
    using lastCond_condOr [OF wf] by (simp_all add: condOr_def)
  let ?finish = "if nc_Reason (condOr SlurmNodeReboot w) \<noteq> ReasonNodeRebooted then ret ()
             else bindA (rebootedCondition memChecks SlurmNodeReboot) (\<lambda>reboot.
               bindA (rebootedCondition memChecks SlurmNodeDrain) (\<lambda>drain.
               bindA (rebootedCondition memChecks SoperatorChecksK8SNodeDegraded) (\<lambda>degraded.
                 setK8SNodeConditions memChecks (nodeName_of (nodeObj w0)) [reboot, drain, degraded])))"
  have finish: "\<exists>w'. ?finish w = (Inr (), w') \<and> (nodeView w' = nodeView w \<or> finished w w') \<and> (wfConds w \<longrightarrow> wfConds w')"
  proof (cases "nw_exists w")
    case True
    then show ?thesis using mem_takeBack by fastforce
  next
    case False
    then show ?thesis
      by (simp add: rebootedCondition_def bindA_def mem_newNodeCondition setK8SNodeConditions_def wrapA_def mem_setK8SNodeCondition)
  qed
  have run: "processRebootCondition memChecks (nodeObj w0) = (if IsConditionFalseOrEmpty (condOr SlurmNodeReboot w) then
           if IsConditionFalseOrEmpty (condOr SoperatorChecksK8SNodeDegraded w) then ret ()
           else if nc_LastTransitionTime (condOr SlurmNodeReboot w) < nc_LastTransitionTime (condOr SoperatorChecksK8SNodeDegraded w)
           then setNewCondition memChecks (nodeName_of (nodeObj w0)) SlurmNodeReboot ConditionTrue ReasonNodeNeedReboot MessageSlurmNodeDegraded
           else ?finish
         else ?finish)"
    by (simp only: processRebootCondition_def Let_def cond)
  show ?thesis
  proof (cases "IsConditionFalseOrEmpty (condOr SlurmNodeReboot w) \<and> \<not> IsConditionFalseOrEmpty (condOr SoperatorChecksK8SNodeDegraded w)
      \<and> nc_LastTransitionTime (condOr SlurmNodeReboot w) < nc_LastTransitionTime (condOr SoperatorChecksK8SNodeDegraded w)")
    case True
    then have "askable w" "\<forall>c. condAt SlurmNodeReboot w = Some c \<longrightarrow> nc_Status c = ConditionFalse"
      by (auto simp: askable_def falseOrEmpty_condOr conditionTypes) (simp add: condOr_def conditionTypes)
    then have "asked w (putConds (k8sSet (conds w) (conditionNow SlurmNodeReboot ConditionTrue ReasonNodeNeedReboot MessageSlurmNodeDegraded w)) w)"
      by (simp add: asked_def nodeView_def condAt_k8sSet) (simp add: conditionTypes)
    then show ?thesis using True by (auto simp: run mem_setNewCondition wfConds_def condsOk_k8sSet)
  next
    case False
    then show ?thesis using finish unfolding run by (cases "IsConditionFalseOrEmpty (condOr SlurmNodeReboot w)") (auto split: if_splits)
  qed
qed
lemma nodeView_cong:
  assumes "nodeView v = nodeView w"
  shows "askable v = askable w" "asked v = asked w" "finished v = finished w"
    "condAt SlurmNodeReboot v = condAt SlurmNodeReboot w" "rw_now (nw_life v) = rw_now (nw_life w)"
proof -
  have at: "condAt SlurmNodeReboot v = condAt SlurmNodeReboot w" "condAt SoperatorChecksK8SNodeDegraded v = condAt SoperatorChecksK8SNodeDegraded w"
    and life: "rw_now (nw_life v) = rw_now (nw_life w)" "rw_boot (nw_life v) = rw_boot (nw_life w)" "rw_reboots (nw_life v) = rw_reboots (nw_life w)"
    using assms by (simp_all add: nodeView_def)
  then show "askable v = askable w" "asked v = asked w" "finished v = finished w"
    "condAt SlurmNodeReboot v = condAt SlurmNodeReboot w" "rw_now (nw_life v) = rw_now (nw_life w)"
    by (simp_all add: fun_eq_iff askable_def asked_def finished_def takenBack_def condOr_def conditionNow_def)
qed

lemma wfConds_calls:
  "keepsInv wfConds (setNewCondition memChecks name ty st re msg)" "keepsInv wfConds (deleteK8SNode memChecks node)"
  "keepsInv wfConds (kc_now memChecks)"
  by (simp_all add: keepsInv_def mem_setNewCondition mem_deleteK8SNode nodeView_exists memChecks_simps)
    (simp add: wfConds_def condsOk_k8sSet)

lemma wfConds_process:
  "keepsInv wfConds (processDrainCondition memChecks c node)" "keepsInv wfConds (processNotReadyCondition memChecks c node)"
  "keepsInv wfConds (requeueDurationForNotReady memChecks c node)"
  unfolding processDrainCondition_def processNotReadyCondition_def requeueDurationForNotReady_def Let_def
  by (auto intro!: keepsInv_bindA wfConds_calls simp: keepsInv_basic)

lemma mem_drain_succeeds: "succeeds (processDrainCondition memChecks c node)"
  unfolding processDrainCondition_def Let_def
  by (auto simp: succeeds_def mem_setNewCondition mem_deleteK8SNode)

text \<open>The part of a reconciliation after the reboot condition: it may delete the node.\<close>

definition restOfReconcile :: "K8SNodesController \<Rightarrow> k8sNodeObj \<Rightarrow> (nodeWorld, int) action" where
  "restOfReconcile c k8sNode = (if kn_DeleteNotReadyNodes c
     then bindA (wrapA ''process NotReady condition: %w'' [] (processNotReadyCondition memChecks c k8sNode)) (\<lambda>_.
       bindA (requeueDurationForNotReady memChecks c k8sNode) (\<lambda>requeueAfter. ret (if requeueAfter > 0 then requeueAfter else 0)))
     else ret 0)"

lemma restOfReconcile_keeps: "keepsView nodeView (restOfReconcile c node)" "keepsInv wfConds (restOfReconcile c node)"
  unfolding restOfReconcile_def
  by (auto intro!: keepsView_bindA keepsView_wrapA nodeView_notReady keepsInv_bindA keepsInv_wrapA wfConds_process simp: keepsView_basic keepsInv_basic)

lemma mem_Reconcile_parts:
  assumes "nw_exists w" "processDrainCondition memChecks c (nodeObj w) w = (Inr (), w1)"
    "processRebootCondition memChecks (nodeObj w) w1 = (Inr (), w2)"
  shows "Reconcile_k8sNodes memChecks c name w = restOfReconcile c (nodeObj w) w2"
  using assms by (simp add: Reconcile_k8sNodes_def tryA_def memChecks_simps bindA_def wrapA_def restOfReconcile_def)

lemma mem_Reconcile_k8sNodes:
  assumes wf: "wfConds w" and run: "Reconcile_k8sNodes memChecks c name w = (res, w')"
  shows "(nodeView w' = nodeView w \<or> asked w w' \<or> finished w w') \<and> wfConds w'"
proof (cases "nw_exists w")
  case False
  then have "w' = w" using run by (simp add: Reconcile_k8sNodes_def tryA_def memChecks_simps notFound_simps)
  then show ?thesis using wf by simp
next
  case True
  obtain w1 where d: "processDrainCondition memChecks c (nodeObj w) w = (Inr (), w1)"
    using mem_drain_succeeds [of c "nodeObj w"] unfolding succeeds_def by (metis old.unit.exhaust)
  have v1: "nodeView w1 = nodeView w" "wfConds w1"
    using keepsViewD [OF nodeView_drain d] keepsInvD [OF wfConds_process(1) d wf] by simp_all
  from mem_processRebootCondition [OF wf v1(1)] obtain w2 where
    b: "processRebootCondition memChecks (nodeObj w) w1 = (Inr (), w2)" "nodeView w2 = nodeView w1 \<or> asked w1 w2 \<or> finished w1 w2" "wfConds w2"
    using v1(2) by blast
  have rest: "restOfReconcile c (nodeObj w) w2 = (res, w')" using run mem_Reconcile_parts [OF True d b(1)] by simp
  have "nodeView w' = nodeView w2" "wfConds w'"
    using keepsViewD [OF restOfReconcile_keeps(1) rest] keepsInvD [OF restOfReconcile_keeps(2) rest b(3)] by simp_all
  then show ?thesis using b(2) v1(1) nodeView_cong(2,3) [OF v1(1)] by (auto simp: asked_def finished_def)
qed

section \<open>The rebooter on the same node\<close>

lemma Reconcile_rebooter_keepsInv:
  assumes set: "\<And>node ty st re msg. ty = SlurmNodeDrain \<or> ty = SlurmNodeReboot \<Longrightarrow> keepsInv I (setNodeCondition memRebooter r node ty st re msg)"
    and spec: "\<And>node b. keepsInv I (SetNodeUnschedulable memRebooter node b)" "\<And>node b. keepsInv I (TaintNodeWithNoExecute memRebooter node b)"
      "\<And>node. keepsInv I (RebootNode memRebooter node)"
  shows "keepsInv I (Reconcile_rebooter memRebooter r)"
proof -
  have reads: "keepsInv I (AreAllPodsEvicted memRebooter node)" "keepsInv I (IsUptimeGreaterThanLastTransition memRebooter t)"
      "keepsInv I (getNode_rebooter memRebooter r)" for node t
    by (simp_all add: keepsInv_def mem_pods mem_uptime) (simp add: getNode_rebooter_def wrapA_def memRebooter_def)
  note calls = keepsInv set spec reads
  have undrain: "keepsInv I (handleNodeUnDrain memRebooter r node)" for node
    by (auto simp: handleNodeUnDrain_def UndrainNodeIfNeeded_def intro!: calls)
  have drain: "keepsInv I (handleNodeDrain memRebooter r node acts)" for node acts
    by (auto simp: handleNodeDrain_def DrainNodeIfNeeded_def intro!: calls)
  have acts: "keepsInv I (GetActions memRebooter r node)" for node
    by (auto simp: GetActions_def Let_def intro!: calls undrain split: option.split)
  have reboot: "keepsInv I (handleNodeReboot memRebooter r node acts)" for node acts
    by (auto simp: handleNodeReboot_def intro!: calls)
  have err: "keepsInv I (handleDrainError r e)" for e by (simp add: handleDrainError_def keepsInv_basic)
  show ?thesis unfolding Reconcile_rebooter_def
    by (auto intro!: keepsInv_bindA keepsInv_tryA reads acts drain reboot err keepsInv_basic split: prod.split sum.split)
qed

text \<open>The rebooter touches no condition but those of the drain and of the reboot, and keeps the conditions well formed.\<close>

lemma Reconcile_rebooter_other:
  assumes "ty \<noteq> SlurmNodeDrain" "ty \<noteq> SlurmNodeReboot"
  shows "GetNodeConditions (rw_node (snd (Reconcile_rebooter memRebooter r w))) ty = GetNodeConditions (rw_node w) ty"
proof -
  have "keepsInv (\<lambda>v. GetNodeConditions (rw_node v) ty = GetNodeConditions (rw_node w) ty) (Reconcile_rebooter memRebooter r)"
    using assms by (intro Reconcile_rebooter_keepsInv)
      (auto simp: keepsInv_def memCalls Let_def setCondition_get, simp_all add: GetNodeConditions_def mutateTaint_keeps)
  then show ?thesis by (simp add: keepsInv_def)
qed

definition lifeOk :: "rebootWorld \<Rightarrow> bool" where
  "lifeOk w \<longleftrightarrow> condsOk (rw_now w) (rn_conditions (rw_node w))"

lemma Reconcile_rebooter_lifeOk: "keepsInv lifeOk (Reconcile_rebooter memRebooter r)"
  by (intro Reconcile_rebooter_keepsInv) (simp_all add: keepsInv_def lifeOk_def memCalls Let_def mutateTaint_keeps condsOk_setCondition)
section \<open>Steps of a node\<close>

definition checksRun :: "K8SNodesController \<Rightarrow> nodeWorld \<Rightarrow> nodeWorld" where
  "checksRun c w = snd (Reconcile_k8sNodes memChecks c (rn_name (rw_node (nw_life w))) w)"

definition rebooterRun :: "rebooter \<Rightarrow> nodeWorld \<Rightarrow> nodeWorld" where
  "rebooterRun r w = (if nw_exists w then w\<lparr>nw_life := snd (Reconcile_rebooter memRebooter r (nw_life w))\<rparr> else w)"

definition setFrom :: "string \<Rightarrow> string \<Rightarrow> string \<Rightarrow> string \<Rightarrow> nodeWorld \<Rightarrow> nodeWorld" where
  "setFrom ty st re msg w = snd (setNewCondition memChecks (rn_name (rw_node (nw_life w))) ty st re msg w)"

text \<open>
  What happens to the node, with the number of degradations so far. The degraded condition is set by the
  controller of Slurm nodes; other conditions may be set by anyone.
\<close>

inductive nodeStep :: "K8SNodesController \<Rightarrow> rebooter \<Rightarrow> nodeWorld \<times> nat \<Rightarrow> nodeWorld \<times> nat \<Rightarrow> bool" for c r where
  clock: "0 \<le> t \<Longrightarrow> nodeStep c r (w, n) (w\<lparr>nw_life := (nw_life w)\<lparr>rw_now := rw_now (nw_life w) + t\<rparr>\<rparr>, n)"
| pods: "nodeStep c r (w, n) (w\<lparr>nw_life := (nw_life w)\<lparr>rw_pods := ps\<rparr>\<rparr>, n)"
| degraded: "nodeStep c r (w, n) (setFrom SoperatorChecksK8SNodeDegraded ConditionTrue re msg w, n + 1)"
| other: "ty \<noteq> SlurmNodeReboot \<Longrightarrow> ty \<noteq> SoperatorChecksK8SNodeDegraded \<Longrightarrow> nodeStep c r (w, n) (setFrom ty st re msg w, n)"
| checks: "nodeStep c r (w, n) (checksRun c w, n)"
| reboots: "nodeStep c r (w, n) (rebooterRun r w, n)"

definition credit :: "nodeWorld \<Rightarrow> nat" where
  "credit w = (if askable w then 1 else 0)"

definition nodeInv :: "nodeWorld \<times> nat \<Rightarrow> bool" where
  "nodeInv = (\<lambda>(w, n). wfConds w \<and> credit w \<le> n \<and> lifeInv (nw_life w, n - credit w))"

lemma lifeInv_mono: "lifeInv (w, n) \<Longrightarrow> n \<le> m \<Longrightarrow> lifeInv (w, m)"
  by (auto simp: lifeInv_def)

lemma rebootCondition_condAt: "rebootCondition (nw_life w) = condAt SlurmNodeReboot w"
  by (simp add: rebootCondition_def condAt_def)

text \<open>A step keeps the invariant if it neither adds a credit nor breaks the invariant of the rebooter.\<close>

lemma nodeInvI:
  assumes "wfConds w'" "lifeInv (nw_life w', m)" "m + credit w' \<le> n"
  shows "nodeInv (w', n)"
  using assms lifeInv_mono [OF assms(2), of "n - credit w'"] by (simp add: nodeInv_def)

lemma lifeInv_view:
  assumes "nodeView w' = nodeView w" "lifeInv (nw_life w, n)"
  shows "lifeInv (nw_life w', n)"
proof -
  have "rebootCondition (nw_life w') = rebootCondition (nw_life w)" "rw_now (nw_life w') = rw_now (nw_life w)"
    "rw_boot (nw_life w') = rw_boot (nw_life w)" "rw_reboots (nw_life w') = rw_reboots (nw_life w)"
    using assms(1) by (simp_all add: nodeView_def rebootCondition_condAt)
  then show ?thesis using assms(2) by (cases "rebootCondition (nw_life w)") (simp_all add: lifeInv_def pending_def)
qed

lemma nodeInv_view: "nodeView w' = nodeView w \<Longrightarrow> wfConds w' \<Longrightarrow> nodeInv (w, n) \<Longrightarrow> nodeInv (w', n)"
  using nodeView_cong(1) [of w' w] lifeInv_view [of w' w] by (auto simp: nodeInv_def credit_def)

lemma pending_condAt:
  "pending (nw_life w) \<longleftrightarrow> (\<exists>c. condAt SlurmNodeReboot w = Some c \<and> checkIfNodeNeedsReboot c \<and> rw_boot (nw_life w) < nc_LastTransitionTime c)"
  by (simp add: pending_def rebootCondition_condAt split: option.split)

lemma lifeInv_condAt:
  assumes "wfConds w"
  shows "lifeInv (nw_life w, n) \<longleftrightarrow> rw_boot (nw_life w) \<le> rw_now (nw_life w) \<and> rw_reboots (nw_life w) + (if pending (nw_life w) then 1 else 0) \<le> n"
  using condAt_time [OF assms, of SlurmNodeReboot] by (auto simp: lifeInv_def rebootCondition_condAt split: option.split)

lemma nodeInv_asked:
  assumes inv: "nodeInv (w, n)" and wf: "wfConds w'" and a: "asked w w'"
  shows "nodeInv (w', n)"
proof -
  have v: "condAt SlurmNodeReboot w' = Some (conditionKept (condAt SlurmNodeReboot w)
          (conditionNow SlurmNodeReboot ConditionTrue ReasonNodeNeedReboot MessageSlurmNodeDegraded w))"
      "condAt SoperatorChecksK8SNodeDegraded w' = condAt SoperatorChecksK8SNodeDegraded w" "rw_now (nw_life w') = rw_now (nw_life w)"
      "rw_boot (nw_life w') = rw_boot (nw_life w)" "rw_reboots (nw_life w') = rw_reboots (nw_life w)"
    and false: "\<And>c. condAt SlurmNodeReboot w = Some c \<Longrightarrow> nc_Status c = ConditionFalse" and "askable w"
    using a by (simp_all add: asked_def nodeView_def)
  have time: "nc_LastTransitionTime (conditionKept (condAt SlurmNodeReboot w)
          (conditionNow SlurmNodeReboot ConditionTrue ReasonNodeNeedReboot MessageSlurmNodeDegraded w)) = rw_now (nw_life w)"
    using false by (auto simp: conditionKept_def ConditionTrue_def ConditionFalse_def split: option.split)
  have "\<not> askable w'"
    using condAt_time [OF wf, of SoperatorChecksK8SNodeDegraded] time v by (auto simp: askable_def condOr_def)
  moreover have "rw_reboots (nw_life w) + 1 \<le> n" "rw_boot (nw_life w) \<le> rw_now (nw_life w)"
    using inv \<open>askable w\<close> by (auto simp: nodeInv_def credit_def lifeInv_def)
  then have "lifeInv (nw_life w', n)" using v by (simp add: lifeInv_condAt [OF wf])
  ultimately show ?thesis using wf by (simp add: nodeInv_def credit_def)
qed

lemma nodeInv_finished:
  assumes inv: "nodeInv (w, n)" and wf: "wfConds w'" and f: "finished w w'"
  shows "nodeInv (w', n)"
proof -
  have v: "condAt SlurmNodeReboot w' = Some (takenBack SlurmNodeReboot w)"
      "condAt SoperatorChecksK8SNodeDegraded w' = Some (takenBack SoperatorChecksK8SNodeDegraded w)" "rw_now (nw_life w') = rw_now (nw_life w)"
      "rw_boot (nw_life w') = rw_boot (nw_life w)" "rw_reboots (nw_life w') = rw_reboots (nw_life w)"
    using f by (simp_all add: finished_def nodeView_def)
  have "\<not> askable w'" using v by (simp add: askable_def takenBack_def)
  moreover have "\<not> pending (nw_life w')" using v by (simp add: pending_condAt takenBack_def checkIfNodeNeedsReboot_def)
  moreover have "rw_reboots (nw_life w) \<le> n" "rw_boot (nw_life w) \<le> rw_now (nw_life w)"
    using inv by (auto simp: nodeInv_def lifeInv_def)
  ultimately show ?thesis using wf v by (simp add: nodeInv_def credit_def lifeInv_condAt [OF wf])
qed

lemma nodeInv_checks:
  assumes "nodeInv (w, n)"
  shows "nodeInv (checksRun c w, n)"
proof -
  obtain res w' where run: "Reconcile_k8sNodes memChecks c (rn_name (rw_node (nw_life w))) w = (res, w')" by fastforce
  have "wfConds w" using assms by (simp add: nodeInv_def)
  from mem_Reconcile_k8sNodes [OF this run] have "nodeInv (w', n)"
    using nodeInv_view nodeInv_asked nodeInv_finished assms by blast
  then show ?thesis using run by (simp add: checksRun_def)
qed

text \<open>The time of the reboot condition never goes back.\<close>

lemma rebooterRun_time:
  assumes wf: "wfConds w" and wf': "wfConds (rebooterRun r w)"
  shows "nc_LastTransitionTime (condOr SlurmNodeReboot w) \<le> nc_LastTransitionTime (condOr SlurmNodeReboot (rebooterRun r w))"
proof (cases "nw_exists w")
  case True
  obtain res v where run: "Reconcile_rebooter memRebooter r (nw_life w) = (res, v)" by fastforce
  let ?mark = "\<lambda>re msg. conditionSet (condAt SlurmNodeReboot w) (rebootMark re msg (rw_now (nw_life w)))"
  have le: "nc_LastTransitionTime (condOr SlurmNodeReboot w) \<le> nc_LastTransitionTime (?mark re msg)" if "condAt SlurmNodeReboot w = Some c" for re msg c
    using condAt_time [OF wf that] that by (auto simp: condOr_def conditionSet_def rebootMark_def)
  have at: "condAt SlurmNodeReboot (rebooterRun r w) = rebootCondition v" using True run by (simp add: rebooterRun_def condAt_def rebootCondition_def)
  from mem_Reconcile [OF run] show ?thesis
  proof (elim disjE)
    assume "lifeView v = lifeView (nw_life w)"
    then show ?thesis using at lifeView_eqD [of v "nw_life w"] by (simp add: condOr_def rebootCondition_condAt)
  next
    assume "markedDone (nw_life w) v"
    then obtain c where "condAt SlurmNodeReboot w = Some c" "rebootCondition v = Some (?mark ReasonNodeRebooted MessageRebooted)"
      by (auto simp: markedDone_def lifeView_def rebootCondition_condAt)
    then show ?thesis using le at by (simp add: condOr_def [of _ "rebooterRun r w"])
  next
    assume re: "rebooted (nw_life w) v"
    then obtain c where "condAt SlurmNodeReboot w = Some c" by (auto simp: rebooted_def pending_condAt)
    moreover have "rebootCondition v = Some (?mark ReasonNodeRebooting MessageRebooting)"
      using re by (simp add: rebooted_def lifeView_def rebootCondition_condAt)
    ultimately show ?thesis using le at by (simp add: condOr_def [of _ "rebooterRun r w"])
  qed
qed (simp add: rebooterRun_def)

lemma rebooterRun_degraded: "condAt SoperatorChecksK8SNodeDegraded (rebooterRun r w) = condAt SoperatorChecksK8SNodeDegraded w"
  by (simp add: rebooterRun_def condAt_def Reconcile_rebooter_other conditionTypes)

lemma rebooterRun_wf: "wfConds w \<Longrightarrow> wfConds (rebooterRun r w)"
  using Reconcile_rebooter_lifeOk [of r] by (simp add: rebooterRun_def wfConds_def conds_def lifeOk_def keepsInv_def)

lemma nodeInv_rebooter:
  assumes "nodeInv (w, n)"
  shows "nodeInv (rebooterRun r w, n)"
proof -
  have wf: "wfConds w" "wfConds (rebooterRun r w)" using assms rebooterRun_wf by (simp_all add: nodeInv_def)
  have "askable (rebooterRun r w) \<Longrightarrow> askable w"
    using rebooterRun_time [OF wf] by (auto simp: askable_def rebooterRun_degraded)
  then have "credit (rebooterRun r w) \<le> credit w" by (auto simp: credit_def)
  moreover have "lifeInv (nw_life (rebooterRun r w), n - credit w)"
    using assms lifeInv_Reconcile by (simp add: nodeInv_def rebooterRun_def)
  moreover have "credit w \<le> n" using assms by (simp add: nodeInv_def)
  ultimately show ?thesis using nodeInvI [OF wf(2)] by simp
qed

lemma setFrom_view: "ty \<noteq> SlurmNodeReboot \<Longrightarrow> ty \<noteq> SoperatorChecksK8SNodeDegraded \<Longrightarrow> nodeView (setFrom ty st re msg w) = nodeView w"
  using nodeView_setNewCondition by (simp add: setFrom_def keepsView_def)

lemma setFrom_wf: "wfConds w \<Longrightarrow> wfConds (setFrom ty st re msg w)"
  using wfConds_calls(1) by (simp add: setFrom_def keepsInv_def)

lemma nodeInv_degraded:
  assumes "nodeInv (w, n)"
  shows "nodeInv (setFrom SoperatorChecksK8SNodeDegraded ConditionTrue re msg w, n + 1)"
proof -
  let ?w = "setFrom SoperatorChecksK8SNodeDegraded ConditionTrue re msg w"
  have wf: "wfConds ?w" using assms setFrom_wf by (simp add: nodeInv_def)
  have "lifeView (nw_life ?w) = lifeView (nw_life w)"
    by (simp add: lifeView_def rebootCondition_condAt setFrom_def mem_setNewCondition condAt_k8sSet conditionTypes)
  note same = lifeView_eqD [OF this]
  then have "pending (nw_life ?w) = pending (nw_life w)" by (simp add: pending_def split: option.split)
  with same have "lifeInv (nw_life ?w, n)"
    using assms lifeInv_mono [of "nw_life w" "n - credit w" n] by (simp add: nodeInv_def lifeInv_def split: option.splits)
  then show ?thesis using nodeInvI [OF wf] by (simp add: credit_def)
qed

lemma nodeInv_step: "nodeStep c r s s' \<Longrightarrow> nodeInv s \<Longrightarrow> nodeInv s'"
proof (induction rule: nodeStep.induct)
  case (clock t w n)
  let ?w = "w\<lparr>nw_life := (nw_life w)\<lparr>rw_now := rw_now (nw_life w) + t\<rparr>\<rparr>"
  have "wfConds ?w" using clock by (auto simp: nodeInv_def wfConds_def condsOk_def conds_def list_all_iff)
  moreover have "credit ?w = credit w" by (simp add: credit_def askable_def condOr_def condAt_def)
  moreover have "lifeInv (nw_life ?w, n - credit w)"
    using clock by (auto simp: nodeInv_def lifeInv_def rebootCondition_def pending_def split: option.splits)
  ultimately show ?case using clock by (simp add: nodeInv_def)
next
  case (pods w n ps)
  have "nodeView (w\<lparr>nw_life := (nw_life w)\<lparr>rw_pods := ps\<rparr>\<rparr>) = nodeView w" by (simp add: nodeView_def condAt_def)
  moreover have "wfConds (w\<lparr>nw_life := (nw_life w)\<lparr>rw_pods := ps\<rparr>\<rparr>)" using pods by (simp add: nodeInv_def wfConds_def conds_def)
  ultimately show ?case using nodeInv_view pods by blast
next
  case (other ty w n st re msg)
  then have "wfConds (setFrom ty st re msg w)" using setFrom_wf by (simp add: nodeInv_def)
  then show ?case using nodeInv_view setFrom_view other by blast
qed (rule nodeInv_degraded nodeInv_checks nodeInv_rebooter, assumption)+

text \<open>
  C31: with the controller and the rebooter running in any order, a node is never rebooted more often than it
  was found degraded: no order of reconciliations asks for or carries out a second reboot for one degradation.
\<close>

theorem reboots_bounded_by_degradations:
  assumes "(nodeStep c r)\<^sup>*\<^sup>* (w0, 0) (w, n)" and "conds w0 = []" and "rw_reboots (nw_life w0) = 0"
    and "rw_boot (nw_life w0) \<le> rw_now (nw_life w0)"
  shows "rw_reboots (nw_life w) \<le> n"
proof -
  have init: "nodeInv (w0, 0)" using assms(2-4)
    by (simp add: nodeInv_def wfConds_def condsOk_def credit_def askable_def condAt_find lifeInv_def rebootCondition_condAt pending_def)
  have "(nodeStep c r)\<^sup>*\<^sup>* s s' \<Longrightarrow> nodeInv s \<Longrightarrow> nodeInv s'" for s s'
    by (induction rule: rtranclp_induct) (auto intro: nodeInv_step)
  from this [OF assms(1) init] have "rw_reboots (nw_life w) + (if pending (nw_life w) then 1 else 0) \<le> n - credit w"
    by (simp add: nodeInv_def lifeInv_def)
  then show ?thesis by (cases "pending (nw_life w)") simp_all
qed
section \<open>A node that stays cordoned\<close>

lemma rebooter_keeps_cordon:
  assumes "rn_unschedulable (rw_node w)" "rebootCondition w = Some c" "nc_Reason c = ReasonNodeRebooted"
  shows "rn_unschedulable (rw_node (snd (Reconcile_rebooter memRebooter r w)))"
proof -
  let ?I = "\<lambda>v. rn_unschedulable (rw_node v)"
  have set: "keepsInv ?I (setNodeCondition memRebooter r node ty st re msg)" for node ty st re msg
    by (simp add: keepsInv_def mem_setNodeCondition Let_def setCondition_unschedulable)
  have spec: "keepsInv ?I (SetNodeUnschedulable memRebooter node True)" "keepsInv ?I (TaintNodeWithNoExecute memRebooter node b)"
      "keepsInv ?I (AreAllPodsEvicted memRebooter node)" for node b
    by (simp_all add: keepsInv_def memCalls Let_def mutateTaint_keeps)
  have drain: "keepsInv ?I (handleNodeDrain memRebooter r node acts)" for node acts
    by (auto simp: handleNodeDrain_def DrainNodeIfNeeded_def intro!: keepsInv set spec)
  have no: "\<not> checkIfNodeNeedsReboot c" using assms(3) by (simp add: checkIfNodeNeedsReboot_def)
  have at: "GetNodeConditions (rw_node w) SlurmNodeReboot = Some c" using assms(2) by (simp add: rebootCondition_def)
  have "\<exists>acts n1 w1. GetActions memRebooter r (rw_node w) w = (Inr (acts, n1), w1) \<and> \<not> Reboot acts \<and> ?I w1"
    by (cases "rw_boot w < nc_LastTransitionTime c")
      (simp_all add: GetActions_def at no assms(1) bindA_def wrapA_def mem_uptime mem_setNodeCondition Let_def setCondition_unschedulable)
  then obtain acts n1 w1 where a: "GetActions memRebooter r (rw_node w) w = (Inr (acts, n1), w1)" "\<not> Reboot acts" "?I w1" by blast
  obtain res w2 where d: "handleNodeDrain memRebooter r n1 acts w1 = (res, w2)" by fastforce
  have got: "getNode_rebooter memRebooter r w = (Inr (rw_node w), w)" by (simp add: getNode_rebooter_def wrapA_def memRebooter_def)
  have "snd (Reconcile_rebooter memRebooter r w) = w2"
    unfolding Reconcile_rebooter_def bindA_Inr [where m = "getNode_rebooter memRebooter r", OF got]
      bindA_Inr [where m = "GetActions memRebooter r (rw_node w)", OF a(1)] prod.case
    using d a(2) by (cases res) (auto simp: tryA_def handleDrainError_def handleNodeReboot_def bindA_def)
  then show ?thesis using keepsInvD [OF drain d a(3)] by simp
qed

definition leftCordoned :: "nodeWorld \<Rightarrow> bool" where
  "leftCordoned w \<longleftrightarrow> rn_unschedulable (rw_node (nw_life w)) \<and> wfConds w \<and> \<not> askable w
     \<and> conditionThat (\<lambda>c. nc_Reason c = ReasonNodeRebooted) (condAt SlurmNodeReboot w)"

lemma leftCordoned_rebooter:
  assumes "leftCordoned w"
  shows "leftCordoned (rebooterRun r w)"
proof (cases "nw_exists w")
  case True
  obtain c where c: "condAt SlurmNodeReboot w = Some c" "nc_Reason c = ReasonNodeRebooted" using assms by (auto simp: leftCordoned_def conditionThat_iff)
  have wf: "wfConds w" "wfConds (rebooterRun r w)" using assms rebooterRun_wf by (simp_all add: leftCordoned_def)
  obtain res v where run: "Reconcile_rebooter memRebooter r (nw_life w) = (res, v)" by fastforce
  have "\<not> pending (nw_life w)" using c by (simp add: pending_condAt checkIfNodeNeedsReboot_def)
  then have "lifeView v = lifeView (nw_life w) \<or> markedDone (nw_life w) v" using mem_Reconcile [OF run] by (auto simp: rebooted_def)
  then have "\<exists>c'. rebootCondition v = Some c' \<and> nc_Reason c' = ReasonNodeRebooted"
    using c by (auto simp: markedDone_def lifeView_def rebootCondition_condAt rebootMark_def)
  then have "conditionThat (\<lambda>c. nc_Reason c = ReasonNodeRebooted) (condAt SlurmNodeReboot (rebooterRun r w))"
    using True run by (auto simp: rebooterRun_def condAt_def rebootCondition_def conditionThat_iff)
  moreover have "rn_unschedulable (rw_node (nw_life (rebooterRun r w)))"
    using rebooter_keeps_cordon [of "nw_life w" c r] assms c True by (simp add: rebooterRun_def leftCordoned_def rebootCondition_condAt)
  moreover have "\<not> askable (rebooterRun r w)"
    using assms rebooterRun_time [OF wf] by (auto simp: askable_def rebooterRun_degraded leftCordoned_def)
  ultimately show ?thesis using wf by (simp add: leftCordoned_def)
qed (use assms in \<open>simp add: rebooterRun_def\<close>)

text \<open>The controller writes conditions only.\<close>

lemma checks_spec:
  "keepsView (\<lambda>w. rn_unschedulable (rw_node (nw_life w))) (Reconcile_k8sNodes memChecks c name)"
proof -
  let ?v = "\<lambda>w. rn_unschedulable (rw_node (nw_life w))"
  have set: "keepsView ?v (setK8SNodeCondition memChecks name new)" for name new by (simp add: keepsView_def mem_setK8SNodeCondition)
  have calls: "keepsView ?v (newNodeCondition memChecks ty st re msg)" "keepsView ?v (deleteK8SNode memChecks node)"
      "keepsView ?v (kc_now memChecks)" "keepsView ?v (kc_getNode memChecks name)" for ty st re msg node name
    by (simp_all add: keepsView_def mem_newNodeCondition mem_deleteK8SNode memChecks_simps)
  have new: "keepsView ?v (setNewCondition memChecks name ty st re msg)" for name ty st re msg
    unfolding setNewCondition_def by (intro keepsView_bindA calls set)
  have "keepsView ?v (processDrainCondition memChecks c node)" "keepsView ?v (processRebootCondition memChecks node)"
      "keepsView ?v (processNotReadyCondition memChecks c node)" "keepsView ?v (requeueDurationForNotReady memChecks c node)" for node
    unfolding processDrainCondition_def processRebootCondition_def processNotReadyCondition_def requeueDurationForNotReady_def
      rebootedCondition_def setK8SNodeConditions_def Let_def
    by (auto intro!: keepsView new calls set)
  then show ?thesis unfolding Reconcile_k8sNodes_def
    by (intro keepsView_tryA calls) (auto intro!: keepsView split: sum.split)
qed

lemma leftCordoned_checks:
  assumes "leftCordoned w"
  shows "leftCordoned (checksRun c w)"
proof -
  obtain res w' where run: "Reconcile_k8sNodes memChecks c (rn_name (rw_node (nw_life w))) w = (res, w')" by fastforce
  have wf: "wfConds w" using assms by (simp add: leftCordoned_def)
  have w': "nodeView w' = nodeView w \<or> finished w w'" "wfConds w'"
    using mem_Reconcile_k8sNodes [OF wf run] assms by (auto simp: leftCordoned_def asked_def)
  have "\<not> askable w' \<and> conditionThat (\<lambda>c. nc_Reason c = ReasonNodeRebooted) (condAt SlurmNodeReboot w')"
    using w'(1)
  proof
    assume "nodeView w' = nodeView w"
    from nodeView_cong [OF this] show ?thesis using assms by (simp add: leftCordoned_def)
  next
    assume "finished w w'"
    then have "condAt SlurmNodeReboot w' = Some (takenBack SlurmNodeReboot w)"
      "condAt SoperatorChecksK8SNodeDegraded w' = Some (takenBack SoperatorChecksK8SNodeDegraded w)"
      by (simp_all add: finished_def nodeView_def)
    then show ?thesis by (simp add: askable_def takenBack_def conditionThat_iff)
  qed
  moreover have "rn_unschedulable (rw_node (nw_life w'))" using keepsViewD [OF checks_spec run] assms by (simp add: leftCordoned_def)
  ultimately show ?thesis using run w'(2) by (simp add: checksRun_def leftCordoned_def)
qed

lemma leftCordoned_step:
  assumes "nodeStep c r (w, n) (w', n)" "leftCordoned w"
  shows "leftCordoned w'"
  using assms(1)
proof (cases rule: nodeStep.cases)
  case (clock t)
  then have "wfConds w'" using assms(2) by (auto simp: leftCordoned_def wfConds_def condsOk_def conds_def list_all_iff)
  then show ?thesis using clock assms(2) by (simp add: leftCordoned_def askable_def condOr_def condAt_def)
next
  case (pods ps)
  then show ?thesis using assms(2) by (simp add: leftCordoned_def wfConds_def conds_def askable_def condOr_def condAt_def)
next
  case (other ty st re msg)
  then have "nodeView w' = nodeView w" "wfConds w'" using setFrom_view setFrom_wf assms(2) by (simp_all add: leftCordoned_def)
  moreover have "rn_unschedulable (rw_node (nw_life w')) = rn_unschedulable (rw_node (nw_life w))"
    using other by (simp add: setFrom_def mem_setNewCondition)
  ultimately show ?thesis using assms(2) nodeView_cong [of w' w] by (simp add: leftCordoned_def)
qed (use assms(2) in \<open>simp_all add: leftCordoned_checks leftCordoned_rebooter\<close>)

text \<open>
  C33: when the rebooter is the first to look at a node that comes back from a reboot with its drain condition
  still true, the node stays unschedulable through every later step of the rebooter, of the controller and of
  others, until it is found degraded again: the rebooter cordons it anew, and nobody lifts that when the controller has taken
  the conditions back.
\<close>

theorem rebooted_node_stays_cordoned:
  assumes "backFromReboot (nw_life w)" and "nw_exists w" and "wfConds w" and "\<not> askable w"
    and "(\<lambda>a b. nodeStep c r (a, n) (b, n))\<^sup>*\<^sup>* (rebooterRun r w) w2"
  shows "rn_unschedulable (rw_node (nw_life w2))"
proof -
  have "leftDrained (nw_life (rebooterRun r w))" using Reconcile_leftDrained [OF assms(1)] assms(2) by (simp add: rebooterRun_def)
  moreover have wf: "wfConds (rebooterRun r w)" using rebooterRun_wf assms(3) by simp
  moreover have "\<not> askable (rebooterRun r w)"
    using assms(4) rebooterRun_time [OF assms(3) wf] by (auto simp: askable_def rebooterRun_degraded)
  ultimately have "leftCordoned (rebooterRun r w)"
    by (simp add: leftCordoned_def leftDrained_def drainedNode_def rebootCondition_condAt)
  with assms(5) have "leftCordoned w2" by (induction rule: rtranclp_induct) (auto intro: leftCordoned_step)
  then show ?thesis by (simp add: leftCordoned_def)
qed
section \<open>Back into service\<close>

text \<open>Nothing but the reboot keeps the node: no maintenance, no hardware issue, no ignored label, and it is ready if that matters.\<close>

definition otherwiseFine :: "K8SNodesController \<Rightarrow> nodeWorld \<Rightarrow> bool" where
  "otherwiseFine c w \<longleftrightarrow> nw_exists w \<and> wfConds w \<and> \<not> ShouldIgnoreNode (kn_nodeLabelMatcher c) (nw_labels w)
     \<and> IsConditionFalseOrEmpty (condOr SoperatorChecksK8SNodeMaintenance w) \<and> \<not> IsConditionTrue (condOr HardwareIssuesSuspected w)
     \<and> (kn_DeleteNotReadyNodes c \<longrightarrow> nc_Status (condOr NodeReady w) = ConditionTrue)"

definition condThat :: "string \<Rightarrow> string \<Rightarrow> string \<Rightarrow> nodeWorld \<Rightarrow> bool" where
  "condThat ty st re w \<longleftrightarrow> conditionThat (\<lambda>c. nc_Status c = st \<and> nc_Reason c = re) (condAt ty w)"

definition rebootDone :: "nodeWorld \<Rightarrow> bool" where
  "rebootDone w \<longleftrightarrow> condThat SlurmNodeDrain ConditionTrue ReasonNodeDrained w \<and> condThat SlurmNodeReboot ConditionTrue ReasonNodeRebooting w
     \<and> nc_LastTransitionTime (condOr SlurmNodeReboot w) \<le> rw_boot (nw_life w)"

lemma condThat_condOr: "condThat ty st re w \<Longrightarrow> nc_Status (condOr ty w) = st \<and> nc_Reason (condOr ty w) = re"
  by (auto simp: condThat_def conditionThat_iff condOr_def)

lemma restOfReconcile_ready:
  assumes "otherwiseFine c w"
  shows "restOfReconcile c (nodeObj w) v = (Inr 0, v)"
proof -
  have "firstCond NodeReady (nodeConds (nodeObj w)) = condOr NodeReady w"
    by (simp add: firstCond_def condOr_def condAt_find nodeConds_def nodeObj_def conds_def)
  then show ?thesis using assms
    by (auto simp: restOfReconcile_def otherwiseFine_def processNotReadyCondition_def requeueDurationForNotReady_def bindA_def wrapA_def)
qed

lemma otherwiseFine_cong:
  assumes "otherwiseFine c w" "nw_exists w'" "wfConds w'" "nw_labels w' = nw_labels w"
    "\<And>ty. ty \<noteq> SlurmNodeDrain \<Longrightarrow> ty \<noteq> SlurmNodeReboot \<Longrightarrow> condAt ty w' = condAt ty w"
  shows "otherwiseFine c w'"
  using assms by (simp add: otherwiseFine_def condOr_def conditionTypes NodeReady_def)

lemma checks_first:
  assumes "otherwiseFine c w" "rebootDone w"
  shows "checksRun c w = putConds (k8sSet (conds w) (conditionNow SlurmNodeDrain ConditionFalse ReasonNodeRebooted MessageNodeIsRebooted w)) w"
proof -
  let ?w1 = "putConds (k8sSet (conds w) (conditionNow SlurmNodeDrain ConditionFalse ReasonNodeRebooted MessageNodeIsRebooted w)) w"
  have wf: "wfConds w" "nw_exists w" using assms(1) by (simp_all add: otherwiseFine_def)
  have st: "nc_Status (condOr SlurmNodeDrain w) = ConditionTrue" "nc_Reason (condOr SlurmNodeDrain w) = ReasonNodeDrained"
      "nc_Status (condOr SlurmNodeReboot w) = ConditionTrue" "nc_Reason (condOr SlurmNodeReboot w) = ReasonNodeRebooting"
    using assms(2) condThat_condOr by (auto simp: rebootDone_def)
  have busy: "\<not> IsConditionFalseOrEmpty (condOr SlurmNodeDrain w)" "\<not> IsConditionFalseOrEmpty (condOr SlurmNodeReboot w)"
    using st by (auto simp: IsConditionFalseOrEmpty_def emptyCondition_def ConditionTrue_def ConditionFalse_def)
  have calm: "nc_Status (condOr SoperatorChecksK8SNodeMaintenance w) \<noteq> ConditionTrue"
    using assms(1) by (auto simp: otherwiseFine_def IsConditionFalseOrEmpty_def emptyCondition_def ConditionTrue_def ConditionFalse_def)
  have d: "processDrainCondition memChecks c (nodeObj w) w = (Inr (), ?w1)"
    using assms(1) wf st busy calm
    by (simp add: processDrainCondition_def lastCond_condOr mem_setNewCondition otherwiseFine_def) (simp add: nodeObj_def)
  have b: "processRebootCondition memChecks (nodeObj w) ?w1 = (Inr (), ?w1)"
    using busy st(4) by (simp add: processRebootCondition_def lastCond_condOr [OF wf(1)] ReasonNodeRebooting_def ReasonNodeRebooted_def)
  show ?thesis using mem_Reconcile_parts [OF wf(2) d b] restOfReconcile_ready [OF assms(1)] by (simp add: checksRun_def)
qed

lemma filter_length_all: "length (filter P xs) = length xs \<Longrightarrow> x \<in> set xs \<Longrightarrow> P x"
  using length_filter_less [of x xs P] by auto

lemma setCondition_taints: "rn_taints (fst (snd (setCondition n new))) = rn_taints n"
  by (auto simp: setCondition_def Let_def split: option.split)

definition rebooterTaint :: "taint \<Rightarrow> bool" where
  "rebooterTaint t \<longleftrightarrow> t_Key t = noExecuteKey \<and> t_Effect t = TaintEffectNoExecute"

lemma mutateTaint_removes: "t \<in> set (rn_taints (snd (mutateTaint False n))) \<Longrightarrow> \<not> rebooterTaint t"
  by (auto simp: mutateTaint_def Let_def rebooterTaint_def split: if_splits dest: filter_length_all)

text \<open>The clean-up of the rebooter, when the drain condition was taken back before.\<close>

lemma mem_cleanUp:
  assumes "rebootCondition w = Some c" "checkIfNodeNeedsReboot c" "nc_LastTransitionTime c \<le> rw_boot w"
    and "conditionThat (\<lambda>d. nc_Status d = ConditionFalse) (GetNodeConditions (rw_node w) SlurmNodeDrain)"
  shows "\<exists>n. snd (Reconcile_rebooter memRebooter r w) = w\<lparr>rw_node := n\<rparr> \<and> \<not> rn_unschedulable n
    \<and> (\<forall>t. t \<in> set (rn_taints n) \<longrightarrow> \<not> rebooterTaint t)
    \<and> conditionThat (\<lambda>d. nc_Status d = ConditionFalse) (GetNodeConditions n SlurmNodeDrain)
    \<and> conditionThat (\<lambda>b. nc_Status b = ConditionTrue \<and> nc_Reason b = ReasonNodeRebooted) (GetNodeConditions n SlurmNodeReboot)"
proof -
  obtain d where d: "GetNodeConditions (rw_node w) SlurmNodeDrain = Some d" "nc_Status d = ConditionFalse"
    using assms(4) by (auto simp: conditionThat_iff)
  have at: "GetNodeConditions (rw_node w) SlurmNodeReboot = Some c" using assms(1) by (simp add: rebootCondition_def)
  let ?n0 = "(rw_node w)\<lparr>rn_unschedulable := False\<rparr>" and ?time = "rw_now w"
  let ?n1 = "snd (mutateTaint False ?n0)"
  let ?n2 = "fst (snd (setCondition ?n1 \<lparr>nc_Type = SlurmNodeDrain, nc_Status = ConditionFalse, nc_Reason = ReasonNodeUndrained, nc_Message = MessageUndrained, nc_LastTransitionTime = ?time\<rparr>))"
  let ?n3 = "fst (snd (setCondition ?n2 (rebootMark ReasonNodeRebooted MessageRebooted ?time)))"
  have same: "w\<lparr>rw_node := ?n0\<rparr> = w" "?n0 = rw_node w" if "\<not> rn_unschedulable (rw_node w)"
    using that by (cases w; cases "rw_node w"; simp)+
  have undrain: "handleNodeUnDrain memRebooter r (rw_node w) w = (Inr ?n2, w\<lparr>rw_node := ?n2\<rparr>)"
    by (cases "rn_unschedulable (rw_node w)")
      (simp_all add: same handleNodeUnDrain_def UndrainNodeIfNeeded_def IsNodeUnschedulabled_def bindA_def wrapA_def
        mem_SetNodeUnschedulable mem_TaintNodeWithNoExecute mem_setNodeCondition Let_def)
  have drain: "\<not> checkIfNodeNeedsDrain d" using d(2) by (simp add: checkIfNodeNeedsDrain_def CheckNodeCondition_def ConditionTrue_def ConditionFalse_def)
  have late: "\<not> rw_boot w < nc_LastTransitionTime c" using assms(3) by simp
  have acts: "GetActions memRebooter r (rw_node w) w = (Inr (\<lparr>Reboot = False, Drain = False\<rparr>, ?n3), w\<lparr>rw_node := ?n3\<rparr>)"
    unfolding GetActions_def Let_def at option.case bindA_Inr [where m = "IsUptimeGreaterThanLastTransition memRebooter t" for t, OF mem_uptime]
    using d(1) drain assms(2) late by (simp add: bindA_def undrain wrapA_def) (simp add: mem_setNodeCondition rebootMark_def Let_def)
  have got: "getNode_rebooter memRebooter r w = (Inr (rw_node w), w)" by (simp add: getNode_rebooter_def wrapA_def memRebooter_def)
  have "snd (Reconcile_rebooter memRebooter r w) = w\<lparr>rw_node := ?n3\<rparr>"
    unfolding Reconcile_rebooter_def bindA_Inr [where m = "getNode_rebooter memRebooter r", OF got]
      bindA_Inr [where m = "GetActions memRebooter r (rw_node w)", OF acts] prod.case
    by (simp add: tryA_def handleNodeDrain_def handleNodeReboot_def bindA_def)
  moreover have "\<not> rn_unschedulable ?n3" by (simp add: setCondition_unschedulable mutateTaint_keeps)
  moreover have "\<forall>t. t \<in> set (rn_taints ?n3) \<longrightarrow> \<not> rebooterTaint t" using mutateTaint_removes by (simp add: setCondition_taints)
  moreover have "conditionThat (\<lambda>d. nc_Status d = ConditionFalse) (GetNodeConditions ?n3 SlurmNodeDrain)"
    by (simp add: setCondition_get rebootMark_def conditionThat_iff conditionTypes)
  moreover have "conditionThat (\<lambda>b. nc_Status b = ConditionTrue \<and> nc_Reason b = ReasonNodeRebooted) (GetNodeConditions ?n3 SlurmNodeReboot)"
    by (simp add: setCondition_get(2) [of ?n2] rebootMark_def conditionThat_iff)
  ultimately show ?thesis by blast
qed

lemma checks_last:
  assumes fine: "otherwiseFine c w" and drain: "conditionThat (\<lambda>d. nc_Status d = ConditionFalse) (condAt SlurmNodeDrain w)"
    and rebooted: "condThat SlurmNodeReboot ConditionTrue ReasonNodeRebooted w"
  shows "\<exists>w'. checksRun c w = w' \<and> finished w w' \<and> condAt SlurmNodeDrain w' = Some (takenBack SlurmNodeDrain w)
    \<and> rw_node (nw_life w') = (rw_node (nw_life w))\<lparr>rn_conditions := conds w'\<rparr>"
proof -
  have wf: "wfConds w" "nw_exists w" using fine by (simp_all add: otherwiseFine_def)
  have "IsConditionFalseOrEmpty (condOr SlurmNodeDrain w)" using drain by (auto simp: IsConditionFalseOrEmpty_def condOr_def conditionThat_iff)
  then have d: "processDrainCondition memChecks c (nodeObj w) w = (Inr (), w)"
    using fine wf by (simp add: processDrainCondition_def lastCond_condOr otherwiseFine_def)
  have st: "nc_Status (condOr SlurmNodeReboot w) = ConditionTrue" "nc_Reason (condOr SlurmNodeReboot w) = ReasonNodeRebooted"
    using rebooted condThat_condOr by auto
  then have "\<not> IsConditionFalseOrEmpty (condOr SlurmNodeReboot w)"
    by (auto simp: IsConditionFalseOrEmpty_def emptyCondition_def ConditionTrue_def ConditionFalse_def)
  then have b: "processRebootCondition memChecks (nodeObj w) w = bindA (rebootedCondition memChecks SlurmNodeReboot) (\<lambda>reboot.
        bindA (rebootedCondition memChecks SlurmNodeDrain) (\<lambda>drain.
        bindA (rebootedCondition memChecks SoperatorChecksK8SNodeDegraded) (\<lambda>degraded.
          setK8SNodeConditions memChecks (nodeName_of (nodeObj w)) [reboot, drain, degraded]))) w"
    using st(2) by (simp add: processRebootCondition_def lastCond_condOr [OF wf(1)])
  obtain w' where w': "processRebootCondition memChecks (nodeObj w) w = (Inr (), w')" "finished w w'"
      "condAt SlurmNodeDrain w' = Some (takenBack SlurmNodeDrain w)" "rw_node (nw_life w') = (rw_node (nw_life w))\<lparr>rn_conditions := conds w'\<rparr>"
    using mem_takeBack [OF wf(2)] unfolding b by blast
  then show ?thesis using mem_Reconcile_parts [OF wf(2) d w'(1)] restOfReconcile_ready [OF fine] by (simp add: checksRun_def)
qed

section \<open>A node at work\<close>

definition freshWorld :: nodeWorld where
  "freshWorld = \<lparr>nw_life = \<lparr>rw_node = \<lparr>rn_name = ''n1'', rn_unschedulable = False, rn_taints = [], rn_conditions = []\<rparr>,
     rw_pods = [], rw_now = 5, rw_boot = 1, rw_reboots = 0\<rparr>, nw_labels = [(''zone'', ''a'')], nw_created = 1, nw_exists = True\<rparr>"

definition degradedWorld :: nodeWorld where
  "degradedWorld = setFrom SoperatorChecksK8SNodeDegraded ConditionTrue ''KillTaskFailed'' [] freshWorld"

definition keepNotReady :: K8SNodesController where
  "keepNotReady = NewK8SNodesController 600 False [] []"

definition rebootedWorld :: nodeWorld where
  "rebootedWorld = rebooterRun exampleRebooter (checksRun keepNotReady degradedWorld)"

definition cordonedWorld :: nodeWorld where
  "cordonedWorld = checksRun keepNotReady (rebooterRun exampleRebooter rebootedWorld)"

lemma askable_that:
  "askable w \<longleftrightarrow> conditionThat (\<lambda>d. nc_Status d \<noteq> ConditionFalse \<and> nc_LastTransitionTime (condOr SlurmNodeReboot w) < nc_LastTransitionTime d)
     (condAt SoperatorChecksK8SNodeDegraded w)"
  by (auto simp: askable_def conditionThat_iff)

lemma rebootedWorld_facts:
  "rw_reboots (nw_life rebootedWorld) = 1" "backFromReboot (nw_life rebootedWorld)" "nw_exists rebootedWorld"
  "rebootDone rebootedWorld" "otherwiseFine keepNotReady rebootedWorld" "\<not> askable rebootedWorld"
  unfolding askable_that by code_simp+

lemma cordonedWorld_conditions:
  "list_all (\<lambda>ty. condThat ty ConditionFalse ReasonNodeRebooted cordonedWorld) [SlurmNodeDrain, SlurmNodeReboot, SoperatorChecksK8SNodeDegraded]"
  by code_simp

text \<open>One degradation, one reboot: the bound is reached.\<close>

theorem reboots_bounded_by_degradations_witness:
  "rw_reboots (nw_life rebootedWorld) = 1 \<and> (nodeStep keepNotReady exampleRebooter)\<^sup>*\<^sup>* (freshWorld, 0) (rebootedWorld, 1) \<and> rw_reboots (nw_life rebootedWorld) \<le> 1"
proof -
  let ?step = "nodeStep keepNotReady exampleRebooter"
  have "?step (freshWorld, 0) (degradedWorld, 1)" unfolding degradedWorld_def using nodeStep.degraded [of keepNotReady exampleRebooter freshWorld 0] by simp
  moreover have "?step (degradedWorld, 1) (checksRun keepNotReady degradedWorld, 1)" by (rule nodeStep.checks)
  moreover have "?step (checksRun keepNotReady degradedWorld, 1) (rebootedWorld, 1)" unfolding rebootedWorld_def by (rule nodeStep.reboots)
  ultimately have run: "?step\<^sup>*\<^sup>* (freshWorld, 0) (rebootedWorld, 1)" by (meson converse_rtranclp_into_rtranclp r_into_rtranclp)
  have "conds freshWorld = []" "rw_reboots (nw_life freshWorld) = 0" "rw_boot (nw_life freshWorld) \<le> rw_now (nw_life freshWorld)"
    by (simp_all add: freshWorld_def conds_def)
  from reboots_bounded_by_degradations [OF run this] have "rw_reboots (nw_life rebootedWorld) \<le> 1" .
  then show ?thesis using run rebootedWorld_facts(1) by blast
qed

text \<open>All its conditions say that the node is fine, and it takes no pods.\<close>

theorem rebooted_node_stays_cordoned_witness:
  "rn_unschedulable (rw_node (nw_life cordonedWorld))
    \<and> list_all (\<lambda>ty. condThat ty ConditionFalse ReasonNodeRebooted cordonedWorld) [SlurmNodeDrain, SlurmNodeReboot, SoperatorChecksK8SNodeDegraded]"
proof -
  have wf: "wfConds rebootedWorld" using rebootedWorld_facts(5) by (simp add: otherwiseFine_def)
  have "(\<lambda>a b. nodeStep keepNotReady exampleRebooter (a, 0) (b, 0))\<^sup>*\<^sup>* (rebooterRun exampleRebooter rebootedWorld) cordonedWorld"
    unfolding cordonedWorld_def by (rule r_into_rtranclp) (rule nodeStep.checks)
  from rebooted_node_stays_cordoned [OF rebootedWorld_facts(2,3) wf rebootedWorld_facts(6) this] show ?thesis
    using cordonedWorld_conditions by blast
qed


end
