(* ===== verification/Health_Reason.thy ===== *)
theory Health_Reason
  imports Go_Action
begin

text \<open>
  The reasons of failed health checks, parseHealthCheckReason and its helpers in
  internal/controller/soperatorchecks/slurm\_nodes\_controller.go: the reason of a drained Slurm node is split into a
  reason in the format of Kubernetes conditions and a message. Strings are byte sequences. The words that cleanWord
  and removeLeadingNumbers work on are pieces between matches of a regular expression for everything but ASCII
  letters and digits, so the classes of package unicode are those of ASCII here.
\<close>

section \<open>Character classes\<close>

definition isUpperChar :: "char \<Rightarrow> bool" where
  "isUpperChar c \<longleftrightarrow> 65 \<le> (of_char c :: nat) \<and> (of_char c :: nat) \<le> 90"

definition isLowerChar :: "char \<Rightarrow> bool" where
  "isLowerChar c \<longleftrightarrow> 97 \<le> (of_char c :: nat) \<and> (of_char c :: nat) \<le> 122"

definition IsLetter :: "char \<Rightarrow> bool" where
  "IsLetter c \<longleftrightarrow> isUpperChar c \<or> isLowerChar c"

definition isAlnum :: "char \<Rightarrow> bool" where
  "isAlnum c \<longleftrightarrow> IsLetter c \<or> isDigitChar c"

definition lowerChar :: "char \<Rightarrow> char" where
  "lowerChar c = (if isUpperChar c then char_of (of_char c + 32 :: nat) else c)"

definition upperChar :: "char \<Rightarrow> char" where
  "upperChar c = (if isLowerChar c then char_of (of_char c - 32 :: nat) else c)"

text \<open>strings.SplitN with limit 2 on a separator of any length: the parts before and after its first occurrence.\<close>

fun strCut :: "string \<Rightarrow> string \<Rightarrow> (string \<times> string) option" where
  "strCut sep [] = (if sep = [] then Some ([], []) else None)"
| "strCut sep (c # s) =
     (if hasPrefix (c # s) sep then Some ([], drop (length sep) (c # s))
      else map_option (\<lambda>(a, b). (c # a, b)) (strCut sep s))"

text \<open>Regexp.Split on a non-empty run of characters of a class.\<close>

function splitRuns :: "(char \<Rightarrow> bool) \<Rightarrow> string \<Rightarrow> string list" where
  "splitRuns P s =
     (let r = dropWhile (\<lambda>c. \<not> P c) s in
      takeWhile (\<lambda>c. \<not> P c) s # (if r = [] then [] else splitRuns P (dropWhile P r)))"
  by pat_completeness auto
termination
proof (relation "measure (\<lambda>(P, s). length s)")
  fix P :: "char \<Rightarrow> bool" and s :: string and r assume r: "r = dropWhile (\<lambda>c. \<not> P c) s" "r \<noteq> []"
  then have "P (hd r)" using hd_dropWhile by blast
  then have "length (dropWhile P r) < length r" using r(2) by (cases r) (simp_all add: length_dropWhile_le le_imp_less_Suc)
  moreover have "length r \<le> length s" using r(1) by (simp add: length_dropWhile_le)
  ultimately show "((P, dropWhile P r), (P, s)) \<in> measure (\<lambda>(P, s). length s)" by simp
qed simp

declare splitRuns.simps [simp del]

section \<open>The reason\<close>

definition MaxReasonLength :: nat where "MaxReasonLength = 1024"
definition MaxMessageLength :: nat where "MaxMessageLength = 32768"

definition reasonRegex :: "string \<Rightarrow> bool" where
  "reasonRegex s = (case s of
     [] \<Rightarrow> False
   | c # cs \<Rightarrow> IsLetter c
       \<and> (cs = [] \<or> list_all (\<lambda>d. isAlnum d \<or> d \<in> set ''_,:'') (butlast cs) \<and> (isAlnum (last cs) \<or> last cs = CHR ''_'')))"

definition cleanWord :: "string \<Rightarrow> string" where
  "cleanWord word = filter (\<lambda>r. IsLetter r \<or> isDigitChar r) word"

fun removeLeadingNumbers :: "string \<Rightarrow> string" where
  "removeLeadingNumbers [] = []"
| "removeLeadingNumbers (r # word) = (if \<not> isDigitChar r then r # word else removeLeadingNumbers word)"

text \<open>The loop over the words, with the flag for the first one that is written.\<close>

fun camelWords :: "bool \<Rightarrow> string list \<Rightarrow> string" where
  "camelWords firstWord [] = []"
| "camelWords firstWord (word # words) =
     (if word = [] then camelWords firstWord words
      else if cleanWord word = [] then camelWords firstWord words
      else case removeLeadingNumbers (cleanWord word) of
        [] \<Rightarrow> camelWords firstWord words
      | c # cs \<Rightarrow> (if firstWord then map lowerChar (c # cs) else upperChar c # map lowerChar cs) @ camelWords False words)"

definition toCamelCase :: "string \<Rightarrow> string" where
  "toCamelCase input =
     (if input = [] then []
      else let input = trimSpace input in
        if input = [] then []
        else if list_all isAlnum input \<and> IsLetter (hd input) then lowerChar (hd input) # tl input
        else let finalResult = camelWords True (splitRuns (\<lambda>c. \<not> isAlnum c) input) in
          if finalResult = [] then []
          else if \<not> IsLetter (hd finalResult) then []
          else finalResult)"

definition parseHealthCheckReason :: "string \<Rightarrow> goError + (string \<times> string)" where
  "parseHealthCheckReason healthCheckReason = (case strCut '': '' healthCheckReason of
     None \<Rightarrow> Inl (Errorf ''invalid healthCheckReason format'' [])
   | Some (part, message) \<Rightarrow>
       let rawReason = trimPrefix part ''[node_problem] '';
           reason = toCamelCase rawReason;
           reason = (if length reason > MaxReasonLength then take MaxReasonLength reason else reason)
       in if \<not> reasonRegex reason then Inl (Errorf ''reason does not match required format'' [])
          else Inr (reason, if length message > MaxMessageLength then take MaxMessageLength message else message))"

section \<open>Lemmas\<close>

lemma IsLetter_lowerChar [simp]: "IsLetter (lowerChar c) \<longleftrightarrow> IsLetter c"
  by (auto simp: IsLetter_def lowerChar_def isUpperChar_def isLowerChar_def)

lemma IsLetter_upperChar [simp]: "IsLetter (upperChar c) \<longleftrightarrow> IsLetter c"
  by (auto simp: IsLetter_def upperChar_def isUpperChar_def isLowerChar_def)

lemma isAlnum_case [simp]: "isAlnum (lowerChar c) \<longleftrightarrow> isAlnum c" "isAlnum (upperChar c) \<longleftrightarrow> isAlnum c"
  using IsLetter_lowerChar [of c] IsLetter_upperChar [of c]
  by (auto simp: isAlnum_def lowerChar_def upperChar_def IsLetter_def isUpperChar_def isLowerChar_def isDigitChar_def)

lemma IsLetter_not_digit: "IsLetter c \<Longrightarrow> \<not> isDigitChar c"
  by (auto simp: IsLetter_def isUpperChar_def isLowerChar_def isDigitChar_def)

lemma IsLetter_alnum: "IsLetter c \<Longrightarrow> isAlnum c"
  by (simp add: isAlnum_def)

lemma removeLeadingNumbers_dropWhile: "removeLeadingNumbers w = dropWhile isDigitChar w"
  by (induction w) auto

text \<open>What a word contributes starts with a letter; a word contributes iff it has one.\<close>

lemma word_rest:
  "removeLeadingNumbers (cleanWord w) = c # cs \<Longrightarrow> IsLetter c \<and> list_all isAlnum cs"
  "removeLeadingNumbers (cleanWord w) = [] \<longleftrightarrow> \<not> list_ex IsLetter w"
proof -
  have alnum: "list_all isAlnum (cleanWord w)" by (auto simp: cleanWord_def isAlnum_def list_all_iff)
  show "removeLeadingNumbers (cleanWord w) = c # cs \<Longrightarrow> IsLetter c \<and> list_all isAlnum cs"
    using alnum hd_dropWhile [of isDigitChar "cleanWord w"] set_dropWhileD [of _ isDigitChar "cleanWord w"]
    by (auto simp: removeLeadingNumbers_dropWhile list_all_iff isAlnum_def)
  show "removeLeadingNumbers (cleanWord w) = [] \<longleftrightarrow> \<not> list_ex IsLetter w"
    using alnum IsLetter_not_digit
    by (auto simp: removeLeadingNumbers_dropWhile dropWhile_eq_Nil_conv cleanWord_def list_ex_iff list_all_iff isAlnum_def)
qed

lemma cleanWord_letter: "list_ex IsLetter w \<Longrightarrow> w \<noteq> [] \<and> cleanWord w \<noteq> []"
  by (auto simp: cleanWord_def list_ex_iff filter_empty_conv)

lemma camelWords_step:
  "camelWords f (w # ws) = (case removeLeadingNumbers (cleanWord w) of
     [] \<Rightarrow> camelWords f ws | c # cs \<Rightarrow> (if f then map lowerChar (c # cs) else upperChar c # map lowerChar cs) @ camelWords False ws)"
  by (auto simp: cleanWord_def)

lemma camelWords_alnum: "list_all isAlnum (camelWords f ws)"
proof (induction ws arbitrary: f)
  case (Cons w ws)
  then show ?case unfolding camelWords_step
    using word_rest(1) [of w] IsLetter_alnum by (auto simp: list_all_iff split: list.split)
qed simp

lemma camelWords_Nil: "camelWords f ws = [] \<longleftrightarrow> \<not> list_ex (list_ex IsLetter) ws"
proof (induction ws arbitrary: f)
  case (Cons w ws)
  then show ?case unfolding camelWords_step using word_rest(2) [of w] by (auto split: list.split)
qed simp

lemma camelWords_hd: "camelWords f ws \<noteq> [] \<Longrightarrow> IsLetter (hd (camelWords f ws))"
proof (induction ws arbitrary: f)
  case (Cons w ws)
  then show ?case unfolding camelWords_step using word_rest(1) [of w] by (auto split: list.split list.split_asm)
qed simp

text \<open>The words have the letters of the input.\<close>

lemma splitRuns_letters: "list_ex (list_ex IsLetter) (splitRuns (\<lambda>c. \<not> isAlnum c) s) \<longleftrightarrow> list_ex IsLetter s"
proof (induction "\<lambda>c. \<not> isAlnum c" s rule: splitRuns.induct)
  case (1 s)
  let ?P = "\<lambda>c. \<not> isAlnum c"
  let ?w = "takeWhile (\<lambda>c. \<not> ?P c) s" and ?r = "dropWhile (\<lambda>c. \<not> ?P c) s"
  have s: "list_ex IsLetter s \<longleftrightarrow> list_ex IsLetter ?w \<or> list_ex IsLetter ?r"
    by (metis list_ex_append takeWhile_dropWhile_id)
  have "\<not> list_ex IsLetter (takeWhile ?P ?r)" using IsLetter_alnum by (auto simp: list_ex_iff dest: set_takeWhileD)
  then have r: "list_ex IsLetter ?r \<longleftrightarrow> list_ex IsLetter (dropWhile ?P ?r)"
    by (metis list_ex_append takeWhile_dropWhile_id)
  show ?case
  proof (cases "?r = []")
    case True
    have "\<not> list_ex IsLetter ?r" unfolding True by simp
    then show ?thesis using s True by (subst splitRuns.simps) simp
  next
    case False
    then show ?thesis using s r "1" [OF refl False] by (subst splitRuns.simps) (simp add: Let_def del: dropWhile_eq_Nil_conv)
  qed
qed

text \<open>TrimSpace takes away bytes of white space only.\<close>

lemma dropSeqs_prefix: "\<exists>a. s = a @ dropSeqs seqs s \<and> set a \<subseteq> \<Union> (set ` set seqs)"
proof (induction seqs s rule: dropSeqs.induct)
  case (1 seqs s)
  show ?case
  proof (cases "find (\<lambda>p. p \<noteq> [] \<and> hasPrefix s p) seqs")
    case None
    then show ?thesis by (simp add: dropSeqs.simps [of seqs s])
  next
    case (Some p)
    then have p: "p \<in> set seqs" "p \<noteq> []" "take (length p) s = p" by (auto simp: find_Some_iff hasPrefix_def)
    then have "s \<noteq> []" by auto
    with "1" [OF Some] obtain a where "drop (length p) s = a @ dropSeqs seqs (drop (length p) s)" "set a \<subseteq> \<Union> (set ` set seqs)" by blast
    moreover have "s = p @ drop (length p) s" using p(3) by (metis append_take_drop_id)
    ultimately have "s = (p @ a) @ dropSeqs seqs (drop (length p) s)" "set (p @ a) \<subseteq> \<Union> (set ` set seqs)" using p(1) by auto
    moreover have "dropSeqs seqs s = dropSeqs seqs (drop (length p) s)" using Some \<open>s \<noteq> []\<close> by (simp add: dropSeqs.simps [of seqs s])
    ultimately show ?thesis by metis
  qed
qed

lemma space_not_letter: "c \<in> \<Union> (set ` set spaceSeqs) \<Longrightarrow> \<not> IsLetter c"
  by (auto simp: spaceSeqs_def IsLetter_def isUpperChar_def isLowerChar_def)

lemma trimSpace_letters: "list_ex IsLetter (trimSpace s) \<longleftrightarrow> list_ex IsLetter s"
proof -
  let ?l = "trimLeftSpace s"
  obtain a where a: "s = a @ ?l" "set a \<subseteq> \<Union> (set ` set spaceSeqs)" unfolding trimLeftSpace_def using dropSeqs_prefix by blast
  obtain b where b: "rev ?l = b @ dropSeqs (map rev spaceSeqs) (rev ?l)" "set b \<subseteq> \<Union> (set ` set (map rev spaceSeqs))"
    using dropSeqs_prefix by blast
  have l: "?l = trimRightSpace ?l @ rev b" using arg_cong [OF b(1), of rev] by (simp add: trimRightSpace_def)
  have "set b \<subseteq> \<Union> (set ` set spaceSeqs)" using b(2) by auto
  then have "\<not> list_ex IsLetter a" "\<not> list_ex IsLetter (rev b)" using a(2) space_not_letter by (auto simp: list_ex_iff)
  then show ?thesis using a(1) l unfolding trimSpace_def by (metis list_ex_append)
qed

text \<open>A camel case name is empty or in the format of a reason, however it is cut.\<close>

lemma toCamelCase_form:
  "toCamelCase s = [] \<longleftrightarrow> \<not> list_ex IsLetter s"
  "toCamelCase s \<noteq> [] \<Longrightarrow> IsLetter (hd (toCamelCase s)) \<and> list_all isAlnum (toCamelCase s)"
proof -
  let ?t = "trimSpace s"
  have ex: "list_ex IsLetter ?t \<longleftrightarrow> list_ex IsLetter s" by (rule trimSpace_letters)
  have words: "camelWords True (splitRuns (\<lambda>c. \<not> isAlnum c) ?t) = [] \<longleftrightarrow> \<not> list_ex IsLetter ?t"
    by (simp add: camelWords_Nil splitRuns_letters)
  show "toCamelCase s = [] \<longleftrightarrow> \<not> list_ex IsLetter s"
    using ex words camelWords_hd by (cases ?t) (auto simp: toCamelCase_def Let_def)
  show "IsLetter (hd (toCamelCase s)) \<and> list_all isAlnum (toCamelCase s)" if "toCamelCase s \<noteq> []"
    using that camelWords_hd camelWords_alnum by (cases ?t) (auto simp: toCamelCase_def Let_def split: if_splits)
qed

lemma reasonRegex_alnum: "s \<noteq> [] \<Longrightarrow> IsLetter (hd s) \<Longrightarrow> list_all isAlnum s \<Longrightarrow> reasonRegex s"
  by (cases s) (auto simp: reasonRegex_def list_all_iff dest: in_set_butlastD)

lemma strCut_append: "\<not> contains (a @ butlast sep) sep \<Longrightarrow> sep \<noteq> [] \<Longrightarrow> strCut sep (a @ sep @ b) = Some (a, b)"
proof (induction a)
  case Nil
  then show ?case by (cases sep) (auto simp: hasPrefix_def)
next
  case (Cons c a)
  have "\<not> hasPrefix (c # a @ sep @ b) sep"
  proof
    assume "hasPrefix (c # a @ sep @ b) sep"
    then have "take (length sep) ((c # a @ butlast sep) @ last sep # b) = sep"
      using Cons.prems(2) by (simp add: hasPrefix_def) (metis append_butlast_last_id append_Cons append_assoc append_Nil)
    moreover have "length sep \<le> length (c # a @ butlast sep)" by simp
    ultimately have "hasPrefix (c # a @ butlast sep) sep" unfolding hasPrefix_def take_append by simp
    then show False using Cons.prems(1) by simp
  qed
  then show ?case using Cons by simp
qed

text \<open>
  C36: the reason of a failed health check that starts with a name, a colon and a space is accepted exactly if the
  name has a letter. The reason it gives is then in the format that Kubernetes demands of the reason of a condition and
  within its bounds, as is the message, also where the name had to be cut.
\<close>

theorem parseHealthCheckReason_wellformed:
  assumes "s = part @ '': '' @ message" "\<not> contains (part @ '':'') '': ''"
  shows "if list_ex IsLetter (trimPrefix part ''[node_problem] '')
    then \<exists>reason. parseHealthCheckReason s = Inr (reason, take MaxMessageLength message) \<and> reasonRegex reason \<and> length reason \<le> MaxReasonLength
    else parseHealthCheckReason s = Inl (Errorf ''reason does not match required format'' [])"
proof -
  let ?raw = "trimPrefix part ''[node_problem] ''"
  let ?reason = "take MaxReasonLength (toCamelCase ?raw)"
  have cut: "strCut '': '' s = Some (part, message)" using strCut_append [of part "'': ''" message] assms by simp
  have parse: "parseHealthCheckReason s = (if \<not> reasonRegex ?reason then Inl (Errorf ''reason does not match required format'' [])
      else Inr (?reason, take MaxMessageLength message))"
    by (simp add: parseHealthCheckReason_def cut Let_def)
  show ?thesis
  proof (cases "list_ex IsLetter ?raw")
    case True
    then have ne: "toCamelCase ?raw \<noteq> []" by (simp add: toCamelCase_form(1))
    then have "?reason \<noteq> []" "hd ?reason = hd (toCamelCase ?raw)" by (simp_all add: MaxReasonLength_def hd_take)
    then have "reasonRegex ?reason"
      using toCamelCase_form(2) [OF ne] by (intro reasonRegex_alnum) (auto simp: list_all_iff dest: in_set_takeD)
    then show ?thesis using True parse by simp
  next
    case False
    then have "toCamelCase ?raw = []" by (simp add: toCamelCase_form(1))
    then show ?thesis using False parse by (simp add: reasonRegex_def)
  qed
qed

theorem parseHealthCheckReason_wellformed_witness:
  "\<exists>reason. parseHealthCheckReason ''[node_problem] gpu-2 ECC: row remap failed'' = Inr (reason, ''row remap failed'') \<and> reasonRegex reason"
proof -
  have "\<not> contains (''[node_problem] gpu-2 ECC'' @ '':'') '': ''" "list_ex IsLetter (trimPrefix ''[node_problem] gpu-2 ECC'' ''[node_problem] '')"
    by code_simp+
  then show ?thesis using parseHealthCheckReason_wellformed [OF refl, of "''[node_problem] gpu-2 ECC''" "''row remap failed''"]
    by (auto simp: MaxMessageLength_def)
qed

end
