(* ===== verification/Slurm_Client.thy ===== *)
theory Slurm_Client
  imports Slurm_Job Rolling_Update Go_Json Health_Reason
begin

text \<open>
  The client of the Slurm REST API: internal/slurmapi/client.go, reboot.go, undrain.go and client\_set.go. Parameters
  (record \<open>restApi\<close>) are the generated client, of which a response is its status, its body and the
  pointer to the decoded body (the pointer to its errors and its payload), the HTTP client, the issuer of tokens, the
  clock and the decoder of the generated response type. The text that summarizeSlurmRESTBody
  makes of a body for error messages is left out.
\<close>

section \<open>The generated client\<close>

record 'a restResponse =
  rs_JSON200 :: "(string list option \<times> 'a) option"
  rs_StatusCode :: int
  rs_Body :: string

datatype updateState = UpdateDRAIN | UpdateUNDRAIN | UpdateRESUME

record updateNodeMsg =
  un_Reason :: "string option"
  un_State :: "updateState list option"

record jobsQuery =
  jq_Cluster :: "string option"
  jq_StartTime :: string
  jq_EndTime :: string
  jq_DisableTruncateUsageTime :: string
  jq_SkipSteps :: string

record httpRequest =
  hr_Method :: string
  hr_URL :: string
  hr_Header :: "(string, string) gomap"
  hr_Body :: string

text \<open>A value of the interface type tokenIssuer: nil, a pointer that is nil, or an issuer.\<close>

datatype 'i issuer = NoIssuer | NilIssuer | Issuer 'i

record ('w, 'd) restApi =
  re_GetNodes :: "('w, apiNode list restResponse) action"
  re_GetNode :: "string \<Rightarrow> ('w, apiNode list restResponse) action"
  re_PostNode :: "string \<Rightarrow> updateNodeMsg \<Rightarrow> ('w, unit restResponse) action"
  re_GetJobs :: "('w, apiJobInfo list restResponse) action"
  re_dbGetJob :: "string \<Rightarrow> ('w, apiJob list restResponse) action"
  re_dbGetJobs :: "jobsQuery \<Rightarrow> ('w, apiJob list restResponse) action"
  re_GetDiag :: "('w, 'd restResponse) action"
  re_Issue :: "('w, string) action issuer"
  re_newRequest :: "string \<Rightarrow> goError option"
  re_Do :: "httpRequest \<Rightarrow> ('w, int \<times> (goError + string)) action"
  re_decode :: "string \<Rightarrow> goError + string list option"
  re_now :: "('w, int) action"

section \<open>Reading\<close>

text \<open>The conversion of every element of a response, which stops at the first that fails.\<close>

fun convertAll :: "string \<Rightarrow> ('a \<Rightarrow> goError + 'b) \<Rightarrow> 'a list \<Rightarrow> goError + 'b list" where
  "convertAll f conv [] = Inr []"
| "convertAll f conv (x # xs) = (case conv x of
     Inl err \<Rightarrow> Inl (wrapErr f [] err)
   | Inr y \<Rightarrow> (case convertAll f conv xs of Inl err \<Rightarrow> Inl err | Inr ys \<Rightarrow> Inr (y # ys)))"

definition hasErrors :: "string list option \<Rightarrow> bool" where
  "hasErrors errs = (case errs of None \<Rightarrow> False | Some es \<Rightarrow> es \<noteq> [])"

definition ListNodes :: "('w, 'd) restApi \<Rightarrow> ('w, Node list) action" where
  "ListNodes c =
     bindA (wrapA ''list nodes: %w'' [] (re_GetNodes c)) (\<lambda>getNodesResp. case rs_JSON200 getNodesResp of
       None \<Rightarrow> raise (Errorf ''json200 field is nil'' [])
     | Some (errors, nodes) \<Rightarrow>
         if hasErrors errors then raise (Errorf ''list nodes responded with errors: %v'' (the errors))
         else liftA (convertAll ''convert node from api response: %w'' NodeFromAPI nodes))"

definition GetNode :: "('w, 'd) restApi \<Rightarrow> string \<Rightarrow> ('w, Node) action" where
  "GetNode c nodeName =
     bindA (wrapA ''get node %s: %w'' [nodeName] (re_GetNode c nodeName)) (\<lambda>getNodesResp. case rs_JSON200 getNodesResp of
       None \<Rightarrow> raise (Errorf ''json200 field is nil, node name %s'' [nodeName])
     | Some (errors, nodes) \<Rightarrow>
         if hasErrors errors then raise (Errorf ''get node %s responded with errors: %v'' (nodeName # the errors))
         else case nodes of
           [n] \<Rightarrow> wrapA ''convert node from api response: %w'' [] (liftA (NodeFromAPI n))
         | _ \<Rightarrow> raise (Errorf ''expected only one node in response for get %s request, got %d'' [nodeName, itoa (int (length nodes))]))"

definition GetJobsByIDFromAccounting :: "('w, 'd) restApi \<Rightarrow> string \<Rightarrow> ('w, Job list) action" where
  "GetJobsByIDFromAccounting c jobID =
     bindA (wrapA ''get job %s: %w'' [jobID] (re_dbGetJob c jobID)) (\<lambda>getJobResp. case rs_JSON200 getJobResp of
       None \<Rightarrow> raise (Errorf ''get job %s: status=%d %s'' [jobID])
     | Some (errors, jobs) \<Rightarrow>
         if hasErrors errors then raise (Errorf ''get job %s responded with errors: %v'' (jobID # the errors))
         else liftA (convertAll ''convert job from accounting api response: %w'' JobFromAccountingAPI jobs))"

definition listControllerJobs :: "('w, 'd) restApi \<Rightarrow> ('w, Job list) action" where
  "listControllerJobs c =
     bindA (wrapA ''list jobs from controller API: %w'' [] (re_GetJobs c)) (\<lambda>getJobsResp. case rs_JSON200 getJobsResp of
       None \<Rightarrow> raise (Errorf ''list jobs from controller API: status=%d %s'' [])
     | Some (errors, jobs) \<Rightarrow>
         if hasErrors errors then raise (Errorf ''list jobs from controller API responded with errors: %v'' (the errors))
         else liftA (convertAll ''convert job from controller api response: %w'' JobFromAPI jobs))"

section \<open>Accounting\<close>

text \<open>Durations and times of the clock are in nanoseconds; Unix rounds down to seconds.\<close>

definition second :: int where "second = 1000000000"

definition unixOf :: "int \<Rightarrow> int" where "unixOf t = t div second"

definition stalePendingMaxAge :: int where "stalePendingMaxAge = 30 * 24 * 3600 * second"
definition accountingEndTimeSkew :: int where "accountingEndTimeSkew = 5 * 60 * second"

datatype jobSource = JobSourceController | JobSourceAccounting | UnknownSource string

record ListJobsParams =
  lj_Source :: jobSource
  lj_AccountingLookback :: int
  lj_AccountingCluster :: string

definition listAccountingJobs :: "('w, 'd) restApi \<Rightarrow> ListJobsParams \<Rightarrow> ('w, Job list) action" where
  "listAccountingJobs c params =
     (if lj_AccountingLookback params \<le> 0
      then raise (Errorf ''list jobs from accounting API: AccountingLookback must be > 0'' [])
      else bindA (re_now c) (\<lambda>now.
        let query = \<lparr>jq_Cluster = (if lj_AccountingCluster params \<noteq> [] then Some (lj_AccountingCluster params) else None),
              jq_StartTime = ''uts'' @ itoa (unixOf (now - lj_AccountingLookback params)),
              jq_EndTime = ''uts'' @ itoa (unixOf (now + accountingEndTimeSkew)),
              jq_DisableTruncateUsageTime = ''true'', jq_SkipSteps = ''true''\<rparr> in
        bindA (wrapA ''list jobs from accounting API: %w'' [] (re_dbGetJobs c query)) (\<lambda>getJobsResp.
          case rs_JSON200 getJobsResp of
            None \<Rightarrow> raise (Errorf ''list jobs from accounting API: status=%d %s'' [])
          | Some (errors, jobs) \<Rightarrow>
              if hasErrors errors then raise (Errorf ''list jobs from accounting API responded with errors: %v'' (the errors))
              else let staleCutoff = unixOf (now - stalePendingMaxAge) in
                liftA (convertAll ''convert job from accounting api response: %w'' JobFromAccountingAPI
                  (filter (\<lambda>j. \<not> isStaleAccountingPending j staleCutoff) jobs)))))"

text \<open>The zero value of a source stands for the controller (cmp.Or).\<close>

definition ListJobsWithParams :: "('w, 'd) restApi \<Rightarrow> ListJobsParams \<Rightarrow> ('w, Job list) action" where
  "ListJobsWithParams c params = (case lj_Source params of
     JobSourceController \<Rightarrow> listControllerJobs c
   | JobSourceAccounting \<Rightarrow> listAccountingJobs c params
   | UnknownSource source \<Rightarrow>
       if source = [] then listControllerJobs c else raise (Errorf ''list jobs: unsupported source %q'' [source]))"

definition ListJobs :: "('w, 'd) restApi \<Rightarrow> ('w, Job list) action" where
  "ListJobs c = ListJobsWithParams c \<lparr>lj_Source = JobSourceController, lj_AccountingLookback = 0, lj_AccountingCluster = []\<rparr>"

definition GetDiag :: "('w, 'd) restApi \<Rightarrow> ('w, 'd) action" where
  "GetDiag c =
     bindA (wrapA ''get diag: %w'' [] (re_GetDiag c)) (\<lambda>getDiagResp. case rs_JSON200 getDiagResp of
       None \<Rightarrow> raise (Errorf ''json200 field is nil'' [])
     | Some (errors, diag) \<Rightarrow>
         if hasErrors errors then raise (Errorf ''get diag responded with errors: %v'' (the errors)) else ret diag)"

section \<open>Writing\<close>

definition normalizeIssuer :: "'i issuer \<Rightarrow> 'i issuer" where
  "normalizeIssuer t = (case t of NilIssuer \<Rightarrow> NoIssuer | _ \<Rightarrow> t)"

text \<open>http.Header.Set stores under the canonical key: capitals at the start and after hyphens.\<close>

fun canonicalKey :: "bool \<Rightarrow> string \<Rightarrow> string" where
  "canonicalKey upper [] = []"
| "canonicalKey upper (c # cs) = (if upper then upperChar c else lowerChar c) # canonicalKey (c = CHR ''-'') cs"

definition headerSet :: "string \<Rightarrow> string \<Rightarrow> httpRequest \<Rightarrow> httpRequest" where
  "headerSet k v req = req\<lparr>hr_Header := mapPut (canonicalKey True k) v (hr_Header req)\<rparr>"

definition headerSlurmUserToken :: string where "headerSlurmUserToken = ''X-SLURM-USER-TOKEN''"
definition headerContentType :: string where "headerContentType = ''Content-Type''"
definition headerApplicationJson :: string where "headerApplicationJson = ''application/json''"

definition setHeaders :: "('w, 'd) restApi \<Rightarrow> httpRequest \<Rightarrow> ('w, httpRequest) action" where
  "setHeaders c req =
     (let req = headerSet headerContentType headerApplicationJson req in
      case normalizeIssuer (re_Issue c) of
        Issuer issue \<Rightarrow> bindA (wrapA ''unable to issue jwt: %w'' [] issue) (\<lambda>token.
          ret (if token = [] then req else headerSet headerSlurmUserToken token req))
      | _ \<Rightarrow> ret req)"

text \<open>What both writing calls make of a response.\<close>

definition checkEnvelope :: "('w, 'd) restApi \<Rightarrow> string \<Rightarrow> string list \<Rightarrow> int \<Rightarrow> string \<Rightarrow> ('w, unit) action" where
  "checkEnvelope c what args status body =
     (if status < 200 \<or> 300 \<le> status then raise (Errorf (what @ '' request failed: status=%d %s'') args)
      else if trimSpace body = [] then ret ()
      else bindA (wrapA (''decode '' @ what @ '' response: %w'') args (liftA (re_decode c body))) (\<lambda>errors.
        if hasErrors errors then raise (Errorf (what @ '' responded with errors: %s'') args) else ret ()))"

definition UndrainNode :: "('w, 'd) restApi \<Rightarrow> string \<Rightarrow> ('w, unit) action" where
  "UndrainNode c nodeName =
     (if nodeName = [] then raise (Errorf ''undrain node: node name is required'' [])
      else bindA (wrapA ''post undrain node %s request: %w'' [nodeName]
          (re_PostNode c nodeName \<lparr>un_Reason = None, un_State = Some [UpdateUNDRAIN]\<rparr>)) (\<lambda>response.
        checkEnvelope c ''undrain node %s'' [nodeName] (rs_StatusCode response) (rs_Body response)))"

definition slurmV0044RebootNodesPath :: string where "slurmV0044RebootNodesPath = ''/slurm/v0.0.44/nodes/reboot''"

text \<open>The members of the request that are encoded: omitempty leaves out false, empty strings and empty slices.\<close>

definition rebootFields :: "rebootRequest \<Rightarrow> (string \<times> jsonVal) list" where
  "rebootFields req = [(''nodes'', JStr (rr_NodeList req))]
     @ (if rr_ASAP req then [(''asap'', JBool True)] else [])
     @ (if rr_Force req then [(''force'', JBool True)] else [])
     @ (if rr_NextState req = [] then [] else [(''next_state'', JArr (map JStr (rr_NextState req)))])
     @ (if rr_Reason req = [] then [] else [(''reason'', JStr (rr_Reason req))])
     @ (if rr_PowerAction req = [] then [] else [(''power_action'', JStr (rr_PowerAction req))])"

definition RebootNodes :: "string \<Rightarrow> ('w, 'd) restApi \<Rightarrow> rebootRequest \<Rightarrow> ('w, unit) action" where
  "RebootNodes server c request =
     (if rr_NodeList request = [] then raise (Errorf ''reboot nodes: nodes field is required'' [])
      else let body = jsonText (JObj (rebootFields request)); url = server @ slurmV0044RebootNodesPath in
        case re_newRequest c url of
          Some err \<Rightarrow> raise (wrapErr ''create reboot nodes request: %w'' [] err)
        | None \<Rightarrow>
            bindA (wrapA ''set reboot nodes request headers: %w'' []
              (setHeaders c \<lparr>hr_Method = ''POST'', hr_URL = url, hr_Header = [], hr_Body = body\<rparr>)) (\<lambda>httpRequest.
            bindA (wrapA ''post reboot nodes request: %w'' [] (re_Do c httpRequest)) (\<lambda>(status, read).
            bindA (wrapA ''read reboot nodes response: %w'' [] (liftA read)) (\<lambda>responseBody.
              checkEnvelope c ''reboot nodes'' [] status responseBody))))"

definition trimRightByte :: "char \<Rightarrow> string \<Rightarrow> string" where
  "trimRightByte c s = rev (dropWhile (\<lambda>x. x = c) (rev s))"

text \<open>NewClient: the server URL that the client keeps, for a constructor of the generated client.\<close>

definition NewClient :: "(string \<Rightarrow> goError option) \<Rightarrow> string \<Rightarrow> goError + string" where
  "NewClient newClientWithResponses server =
     (if server = [] then Inl (Errorf ''unable to create client: empty server URL'' [])
      else case newClientWithResponses server of
        Some err \<Rightarrow> Inl (Errorf ''unable to create client: %v'' [])
      | None \<Rightarrow> Inr (trimRightByte (CHR ''/'') server))"

text \<open>The client as the rolling update controller uses it.\<close>

definition restSlurmClient :: "string \<Rightarrow> ('w, 'd) restApi \<Rightarrow> 'w slurmClient" where
  "restSlurmClient server c = \<lparr>sl_ListNodes = ListNodes c, sl_UndrainNode = UndrainNode c, sl_RebootNodes = RebootNodes server c\<rparr>"
section \<open>Properties\<close>

text \<open>The HTTP requests that are made.\<close>

definition recordingRest :: "('w, 'd) restApi \<Rightarrow> ('w \<times> httpRequest list, 'd) restApi" where
  "recordingRest c = \<lparr>re_GetNodes = unrecorded (re_GetNodes c), re_GetNode = (\<lambda>n. unrecorded (re_GetNode c n)),
     re_PostNode = (\<lambda>n m. unrecorded (re_PostNode c n m)), re_GetJobs = unrecorded (re_GetJobs c),
     re_dbGetJob = (\<lambda>j. unrecorded (re_dbGetJob c j)), re_dbGetJobs = (\<lambda>q. unrecorded (re_dbGetJobs c q)),
     re_GetDiag = unrecorded (re_GetDiag c), re_Issue = map_issuer unrecorded (re_Issue c), re_newRequest = re_newRequest c,
     re_Do = (\<lambda>req. recorded req (re_Do c req)), re_decode = re_decode c, re_now = unrecorded (re_now c)\<rparr>"

lemma unrecorded_success: "unrecorded m (w, log) = (Inr a, (w', log')) \<longleftrightarrow> m w = (Inr a, w') \<and> log' = log"
  by (auto simp: unrecorded_def split: prod.split)

lemma recorded_success: "recorded ev m (w, log) = (Inr a, (w', log')) \<longleftrightarrow> m w = (Inr a, w') \<and> log' = log @ [ev]"
  by (auto simp: recorded_def split: prod.split)

definition tokenKey :: string where "tokenKey = ''X-Slurm-User-Token''"

text \<open>The token header of a request: set from the issuer, if there is one and it issues a token.\<close>

definition authorized :: "('w, 'd) restApi \<Rightarrow> httpRequest \<Rightarrow> bool" where
  "authorized c req \<longleftrightarrow> (case re_Issue c of
     Issuer issue \<Rightarrow> (\<exists>token v v'. issue v = (Inr token, v') \<and> map_of (hr_Header req) tokenKey = (if token = [] then None else Some token))
   | _ \<Rightarrow> map_of (hr_Header req) tokenKey = None)"

lemma header_keys: "canonicalKey True headerSlurmUserToken = tokenKey" "canonicalKey True headerContentType = ''Content-Type''"
  by code_simp+

lemma setHeaders_authorized:
  assumes "setHeaders (recordingRest c) req (w, log) = (Inr req', (w', log'))" "map_of (hr_Header req) tokenKey = None"
  shows "authorized c req' \<and> log' = log \<and> hr_Method req' = hr_Method req \<and> hr_URL req' = hr_URL req \<and> hr_Body req' = hr_Body req"
proof -
  note set = headerSet_def header_keys tokenKey_def
  have none: "map_of (hr_Header (headerSet headerContentType headerApplicationJson req)) tokenKey = None"
    using assms(2) by (simp add: set map_of_mapPut)
  show ?thesis
  proof (cases "re_Issue c")
    case (Issuer issue)
    then obtain token where "unrecorded issue (w, log) = (Inr token, (w', log'))"
        and req': "req' = (if token = [] then headerSet headerContentType headerApplicationJson req
          else headerSet headerSlurmUserToken token (headerSet headerContentType headerApplicationJson req))"
      using assms(1) by (auto simp: setHeaders_def Let_def normalizeIssuer_def recordingRest_def bindA_success wrapA_success)
    then have issued: "issue w = (Inr token, w')" "log' = log" by (simp_all add: unrecorded_success)
    have "map_of (hr_Header req') tokenKey = (if token = [] then None else Some token)"
      using none by (simp add: req' set map_of_mapPut)
    then show ?thesis using issued Issuer by (auto simp: authorized_def req' headerSet_def)
  qed (use assms(1) none in \<open>auto simp: setHeaders_def Let_def normalizeIssuer_def recordingRest_def authorized_def headerSet_def\<close>)
qed


definition exampleRest :: "(unit, unit) restApi" where
  "exampleRest = \<lparr>re_GetNodes = ret \<lparr>rs_JSON200 = None, rs_StatusCode = 500, rs_Body = []\<rparr>,
     re_GetNode = (\<lambda>n. ret \<lparr>rs_JSON200 = None, rs_StatusCode = 500, rs_Body = []\<rparr>),
     re_PostNode = (\<lambda>n m. ret \<lparr>rs_JSON200 = Some (None, ()), rs_StatusCode = 200, rs_Body = []\<rparr>),
     re_GetJobs = ret \<lparr>rs_JSON200 = None, rs_StatusCode = 500, rs_Body = []\<rparr>,
     re_dbGetJob = (\<lambda>j. ret \<lparr>rs_JSON200 = Some (None, []), rs_StatusCode = 200, rs_Body = []\<rparr>),
     re_dbGetJobs = (\<lambda>q. ret \<lparr>rs_JSON200 = Some (None, []), rs_StatusCode = 200, rs_Body = []\<rparr>),
     re_GetDiag = ret \<lparr>rs_JSON200 = Some (None, ()), rs_StatusCode = 200, rs_Body = []\<rparr>, re_Issue = Issuer (ret ''jwt''),
     re_newRequest = (\<lambda>url. None), re_Do = (\<lambda>req. ret (200, Inr [])), re_decode = (\<lambda>body. Inr None), re_now = ret 0\<rparr>"

definition exampleReboot :: rebootRequest where
  "exampleReboot = \<lparr>rr_NodeList = ''w-1,w-2'', rr_ASAP = True, rr_Force = False, rr_NextState = [''RESUME''], rr_Reason = ''update'', rr_PowerAction = []\<rparr>"


end
