(* ===== verification/Slurm_Checks.thy ===== *)
theory Slurm_Checks
  imports Node_Checks Slurm_Client
begin

text \<open>
  The controller of Slurm nodes, internal/controller/soperatorchecks/slurm\_nodes\_controller.go: it drains the Slurm
  nodes of Kubernetes nodes that are to be maintained or rebooted, tells the other controllers so through conditions once the
  Slurm nodes are empty, and undrains Slurm nodes when the cause is gone.

  Parameters (record \<open>slurmChecksApi\<close>) are the calls to Kubernetes and, for every cluster, the client of
  the Slurm API; the clients are given in the order in which the map of clients is iterated, and \<open>sk_order\<close> is
  the order in which the map of degraded nodes is. Times are nanoseconds; those of Slurm are seconds and are converted.
\<close>

section \<open>Data\<close>

definition SlurmUserReasonHC :: string where "SlurmUserReasonHC = ''[user_problem]''"
definition SlurmNodeReasonHC :: string where "SlurmNodeReasonHC = ''[node_problem]''"
definition SlurmHardwareReasonHC :: string where "SlurmHardwareReasonHC = ''[hardware_problem]''"
definition SlurmNodeComputeMaintenance :: string where "SlurmNodeComputeMaintenance = ''[compute_maintenance]''"
definition SlurmNodeReasonKillTaskFailed :: string where "SlurmNodeReasonKillTaskFailed = ''Kill task failed''"
definition SlurmNodeReasonNodeReplacement :: string where
  "SlurmNodeReasonNodeReplacement = SlurmNodeComputeMaintenance @ '' node replacement process''"
definition SlurmNodeReasonNodeReboot :: string where
  "SlurmNodeReasonNodeReboot = SlurmNodeComputeMaintenance @ '' node reboot process''"

definition SlurmNodeReasonsList :: "string list" where
  "SlurmNodeReasonsList = [SlurmNodeReasonKillTaskFailed, SlurmNodeReasonNodeReplacement, SlurmNodeReasonNodeReboot,
     SlurmNodeReasonHC, SlurmUserReasonHC, SlurmHardwareReasonHC]"

definition ReasonGPUHealthCheckFailed :: string where "ReasonGPUHealthCheckFailed = ''GPUHealthCheckFailedSoperator''"
definition LabelWorkerKey :: string where "LabelWorkerKey = K8sGroupNameSoperator @ ''/worker''"
definition LabelWorkerValue :: string where "LabelWorkerValue = ''true''"
definition DefaultLimit :: int where "DefaultLimit = 64"
definition PodScheduled :: string where "PodScheduled = ''PodScheduled''"

record podCondition =
  pc_Type :: string
  pc_Status :: string
  pc_LastTransitionTime :: int

record checkPod =
  ck_meta :: objectMeta
  ck_conditions :: "podCondition list"

record 'w nodesClient = "'w slurmClient" +
  nl_GetNode :: "string \<Rightarrow> ('w, Node) action"
  nl_PostNode :: "string \<Rightarrow> updateNodeMsg \<Rightarrow> ('w, unit restResponse) action"

record 'w slurmChecksApi =
  sk_nodes :: "'w checksApi"
  sk_listNodes :: "int \<Rightarrow> string \<Rightarrow> ('w, k8sNodeObj list \<times> string) action"
  sk_listPods :: "string \<Rightarrow> string \<times> string \<Rightarrow> ('w, checkPod list) action"
  sk_getPod :: "objectKey \<Rightarrow> ('w, checkPod) action"
  sk_clients :: "('w, (objectKey \<times> 'w nodesClient) list) action"
  sk_order :: "objectKey list \<Rightarrow> objectKey list"

record SlurmNodesController =
  sn_requeueAfter :: int
  sn_enabledNodeReplacement :: bool
  sn_MaintenanceConditionType :: string

definition NewSlurmNodesController :: "int \<Rightarrow> bool \<Rightarrow> string \<Rightarrow> SlurmNodesController" where
  "NewSlurmNodesController requeueAfter enabledNodeReplacement maintenanceConditionType =
     \<lparr>sn_requeueAfter = requeueAfter, sn_enabledNodeReplacement = enabledNodeReplacement,
      sn_MaintenanceConditionType = (if maintenanceConditionType = [] then DefaultMaintenanceConditionType else maintenanceConditionType)\<rparr>"

section \<open>Draining\<close>

definition GetClient :: "'w slurmChecksApi \<Rightarrow> objectKey \<Rightarrow> ('w, 'w nodesClient) action" where
  "GetClient api slurmClusterName =
     bindA (sk_clients api) (\<lambda>clients. case map_of clients slurmClusterName of
       None \<Rightarrow> raise (Errorf ''slurm cluster %v not found'' [fst slurmClusterName, snd slurmClusterName])
     | Some client \<Rightarrow> ret client)"

definition getSlurmNode :: "'w slurmChecksApi \<Rightarrow> objectKey \<Rightarrow> string \<Rightarrow> ('w, Node) action" where
  "getSlurmNode api slurmClusterName slurmNodeName =
     bindA (GetClient api slurmClusterName) (\<lambda>client. wrapA ''get node: %w'' [] (nl_GetNode client slurmNodeName))"

definition postNode :: "'w slurmChecksApi \<Rightarrow> objectKey \<Rightarrow> string \<Rightarrow> string \<Rightarrow> updateNodeMsg \<Rightarrow> ('w, unit) action" where
  "postNode api slurmClusterName slurmNodeName what msg =
     bindA (GetClient api slurmClusterName) (\<lambda>client.
     bindA (wrapA (''post '' @ what @ '' slurm node: %w'') [] (nl_PostNode client slurmNodeName msg)) (\<lambda>resp.
       case rs_JSON200 resp of
         None \<Rightarrow> raise nilDereference
       | Some (errors, _) \<Rightarrow>
           if hasErrors errors then raise (Errorf (''post '' @ what @ '' returned errors: %v'') (the errors)) else ret ()))"

definition drainSlurmNode :: "'w slurmChecksApi \<Rightarrow> objectKey \<Rightarrow> string \<Rightarrow> string \<Rightarrow> ('w, unit) action" where
  "drainSlurmNode api slurmClusterName slurmNodeName reason =
     postNode api slurmClusterName slurmNodeName ''drain'' \<lparr>un_Reason = Some reason, un_State = Some [UpdateDRAIN]\<rparr>"

definition undrainSlurmNode :: "'w slurmChecksApi \<Rightarrow> objectKey \<Rightarrow> string \<Rightarrow> ('w, unit) action" where
  "undrainSlurmNode api slurmClusterName slurmNodeName =
     postNode api slurmClusterName slurmNodeName ''undrain'' \<lparr>un_Reason = None, un_State = Some [UpdateUNDRAIN]\<rparr>"

definition listWorkerPods :: "'w slurmChecksApi \<Rightarrow> string \<Rightarrow> ('w, checkPod list) action" where
  "listWorkerPods api k8sNodeName =
     wrapA ''list pods on node %s: %w'' [k8sNodeName] (sk_listPods api k8sNodeName (LabelWorkerKey, LabelWorkerValue))"

definition podCluster :: "checkPod \<Rightarrow> objectKey" where
  "podCluster pod = (om_namespace (ck_meta pod), getStr (om_labels (ck_meta pod)) LabelInstanceKey)"

text \<open>A loop that goes on after an error and joins the errors at its end.\<close>

definition forErrs :: "('a \<Rightarrow> ('w, unit) action) \<Rightarrow> 'a list \<Rightarrow> ('w, goError list) action" where
  "forErrs f xs = forA (\<lambda>x errs. tryA (f x) (\<lambda>res. case res of Inl err \<Rightarrow> ret (errs @ [err]) | Inr _ \<Rightarrow> ret errs)) xs []"

definition errorsJoined :: "goError list \<Rightarrow> ('w, unit) action" where
  "errorsJoined errs = (case joinErrs errs of None \<Rightarrow> ret () | Some err \<Rightarrow> raise err)"

definition drainSlurmNodes :: "'w slurmChecksApi \<Rightarrow> string \<Rightarrow> string \<Rightarrow> ('w, unit) action" where
  "drainSlurmNodes api k8sNodeName reason =
     bindA (listWorkerPods api k8sNodeName) (\<lambda>workerPodList.
     bindA (forErrs (\<lambda>pod. drainSlurmNode api (podCluster pod) (om_name (ck_meta pod)) reason) workerPodList) errorsJoined)"

fun allFullyDrained :: "'w slurmChecksApi \<Rightarrow> checkPod list \<Rightarrow> ('w, bool) action" where
  "allFullyDrained api [] = ret True"
| "allFullyDrained api (pod # pods) =
     bindA (getSlurmNode api (podCluster pod) (om_name (ck_meta pod))) (\<lambda>node.
       let isCompleting = StateCOMPLETING \<in> set (n_States node) in
       if \<not> IsIdleDrained node \<or> isCompleting then ret False else allFullyDrained api pods)"

definition slurmNodesFullyDrained :: "'w slurmChecksApi \<Rightarrow> string \<Rightarrow> ('w, bool) action" where
  "slurmNodesFullyDrained api k8sNodeName =
     bindA (listWorkerPods api k8sNodeName) (allFullyDrained api)"

definition drainSlurmNodesWithConditionUpdate :: "'w slurmChecksApi \<Rightarrow> string \<Rightarrow> string \<Rightarrow> nodeCondition \<Rightarrow> ('w, unit) action" where
  "drainSlurmNodesWithConditionUpdate api k8sNodeName reason condition =
     bindA (wrapA ''drain slurm nodes: %w'' [] (drainSlurmNodes api k8sNodeName reason)) (\<lambda>_.
     bindA (wrapA ''check that nodes are fully drained: %w'' [] (slurmNodesFullyDrained api k8sNodeName)) (\<lambda>fullyDrained.
       if \<not> fullyDrained then ret ()
       else wrapA ''set k8s node condition: %w'' [] (setK8SNodeCondition (sk_nodes api) k8sNodeName condition)))"

section \<open>Maintenance\<close>

definition processMaintenance :: "SlurmNodesController \<Rightarrow> k8sNodeObj \<Rightarrow> ('w, unit) action option \<Rightarrow> ('w, unit) action option \<Rightarrow> ('w, unit) action" where
  "processMaintenance c k8sNode drainFn undrainFn =
     (let drainFn = (case drainFn of None \<Rightarrow> ret () | Some f \<Rightarrow> f);
          undrainFn = (case undrainFn of None \<Rightarrow> ret () | Some f \<Rightarrow> f);
          maintenanceCondition = fold (\<lambda>cond acc.
            if nc_Type cond = sn_MaintenanceConditionType c then cond
            else if nc_Type cond = HardwareIssuesSuspected then cond else acc) (nodeConds k8sNode) emptyCondition
      in if maintenanceCondition = emptyCondition \<or> nc_Status maintenanceCondition = ConditionFalse then undrainFn else drainFn)"

fun processK8SNodesMaintenance :: "nat \<Rightarrow> 'w slurmChecksApi \<Rightarrow> SlurmNodesController \<Rightarrow> string \<Rightarrow> ('w, unit) action" where
  "processK8SNodesMaintenance 0 api c nextToken = raise NoReturn"
| "processK8SNodesMaintenance (Suc fuel) api c nextToken =
     bindA (wrapA ''list k8s nodes: %w'' [] (wrapA ''list nodes: %w'' [] (sk_listNodes api DefaultLimit nextToken))) (\<lambda>(items, continue).
     bindA (forA (\<lambda>k8sNode _. wrapA ''process maintenance: %w'' []
         (processMaintenance c k8sNode
           (Some (bindA (newNodeCondition (sk_nodes api) SoperatorChecksK8SNodeMaintenance ConditionTrue ReasonNodeDraining MessageMaintenanceScheduled)
             (drainSlurmNodesWithConditionUpdate api (nodeName_of k8sNode) SlurmNodeReasonNodeReplacement))) None)) items ()) (\<lambda>_.
       if continue = [] then ret () else processK8SNodesMaintenance fuel api c continue))"

definition processSlurmNodeMaintenance :: "'w slurmChecksApi \<Rightarrow> SlurmNodesController \<Rightarrow> k8sNodeObj \<Rightarrow> objectKey \<Rightarrow> string \<Rightarrow> ('w, unit) action" where
  "processSlurmNodeMaintenance api c k8sNode slurmClusterName slurmNodeName =
     processMaintenance c k8sNode None (Some (undrainSlurmNode api slurmClusterName slurmNodeName))"

section \<open>Degraded nodes\<close>

definition changedAt :: "nodeReason \<Rightarrow> int" where
  "changedAt r = nr_ChangedAt r * second"

definition processKillTaskFailed :: "'w slurmChecksApi \<Rightarrow> k8sNodeObj \<Rightarrow> objectKey \<Rightarrow> Node \<Rightarrow> nodeReason \<Rightarrow> ('w, unit) action" where
  "processKillTaskFailed api k8sNode slurmClusterName slurmNode reason =
     (let drainWithCondition = wrapA ''drain slurm nodes: %w'' []
            (bindA (newNodeCondition (sk_nodes api) SoperatorChecksK8SNodeDegraded ConditionTrue ReasonNodeNeedReboot MessageSlurmNodeDegraded)
              (drainSlurmNodesWithConditionUpdate api (n_InstanceID slurmNode) SlurmNodeReasonNodeReboot));
          degradedCondition = firstCond SoperatorChecksK8SNodeDegraded (nodeConds k8sNode)
      in if degradedCondition = emptyCondition then drainWithCondition
         else if nc_Status degradedCondition = ConditionTrue then ret ()
         else if changedAt reason < nc_LastTransitionTime degradedCondition
           then undrainSlurmNode api slurmClusterName (n_Name slurmNode)
         else drainWithCondition)"

definition getSlurmNodeAssignmentTime :: "'w slurmChecksApi \<Rightarrow> objectKey \<Rightarrow> string \<Rightarrow> ('w, int) action" where
  "getSlurmNodeAssignmentTime api slurmClusterName slurmNodeName =
     tryA (sk_getPod api (fst slurmClusterName, slurmNodeName)) (\<lambda>res. case res of
       Inl err \<Rightarrow> if IsNotFound err then ret zeroTime else raise (wrapErr ''get worker pod: %w'' [] err)
     | Inr workerPod \<Rightarrow>
         (case find (\<lambda>condition. \<not> (pc_Type condition \<noteq> PodScheduled \<or> pc_Status condition \<noteq> ConditionTrue)) (ck_conditions workerPod) of
            Some condition \<Rightarrow> if pc_LastTransitionTime condition = zeroTime then ret zeroTime else ret (pc_LastTransitionTime condition)
          | None \<Rightarrow> ret zeroTime))"

definition processSetUnhealthy :: "'w slurmChecksApi \<Rightarrow> SlurmNodesController \<Rightarrow> k8sNodeObj \<Rightarrow> objectKey \<Rightarrow> Node \<Rightarrow> nodeReason \<Rightarrow> ('w, unit) action" where
  "processSetUnhealthy api c k8sNode slurmClusterName slurmNode reason =
     (if \<not> sn_enabledNodeReplacement c then ret ()
      else bindA (wrapA ''get slurm node assignment time: %w'' [] (getSlurmNodeAssignmentTime api slurmClusterName (n_Name slurmNode))) (\<lambda>assignmentTime.
        if changedAt reason < ko_created k8sNode \<or> changedAt reason < assignmentTime
        then undrainSlurmNode api slurmClusterName (n_Name slurmNode)
        else if nc_Status (firstCond HardwareIssuesSuspected (nodeConds k8sNode)) = ConditionTrue then ret ()
        else bindA (wrapA ''check that nodes are fully drained before setting unhealthy: %w'' [] (slurmNodesFullyDrained api (nodeName_of k8sNode))) (\<lambda>fullyDrained.
          if \<not> fullyDrained then ret ()
          else bindA (newNodeCondition (sk_nodes api) HardwareIssuesSuspected ConditionTrue ReasonGPUHealthCheckFailed (n_Comment slurmNode)) (\<lambda>cond.
            wrapA ''set k8s node condition: %w'' [] (setK8SNodeCondition (sk_nodes api) (nodeName_of k8sNode) cond)))))"

definition processHealthCheckFailed :: "'w slurmChecksApi \<Rightarrow> SlurmNodesController \<Rightarrow> k8sNodeObj \<Rightarrow> objectKey \<Rightarrow> Node \<Rightarrow> nodeReason \<Rightarrow> ('w, unit) action" where
  "processHealthCheckFailed api c k8sNode slurmClusterName slurmNode nodeReason =
     (if \<not> sn_enabledNodeReplacement c then ret ()
      else bindA (wrapA ''parse health check reason: %w'' [] (liftA (parseHealthCheckReason (nr_OriginalReason nodeReason)))) (\<lambda>_.
        processSetUnhealthy api c k8sNode slurmClusterName slurmNode nodeReason))"

text \<open>The nodes that are passed here have a reason (findDegradedNodes); without one the code would panic.\<close>

definition processDegradedNode :: "'w slurmChecksApi \<Rightarrow> SlurmNodesController \<Rightarrow> objectKey \<Rightarrow> Node \<Rightarrow> ('w, unit) action" where
  "processDegradedNode api c slurmClusterName node =
     tryA (kc_getNode (sk_nodes api) (n_InstanceID node)) (\<lambda>res. case res of
       Inl err \<Rightarrow> if IsNotFound err then ret () else raise (wrapErr ''get k8s node: %w'' [] err)
     | Inr k8sNode \<Rightarrow> (case n_Reason node of
         None \<Rightarrow> raise nilDereference
       | Some reason \<Rightarrow>
           if nr_Reason reason = SlurmNodeReasonKillTaskFailed \<or> nr_Reason reason = SlurmNodeReasonNodeReboot
           then processKillTaskFailed api k8sNode slurmClusterName node reason
           else if nr_Reason reason = SlurmNodeReasonNodeReplacement
           then processSlurmNodeMaintenance api c k8sNode slurmClusterName (n_Name node)
           else if nr_Reason reason = SlurmHardwareReasonHC
           then processSetUnhealthy api c k8sNode slurmClusterName node reason
           else if nr_Reason reason = SlurmNodeReasonHC
           then processHealthCheckFailed api c k8sNode slurmClusterName node reason
           else ret ()))"

definition wellKnown :: "Node \<Rightarrow> Node option" where
  "wellKnown node =
     (if StateDRAIN \<notin> set (n_States node) then None
      else case n_Reason node of
        None \<Rightarrow> None
      | Some r \<Rightarrow> map_option (\<lambda>wellKnownReason. node\<lparr>n_Reason := Some (r\<lparr>nr_OriginalReason := nr_Reason r, nr_Reason := wellKnownReason\<rparr>)\<rparr>)
          (find (\<lambda>wellKnownReason. contains (nr_Reason r) wellKnownReason) SlurmNodeReasonsList))"

definition findDegradedNodes :: "'w slurmChecksApi \<Rightarrow> ('w, (objectKey, Node list) gomap) action" where
  "findDegradedNodes api =
     bindA (sk_clients api) (\<lambda>clients.
       forA (\<lambda>(slurmClusterName, client) degradedNodes.
         bindA (sl_ListNodes client) (\<lambda>slurmNodes.
           ret (fold (\<lambda>node m. case wellKnown node of
               None \<Rightarrow> m | Some node \<Rightarrow> mapAppend slurmClusterName node m) slurmNodes degradedNodes))) clients [])"

definition Reconcile_slurmNodes :: "nat \<Rightarrow> 'w slurmChecksApi \<Rightarrow> SlurmNodesController \<Rightarrow> ('w, int) action" where
  "Reconcile_slurmNodes fuel api c =
     bindA (processK8SNodesMaintenance fuel api c []) (\<lambda>_.
     bindA (findDegradedNodes api) (\<lambda>degradedNodes.
     bindA (forErrs (\<lambda>(slurmClusterName, node). processDegradedNode api c slurmClusterName node)
       (concat (map (\<lambda>name. map (Pair name) (getList degradedNodes name)) (sk_order api (map fst degradedNodes))))) (\<lambda>errs.
     bindA (errorsJoined errs) (\<lambda>_. ret (sn_requeueAfter c)))))"
section \<open>Recorded calls\<close>

text \<open>
  The answers on the pods of a node and on Slurm nodes, the changes that are asked of Slurm nodes and the
  node objects that are written, in their order.
\<close>

datatype checksEvent =
    PodsSeen string "checkPod list"
  | NodeSeen objectKey string Node
  | NodesListed objectKey "Node list"
  | Posted objectKey string updateNodeMsg
  | StatusWritten k8sNodeObj

definition observed :: "('a \<Rightarrow> 'e) \<Rightarrow> ('w, 'a) action \<Rightarrow> ('w \<times> 'e list, 'a) action" where
  "observed ev m = (\<lambda>(w, log). case m w of
     (Inr a, w') \<Rightarrow> (Inr a, (w', log @ [ev a])) | (Inl e, w') \<Rightarrow> (Inl e, (w', log)))"

definition recordingNodesClient :: "objectKey \<Rightarrow> 'w nodesClient \<Rightarrow> ('w \<times> checksEvent list) nodesClient" where
  "recordingNodesClient key c = \<lparr>
     sl_ListNodes = observed (NodesListed key) (sl_ListNodes c),
     sl_UndrainNode = (\<lambda>name. unrecorded (sl_UndrainNode c name)),
     sl_RebootNodes = (\<lambda>req. unrecorded (sl_RebootNodes c req)),
     nl_GetNode = (\<lambda>name. observed (NodeSeen key name) (nl_GetNode c name)),
     nl_PostNode = (\<lambda>name msg. recorded (Posted key name msg) (nl_PostNode c name msg))\<rparr>"

definition recordingWrites :: "'w checksApi \<Rightarrow> ('w \<times> checksEvent list) checksApi" where
  "recordingWrites api = \<lparr>kc_getNode = (\<lambda>name. unrecorded (kc_getNode api name)),
     kc_patchStatus = (\<lambda>base node. recorded (StatusWritten node) (kc_patchStatus api base node)),
     kc_updateStatus = (\<lambda>node. recorded (StatusWritten node) (kc_updateStatus api node)),
     kc_deleteNode = (\<lambda>node. unrecorded (kc_deleteNode api node)), kc_now = unrecorded (kc_now api)\<rparr>"

definition recordingSlurm :: "'w slurmChecksApi \<Rightarrow> ('w \<times> checksEvent list) slurmChecksApi" where
  "recordingSlurm api = \<lparr>sk_nodes = recordingWrites (sk_nodes api),
     sk_listNodes = (\<lambda>limit token. unrecorded (sk_listNodes api limit token)),
     sk_listPods = (\<lambda>name labels. observed (PodsSeen name) (sk_listPods api name labels)),
     sk_getPod = (\<lambda>key. unrecorded (sk_getPod api key)),
     sk_clients = (\<lambda>(w, log). case sk_clients api w of
        (Inl e, w') \<Rightarrow> (Inl e, (w', log))
      | (Inr cs, w') \<Rightarrow> (Inr (map (\<lambda>(key, c). (key, recordingNodesClient key c)) cs), (w', log))),
     sk_order = sk_order api\<rparr>"

lemma recordingSlurm_simps:
  "sk_nodes (recordingSlurm api) = recordingWrites (sk_nodes api)"
  "sk_listNodes (recordingSlurm api) limit token = unrecorded (sk_listNodes api limit token)"
  "sk_listPods (recordingSlurm api) name labels = observed (PodsSeen name) (sk_listPods api name labels)"
  "sk_getPod (recordingSlurm api) key = unrecorded (sk_getPod api key)"
  "sk_order (recordingSlurm api) = sk_order api"
  "kc_getNode (recordingWrites nodes) name = unrecorded (kc_getNode nodes name)"
  "kc_now (recordingWrites nodes) = unrecorded (kc_now nodes)"
  "kc_patchStatus (recordingWrites nodes) base node = recorded (StatusWritten node) (kc_patchStatus nodes base node)"
  "kc_updateStatus (recordingWrites nodes) node = recorded (StatusWritten node) (kc_updateStatus nodes node)"
  "sl_ListNodes (recordingNodesClient key c) = observed (NodesListed key) (sl_ListNodes c)"
  "nl_GetNode (recordingNodesClient key c) n = observed (NodeSeen key n) (nl_GetNode c n)"
  "nl_PostNode (recordingNodesClient key c) n msg = recorded (Posted key n msg) (nl_PostNode c n msg)"
  by (simp_all add: recordingSlurm_def recordingWrites_def recordingNodesClient_def)

lemma recordingSlurm_clients:
  "sk_clients (recordingSlurm api) (w, log) = (Inr cs, (w', log')) \<Longrightarrow> \<exists>cs0. cs = map (\<lambda>(key, c). (key, recordingNodesClient key c)) cs0 \<and> log' = log"
  "keepsLog I (sk_clients (recordingSlurm api))"
  by (auto simp: recordingSlurm_def keepsLog_def split: prod.splits sum.splits)

lemma observed_success: "observed ev m (w, log) = (Inr a, (w', log')) \<longleftrightarrow> m w = (Inr a, w') \<and> log' = log @ [ev a]"
  by (auto simp: observed_def split: prod.splits sum.splits)

lemma keepsLog_observed: "(\<And>a log. I log \<Longrightarrow> I (log @ [ev a])) \<Longrightarrow> keepsLog I (observed ev m)"
  by (auto simp: keepsLog_def observed_def split: prod.splits sum.splits)

lemma recordingClient_get:
  assumes "GetClient (recordingSlurm api) key (w, log) = (Inr client, (w', log'))"
  shows "\<exists>c. client = recordingNodesClient key c \<and> log' = log"
proof -
  obtain cs v where cs: "sk_clients (recordingSlurm api) (w, log) = (Inr cs, v)"
      and k: "(case map_of cs key of None \<Rightarrow> raise (Errorf ''slurm cluster %v not found'' [fst key, snd key]) | Some client \<Rightarrow> ret client) v = (Inr client, (w', log'))"
    using assms unfolding GetClient_def bindA_success by (elim exE conjE)
  from k have v: "map_of cs key = Some client" "v = (w', log')" by (cases "map_of cs key"; simp)+
  obtain cs0 where cs0: "cs = map (\<lambda>(key, c). (key, recordingNodesClient key c)) cs0" "log' = log"
    using recordingSlurm_clients(1) [OF cs [unfolded v(2)]] by (elim exE conjE)
  have "(key, client) \<in> set cs" using v(1) by (rule map_of_SomeD)
  then show ?thesis using cs0 by auto
qed

lemma GetClient_keeps: "keepsLog I (GetClient (recordingSlurm api) key)"
  unfolding GetClient_def by (intro keepsLog_bindA recordingSlurm_clients(2)) (simp add: keepsLog_basic split: option.split)

section \<open>Conditions are set on empty nodes only\<close>

definition fullyDrained :: "Node \<Rightarrow> bool" where
  "fullyDrained node \<longleftrightarrow> StateIDLE \<in> set (n_States node) \<and> StateDRAIN \<in> set (n_States node) \<and> StateCOMPLETING \<notin> set (n_States node)"

text \<open>The record ends with the pods of a node and the state of every one of their Slurm nodes, all of them empty.\<close>

definition endsDrained :: "string \<Rightarrow> checksEvent list \<Rightarrow> bool" where
  "endsDrained name log \<longleftrightarrow> (\<exists>pre pods nodes. log = pre @ PodsSeen name pods # map2 (\<lambda>pod. NodeSeen (podCluster pod) (om_name (ck_meta pod))) pods nodes
     \<and> length nodes = length pods \<and> list_all fullyDrained nodes)"

definition writesSafe :: "checksEvent list \<Rightarrow> bool" where
  "writesSafe log \<longleftrightarrow> (\<forall>pre node post. log = pre @ StatusWritten node # post \<longrightarrow> endsDrained (nodeName_of node) pre)"

lemma writesSafe_append: "writesSafe (log @ [ev]) \<longleftrightarrow> writesSafe log \<and> (\<forall>node. ev = StatusWritten node \<longrightarrow> endsDrained (nodeName_of node) log)"
proof -
  have "log @ [ev] = pre @ StatusWritten node # post \<longleftrightarrow>
      (post = [] \<and> ev = StatusWritten node \<and> pre = log) \<or> (\<exists>post'. post = post' @ [ev] \<and> log = pre @ StatusWritten node # post')" for pre node post
    by (cases post rule: rev_cases) auto
  then show ?thesis by (simp only: writesSafe_def) auto
qed

lemma seen_safe:
  "writesSafe log \<Longrightarrow> writesSafe (log @ [PodsSeen name pods])" "writesSafe log \<Longrightarrow> writesSafe (log @ [NodeSeen key name node])"
  "writesSafe log \<Longrightarrow> writesSafe (log @ [NodesListed key nodes])" "writesSafe log \<Longrightarrow> writesSafe (log @ [Posted key name msg])"
  by (simp_all add: writesSafe_append)

named_theorems safe \<open>calls that keep the record of writes safe\<close>

lemma observed_safe [safe]:
  "keepsLog writesSafe (observed (PodsSeen name) m1)" "keepsLog writesSafe (observed (NodeSeen key n) m2)"
  "keepsLog writesSafe (observed (NodesListed key) m3)" "keepsLog writesSafe (recorded (Posted key n msg) m4)"
  by (rule keepsLog_observed keepsLog_recorded; erule seen_safe)+

lemma keepsLog_case_option: "keepsLog I m \<Longrightarrow> (\<And>a. keepsLog I (k a)) \<Longrightarrow> keepsLog I (case x of None \<Rightarrow> m | Some a \<Rightarrow> k a)"
  by (simp split: option.split)

lemma keepsLog_case_prod: "(\<And>a b. keepsLog I (k a b)) \<Longrightarrow> keepsLog I (case x of (a, b) \<Rightarrow> k a b)"
  by (simp split: prod.split)

lemma keepsLog_case_sum: "(\<And>e. keepsLog I (f e)) \<Longrightarrow> (\<And>a. keepsLog I (k a)) \<Longrightarrow> keepsLog I (case x of Inl e \<Rightarrow> f e | Inr a \<Rightarrow> k a)"
  by (simp split: sum.split)

lemma keepsLog_if: "keepsLog I m \<Longrightarrow> keepsLog I m' \<Longrightarrow> keepsLog I (if b then m else m')"
  by simp

lemmas keepsLog_code = keepsLog_bindA keepsLog_wrapA keepsLog_tryA keepsLog_basic keepsLog_case_option keepsLog_case_prod keepsLog_case_sum keepsLog_if

lemma postNode_safe [safe]: "keepsLog writesSafe (postNode (recordingSlurm api) key n what msg)"
  unfolding postNode_def
proof (rule keepsLog_bindA_success [OF GetClient_keeps])
  fix client v v' assume "GetClient (recordingSlurm api) key v = (Inr client, v')"
  then obtain c where "client = recordingNodesClient key c" using recordingClient_get by (metis prod.collapse)
  then show "keepsLog writesSafe (bindA (wrapA (''post '' @ what @ '' slurm node: %w'') [] (nl_PostNode client n msg)) (\<lambda>resp.
       case rs_JSON200 resp of None \<Rightarrow> raise nilDereference
       | Some (errors, _) \<Rightarrow> if hasErrors errors then raise (Errorf (''post '' @ what @ '' returned errors: %v'') (the errors)) else ret ()))"
    by (simp only: recordingSlurm_simps) (intro keepsLog_code safe)
qed

lemma drain_safe [safe]:
  "keepsLog writesSafe (drainSlurmNode (recordingSlurm api) key n reason)" "keepsLog writesSafe (undrainSlurmNode (recordingSlurm api) key n)"
  unfolding drainSlurmNode_def undrainSlurmNode_def by (rule safe)+

lemma forErrs_keeps:
  assumes "\<And>x. x \<in> set xs \<Longrightarrow> keepsLog I (f x)"
  shows "keepsLog I (forErrs f xs)"
  unfolding forErrs_def
  by (rule keepsLog_forA) (intro keepsLog_code assms, assumption)

lemma errorsJoined_keeps: "keepsLog I (errorsJoined errs)"
  unfolding errorsJoined_def by (intro keepsLog_code)

lemma listWorkerPods_safe [safe]: "keepsLog writesSafe (listWorkerPods (recordingSlurm api) name)"
  unfolding listWorkerPods_def recordingSlurm_simps by (intro keepsLog_wrapA safe)

lemma drainSlurmNodes_safe [safe]: "keepsLog writesSafe (drainSlurmNodes (recordingSlurm api) name reason)"
  unfolding drainSlurmNodes_def by (intro keepsLog_bindA forErrs_keeps errorsJoined_keeps safe)

lemma getSlurmNode_safe [safe]: "keepsLog writesSafe (getSlurmNode (recordingSlurm api) key n)"
  unfolding getSlurmNode_def
proof (rule keepsLog_bindA_success [OF GetClient_keeps])
  fix client v v' assume "GetClient (recordingSlurm api) key v = (Inr client, v')"
  then obtain c where "client = recordingNodesClient key c" using recordingClient_get by (metis prod.collapse)
  then show "keepsLog writesSafe (wrapA ''get node: %w'' [] (nl_GetNode client n))"
    by (simp add: recordingSlurm_simps) (intro keepsLog_wrapA safe)
qed

lemma allFullyDrained_safe [safe]: "keepsLog writesSafe (allFullyDrained (recordingSlurm api) pods)"
proof (induction pods)
  case (Cons pod pods)
  then show ?case unfolding allFullyDrained.simps Let_def by (intro keepsLog_code safe)
qed (simp only: allFullyDrained.simps keepsLog_basic)

text \<open>The answer yes comes with its evidence.\<close>

lemma allFullyDrained_evidence:
  "allFullyDrained (recordingSlurm api) pods (w, log) = (Inr True, (w', log')) \<Longrightarrow>
   \<exists>nodes. log' = log @ map2 (\<lambda>pod. NodeSeen (podCluster pod) (om_name (ck_meta pod))) pods nodes \<and> length nodes = length pods \<and> list_all fullyDrained nodes"
proof (induction pods arbitrary: w log)
  case (Cons pod pods)
  then obtain node v log1 where n: "getSlurmNode (recordingSlurm api) (podCluster pod) (om_name (ck_meta pod)) (w, log) = (Inr node, (v, log1))"
      and d: "IsIdleDrained node" "StateCOMPLETING \<notin> set (n_States node)" and rest: "allFullyDrained (recordingSlurm api) pods (v, log1) = (Inr True, (w', log'))"
    by (auto simp: bindA_success Let_def split: if_splits)
  obtain client v' log0 where g: "GetClient (recordingSlurm api) (podCluster pod) (w, log) = (Inr client, (v', log0))"
      and seen: "nl_GetNode client (om_name (ck_meta pod)) (v', log0) = (Inr node, (v, log1))"
    using n by (auto simp: getSlurmNode_def bindA_success wrapA_success)
  have "log1 = log @ [NodeSeen (podCluster pod) (om_name (ck_meta pod)) node]"
    using recordingClient_get [OF g] seen by (auto simp: recordingSlurm_simps observed_success)
  moreover obtain nodes where "log' = log1 @ map2 (\<lambda>pod. NodeSeen (podCluster pod) (om_name (ck_meta pod))) pods nodes" "length nodes = length pods" "list_all fullyDrained nodes"
    using Cons.IH [OF rest] by blast
  ultimately show ?case using d by (intro exI [of _ "node # nodes"]) (simp add: fullyDrained_def [of node] IsIdleDrained_def)
qed simp

lemma slurmNodesFullyDrained_evidence:
  assumes "slurmNodesFullyDrained (recordingSlurm api) name (w, log) = (Inr True, (w', log'))"
  shows "endsDrained name log'"
proof -
  obtain pods v log1 where p: "sk_listPods (recordingSlurm api) name (LabelWorkerKey, LabelWorkerValue) (w, log) = (Inr pods, (v, log1))"
      and a: "allFullyDrained (recordingSlurm api) pods (v, log1) = (Inr True, (w', log'))"
    using assms by (auto simp: slurmNodesFullyDrained_def listWorkerPods_def bindA_success wrapA_success)
  have "log1 = log @ [PodsSeen name pods]" using p by (simp add: recordingSlurm_simps observed_success)
  with allFullyDrained_evidence [OF a] show ?thesis unfolding endsDrained_def by auto
qed
text \<open>The call that reads a node returns the node of that name.\<close>

definition namesKept :: "'w checksApi \<Rightarrow> bool" where
  "namesKept nodes \<longleftrightarrow> (\<forall>name v node v'. kc_getNode nodes name v = (Inr node, v') \<longrightarrow> nodeName_of node = name)"

text \<open>Code that writes at most one node object, of the given name, and asks nothing.\<close>

definition writesOne :: "string \<Rightarrow> ('w \<times> checksEvent list, 'a) action \<Rightarrow> bool" where
  "writesOne name m \<longleftrightarrow> (\<forall>w log r w' log'. m (w, log) = (r, (w', log')) \<longrightarrow> log' = log \<or> (\<exists>node. nodeName_of node = name \<and> log' = log @ [StatusWritten node]))"

lemma setK8SNodeCondition_writesOne:
  assumes "namesKept nodes"
  shows "writesOne name (setK8SNodeCondition (recordingWrites nodes) name cond)"
  unfolding writesOne_def
proof (intro allI impI)
  fix w log r w' log'
  assume run: "setK8SNodeCondition (recordingWrites nodes) name cond (w, log) = (r, (w', log'))"
  obtain res v where g: "kc_getNode nodes name w = (res, v)" by fastforce
  then have g': "kc_getNode (recordingWrites nodes) name (w, log) = (res, (v, log))" by (simp add: recordingSlurm_simps unrecorded_def)
  show "log' = log \<or> (\<exists>node. nodeName_of node = name \<and> log' = log @ [StatusWritten node])"
  proof (cases res)
    case (Inl e)
    then show ?thesis using run g' by (auto simp: setK8SNodeCondition_def tryA_def split: if_splits)
  next
    case (Inr node)
    have name: "nodeName_of node = name" using assms g Inr unfolding namesKept_def by blast
    then have "nodeName_of (withConds cs node) = name" for cs by (simp add: nodeName_of_def withConds_def)
    then show ?thesis using run g' Inr name
      by (auto simp: setK8SNodeCondition_def tryA_def recordingSlurm_simps recorded_def wrapA_def
          split: option.splits prod.splits if_splits sum.splits)
  qed
qed

lemma writesOne_wrapA: "writesOne name m \<Longrightarrow> writesOne name (wrapA f as m)"
  unfolding writesOne_def wrapA_def by (auto split: prod.splits sum.splits)

lemma newNodeCondition_log:
  "newNodeCondition (recordingWrites nodes) ty st re msg (w, log) = (r, (w', log')) \<Longrightarrow> log' = log"
  by (auto simp: newNodeCondition_def bindA_def recordingSlurm_simps unrecorded_def split: prod.splits sum.splits)

lemma writesOne_newCondition:
  assumes "\<And>cond. writesOne name (k cond)"
  shows "writesOne name (bindA (newNodeCondition (recordingWrites nodes) ty st re msg) k)"
  unfolding writesOne_def
proof (intro allI impI)
  fix w log r w' log'
  assume run: "bindA (newNodeCondition (recordingWrites nodes) ty st re msg) k (w, log) = (r, (w', log'))"
  obtain res v l where n: "newNodeCondition (recordingWrites nodes) ty st re msg (w, log) = (res, (v, l))" by (metis prod.collapse)
  have "l = log" using newNodeCondition_log [OF n] .
  then show "log' = log \<or> (\<exists>node. nodeName_of node = name \<and> log' = log @ [StatusWritten node])"
    using run n assms unfolding writesOne_def by (cases res) (auto simp: bindA_def)
qed

text \<open>A write right after the answer that the node is empty.\<close>

lemma write_after_drained:
  assumes one: "writesOne name m"
  shows "keepsLog writesSafe (bindA (wrapA f as (slurmNodesFullyDrained (recordingSlurm api) name)) (\<lambda>drained. if \<not> drained then ret () else m))"
  unfolding keepsLog_def
proof (intro allI impI)
  fix w log assume ok: "writesSafe log"
  let ?q = "slurmNodesFullyDrained (recordingSlurm api) name"
  obtain res v log1 where q: "?q (w, log) = (res, (v, log1))" by (metis prod.collapse)
  have "keepsLog writesSafe ?q" unfolding slurmNodesFullyDrained_def by (intro keepsLog_bindA safe)
  then have safe1: "writesSafe log1" using q ok by (rule keepsLogD)
  obtain r v' log' where m: "m (v, log1) = (r, (v', log'))" by (metis prod.collapse)
  show "writesSafe (snd (snd (bindA (wrapA f as ?q) (\<lambda>drained. if \<not> drained then ret () else m) (w, log))))"
  proof (cases "res = Inr True")
    case True
    have "endsDrained name log1" by (rule slurmNodesFullyDrained_evidence [OF q [unfolded True]])
    moreover have "log' = log1 \<or> (\<exists>node. nodeName_of node = name \<and> log' = log1 @ [StatusWritten node])" using one m unfolding writesOne_def by blast
    ultimately have "writesSafe log'" using safe1 by (auto simp: writesSafe_append)
    then show ?thesis using True q m by (simp add: bindA_def wrapA_def)
  next
    case False
    then show ?thesis using q safe1 by (cases res) (auto simp: bindA_def wrapA_def)
  qed
qed

lemma newNodeCondition_keeps: "keepsLog I (newNodeCondition (sk_nodes (recordingSlurm api)) ty st re msg)"
  unfolding newNodeCondition_def recordingSlurm_simps by (intro keepsLog_code)

lemma conditionUpdate_safe:
  assumes "namesKept (sk_nodes api)"
  shows "keepsLog writesSafe (drainSlurmNodesWithConditionUpdate (recordingSlurm api) name reason cond)"
  unfolding drainSlurmNodesWithConditionUpdate_def recordingSlurm_simps
  by (intro keepsLog_bindA keepsLog_wrapA safe write_after_drained writesOne_wrapA setK8SNodeCondition_writesOne assms)

lemma processMaintenance_keeps:
  assumes "\<And>m. drainFn = Some m \<Longrightarrow> keepsLog I m" "\<And>m. undrainFn = Some m \<Longrightarrow> keepsLog I m"
  shows "keepsLog I (processMaintenance c k8sNode drainFn undrainFn)"
  unfolding processMaintenance_def Let_def
  using assms by (auto simp: keepsLog_basic split: option.split)

lemma maintenance_safe:
  assumes "namesKept (sk_nodes api)"
  shows "keepsLog writesSafe (processK8SNodesMaintenance fuel (recordingSlurm api) c token)"
proof (induction fuel arbitrary: token)
  case 0
  show ?case unfolding processK8SNodesMaintenance.simps by (rule keepsLog_basic)
next
  case (Suc fuel)
  have drain: "keepsLog writesSafe (bindA (newNodeCondition (sk_nodes (recordingSlurm api)) ty st re msg)
      (drainSlurmNodesWithConditionUpdate (recordingSlurm api) name reason))" for ty st re msg name reason
    by (intro keepsLog_bindA newNodeCondition_keeps conditionUpdate_safe assms)
  have node: "keepsLog writesSafe (wrapA f as (processMaintenance c n (Some (bindA (newNodeCondition (sk_nodes (recordingSlurm api)) ty st re msg)
      (drainSlurmNodesWithConditionUpdate (recordingSlurm api) name reason))) None))" for f as n ty st re msg name reason
    by (intro keepsLog_wrapA processMaintenance_keeps) (use drain in simp_all)
  show ?case unfolding processK8SNodesMaintenance.simps recordingSlurm_simps(2)
    by (intro keepsLog_code keepsLog_forA node Suc.IH)
qed

lemma processSetUnhealthy_safe:
  assumes "namesKept (sk_nodes api)"
  shows "keepsLog writesSafe (processSetUnhealthy (recordingSlurm api) c k8sNode key slurmNode reason)"
  unfolding processSetUnhealthy_def getSlurmNodeAssignmentTime_def recordingSlurm_simps
  by (intro keepsLog_code safe write_after_drained writesOne_newCondition writesOne_wrapA setK8SNodeCondition_writesOne assms)

lemma processDegradedNode_safe:
  assumes "namesKept (sk_nodes api)"
  shows "keepsLog writesSafe (processDegradedNode (recordingSlurm api) c key node)"
proof -
  have kill: "keepsLog writesSafe (processKillTaskFailed (recordingSlurm api) k8sNode key node reason)" for k8sNode reason
    unfolding processKillTaskFailed_def Let_def by (intro keepsLog_code newNodeCondition_keeps conditionUpdate_safe safe assms)
  have main: "keepsLog writesSafe (processSlurmNodeMaintenance (recordingSlurm api) c k8sNode key n)" for k8sNode n
    unfolding processSlurmNodeMaintenance_def by (intro processMaintenance_keeps) (auto simp: drain_safe)
  have hc: "keepsLog writesSafe (processHealthCheckFailed (recordingSlurm api) c k8sNode key node reason)" for k8sNode reason
    unfolding processHealthCheckFailed_def by (intro keepsLog_code processSetUnhealthy_safe assms)
  show ?thesis unfolding processDegradedNode_def recordingSlurm_simps
    by (intro keepsLog_code kill main hc processSetUnhealthy_safe assms)
qed

lemma findDegradedNodes_keeps:
  assumes "\<And>key nodes log. I log \<Longrightarrow> I (log @ [NodesListed key nodes])"
  shows "keepsLog I (findDegradedNodes (recordingSlurm api))"
  unfolding findDegradedNodes_def
proof (rule keepsLog_bindA_success [OF recordingSlurm_clients(2)])
  fix clients v v' assume "sk_clients (recordingSlurm api) v = (Inr clients, v')"
  then obtain cs0 where cs: "clients = map (\<lambda>(key, c). (key, recordingNodesClient key c)) cs0"
    by (cases v; cases v') (auto dest: recordingSlurm_clients(1))
  have list: "keepsLog I (sl_ListNodes (recordingNodesClient key c))" for key c
    unfolding recordingSlurm_simps using assms by (rule keepsLog_observed)
  show "keepsLog I (forA (\<lambda>(slurmClusterName, client) degradedNodes.
         bindA (sl_ListNodes client) (\<lambda>slurmNodes.
           ret (fold (\<lambda>node m. case wellKnown node of
               None \<Rightarrow> m | Some node \<Rightarrow> mapAppend slurmClusterName node m) slurmNodes degradedNodes))) clients [])"
    by (rule keepsLog_forA) (use list in \<open>auto simp: cs intro!: keepsLog_bindA keepsLog_basic\<close>)
qed

lemma Reconcile_slurmNodes_safe:
  assumes "namesKept (sk_nodes api)"
  shows "keepsLog writesSafe (Reconcile_slurmNodes fuel (recordingSlurm api) c)"
  unfolding Reconcile_slurmNodes_def
  by (intro keepsLog_code maintenance_safe findDegradedNodes_keeps forErrs_keeps errorsJoined_keeps processDegradedNode_safe seen_safe assms)

text \<open>
  C34: a condition that lets a Kubernetes node be drained, rebooted or replaced is written by the controller only right
  after it has seen that the node is empty: every write of a node object is directly preceded by the list of the worker
  pods on that node and by the answer of Slurm, for each of them, that its node is idle, drained and not completing.
\<close>

theorem Reconcile_slurmNodes_writes:
  assumes "namesKept (sk_nodes api)" "Reconcile_slurmNodes fuel (recordingSlurm api) c (w, []) = (r, (w', log))"
    and "log = pre @ StatusWritten node # post"
  shows "\<exists>before pods nodes. pre = before @ PodsSeen (nodeName_of node) pods # map2 (\<lambda>pod. NodeSeen (podCluster pod) (om_name (ck_meta pod))) pods nodes
    \<and> length nodes = length pods \<and> list_all fullyDrained nodes"
proof -
  have "writesSafe log" by (rule keepsLogD [OF Reconcile_slurmNodes_safe [OF assms(1)] assms(2)]) (simp add: writesSafe_def)
  then show ?thesis using assms(3) unfolding writesSafe_def endsDrained_def by blast
qed
section \<open>What is undrained\<close>

text \<open>Slurm listed the node as drained, for a reason of the given kind.\<close>

definition listedFor :: "checksEvent list \<Rightarrow> objectKey \<Rightarrow> string \<Rightarrow> string \<Rightarrow> bool" where
  "listedFor log key name kind \<longleftrightarrow> (\<exists>nodes node r. NodesListed key nodes \<in> set log \<and> node \<in> set nodes \<and> n_Name node = name
     \<and> StateDRAIN \<in> set (n_States node) \<and> n_Reason node = Some r \<and> find (contains (nr_Reason r)) SlurmNodeReasonsList = Some kind)"

definition mayUndrain :: "SlurmNodesController \<Rightarrow> checksEvent list \<Rightarrow> objectKey \<Rightarrow> string \<Rightarrow> bool" where
  "mayUndrain c log key name \<longleftrightarrow> (\<exists>kind. listedFor log key name kind \<and> kind \<noteq> SlurmUserReasonHC
     \<and> (kind = SlurmNodeReasonHC \<or> kind = SlurmHardwareReasonHC \<longrightarrow> sn_enabledNodeReplacement c))"

definition undrainsOk :: "SlurmNodesController \<Rightarrow> checksEvent list \<Rightarrow> bool" where
  "undrainsOk c log \<longleftrightarrow> (\<forall>key name msg. Posted key name msg \<in> set log \<longrightarrow> un_State msg = Some [UpdateUNDRAIN] \<longrightarrow> mayUndrain c log key name)"

lemma listedFor_append: "listedFor log key name kind \<Longrightarrow> listedFor (log @ evs) key name kind"
  unfolding listedFor_def set_append by blast

lemma mayUndrain_append: "mayUndrain c log key name \<Longrightarrow> mayUndrain c (log @ evs) key name"
  unfolding mayUndrain_def using listedFor_append by metis

text \<open>The record with the nodes that are still to be looked at.\<close>

definition undrainInv :: "SlurmNodesController \<Rightarrow> (objectKey \<times> string \<times> string) list \<Rightarrow> checksEvent list \<Rightarrow> bool" where
  "undrainInv c known log \<longleftrightarrow> undrainsOk c log \<and> (\<forall>key name kind. (key, name, kind) \<in> set known \<longrightarrow> listedFor log key name kind)"

lemma undrainInv_other:
  assumes "undrainInv c known log" "\<And>key name msg. ev = Posted key name msg \<Longrightarrow> un_State msg = Some [UpdateUNDRAIN] \<Longrightarrow> mayUndrain c log key name"
  shows "undrainInv c known (log @ [ev])"
proof -
  have "mayUndrain c (log @ [ev]) key name" if "Posted key name msg \<in> set (log @ [ev])" "un_State msg = Some [UpdateUNDRAIN]" for key name msg
  proof (cases "ev = Posted key name msg")
    case True
    then show ?thesis using assms(2) that(2) mayUndrain_append by blast
  next
    case False
    then have "Posted key name msg \<in> set log" using that(1) by auto
    then show ?thesis using assms(1) that(2) mayUndrain_append unfolding undrainInv_def undrainsOk_def by blast
  qed
  then show ?thesis using assms(1) listedFor_append unfolding undrainInv_def undrainsOk_def by metis
qed

lemma undrainInv_observed:
  "keepsLog (undrainInv c known) (observed (PodsSeen name) m1)" "keepsLog (undrainInv c known) (observed (NodeSeen key n) m2)"
  "keepsLog (undrainInv c known) (recorded (StatusWritten node) m3)"
  by (rule keepsLog_observed keepsLog_recorded; rule undrainInv_other; simp)+

lemma postNode_keeps:
  assumes "un_State msg = Some [UpdateUNDRAIN] \<Longrightarrow> \<exists>kind. (key, n, kind) \<in> set known \<and> kind \<noteq> SlurmUserReasonHC
      \<and> (kind = SlurmNodeReasonHC \<or> kind = SlurmHardwareReasonHC \<longrightarrow> sn_enabledNodeReplacement c)"
  shows "keepsLog (undrainInv c known) (postNode (recordingSlurm api) key n what msg)"
  unfolding postNode_def
proof (rule keepsLog_bindA_success [OF GetClient_keeps])
  fix client v v' assume "GetClient (recordingSlurm api) key v = (Inr client, v')"
  then obtain cl where cl: "client = recordingNodesClient key cl" using recordingClient_get by (metis prod.collapse)
  have "undrainInv c known (log @ [Posted key n msg])" if inv: "undrainInv c known log" for log
  proof (rule undrainInv_other [OF inv])
    have "mayUndrain c log key n" if "un_State msg = Some [UpdateUNDRAIN]"
      using assms [OF that] inv unfolding undrainInv_def mayUndrain_def by metis
    then show "Posted key n msg = Posted key' name' msg' \<Longrightarrow> un_State msg' = Some [UpdateUNDRAIN] \<Longrightarrow> mayUndrain c log key' name'" for key' name' msg'
      by simp
  qed
  then have "keepsLog (undrainInv c known) (recorded (Posted key n msg) m)" for m :: "('a, unit restResponse) action" by (rule keepsLog_recorded)
  then show "keepsLog (undrainInv c known) (bindA (wrapA (''post '' @ what @ '' slurm node: %w'') [] (nl_PostNode client n msg)) (\<lambda>resp.
       case rs_JSON200 resp of None \<Rightarrow> raise nilDereference
       | Some (errors, _) \<Rightarrow> if hasErrors errors then raise (Errorf (''post '' @ what @ '' returned errors: %v'') (the errors)) else ret ()))"
    unfolding cl recordingSlurm_simps by (intro keepsLog_code)
qed

named_theorems keepsUndrain \<open>calls that keep the record of undrain requests\<close>

lemma drainSlurmNode_keeps [keepsUndrain]: "keepsLog (undrainInv c known) (drainSlurmNode (recordingSlurm api) key n reason)"
  unfolding drainSlurmNode_def by (rule postNode_keeps) simp

lemma listWorkerPods_keeps [keepsUndrain]: "keepsLog (undrainInv c known) (listWorkerPods (recordingSlurm api) name)"
  unfolding listWorkerPods_def recordingSlurm_simps by (intro keepsLog_wrapA undrainInv_observed)

lemma getSlurmNode_keeps [keepsUndrain]: "keepsLog (undrainInv c known) (getSlurmNode (recordingSlurm api) key n)"
  unfolding getSlurmNode_def
proof (rule keepsLog_bindA_success [OF GetClient_keeps])
  fix client v v' assume "GetClient (recordingSlurm api) key v = (Inr client, v')"
  then obtain cl where "client = recordingNodesClient key cl" using recordingClient_get by (metis prod.collapse)
  then show "keepsLog (undrainInv c known) (wrapA ''get node: %w'' [] (nl_GetNode client n))"
    by (simp add: recordingSlurm_simps) (intro keepsLog_wrapA undrainInv_observed)
qed

lemma fullyDrained_keeps [keepsUndrain]: "keepsLog (undrainInv c known) (slurmNodesFullyDrained (recordingSlurm api) name)"
proof -
  have "keepsLog (undrainInv c known) (allFullyDrained (recordingSlurm api) pods)" for pods
  proof (induction pods)
    case (Cons pod pods)
    then show ?case unfolding allFullyDrained.simps Let_def by (intro keepsLog_code keepsUndrain)
  qed (simp only: allFullyDrained.simps keepsLog_basic)
  then show ?thesis unfolding slurmNodesFullyDrained_def by (intro keepsLog_bindA keepsUndrain)
qed

lemma setK8SNodeCondition_keeps [keepsUndrain]: "keepsLog (undrainInv c known) (setK8SNodeCondition (recordingWrites nodes) name cond)"
  unfolding setK8SNodeCondition_def recordingSlurm_simps by (intro keepsLog_code undrainInv_observed)

lemma conditionUpdate_keeps [keepsUndrain]:
  "keepsLog (undrainInv c known) (drainSlurmNodesWithConditionUpdate (recordingSlurm api) name reason cond)"
  unfolding drainSlurmNodesWithConditionUpdate_def drainSlurmNodes_def recordingSlurm_simps
  by (intro keepsLog_code forErrs_keeps errorsJoined_keeps keepsUndrain)

lemma maintenance_keeps: "keepsLog (undrainInv c known) (processK8SNodesMaintenance fuel (recordingSlurm api) ctl token)"
proof (induction fuel arbitrary: token)
  case 0
  show ?case unfolding processK8SNodesMaintenance.simps by (rule keepsLog_basic)
next
  case (Suc fuel)
  have drain: "keepsLog (undrainInv c known) (bindA (newNodeCondition (sk_nodes (recordingSlurm api)) ty st re msg)
      (drainSlurmNodesWithConditionUpdate (recordingSlurm api) name reason))" for ty st re msg name reason
    by (intro keepsLog_bindA newNodeCondition_keeps keepsUndrain)
  have node: "keepsLog (undrainInv c known) (wrapA f as (processMaintenance ctl n (Some (bindA (newNodeCondition (sk_nodes (recordingSlurm api)) ty st re msg)
      (drainSlurmNodesWithConditionUpdate (recordingSlurm api) name reason))) None))" for f as n ty st re msg name reason
    by (intro keepsLog_wrapA processMaintenance_keeps) (use drain in simp_all)
  show ?case unfolding processK8SNodesMaintenance.simps recordingSlurm_simps(2)
    by (intro keepsLog_code keepsLog_forA node Suc.IH)
qed
lemmas checkReasons = SlurmUserReasonHC_def SlurmNodeReasonHC_def SlurmHardwareReasonHC_def SlurmNodeReasonKillTaskFailed_def
  SlurmNodeReasonNodeReplacement_def SlurmNodeReasonNodeReboot_def SlurmNodeComputeMaintenance_def

lemma undrain_keeps:
  assumes "(key, n, kind) \<in> set known" "kind \<noteq> SlurmUserReasonHC"
    "kind = SlurmNodeReasonHC \<or> kind = SlurmHardwareReasonHC \<Longrightarrow> sn_enabledNodeReplacement c"
  shows "keepsLog (undrainInv c known) (undrainSlurmNode (recordingSlurm api) key n)"
  unfolding undrainSlurmNode_def by (rule postNode_keeps) (use assms in blast)

lemma processSetUnhealthy_keeps:
  assumes "(key, n_Name node, kind) \<in> set known" "kind \<noteq> SlurmUserReasonHC"
  shows "keepsLog (undrainInv c known) (processSetUnhealthy (recordingSlurm api) c k8sNode key node reason)"
proof (cases "sn_enabledNodeReplacement c")
  case True
  have undrain: "keepsLog (undrainInv c known) (undrainSlurmNode (recordingSlurm api) key (n_Name node))"
    by (rule undrain_keeps [OF assms]) (rule True)
  show ?thesis unfolding processSetUnhealthy_def getSlurmNodeAssignmentTime_def recordingSlurm_simps
    by (intro keepsLog_code undrain keepsUndrain newNodeCondition_keeps [of _ api, unfolded recordingSlurm_simps])
qed (simp add: processSetUnhealthy_def keepsLog_def)

lemma processDegradedNode_keeps:
  assumes r: "n_Reason node = Some reason" and known: "(key, n_Name node, nr_Reason reason) \<in> set known"
  shows "keepsLog (undrainInv c known) (processDegradedNode (recordingSlurm api) c key node)"
proof -
  let ?kind = "nr_Reason reason"
  have kill: "keepsLog (undrainInv c known) (processKillTaskFailed (recordingSlurm api) k8sNode key node reason)"
    if "?kind = SlurmNodeReasonKillTaskFailed \<or> ?kind = SlurmNodeReasonNodeReboot" for k8sNode
  proof -
    have "keepsLog (undrainInv c known) (undrainSlurmNode (recordingSlurm api) key (n_Name node))"
      by (rule undrain_keeps [OF known]) (use that in \<open>auto simp: checkReasons\<close>)
    then show ?thesis unfolding processKillTaskFailed_def Let_def by (intro keepsLog_code newNodeCondition_keeps keepsUndrain)
  qed
  have main: "keepsLog (undrainInv c known) (processSlurmNodeMaintenance (recordingSlurm api) c k8sNode key (n_Name node))"
    if "?kind = SlurmNodeReasonNodeReplacement" for k8sNode
  proof -
    have "keepsLog (undrainInv c known) (undrainSlurmNode (recordingSlurm api) key (n_Name node))"
      by (rule undrain_keeps [OF known]) (use that in \<open>auto simp: checkReasons\<close>)
    then show ?thesis unfolding processSlurmNodeMaintenance_def by (intro processMaintenance_keeps) simp_all
  qed
  have un: "keepsLog (undrainInv c known) (processSetUnhealthy (recordingSlurm api) c k8sNode key node reason)"
    if "?kind = SlurmHardwareReasonHC \<or> ?kind = SlurmNodeReasonHC" for k8sNode
    by (rule processSetUnhealthy_keeps [OF known]) (use that in \<open>auto simp: checkReasons\<close>)
  have hc: "keepsLog (undrainInv c known) (processHealthCheckFailed (recordingSlurm api) c k8sNode key node reason)" if "?kind = SlurmNodeReasonHC" for k8sNode
    unfolding processHealthCheckFailed_def using un that by (intro keepsLog_code) blast
  have "keepsLog (undrainInv c known) (case res of
       Inl err \<Rightarrow> if IsNotFound err then ret () else raise (wrapErr ''get k8s node: %w'' [] err)
     | Inr k8sNode \<Rightarrow>
           if ?kind = SlurmNodeReasonKillTaskFailed \<or> ?kind = SlurmNodeReasonNodeReboot
           then processKillTaskFailed (recordingSlurm api) k8sNode key node reason
           else if ?kind = SlurmNodeReasonNodeReplacement then processSlurmNodeMaintenance (recordingSlurm api) c k8sNode key (n_Name node)
           else if ?kind = SlurmHardwareReasonHC then processSetUnhealthy (recordingSlurm api) c k8sNode key node reason
           else if ?kind = SlurmNodeReasonHC then processHealthCheckFailed (recordingSlurm api) c k8sNode key node reason
           else ret ())" for res
    using kill main un hc by (cases res) (auto simp: keepsLog_basic)
  then show ?thesis unfolding processDegradedNode_def recordingSlurm_simps r option.case by (intro keepsLog_tryA keepsLog_basic)
qed

text \<open>The nodes that are looked at were listed.\<close>

definition foundIn :: "checksEvent list \<Rightarrow> objectKey \<Rightarrow> Node \<Rightarrow> bool" where
  "foundIn log key node \<longleftrightarrow> (\<exists>reason. n_Reason node = Some reason \<and> listedFor log key (n_Name node) (nr_Reason reason))"

lemma wellKnown_found:
  assumes "wellKnown node = Some node'" "node \<in> set nodes" "NodesListed key nodes \<in> set log"
  shows "foundIn log key node'"
proof -
  obtain r kind where r: "StateDRAIN \<in> set (n_States node)" "n_Reason node = Some r"
      "find (contains (nr_Reason r)) SlurmNodeReasonsList = Some kind"
      "node' = node\<lparr>n_Reason := Some (r\<lparr>nr_OriginalReason := nr_Reason r, nr_Reason := kind\<rparr>)\<rparr>"
    using assms(1) by (auto simp: wellKnown_def split: if_splits option.splits)
  then have "listedFor log key (n_Name node) kind" using assms(2,3) unfolding listedFor_def by blast
  then show ?thesis using r(4) by (simp add: foundIn_def)
qed

lemma fold_found:
  assumes "\<And>k n. n \<in> set (getList m k) \<Longrightarrow> P k n" "\<And>n n'. n \<in> set nodes \<Longrightarrow> wellKnown n = Some n' \<Longrightarrow> P key n'"
    and "n \<in> set (getList (fold (\<lambda>node m. case wellKnown node of None \<Rightarrow> m | Some node \<Rightarrow> mapAppend key node m) nodes m) k)"
  shows "P k n"
  using assms
proof (induction nodes arbitrary: m)
  case (Cons node nodes)
  let ?m = "case wellKnown node of None \<Rightarrow> m | Some node \<Rightarrow> mapAppend key node m"
  have "P k n" if "n \<in> set (getList ?m k)" for k n
  proof (cases "wellKnown node")
    case (Some node')
    then have "P key node'" using Cons.prems(2) [of node node'] by simp
    then show ?thesis using that Some Cons.prems(1) by (auto simp: getList_mapAppend split: if_splits)
  qed (use that Cons.prems(1) in simp)
  moreover have "P key n'" if "n \<in> set nodes" "wellKnown n = Some n'" for n n' using that Cons.prems(2) by (meson list.set_intros(2))
  ultimately show ?case using Cons.IH [of ?m] Cons.prems(3) by simp
qed simp

lemma findDegradedNodes_found:
  assumes "findDegradedNodes (recordingSlurm api) (w, log) = (Inr m, (w', log'))" "node \<in> set (getList m key)"
  shows "foundIn log' key node"
proof -
  obtain clients v where c: "sk_clients (recordingSlurm api) (w, log) = (Inr clients, v)" and
    loop: "forA (\<lambda>(slurmClusterName, client) degradedNodes. bindA (sl_ListNodes client) (\<lambda>slurmNodes.
           ret (fold (\<lambda>node m. case wellKnown node of
               None \<Rightarrow> m | Some node \<Rightarrow> mapAppend slurmClusterName node m) slurmNodes degradedNodes))) clients [] v = (Inr m, (w', log'))"
    using assms(1) unfolding findDegradedNodes_def bindA_success by (elim exE conjE)
  obtain u l where v: "v = (u, l)" by fastforce
  obtain cs0 where cs: "clients = map (\<lambda>(key, c). (key, recordingNodesClient key c)) cs0"
    using recordingSlurm_clients(1) [OF c [unfolded v]] by (elim exE conjE)
  let ?I = "\<lambda>m (w :: 'a, log). \<forall>key node. node \<in> set (getList m key) \<longrightarrow> foundIn log key node"
  have "?I m (w', log')"
  proof (rule forA_invariant [OF loop, where I = ?I])
    show "?I [] v" by (cases v) (simp add: getList_def)
    fix x and m1 m2 :: "(objectKey, Node list) gomap" and v1 v2
    assume x: "x \<in> set clients" and I: "?I m1 v1"
      and run: "(case x of (slurmClusterName, client) \<Rightarrow> \<lambda>degradedNodes. bindA (sl_ListNodes client) (\<lambda>slurmNodes.
           ret (fold (\<lambda>node m. case wellKnown node of
               None \<Rightarrow> m | Some node \<Rightarrow> mapAppend slurmClusterName node m) slurmNodes degradedNodes))) m1 v1 = (Inr m2, v2)"
    obtain k cl where k: "x = (k, recordingNodesClient k cl)" using x cs by auto
    obtain u log1 where v1: "v1 = (u, log1)" by fastforce
    obtain nodes u' where l: "sl_ListNodes cl u = (Inr nodes, u')" "v2 = (u', log1 @ [NodesListed k nodes])"
        and m2: "m2 = fold (\<lambda>node m. case wellKnown node of None \<Rightarrow> m | Some node \<Rightarrow> mapAppend k node m) nodes m1"
      using run by (auto simp: k v1 bindA_success recordingSlurm_simps observed_def split: prod.splits sum.splits)
    have old: "foundIn (log1 @ [NodesListed k nodes]) key node" if "node \<in> set (getList m1 key)" for key node
      using I that listedFor_append unfolding v1 foundIn_def by blast
    have new: "foundIn (log1 @ [NodesListed k nodes]) k node'" if "node \<in> set nodes" "wellKnown node = Some node'" for node node'
      using wellKnown_found [OF that(2,1), of k "log1 @ [NodesListed k nodes]"] by simp
    show "?I m2 v2" using fold_found [of m1 "foundIn (log1 @ [NodesListed k nodes])" nodes k] old new unfolding m2 l(2) by blast
  qed
  then show ?thesis using assms(2) unfolding prod.case by blast
qed
lemma listed_keeps: "undrainsOk c log \<Longrightarrow> undrainsOk c (log @ [NodesListed key nodes])"
  using undrainInv_other [of c "[]" log "NodesListed key nodes"] by (simp add: undrainInv_def)

lemma undrainsOk_keeps:
  assumes "keepsLog (undrainInv c []) m"
  shows "keepsLog (undrainsOk c) m"
  using assms by (simp add: keepsLog_def undrainInv_def)

definition slurmNodesRest :: "'w slurmChecksApi \<Rightarrow> SlurmNodesController \<Rightarrow> (objectKey, Node list) gomap \<Rightarrow> ('w, int) action" where
  "slurmNodesRest api c degradedNodes =
     bindA (forErrs (\<lambda>(slurmClusterName, node). processDegradedNode api c slurmClusterName node)
       (concat (map (\<lambda>name. map (Pair name) (getList degradedNodes name)) (sk_order api (map fst degradedNodes))))) (\<lambda>errs.
     bindA (errorsJoined errs) (\<lambda>_. ret (sn_requeueAfter c)))"

lemma slurmNodesRest_undrainsOk:
  assumes run: "slurmNodesRest (recordingSlurm api) c m (w, log) = (r, (w', log'))" and ok: "undrainsOk c log"
    and found: "\<And>key node. node \<in> set (getList m key) \<Longrightarrow> foundIn log key node"
  shows "undrainsOk c log'"
proof -
  let ?xs = "concat (map (\<lambda>name. map (Pair name) (getList m name)) (sk_order api (map fst m)))"
  let ?known = "map (\<lambda>(key, node). (key, n_Name node, nr_Reason (the (n_Reason node)))) ?xs"
  have each: "foundIn log key node" if "(key, node) \<in> set ?xs" for key node using that found by auto
  have "listedFor log key name kind" if "(key, name, kind) \<in> set ?known" for key name kind
    using that each unfolding foundIn_def by fastforce
  then have inv: "undrainInv c ?known log" using ok unfolding undrainInv_def by blast
  have one: "keepsLog (undrainInv c ?known) (processDegradedNode (recordingSlurm api) c key node)" if in_xs: "(key, node) \<in> set ?xs" for key node
  proof -
    obtain reason where reason: "n_Reason node = Some reason" using each [OF in_xs] unfolding foundIn_def by blast
    have "(key, n_Name node, nr_Reason reason) \<in> set ?known" using imageI [OF in_xs, of "\<lambda>(key, node). (key, n_Name node, nr_Reason (the (n_Reason node)))"] reason by simp
    then show ?thesis by (rule processDegradedNode_keeps [OF reason])
  qed
  have "keepsLog (undrainInv c ?known) (case x of (slurmClusterName, node) \<Rightarrow> processDegradedNode (recordingSlurm api) c slurmClusterName node)"
    if "x \<in> set ?xs" for x using one [of "fst x" "snd x"] that by (simp only: prod.collapse case_prod_unfold)
  then have keeps: "keepsLog (undrainInv c ?known) (slurmNodesRest (recordingSlurm api) c m)"
    unfolding slurmNodesRest_def recordingSlurm_simps by (intro keepsLog_bindA keepsLog_basic forErrs_keeps errorsJoined_keeps)
  have "undrainInv c ?known log'" by (rule keepsLogD [OF keeps run inv])
  then show ?thesis by (simp add: undrainInv_def)
qed

lemma Reconcile_undrainsOk:
  assumes run: "Reconcile_slurmNodes fuel (recordingSlurm api) c (w, []) = (r, (w', log))"
  shows "undrainsOk c log"
proof -
  have whole: "Reconcile_slurmNodes fuel (recordingSlurm api) c = bindA (processK8SNodesMaintenance fuel (recordingSlurm api) c []) (\<lambda>_.
      bindA (findDegradedNodes (recordingSlurm api)) (slurmNodesRest (recordingSlurm api) c))"
    by (simp add: Reconcile_slurmNodes_def slurmNodesRest_def [abs_def])
  have start: "undrainsOk c []" by (simp add: undrainsOk_def)
  obtain r0 v0 l0 where m: "processK8SNodesMaintenance fuel (recordingSlurm api) c [] (w, []) = (r0, (v0, l0))" by (metis prod.collapse)
  have ok0: "undrainsOk c l0" by (rule keepsLogD [OF undrainsOk_keeps [OF maintenance_keeps] m start])
  obtain r1 v1 l1 where f: "findDegradedNodes (recordingSlurm api) (v0, l0) = (r1, (v1, l1))" by (metis prod.collapse)
  have "keepsLog (undrainsOk c) (findDegradedNodes (recordingSlurm api))" by (rule findDegradedNodes_keeps) (rule listed_keeps)
  then have ok1: "undrainsOk c l1" using f ok0 by (rule keepsLogD)
  show ?thesis
  proof (cases r0)
    case (Inl e)
    then show ?thesis using run m ok0 by (simp add: whole bindA_def)
  next
    case r0: (Inr u)
    show ?thesis
    proof (cases r1)
      case (Inl e)
      then show ?thesis using run m r0 f ok1 by (simp add: whole bindA_def)
    next
      case (Inr mp)
      then have rest: "slurmNodesRest (recordingSlurm api) c mp (v1, l1) = (r, (w', log))" using run m r0 f by (simp add: whole bindA_def)
      show ?thesis by (rule slurmNodesRest_undrainsOk [OF rest ok1]) (rule findDegradedNodes_found [OF f [unfolded Inr]])
    qed
  qed
qed

text \<open>
  C35: the controller undrains a Slurm node only if Slurm listed it in the same reconciliation as drained for one
  of the reasons that the controller acts on, looked up in their order: a node that was drained for another reason, or by a
  user's health check, is left drained; and so is one drained by a health check of the node or its hardware unless the replacement of
  nodes is enabled.
\<close>

theorem Reconcile_slurmNodes_undrains:
  assumes run: "Reconcile_slurmNodes fuel (recordingSlurm api) c (w, []) = (r, (w', log))"
    and posted: "Posted key name msg \<in> set log" "un_State msg = Some [UpdateUNDRAIN]"
  shows "\<exists>nodes node reason kind. NodesListed key nodes \<in> set log \<and> node \<in> set nodes \<and> n_Name node = name \<and> StateDRAIN \<in> set (n_States node)
    \<and> n_Reason node = Some reason \<and> find (contains (nr_Reason reason)) SlurmNodeReasonsList = Some kind \<and> kind \<noteq> SlurmUserReasonHC
    \<and> (kind = SlurmNodeReasonHC \<or> kind = SlurmHardwareReasonHC \<longrightarrow> sn_enabledNodeReplacement c)"
proof -
  have "undrainsOk c log" by (rule Reconcile_undrainsOk [OF run])
  then show ?thesis using posted unfolding undrainsOk_def mayUndrain_def listedFor_def by blast
qed
section \<open>The paged loop ends\<close>

lemma bindA_cong_success: "(\<And>a w'. m w = (Inr a, w') \<Longrightarrow> k a w' = k' a w') \<Longrightarrow> bindA m k w = bindA m k' w"
  by (auto simp: bindA_def split: prod.split sum.split)

text \<open>
  When the continuation tokens of the listing make progress, as they do for a list of finitely many nodes, fuel beyond the rank of the
  first token changes nothing: the loop has ended.
\<close>

lemma maintenance_fuel:
  assumes rank: "\<And>limit token w items continue w'. sk_listNodes api limit token w = (Inr (items, continue), w') \<Longrightarrow> continue \<noteq> [] \<Longrightarrow> rank continue < (rank token :: nat)"
  shows "rank token < fuel \<Longrightarrow> processK8SNodesMaintenance (Suc fuel) api c token w = processK8SNodesMaintenance fuel api c token w"
proof (induction fuel arbitrary: token w)
  case (Suc fuel)
  let ?list = "wrapA ''list k8s nodes: %w'' [] (wrapA ''list nodes: %w'' [] (sk_listNodes api DefaultLimit token))"
  have next_page: "(if continue = [] then ret () else processK8SNodesMaintenance (Suc fuel) api c continue) w2
      = (if continue = [] then ret () else processK8SNodesMaintenance fuel api c continue) w2"
    if "?list w = (Inr (items, continue), w1)" for items continue w1 w2
  proof (cases "continue = []")
    case False
    then have "rank continue < fuel" using rank [of DefaultLimit token w items continue w1] that Suc.prems by (simp add: wrapA_success)
    then show ?thesis using Suc.IH False by simp
  qed simp
  show ?case
    unfolding processK8SNodesMaintenance.simps(2) [of "Suc fuel" api c token] processK8SNodesMaintenance.simps(2) [of fuel api c token]
    by (rule bindA_cong_success, simp only: split_paired_all prod.case, rule bindA_cong_success, rule next_page, assumption)
qed simp
section \<open>A cluster of one node\<close>

definition exampleWorld :: nodeWorld where
  "exampleWorld = \<lparr>nw_life = \<lparr>rw_node = \<lparr>rn_name = ''n1'', rn_unschedulable = False, rn_taints = [], rn_conditions =
       [\<lparr>nc_Type = DefaultMaintenanceConditionType, nc_Status = ConditionTrue, nc_Reason = [], nc_Message = [], nc_LastTransitionTime = 2\<rparr>,
        \<lparr>nc_Type = SoperatorChecksK8SNodeDegraded, nc_Status = ConditionFalse, nc_Reason = [], nc_Message = [], nc_LastTransitionTime = 4000000000\<rparr>]\<rparr>,
     rw_pods = [], rw_now = 5000000000, rw_boot = 1, rw_reboots = 0\<rparr>, nw_labels = [], nw_created = 1, nw_exists = True\<rparr>"

definition drainedNode_w0 :: Node where
  "drainedNode_w0 = \<lparr>n_Name = ''w-0'', n_ClusterName = ''c'', n_InstanceID = ''n1'', n_States = [StateIDLE, StateDRAIN],
     n_Reason = Some \<lparr>nr_Reason = ''Kill task failed (root)'', nr_OriginalReason = [], nr_ChangedAt = 3\<rparr>, n_Partitions = [], n_Tres = [],
     n_Address = [], n_BootTime = None, n_Comment = [], n_Reservation = [], n_CPUs = None, n_AllocCPUs = None, n_AllocIdleCPUs = None,
     n_EffectiveCPUs = None, n_AllocMemoryMB = None, n_RealMemoryMB = None, n_FreeMemoryMB = None, n_SpecializedMemoryMB = None\<rparr>"

definition pod_w0 :: checkPod where
  "pod_w0 = \<lparr>ck_meta = \<lparr>om_name = ''w-0'', om_namespace = ''ns'', om_labels = [(LabelInstanceKey, ''c'')], om_annotations = []\<rparr>, ck_conditions = []\<rparr>"

definition exampleNodesClient :: "nodeWorld nodesClient" where
  "exampleNodesClient = \<lparr>sl_ListNodes = ret [drainedNode_w0], sl_UndrainNode = (\<lambda>name. ret ()), sl_RebootNodes = (\<lambda>req. ret ()),
     nl_GetNode = (\<lambda>name. ret drainedNode_w0), nl_PostNode = (\<lambda>name msg. ret \<lparr>rs_JSON200 = Some (None, ()), rs_StatusCode = 200, rs_Body = []\<rparr>)\<rparr>"

definition namedChecks :: "nodeWorld checksApi" where
  "namedChecks = memChecks\<lparr>kc_getNode := (\<lambda>name w. (if nw_exists w \<and> rn_name (rw_node (nw_life w)) = name then Inr (nodeObj w) else Inl (ApiError ReasonNotFound), w))\<rparr>"

definition exampleSlurmChecks :: "nodeWorld slurmChecksApi" where
  "exampleSlurmChecks = \<lparr>sk_nodes = namedChecks, sk_listNodes = (\<lambda>limit token w. (Inr ([nodeObj w], []), w)), sk_listPods = (\<lambda>name labels. ret [pod_w0]),
     sk_getPod = (\<lambda>key. ret pod_w0), sk_clients = ret [((''ns'', ''c''), exampleNodesClient)], sk_order = (\<lambda>keys. keys)\<rparr>"

definition exampleSlurmNodes :: SlurmNodesController where
  "exampleSlurmNodes = NewSlurmNodesController 60 True []"

definition exampleChecksLog :: "checksEvent list" where
  "exampleChecksLog = snd (snd (Reconcile_slurmNodes 1 (recordingSlurm exampleSlurmChecks) exampleSlurmNodes (exampleWorld, [])))"

lemma exampleChecks_run:
  "Reconcile_slurmNodes 1 (recordingSlurm exampleSlurmChecks) exampleSlurmNodes (exampleWorld, [])
    = (fst (Reconcile_slurmNodes 1 (recordingSlurm exampleSlurmChecks) exampleSlurmNodes (exampleWorld, [])),
       (fst (snd (Reconcile_slurmNodes 1 (recordingSlurm exampleSlurmChecks) exampleSlurmNodes (exampleWorld, []))), exampleChecksLog))"
  by (simp add: exampleChecksLog_def)

definition writtenNode :: k8sNodeObj where
  "writtenNode = withConds (nodeConds (nodeObj exampleWorld) @ [\<lparr>nc_Type = SoperatorChecksK8SNodeMaintenance, nc_Status = ConditionTrue,
     nc_Reason = ReasonNodeDraining, nc_Message = MessageMaintenanceScheduled, nc_LastTransitionTime = 5000000000\<rparr>]) (nodeObj exampleWorld)"

lemma exampleChecksLog_shape:
  "exampleChecksLog = [PodsSeen ''n1'' [pod_w0], Posted (''ns'', ''c'') ''w-0'' \<lparr>un_Reason = Some SlurmNodeReasonNodeReplacement, un_State = Some [UpdateDRAIN]\<rparr>,
     PodsSeen ''n1'' [pod_w0], NodeSeen (''ns'', ''c'') ''w-0'' drainedNode_w0] @ StatusWritten writtenNode
     # [NodesListed (''ns'', ''c'') [drainedNode_w0], Posted (''ns'', ''c'') ''w-0'' \<lparr>un_Reason = None, un_State = Some [UpdateUNDRAIN]\<rparr>]"
  by code_simp

theorem Reconcile_slurmNodes_writes_witness:
  "\<exists>pods nodes. PodsSeen (nodeName_of writtenNode) pods \<in> set exampleChecksLog \<and> length nodes = length pods \<and> list_all fullyDrained nodes"
proof -
  have "namesKept (sk_nodes exampleSlurmChecks)" by (auto simp: namesKept_def exampleSlurmChecks_def namedChecks_def nodeObj_def nodeName_of_def split: if_splits)
  from Reconcile_slurmNodes_writes [OF this exampleChecks_run exampleChecksLog_shape]
  obtain before pods nodes where "[PodsSeen ''n1'' [pod_w0], Posted (''ns'', ''c'') ''w-0'' \<lparr>un_Reason = Some SlurmNodeReasonNodeReplacement, un_State = Some [UpdateDRAIN]\<rparr>,
      PodsSeen ''n1'' [pod_w0], NodeSeen (''ns'', ''c'') ''w-0'' drainedNode_w0]
      = before @ PodsSeen (nodeName_of writtenNode) pods # map2 (\<lambda>pod. NodeSeen (podCluster pod) (om_name (ck_meta pod))) pods nodes"
    and ok: "length nodes = length pods" "list_all fullyDrained nodes" by (elim exE conjE)
  then have "PodsSeen (nodeName_of writtenNode) pods \<in> set exampleChecksLog" unfolding exampleChecksLog_shape by simp
  with ok show ?thesis by (intro exI conjI)
qed

theorem Reconcile_slurmNodes_undrains_witness:
  "\<exists>nodes node. NodesListed (''ns'', ''c'') nodes \<in> set exampleChecksLog \<and> node \<in> set nodes \<and> n_Name node = ''w-0'' \<and> StateDRAIN \<in> set (n_States node)"
proof -
  have "Posted (''ns'', ''c'') ''w-0'' \<lparr>un_Reason = None, un_State = Some [UpdateUNDRAIN]\<rparr> \<in> set exampleChecksLog" unfolding exampleChecksLog_shape by simp
  from Reconcile_slurmNodes_undrains [OF exampleChecks_run this] show ?thesis by auto
qed

end
