(* ===== verification/Node_Cache.thy ===== *)
theory Node_Cache
  imports Slurm_Client
begin

text \<open>
  The cache of Slurm nodes and the set of clients: internal/slurmapi/node\_cache.go and client\_set.go. The cache
  is written by one goroutine and read by others: the two halves of refresh, which are the points where it stores a snapshot, are
  steps of a relation in which time passes, and readers may look at any moment. Times are nanoseconds.
\<close>

section \<open>The cache\<close>

definition minute :: int where "minute = 60 * second"
definition nodeCacheRequestTimeout :: int where "nodeCacheRequestTimeout = 2 * minute"
definition nodeCacheStalenessTimeout :: int where "nodeCacheStalenessTimeout = 3 * minute"

record cacheSnapshot =
  sn_nodes :: "(string, Node) gomap"
  sn_at :: int

record 'c NodeCache =
  na_client :: 'c
  na_refreshInterval :: int
  na_snapshot :: "cacheSnapshot option"
  na_ready :: bool

definition StartNodeCache :: "'c \<Rightarrow> int \<Rightarrow> 'c NodeCache" where
  "StartNodeCache client refreshInterval =
     \<lparr>na_client = client, na_refreshInterval = refreshInterval, na_snapshot = None, na_ready = False\<rparr>"

text \<open>The outcomes that WaitReady may choose from, none while it blocks: the cache is ready, or the context is done.\<close>

definition WaitReady :: "'c NodeCache \<Rightarrow> goError option \<Rightarrow> goError option list" where
  "WaitReady nc ctxErr = (if na_ready nc then [None] else []) @ (case ctxErr of None \<Rightarrow> [] | Some err \<Rightarrow> [Some err])"

definition GetNode_cache :: "'c NodeCache \<Rightarrow> string \<Rightarrow> Node option" where
  "GetNode_cache nc name = (case na_snapshot nc of None \<Rightarrow> None | Some s \<Rightarrow> map_of (sn_nodes s) name)"

text \<open>The start of refresh, at the given time: a snapshot that is too old is cleared.\<close>

definition clearStale :: "int \<Rightarrow> 'c NodeCache \<Rightarrow> 'c NodeCache" where
  "clearStale now nc = (case na_snapshot nc of
     None \<Rightarrow> nc
   | Some s \<Rightarrow> if now - sn_at s > nodeCacheStalenessTimeout then nc\<lparr>na_snapshot := None\<rparr> else nc)"

text \<open>The end of refresh, with the answer of ListNodes and the time of the end.\<close>

definition storeNodes :: "int \<Rightarrow> goError + Node list \<Rightarrow> 'c NodeCache \<Rightarrow> bool \<times> 'c NodeCache" where
  "storeNodes now answer nc = (case answer of
     Inl err \<Rightarrow> (False, nc)
   | Inr nodes \<Rightarrow> (True, nc\<lparr>na_snapshot := Some \<lparr>sn_nodes = fold (\<lambda>n. mapPut (n_Name n) n) nodes [], sn_at = now\<rparr>\<rparr>))"

text \<open>refresh as a whole, for a client that lists nodes and a clock.\<close>

definition refresh :: "('w, Node list) action \<Rightarrow> ('w, int) action \<Rightarrow> 'c NodeCache \<Rightarrow> ('w, bool \<times> 'c NodeCache) action" where
  "refresh list clock nc = bindA clock (\<lambda>start. let nc = clearStale start nc in
     tryA list (\<lambda>answer. bindA clock (\<lambda>now. ret (storeNodes now answer nc))))"

text \<open>The first refresh that succeeds closes the channel that WaitReady waits for.\<close>

definition afterRefresh :: "bool \<times> 'c NodeCache \<Rightarrow> 'c NodeCache" where
  "afterRefresh = (\<lambda>(ok, nc). if ok then nc\<lparr>na_ready := True\<rparr> else nc)"

section \<open>The goroutine in time\<close>

text \<open>
  What run does: it waits for the next tick or is in a refresh that began at some time. Ticks come at intervals, and
  one that came while a refresh was running is still there at its end; the next one is due at most an interval after it. A step is
  late by at most \<open>delay\<close>, the scheduling of the goroutine; a request ends when its context does, after nodeCacheRequestTimeout.
  The answers of Slurm are recorded with their times.
\<close>

datatype cachePhase = Waiting int | Refreshing int

record 'c cacheState =
  st_cache :: "'c NodeCache"
  st_phase :: cachePhase
  st_now :: int
  st_answers :: "(int \<times> Node list) list"

definition deadline :: "int \<Rightarrow> cachePhase \<Rightarrow> int" where
  "deadline delay phase = delay + (case phase of Waiting due \<Rightarrow> due | Refreshing start \<Rightarrow> start + nodeCacheRequestTimeout)"

definition answered :: "int \<Rightarrow> goError + Node list \<Rightarrow> (int \<times> Node list) list" where
  "answered now answer = (case answer of Inl e \<Rightarrow> [] | Inr nodes \<Rightarrow> [(now, nodes)])"

inductive cacheStep :: "int \<Rightarrow> 'c cacheState \<Rightarrow> 'c cacheState \<Rightarrow> bool" for delay where
  time: "0 \<le> t \<Longrightarrow> st_now s + t \<le> deadline delay (st_phase s) \<Longrightarrow> cacheStep delay s (s\<lparr>st_now := st_now s + t\<rparr>)"
| begin_refresh: "st_phase s = Waiting due \<Longrightarrow> due \<le> st_now s \<Longrightarrow>
    cacheStep delay s (s\<lparr>st_cache := clearStale (st_now s) (st_cache s), st_phase := Refreshing (st_now s)\<rparr>)"
| end_refresh: "st_phase s = Refreshing start \<Longrightarrow> due \<le> st_now s + na_refreshInterval (st_cache s) \<Longrightarrow>
    cacheStep delay s (s\<lparr>st_cache := afterRefresh (storeNodes (st_now s) answer (st_cache s)),
      st_phase := Waiting (max (st_now s) due), st_answers := answered (st_now s) answer @ st_answers s\<rparr>)"

inductive_cases cacheStepE: "cacheStep delay s s'"

definition started :: "'c \<Rightarrow> int \<Rightarrow> int \<Rightarrow> 'c cacheState" where
  "started client interval now = \<lparr>st_cache = StartNodeCache client interval, st_phase = Refreshing now, st_now = now, st_answers = []\<rparr>"

text \<open>The age of a snapshot is bounded by where the goroutine is.\<close>

definition youngFor :: "int \<Rightarrow> int \<Rightarrow> cachePhase \<Rightarrow> int \<Rightarrow> bool" where
  "youngFor delay interval phase at \<longleftrightarrow> (case phase of
     Refreshing start \<Rightarrow> start - at \<le> nodeCacheStalenessTimeout
   | Waiting due \<Rightarrow> due - at \<le> nodeCacheStalenessTimeout + nodeCacheRequestTimeout + delay + interval)"

definition cacheInv :: "int \<Rightarrow> int \<Rightarrow> 'c cacheState \<Rightarrow> bool" where
  "cacheInv delay interval s \<longleftrightarrow> na_refreshInterval (st_cache s) = interval \<and> st_now s \<le> deadline delay (st_phase s)
     \<and> (case na_snapshot (st_cache s) of None \<Rightarrow> True | Some sn \<Rightarrow> youngFor delay interval (st_phase s) (sn_at sn) \<and> sn_at sn \<le> st_now s
         \<and> (\<exists>nodes. (sn_at sn, nodes) \<in> set (st_answers s) \<and> sn_nodes sn = fold (\<lambda>n. mapPut (n_Name n) n) nodes []))
     \<and> (na_ready (st_cache s) \<longleftrightarrow> st_answers s \<noteq> [])"

lemma cacheInv_started: "0 \<le> delay \<Longrightarrow> cacheInv delay interval (started client interval now)"
  by (simp add: cacheInv_def started_def StartNodeCache_def deadline_def nodeCacheRequestTimeout_def minute_def second_def)

lemma cacheInv_step:
  assumes "cacheStep delay s s'" "cacheInv delay interval s" "0 \<le> delay" "0 \<le> interval"
  shows "cacheInv delay interval s'"
  using assms(1)
proof cases
  case (time t)
  then show ?thesis using assms(2) by (auto simp: cacheInv_def split: option.splits)
next
  case (begin_refresh due)
  then show ?thesis using assms(2,3)
    by (auto simp: cacheInv_def clearStale_def youngFor_def deadline_def nodeCacheRequestTimeout_def minute_def second_def split: option.splits)
next
  case (end_refresh start due answer)
  then have now: "st_now s \<le> delay + (start + nodeCacheRequestTimeout)" using assms(2) by (simp add: cacheInv_def deadline_def)
  show ?thesis
  proof (cases answer)
    case (Inl e)
    then show ?thesis using end_refresh now assms(2,3,4)
      by (auto simp: cacheInv_def storeNodes_def afterRefresh_def answered_def deadline_def youngFor_def split: option.splits)
  next
    case (Inr nodes)
    have pos: "0 \<le> nodeCacheStalenessTimeout" "0 \<le> nodeCacheRequestTimeout"
      by (simp_all add: nodeCacheStalenessTimeout_def nodeCacheRequestTimeout_def minute_def second_def)
    show ?thesis using Inr end_refresh pos assms(2,3,4)
      by (auto simp: cacheInv_def storeNodes_def afterRefresh_def answered_def deadline_def youngFor_def)
  qed
qed

lemma map_of_storedNodes:
  "map_of (fold (\<lambda>n. mapPut (n_Name n) n) nodes m) k = Some node \<Longrightarrow> map_of m k = Some node \<or> (node \<in> set nodes \<and> n_Name node = k)"
proof (induction nodes arbitrary: m)
  case (Cons n nodes)
  from Cons.IH [of "mapPut (n_Name n) n m"] Cons.prems show ?case by (auto simp: map_of_mapPut split: if_splits)
qed simp


text \<open>The steps are what refresh does when nobody else looks: its two halves with the clock in between.\<close>

lemma refresh_halves:
  assumes "clock w = (Inr t0, w1)" "list w1 = (answer, w2)" "clock w2 = (Inr t1, w3)" "\<And>e. answer = Inl e \<Longrightarrow> \<not> isPanic e"
  shows "refresh list clock nc w = (Inr (storeNodes t1 answer (clearStale t0 nc)), w3)"
  using assms by (cases answer) (auto simp: refresh_def bindA_def tryA_def Let_def)

section \<open>The set of clients\<close>

record 'c ClientSet =
  cl_slurmAPIClients :: "(objectKey, 'c) gomap"
  cl_nodeCaches :: "(objectKey, 'c NodeCache) gomap"

definition NewClientSet :: "'c ClientSet" where
  "NewClientSet = \<lparr>cl_slurmAPIClients = [], cl_nodeCaches = []\<rparr>"

definition AddClient :: "objectKey \<Rightarrow> 'c \<Rightarrow> 'c ClientSet \<Rightarrow> 'c ClientSet" where
  "AddClient name client cs = cs\<lparr>cl_slurmAPIClients := mapPut name client (cl_slurmAPIClients cs)\<rparr>"

definition GetClient_set :: "objectKey \<Rightarrow> 'c ClientSet \<Rightarrow> 'c option" where
  "GetClient_set name cs = map_of (cl_slurmAPIClients cs) name"

definition GetClients :: "'c ClientSet \<Rightarrow> (objectKey, 'c) gomap" where
  "GetClients cs = cl_slurmAPIClients cs"

definition EnsureNodeCache :: "objectKey \<Rightarrow> int \<Rightarrow> 'c ClientSet \<Rightarrow> 'c NodeCache option \<times> 'c ClientSet" where
  "EnsureNodeCache name refreshInterval cs = (case map_of (cl_nodeCaches cs) name of
     Some nc \<Rightarrow> (Some nc, cs)
   | None \<Rightarrow> (case map_of (cl_slurmAPIClients cs) name of
       None \<Rightarrow> (None, cs)
     | Some client \<Rightarrow>
         let nc = StartNodeCache client refreshInterval
         in (Some nc, cs\<lparr>cl_nodeCaches := mapPut name nc (cl_nodeCaches cs)\<rparr>)))"

definition GetNodeCache :: "objectKey \<Rightarrow> 'c ClientSet \<Rightarrow> 'c NodeCache option" where
  "GetNodeCache name cs = map_of (cl_nodeCaches cs) name"

text \<open>
  A cache keeps the client it was started with: a client that is added later under the same name, as for a
  cluster that is created anew, is not the one that the cache asks.
\<close>

lemma cache_keeps_client:
  assumes "EnsureNodeCache name interval cs = (Some nc, cs')"
  shows "EnsureNodeCache name interval' (AddClient name client' cs') = (Some nc, AddClient name client' cs')"
    "GetClient_set name (AddClient name client' cs') = Some client'"
  using assms by (auto simp: EnsureNodeCache_def AddClient_def GetClient_set_def map_of_mapPut Let_def split: option.splits)

section \<open>A cache at work\<close>

definition cachedNode :: Node where
  "cachedNode = \<lparr>n_Name = ''w-0'', n_ClusterName = [], n_InstanceID = [], n_States = [StateIDLE], n_Reason = None, n_Partitions = [], n_Tres = [],
     n_Address = [], n_BootTime = None, n_Comment = [], n_Reservation = [], n_CPUs = None, n_AllocCPUs = None, n_AllocIdleCPUs = None,
     n_EffectiveCPUs = None, n_AllocMemoryMB = None, n_RealMemoryMB = None, n_FreeMemoryMB = None, n_SpecializedMemoryMB = None\<rparr>"


end
