(* ===== verification/Naming.thy ===== *)
theory Naming
  imports Go_Path
begin

text \<open>
  The names of the Kubernetes objects of a cluster: internal/naming/naming.go and the constants it uses. Most of them are
  the non-empty ones of the cluster's name, the component's type, a specifier and a suffix, joined by dashes. The lemmas
  say for which objects of a cluster the names are distinct, and show two cases in which they are not.
\<close>

section \<open>Component types\<close>

datatype ComponentType =
  ComponentTypeCommon | ComponentTypeController | ComponentTypeAccounting | ComponentTypeREST | ComponentTypeWorker
| ComponentTypeNodeSet | ComponentTypeNodeConfigurator | ComponentTypeLogin | ComponentTypePopulateJail | ComponentTypeExporter
| ComponentTypeMariaDbOperator | ComponentTypeSConfigController | ComponentTypeSoperatorChecks

fun componentType_String :: "ComponentType \<Rightarrow> string" where
  "componentType_String ComponentTypeCommon = ''common''"
| "componentType_String ComponentTypeController = ''controller''"
| "componentType_String ComponentTypeAccounting = ''accounting''"
| "componentType_String ComponentTypeREST = ''rest''"
| "componentType_String ComponentTypeWorker = ''worker''"
| "componentType_String ComponentTypeNodeSet = ''nodeset''"
| "componentType_String ComponentTypeNodeConfigurator = ''node-configurator''"
| "componentType_String ComponentTypeLogin = ''login''"
| "componentType_String ComponentTypePopulateJail = ''populate-jail''"
| "componentType_String ComponentTypeExporter = ''exporter''"
| "componentType_String ComponentTypeMariaDbOperator = ''mariadb-operator''"
| "componentType_String ComponentTypeSConfigController = ''sconfigcontroller''"
| "componentType_String ComponentTypeSoperatorChecks = ''soperatorchecks''"

section \<open>Labels\<close>

definition LabelManagedByKey :: string where "LabelManagedByKey = ''app.kubernetes.io/managed-by''"
definition LabelManagedByValue :: string where "LabelManagedByValue = ''slurm-operator''"

section \<open>Names\<close>

record namedEntity =
  ne_clusterName :: string
  ne_componentType :: "ComponentType option"
  ne_componentSpecifier :: string
  ne_entity :: string

definition namedEntity_String :: "namedEntity \<Rightarrow> string" where
  "namedEntity_String e = strJoin ''-''
     ((if ne_clusterName e \<noteq> [] then [ne_clusterName e] else [])
      @ (case ne_componentType e of None \<Rightarrow> [] | Some t \<Rightarrow> [componentType_String t])
      @ (if ne_componentSpecifier e \<noteq> [] then [ne_componentSpecifier e] else [])
      @ (if ne_entity e \<noteq> [] then [ne_entity e] else []))"

definition entityService :: string where "entityService = ''svc''"
definition ConfigMapNameSlurmConfigs :: string where "ConfigMapNameSlurmConfigs = ''slurm-configs''"
definition ConfigMapNameSSHDConfigsLogin :: string where "ConfigMapNameSSHDConfigsLogin = ''ssh-configs''"
definition ConfigMapNameSSHDConfigsWorker :: string where "ConfigMapNameSSHDConfigsWorker = ''ssh-configs-worker''"
definition ConfigMapNameSshRootPublicKeys :: string where "ConfigMapNameSshRootPublicKeys = ''ssh-root-keys''"
definition ConfigMapNameSecurityLimits :: string where "ConfigMapNameSecurityLimits = ''security-limits''"
definition ConfigMapNameUserIsolation :: string where "ConfigMapNameUserIsolation = ''user-isolation''"
definition ConfigMapNameSysctl :: string where "ConfigMapNameSysctl = ''sysctl''"
definition ConfigMapNameSupervisord :: string where "ConfigMapNameSupervisord = ''supervisord''"
definition SecretMungeKeyName :: string where "SecretMungeKeyName = ''munge''"
definition SecretSshdKeysName :: string where "SecretSshdKeysName = ''sshd-keys''"
definition SecretSSSDConfName :: string where "SecretSSSDConfName = ''sssd-conf''"
definition JobNamePopulateJail :: string where "JobNamePopulateJail = ''populate-jail''"
definition VolumeMountPathSpool :: string where "VolumeMountPathSpool = ''/var/spool''"
definition SecretSlurmdbdConfigs :: string where "SecretSlurmdbdConfigs = ''slurmdbd-configs''"
definition SecretSlurmRESTJWTKey :: string where "SecretSlurmRESTJWTKey = ''rest-jwt-key''"
definition MariaDbClusterSuffix :: string where "MariaDbClusterSuffix = ''acct-db''"

definition BuildServiceName :: "ComponentType \<Rightarrow> string \<Rightarrow> string" where
  "BuildServiceName componentType clusterName = 
     namedEntity_String \<lparr>ne_clusterName = clusterName, ne_componentType = Some componentType, ne_componentSpecifier = [], ne_entity = entityService\<rparr>"

definition BuildNodeSetServiceName :: "string \<Rightarrow> string \<Rightarrow> string" where
  "BuildNodeSetServiceName clusterName nodeSetName = 
     namedEntity_String \<lparr>ne_clusterName = clusterName, ne_componentType = Some ComponentTypeNodeSet, ne_componentSpecifier = nodeSetName, ne_entity = entityService\<rparr>"

definition BuildServiceFQDN :: "string \<Rightarrow> string \<Rightarrow> string" where
  "BuildServiceFQDN svcName namespace = svcName @ ''.'' @ namespace @ ''.svc.cluster.local''"

definition BuildNodeSetUmbrellaServiceFQDN :: "string \<Rightarrow> string \<Rightarrow> string" where
  "BuildNodeSetUmbrellaServiceFQDN namespace clusterName = BuildServiceFQDN (BuildServiceName ComponentTypeNodeSet clusterName) namespace"

definition BuildAppArmorProfileName :: "string \<Rightarrow> string \<Rightarrow> string" where
  "BuildAppArmorProfileName clusterName namespace = 
     namedEntity_String \<lparr>ne_clusterName = ''soperator-cluster-'' @ clusterName, ne_componentType = None, ne_componentSpecifier = [], ne_entity = ''ns-'' @ namespace\<rparr>"

definition BuildStatefulSetName :: "ComponentType \<Rightarrow> string \<Rightarrow> string" where
  "BuildStatefulSetName componentType clusterName = 
     namedEntity_String \<lparr>ne_clusterName = clusterName, ne_componentType = Some componentType, ne_componentSpecifier = [], ne_entity = []\<rparr>"

definition BuildNodeSetStatefulSetName :: "string \<Rightarrow> string" where
  "BuildNodeSetStatefulSetName nodeSetName = 
     namedEntity_String \<lparr>ne_clusterName = [], ne_componentType = None, ne_componentSpecifier = [], ne_entity = nodeSetName\<rparr>"

definition BuildDaemonSetName :: "ComponentType \<Rightarrow> string \<Rightarrow> string" where
  "BuildDaemonSetName componentType clusterName = 
     namedEntity_String \<lparr>ne_clusterName = clusterName, ne_componentType = Some componentType, ne_componentSpecifier = [], ne_entity = []\<rparr>"

definition BuildDeploymentName :: "ComponentType \<Rightarrow> string \<Rightarrow> string" where
  "BuildDeploymentName componentType clusterName = 
     namedEntity_String \<lparr>ne_clusterName = clusterName, ne_componentType = Some componentType, ne_componentSpecifier = [], ne_entity = []\<rparr>"

definition BuildConfigMapSlurmConfigsName :: "string \<Rightarrow> string" where
  "BuildConfigMapSlurmConfigsName clusterName = 
     namedEntity_String \<lparr>ne_clusterName = clusterName, ne_componentType = None, ne_componentSpecifier = [], ne_entity = ConfigMapNameSlurmConfigs\<rparr>"

definition BuildSecretMungeKeyName :: "string \<Rightarrow> string" where
  "BuildSecretMungeKeyName clusterName = 
     namedEntity_String \<lparr>ne_clusterName = clusterName, ne_componentType = None, ne_componentSpecifier = [], ne_entity = SecretMungeKeyName\<rparr>"

definition BuildConfigMapSSHDConfigsNameLogin :: "string \<Rightarrow> string" where
  "BuildConfigMapSSHDConfigsNameLogin clusterName = 
     namedEntity_String \<lparr>ne_clusterName = clusterName, ne_componentType = None, ne_componentSpecifier = [], ne_entity = ConfigMapNameSSHDConfigsLogin\<rparr>"

definition BuildSecretSSHDKeysName :: "string \<Rightarrow> string" where
  "BuildSecretSSHDKeysName clusterName = 
     namedEntity_String \<lparr>ne_clusterName = clusterName, ne_componentType = None, ne_componentSpecifier = [], ne_entity = SecretSshdKeysName\<rparr>"

definition BuildSecretSSSDConfName :: "string \<Rightarrow> string" where
  "BuildSecretSSSDConfName clusterName = 
     namedEntity_String \<lparr>ne_clusterName = clusterName, ne_componentType = None, ne_componentSpecifier = [], ne_entity = SecretSSSDConfName\<rparr>"

definition BuildNodeSetSecretSSSDConfName :: "string \<Rightarrow> string \<Rightarrow> string" where
  "BuildNodeSetSecretSSSDConfName clusterName nodeSetName = 
     namedEntity_String \<lparr>ne_clusterName = clusterName, ne_componentType = Some ComponentTypeNodeSet, ne_componentSpecifier = nodeSetName, ne_entity = SecretSSSDConfName\<rparr>"

definition BuildConfigMapSshRootPublicKeysName :: "string \<Rightarrow> string" where
  "BuildConfigMapSshRootPublicKeysName clusterName = 
     namedEntity_String \<lparr>ne_clusterName = clusterName, ne_componentType = None, ne_componentSpecifier = [], ne_entity = ConfigMapNameSshRootPublicKeys\<rparr>"

definition BuildConfigMapSecurityLimitsName :: "ComponentType \<Rightarrow> string \<Rightarrow> string" where
  "BuildConfigMapSecurityLimitsName componentType clusterName = 
     namedEntity_String \<lparr>ne_clusterName = clusterName, ne_componentType = Some componentType, ne_componentSpecifier = [], ne_entity = ConfigMapNameSecurityLimits\<rparr>"

definition BuildConfigMapUserIsolationName :: "string \<Rightarrow> string" where
  "BuildConfigMapUserIsolationName clusterName = 
     namedEntity_String \<lparr>ne_clusterName = clusterName, ne_componentType = Some ComponentTypeLogin, ne_componentSpecifier = [], ne_entity = ConfigMapNameUserIsolation\<rparr>"

definition BuildConfigMapSecurityLimitsForNodeSetName :: "string \<Rightarrow> string \<Rightarrow> string" where
  "BuildConfigMapSecurityLimitsForNodeSetName clusterName nodeSetName = 
     namedEntity_String \<lparr>ne_clusterName = clusterName, ne_componentType = Some ComponentTypeNodeSet, ne_componentSpecifier = nodeSetName, ne_entity = ConfigMapNameSecurityLimits\<rparr>"

definition BuildLoginHeadlessServiceName :: "string \<Rightarrow> string" where
  "BuildLoginHeadlessServiceName clusterName = 
     namedEntity_String \<lparr>ne_clusterName = clusterName, ne_componentType = Some ComponentTypeLogin, ne_componentSpecifier = [], ne_entity = ''headless-svc''\<rparr>"

definition BuildLoginHeadlessServiceFQDN :: "string \<Rightarrow> string \<Rightarrow> string" where
  "BuildLoginHeadlessServiceFQDN namespace clusterName = BuildServiceFQDN (BuildLoginHeadlessServiceName clusterName) namespace"

definition BuildConfigMapSSHDConfigsNameWorker :: "string \<Rightarrow> string" where
  "BuildConfigMapSSHDConfigsNameWorker clusterName = 
     namedEntity_String \<lparr>ne_clusterName = clusterName, ne_componentType = None, ne_componentSpecifier = [], ne_entity = ConfigMapNameSSHDConfigsWorker\<rparr>"

definition BuildConfigMapSysctlName :: "string \<Rightarrow> string" where
  "BuildConfigMapSysctlName clusterName = 
     namedEntity_String \<lparr>ne_clusterName = clusterName, ne_componentType = None, ne_componentSpecifier = [], ne_entity = ConfigMapNameSysctl\<rparr>"

definition BuildConfigMapSupervisordName :: "string \<Rightarrow> string" where
  "BuildConfigMapSupervisordName clusterName = 
     namedEntity_String \<lparr>ne_clusterName = clusterName, ne_componentType = None, ne_componentSpecifier = [], ne_entity = ConfigMapNameSupervisord\<rparr>"

definition BuildPopulateJailJobName :: "string \<Rightarrow> string" where
  "BuildPopulateJailJobName clusterName = 
     namedEntity_String \<lparr>ne_clusterName = clusterName, ne_componentType = None, ne_componentSpecifier = [], ne_entity = JobNamePopulateJail\<rparr>"

definition BuildVolumeMountSpoolPath :: "string \<Rightarrow> string" where
  "BuildVolumeMountSpoolPath directory = pathJoin VolumeMountPathSpool directory"

definition BuildServiceAccountNodeSetName :: "string \<Rightarrow> string \<Rightarrow> string" where
  "BuildServiceAccountNodeSetName clusterName nodeSetName = clusterName @ ''-'' @ nodeSetName @ ''-nodeset-sa''"

definition BuildRoleNodeSetName :: "string \<Rightarrow> string \<Rightarrow> string" where
  "BuildRoleNodeSetName clusterName nodeSetName = clusterName @ ''-'' @ nodeSetName @ ''-nodeset-role''"

definition BuildRoleBindingNodeSetName :: "string \<Rightarrow> string \<Rightarrow> string" where
  "BuildRoleBindingNodeSetName clusterName nodeSetName = clusterName @ ''-'' @ nodeSetName @ ''-nodeset-role-binding''"

definition BuildServiceAccountActiveCheckName :: "string \<Rightarrow> string" where
  "BuildServiceAccountActiveCheckName clusterName = clusterName @ ''-activecheck-sa''"

definition BuildRoleActiveCheckName :: "string \<Rightarrow> string" where
  "BuildRoleActiveCheckName clusterName = clusterName @ ''-activecheck-role''"

definition BuildRoleBindingActiveCheckName :: "string \<Rightarrow> string" where
  "BuildRoleBindingActiveCheckName clusterName = clusterName @ ''-activecheck-role-binding''"

definition BuildSecretSlurmdbdConfigsName :: "string \<Rightarrow> string" where
  "BuildSecretSlurmdbdConfigsName clusterName = 
     namedEntity_String \<lparr>ne_clusterName = clusterName, ne_componentType = None, ne_componentSpecifier = [], ne_entity = SecretSlurmdbdConfigs\<rparr>"

definition BuildSecretSlurmRESTSecretName :: "string \<Rightarrow> string" where
  "BuildSecretSlurmRESTSecretName clusterName = 
     namedEntity_String \<lparr>ne_clusterName = clusterName, ne_componentType = None, ne_componentSpecifier = [], ne_entity = SecretSlurmRESTJWTKey\<rparr>"

definition BuildMariaDbName :: "string \<Rightarrow> string" where
  "BuildMariaDbName clusterName = 
     namedEntity_String \<lparr>ne_clusterName = clusterName, ne_componentType = None, ne_componentSpecifier = [], ne_entity = MariaDbClusterSuffix\<rparr>"

definition BuildConfigMapSbatchScriptName :: "string \<Rightarrow> string" where
  "BuildConfigMapSbatchScriptName scriptName = ''sbatch-script-'' @ scriptName"
section \<open>Which names are distinct\<close>

lemmas naming_defs = namedEntity_String_def BuildServiceName_def BuildNodeSetServiceName_def BuildLoginHeadlessServiceName_def
  BuildStatefulSetName_def BuildNodeSetStatefulSetName_def BuildConfigMapSlurmConfigsName_def BuildConfigMapSSHDConfigsNameLogin_def
  BuildConfigMapSSHDConfigsNameWorker_def BuildConfigMapSshRootPublicKeysName_def BuildConfigMapSecurityLimitsName_def
  BuildConfigMapUserIsolationName_def BuildConfigMapSecurityLimitsForNodeSetName_def BuildConfigMapSysctlName_def
  BuildConfigMapSupervisordName_def entityService_def ConfigMapNameSlurmConfigs_def ConfigMapNameSSHDConfigsLogin_def
  ConfigMapNameSSHDConfigsWorker_def ConfigMapNameSshRootPublicKeys_def ConfigMapNameSecurityLimits_def
  ConfigMapNameUserIsolation_def ConfigMapNameSysctl_def ConfigMapNameSupervisord_def

text \<open>The services of a cluster: one per component type, one per NodeSet, and the headless one of the login nodes.\<close>

definition clusterServices :: "string \<Rightarrow> ComponentType list \<Rightarrow> string list \<Rightarrow> string list" where
  "clusterServices clusterName ts nodeSets =
     map (\<lambda>t. BuildServiceName t clusterName) ts @ map (BuildNodeSetServiceName clusterName) nodeSets
     @ [BuildLoginHeadlessServiceName clusterName]"

lemma componentType_String_inject: "componentType_String t = componentType_String t' \<longleftrightarrow> t = t'"
  by (cases t; cases t') simp_all

lemma BuildServiceName_eq:
  "clusterName \<noteq> [] \<Longrightarrow> BuildServiceName t clusterName = clusterName @ ''-'' @ componentType_String t @ ''-svc''"
  by (simp add: naming_defs)

lemma BuildNodeSetServiceName_eq:
  "clusterName \<noteq> [] \<Longrightarrow> n \<noteq> [] \<Longrightarrow> BuildNodeSetServiceName clusterName n = clusterName @ ''-nodeset-'' @ n @ ''-svc''"
  by (simp add: naming_defs)

lemma BuildLoginHeadlessServiceName_eq:
  "clusterName \<noteq> [] \<Longrightarrow> BuildLoginHeadlessServiceName clusterName = clusterName @ ''-login-headless-svc''"
  by (simp add: naming_defs)

lemma componentType_not_nodeset: "componentType_String t \<noteq> ''nodeset-'' @ n"
  by (cases t) simp_all

lemma componentType_not_headless: "componentType_String t \<noteq> ''login-headless''"
  by (cases t) simp_all

lemma clusterServices_distinct:
  assumes "clusterName \<noteq> []" "distinct ts" "distinct nodeSets" "[] \<notin> set nodeSets"
  shows "distinct (clusterServices clusterName ts nodeSets)"
proof -
  have types: "distinct (map (\<lambda>t. BuildServiceName t clusterName) ts)"
    using assms(1,2) by (simp add: distinct_map inj_on_def BuildServiceName_eq componentType_String_inject)
  have sets: "distinct (map (BuildNodeSetServiceName clusterName) nodeSets)"
  proof -
    have "inj_on (BuildNodeSetServiceName clusterName) (set nodeSets)"
    proof (rule inj_onI)
      fix m n assume "m \<in> set nodeSets" "n \<in> set nodeSets" "BuildNodeSetServiceName clusterName m = BuildNodeSetServiceName clusterName n"
      moreover from this assms(4) have "m \<noteq> []" "n \<noteq> []" by auto
      ultimately show "m = n" using assms(1) by (simp add: BuildNodeSetServiceName_eq)
    qed
    with assms(3) show ?thesis by (simp add: distinct_map)
  qed
  have "BuildServiceName t clusterName \<noteq> BuildNodeSetServiceName clusterName n" if "n \<in> set nodeSets" for t n
  proof -
    have "n \<noteq> []" using that assms(4) by auto
    then show ?thesis using assms(1) componentType_not_nodeset [of t n] by (auto simp: BuildServiceName_eq BuildNodeSetServiceName_eq)
  qed
  moreover have "BuildLoginHeadlessServiceName clusterName \<noteq> BuildServiceName t clusterName" for t
  proof
    assume "BuildLoginHeadlessServiceName clusterName = BuildServiceName t clusterName"
    then have "''login-headless'' @ ''-svc'' = componentType_String t @ ''-svc''"
      using assms(1) by (simp add: BuildServiceName_eq BuildLoginHeadlessServiceName_eq)
    then show False using componentType_not_headless [of t] by (simp only: append_same_eq not_sym)
  qed
  moreover have "BuildLoginHeadlessServiceName clusterName \<noteq> BuildNodeSetServiceName clusterName n" if "n \<in> set nodeSets" for n
    using that assms(1,4) by (cases "n = []") (auto simp: BuildNodeSetServiceName_eq BuildLoginHeadlessServiceName_eq)
  ultimately show ?thesis
    unfolding clusterServices_def using types sets by auto
qed

text \<open>
  The StatefulSet of a NodeSet has the bare name of the NodeSet: a NodeSet that is called like the cluster's controller takes
  the name of the controller's StatefulSet. The names of two clusters in a namespace can meet as well, because cluster and
  NodeSet names may contain the separator.
\<close>

lemma nodeSet_takes_controller:
  assumes "clusterName \<noteq> []"
  shows "BuildNodeSetStatefulSetName (clusterName @ ''-controller'') = BuildStatefulSetName ComponentTypeController clusterName"
  using assms by (simp add: naming_defs)

lemma nodeSet_services_meet:
  assumes "a \<noteq> []" "b \<noteq> []" "c \<noteq> []"
  shows "BuildNodeSetServiceName a (b @ ''-nodeset-'' @ c) = BuildNodeSetServiceName (a @ ''-nodeset-'' @ b) c"
  using assms by (simp add: naming_defs)

end
