(* ===== verification/Storage_Check.thy ===== *)
theory Storage_Check
  imports Complex_Main Slurm_Checks Node_Cache Naming
begin

text \<open>
  The check of the ephemeral storage of worker pods: internal/controller/soperatorchecks/pod\_ephemeral\_storage\_check.go and the
  summary request of kubelet\_stats\_client.go. It drains the Slurm node of a pod
  that uses too much of its storage and resumes it when the usage has gone down.

  Parameters (record \<open>storageApi\<close>) are the calls to Kubernetes and to the kubelet, the clock, the set of Slurm clients with its caches, which
  other goroutines fill, and the wait for a cache. A usage is a float64, represented by the rational number that it is: the numbers
  here are far from the limits of the exponent. The limits of a container are given as the int64 that Quantity.Value returns.
\<close>

section \<open>Floating point\<close>

text \<open>
  A number of at least \<open>2\<close> to the power \<open>-80\<close>, as a quotient of two 64-bit numbers is, rounded to 53 significant bits, ties
  to even; zero stays zero.
\<close>

definition halfEven :: "rat \<Rightarrow> int" where
  "halfEven x = (let n = \<lfloor>x\<rfloor>; r = x - of_int n in
     if 1 / 2 < r \<or> (r = 1 / 2 \<and> odd n) then n + 1 else n)"

definition pow2 :: "int \<Rightarrow> rat" where
  "pow2 e = (if 0 \<le> e then 2 ^ nat e else 1 / 2 ^ nat (- e))"

definition round53 :: "rat \<Rightarrow> rat" where
  "round53 x =
     (if x \<le> 0 then 0
      else let e = int (bitLength (nat \<lfloor>x * 2 ^ 80\<rfloor>)) - 80 - 53
           in of_int (halfEven (x / pow2 e)) * pow2 e)"

text \<open>float64(a) / float64(b) * 100.0.\<close>

definition percent64 :: "int \<Rightarrow> int \<Rightarrow> rat" where
  "percent64 a b = round53 (round53 (of_int (float64 a) / of_int (float64 b)) * 100)"

text \<open>The verb \<open>%.2f\<close>.\<close>

definition fixed2 :: "rat \<Rightarrow> string" where
  "fixed2 x = (let n = halfEven (x * 100) in
     itoa (n div 100) @ ''.'' @ itoa (n mod 100 div 10) @ itoa (n mod 10))"

section \<open>Data\<close>

definition HighEphemeralStorageUsage :: string where "HighEphemeralStorageUsage = ''HighEphemeralStorageUsage''"
definition PodEphemeralStorageCheckName :: string where
  "PodEphemeralStorageCheckName = ''soperatorchecks.pod-ephemeral-storage-check''"

record storagePod =
  sp_meta :: objectMeta
  sp_uid :: string
  sp_resourceVersion :: string
  sp_owners :: "(string \<times> string) list"
  sp_phase :: string
  sp_nodeName :: string
  sp_containers :: "int option list"
  sp_initContainers :: "int option list"

record podStats =
  ps_Name :: string
  ps_Namespace :: string
  ps_UID :: string
  ps_UsedBytes :: "int option"

record EphemeralStorageInfo =
  ei_PodName :: string
  ei_PodNamespace :: string
  ei_NodeName :: string
  ei_UsedBytes :: int
  ei_LimitBytes :: int
  ei_UsagePercent :: rat

record storageEvent =
  ev_Namespace :: string
  ev_GenerateName :: string
  ev_Labels :: "(string, string) gomap"
  ev_InvolvedName :: string
  ev_InvolvedUID :: string
  ev_InvolvedResourceVersion :: string
  ev_Reason :: string
  ev_Message :: string
  ev_Type :: string
  ev_Count :: int
  ev_FirstTimestamp :: int
  ev_LastTimestamp :: int
  ev_Reporting :: string

text \<open>The addresses of a node by their type, and the port of its kubelet, 0 if it does not tell one.\<close>

record kubeletNode =
  kb_name :: string
  kb_addresses :: "(string \<times> string) list"
  kb_port :: int

record 'w storageApi =
  se_getPod :: "objectKey \<Rightarrow> ('w, storagePod) action"
  se_getNode :: "string \<Rightarrow> ('w, kubeletNode) action"
  se_newRequest :: "string \<Rightarrow> goError + unit"
  se_get :: "string \<Rightarrow> ('w, int \<times> string \<times> string) action"
  se_decodeStats :: "string \<Rightarrow> goError + podStats list"
  se_listEvents :: "string \<Rightarrow> string \<Rightarrow> string \<Rightarrow> string \<Rightarrow> ('w, storageEvent list) action"
  se_listAllEvents :: "string \<Rightarrow> ('w, storageEvent list) action"
  se_createEvent :: "storageEvent \<Rightarrow> ('w, unit) action"
  se_updateEvent :: "storageEvent \<Rightarrow> ('w, unit) action"
  se_listClusters :: "string \<Rightarrow> ('w, string list) action"
  se_clientSet :: "('w, 'w nodesClient ClientSet) action"
  se_setClientSet :: "'w nodesClient ClientSet \<Rightarrow> ('w, unit) action"
  se_newClient :: "objectKey \<Rightarrow> string \<Rightarrow> goError + 'w nodesClient"
  se_waitReady :: "objectKey \<Rightarrow> ('w, unit) action"
  se_now :: "('w, int) action"

record PodEphemeralStorageCheck =
  pe_requeueAfter :: int
  pe_usageThreshold :: rat
  pe_resumeThreshold :: rat
  pe_kubeletPort :: int

section \<open>Kubelet\<close>

definition DefaultKubeletPort :: int where "DefaultKubeletPort = 10250"
definition kubeletSummaryPath :: string where "kubeletSummaryPath = ''/stats/summary''"
definition kubeletMaxErrorBodyBytes :: nat where "kubeletMaxErrorBodyBytes = 2048"

text \<open>The port that newKubeletStatsClient keeps.\<close>

definition defaultPort :: "int \<Rightarrow> int" where
  "defaultPort port = (if port = 0 then DefaultKubeletPort else port)"

text \<open>net.JoinHostPort puts an IPv6 address in brackets.\<close>

definition JoinHostPort :: "string \<Rightarrow> string \<Rightarrow> string" where
  "JoinHostPort host port = (if CHR '':'' \<in> set host then ''['' @ host @ '']'' else host) @ '':'' @ port"

definition GetSummary :: "'w storageApi \<Rightarrow> PodEphemeralStorageCheck \<Rightarrow> string \<Rightarrow> int \<Rightarrow> ('w, podStats list) action" where
  "GetSummary api r address port =
     (let port = (if port = 0 then pe_kubeletPort r else port);
          url = ''https://'' @ JoinHostPort address (itoa port) @ kubeletSummaryPath
      in bindA (wrapA ''create kubelet stats request: %w'' [] (liftA (se_newRequest api url))) (\<lambda>_.
         bindA (wrapA ''request kubelet stats: %w'' [] (se_get api url)) (\<lambda>(statusCode, status, body).
           if statusCode \<noteq> 200
           then raise (Errorf ''kubelet stats returned %s: %s'' [status, trimSpace (take kubeletMaxErrorBodyBytes body)])
           else wrapA ''decode kubelet stats: %w'' [] (liftA (se_decodeStats api body)))))"

fun kubeletAddress :: "kubeletNode \<Rightarrow> (string \<times> string) list \<Rightarrow> string \<Rightarrow> goError + (string \<times> int)" where
  "kubeletAddress node [] hostname =
     (if hostname = [] then Inl (Errorf ''resolve kubelet address: node %s has no internal IP or hostname'' [kb_name node])
      else Inr (hostname, kb_port node))"
| "kubeletAddress node ((ty, address) # addrs) hostname =
     (if ty = ''InternalIP'' then (if address \<noteq> [] then Inr (address, kb_port node) else kubeletAddress node addrs hostname)
      else if ty = ''Hostname'' then kubeletAddress node addrs (if hostname = [] then address else hostname)
      else kubeletAddress node addrs hostname)"

definition kubeletAddressForNode :: "kubeletNode \<Rightarrow> goError + (string \<times> int)" where
  "kubeletAddressForNode node = kubeletAddress node (kb_addresses node) []"

section \<open>Usage\<close>

definition isPodRelevant :: "storagePod \<Rightarrow> bool" where
  "isPodRelevant pod =
     (let componentType = getStr (om_labels (sp_meta pod)) LabelWorkerKey; managedBy = getStr (om_labels (sp_meta pod)) LabelManagedByKey in
      if componentType \<noteq> LabelWorkerValue \<or> managedBy \<noteq> LabelManagedByValue then False
      else list_ex (\<lambda>(kind, apiVersion). kind = ''StatefulSet'' \<and> apiVersion = ''apps.kruise.io/v1beta1'') (sp_owners pod))"

definition addLimit :: "int option \<Rightarrow> int \<Rightarrow> int" where
  "addLimit limit totalLimit = (case limit of None \<Rightarrow> totalLimit | Some l \<Rightarrow> wrap64 (totalLimit + l))"

definition getEphemeralStorageLimitForPod :: "storagePod \<Rightarrow> int" where
  "getEphemeralStorageLimitForPod pod = fold addLimit (sp_initContainers pod) (fold addLimit (sp_containers pod) 0) mod 2 ^ 64"

definition storageInfo :: "string \<Rightarrow> (string, storagePod) gomap \<Rightarrow> podStats \<Rightarrow> EphemeralStorageInfo list" where
  "storageInfo nodeName workerPodMap podStat = (case map_of workerPodMap (ps_UID podStat) of
     None \<Rightarrow> []
   | Some workerPod \<Rightarrow>
       let limitBytes = getEphemeralStorageLimitForPod workerPod in
       if limitBytes = 0 then []
       else let usedBytes = (case ps_UsedBytes podStat of None \<Rightarrow> 0 | Some b \<Rightarrow> b) in
         [\<lparr>ei_PodName = ps_Name podStat, ei_PodNamespace = ps_Namespace podStat, ei_NodeName = nodeName, ei_UsedBytes = usedBytes,
           ei_LimitBytes = limitBytes, ei_UsagePercent = percent64 usedBytes limitBytes\<rparr>])"

definition getEphemeralStorageStatsFromNode :: "'w storageApi \<Rightarrow> PodEphemeralStorageCheck \<Rightarrow> string \<Rightarrow> storagePod list \<Rightarrow> ('w, EphemeralStorageInfo list) action" where
  "getEphemeralStorageStatsFromNode api r nodeName workerPods =
     bindA (wrapA ''getting node %s: %w'' [nodeName] (se_getNode api nodeName)) (\<lambda>node.
     bindA (liftA (kubeletAddressForNode node)) (\<lambda>(address, port).
     bindA (wrapA ''getting kubelet stats from node %s: %w'' [nodeName] (GetSummary api r address port)) (\<lambda>stats.
       let workerPodMap = fold (\<lambda>pod m. if sp_nodeName pod = nodeName then mapPut (sp_uid pod) pod m else m) workerPods []
       in ret (concat (map (storageInfo nodeName workerPodMap) stats)))))"

section \<open>Events\<close>

definition hour :: int where "hour = 3600 * second"

definition newStorageEvent :: "storagePod \<Rightarrow> EphemeralStorageInfo \<Rightarrow> int \<Rightarrow> storageEvent" where
  "newStorageEvent pod info now = \<lparr>
     ev_Namespace = om_namespace (sp_meta pod), ev_GenerateName = om_name (sp_meta pod) @ ''-ephemeral-storage-'',
     ev_Labels = [(LabelWorkerKey, LabelWorkerValue), (LabelManagedByKey, LabelManagedByValue)],
     ev_InvolvedName = om_name (sp_meta pod), ev_InvolvedUID = sp_uid pod, ev_InvolvedResourceVersion = sp_resourceVersion pod,
     ev_Reason = HighEphemeralStorageUsage,
     ev_Message = ''Pod '' @ ei_PodName info @ '' in namespace '' @ ei_PodNamespace info @ '' is using '' @ fixed2 (ei_UsagePercent info)
       @ ''% of its ephemeral storage limit ('' @ itoa (ei_UsedBytes info) @ '' bytes used, '' @ itoa (ei_LimitBytes info) @ '' bytes limit)'',
     ev_Type = ''Warning'', ev_Count = 1, ev_FirstTimestamp = now, ev_LastTimestamp = now, ev_Reporting = PodEphemeralStorageCheckName\<rparr>"

text \<open>The count of an event is an int32.\<close>

definition createEphemeralStorageEvent :: "'w storageApi \<Rightarrow> storagePod \<Rightarrow> EphemeralStorageInfo \<Rightarrow> ('w, unit) action" where
  "createEphemeralStorageEvent api pod info =
     bindA (se_now api) (\<lambda>now.
       let event = newStorageEvent pod info now;
           record = (\<lambda>events. case find (\<lambda>existingEvent.
                 ev_InvolvedName existingEvent = om_name (sp_meta pod) \<and> ev_InvolvedUID existingEvent = sp_uid pod
                 \<and> ev_Reason existingEvent = HighEphemeralStorageUsage \<and> now - hour < ev_LastTimestamp existingEvent
                 \<and> ev_Message existingEvent = ev_Message event) events of
               Some existingEvent \<Rightarrow> se_updateEvent api (existingEvent\<lparr>ev_Count := wrap32 (ev_Count existingEvent + 1), ev_LastTimestamp := now\<rparr>)
             | None \<Rightarrow> se_createEvent api event)
       in tryA (se_listEvents api (om_namespace (sp_meta pod)) (om_name (sp_meta pod)) (sp_uid pod) HighEphemeralStorageUsage) (\<lambda>res. case res of
            Inr events \<Rightarrow> record events
          | Inl _ \<Rightarrow> tryA (se_listAllEvents api (om_namespace (sp_meta pod))) (\<lambda>res. case res of
              Inr events \<Rightarrow> record events
            | Inl _ \<Rightarrow> se_createEvent api event)))"

section \<open>The Slurm node of a pod\<close>

definition getSlurmClusterName :: "'w storageApi \<Rightarrow> string \<Rightarrow> ('w, string) action" where
  "getSlurmClusterName api namespace =
     bindA (wrapA ''listing SlurmCluster in namespace %s: %w'' [namespace] (se_listClusters api namespace)) (\<lambda>items.
       ret (case items of [] \<Rightarrow> [] | name # _ \<Rightarrow> name))"

definition ensureNodeCache :: "'w storageApi \<Rightarrow> PodEphemeralStorageCheck \<Rightarrow> objectKey \<Rightarrow> ('w, unit) action" where
  "ensureNodeCache api r key =
     bindA (se_clientSet api) (\<lambda>cs. case GetNodeCache key cs of
       Some nc \<Rightarrow> se_waitReady api key
     | None \<Rightarrow>
         bindA (case GetClient_set key cs of
             Some _ \<Rightarrow> ret ()
           | None \<Rightarrow>
               let slurmAPIServer = ''http://'' @ BuildServiceName ComponentTypeREST (snd key) @ ''.'' @ fst key @ '':6820'' in
               bindA (wrapA ''creating slurm api client: %w'' [] (liftA (se_newClient api key slurmAPIServer))) (\<lambda>slurmAPIClient.
               bindA (se_clientSet api) (\<lambda>cs. se_setClientSet api (AddClient key slurmAPIClient cs)))) (\<lambda>_.
         bindA (se_clientSet api) (\<lambda>cs. case EnsureNodeCache key (pe_requeueAfter r) cs of
           (None, _) \<Rightarrow> raise (Errorf ''no slurm API client for cluster %v'' [fst key, snd key])
         | (Some _, cs') \<Rightarrow> bindA (se_setClientSet api cs') (\<lambda>_. se_waitReady api key))))"

definition initSlurmClientAndGetNode :: "'w storageApi \<Rightarrow> PodEphemeralStorageCheck \<Rightarrow> storagePod \<Rightarrow> ('w, objectKey \<times> Node) action" where
  "initSlurmClientAndGetNode api r pod =
     (let ns = om_namespace (sp_meta pod); name = om_name (sp_meta pod) in
      bindA (wrapA ''getting SlurmCluster name: %w for pod %s/%s'' [ns, name] (getSlurmClusterName api ns)) (\<lambda>slurmClusterName.
        if slurmClusterName = [] then raise (Errorf ''not found SlurmCluster for pod %s/%s'' [ns, name])
        else let key = (ns, slurmClusterName) in
          bindA (wrapA ''initializing Slurm API clients: %w'' [] (ensureNodeCache api r key)) (\<lambda>_.
          bindA (se_clientSet api) (\<lambda>cs. case GetNodeCache key cs of
            None \<Rightarrow> raise (Errorf ''node cache not found for cluster %v'' [fst key, snd key])
          | Some nc \<Rightarrow> (case GetNode_cache nc name of
              None \<Rightarrow> raise (Errorf ''slurm node %s not found in cache for cluster %v'' [name, fst key, snd key])
            | Some slurmNode \<Rightarrow> ret (key, slurmNode))))))"

section \<open>Draining and resuming\<close>

definition storagePost :: "'w storageApi \<Rightarrow> objectKey \<Rightarrow> string \<Rightarrow> string \<Rightarrow> updateNodeMsg \<Rightarrow> ('w, unit) action" where
  "storagePost api key slurmNodeName what msg =
     bindA (se_clientSet api) (\<lambda>cs. case GetClient_set key cs of
       None \<Rightarrow> raise (Errorf ''slurm cluster %v not found'' [fst key, snd key])
     | Some client \<Rightarrow>
         bindA (wrapA (''post '' @ what @ '' slurm node: %w'') [] (nl_PostNode client slurmNodeName msg)) (\<lambda>resp.
           case rs_JSON200 resp of
             None \<Rightarrow> raise nilDereference
           | Some (errors, _) \<Rightarrow>
               if hasErrors errors then raise (Errorf (''post '' @ what @ '' returned errors: %v'') (the errors)) else ret ()))"

definition storageReason :: string where
  "storageReason = SlurmUserReasonHC @ '' pod_ephemeral_storage''"

definition drainMessage :: "string \<Rightarrow> EphemeralStorageInfo \<Rightarrow> string" where
  "drainMessage n info = ''pod_ephemeral_storage '' @ fixed2 (ei_UsagePercent info)
     @ ''% of ephemeral storage is used. Clean up volumes from 'ssh '' @ n @ '' /opt/soperator_utils/fs_usage.sh -l', ''
     @ ''delete leftover containers from 'ssh '' @ n @ '' enroot list' and 'ssh '' @ n @ '' docker ps -a', ''
     @ ''reboot the node using 'scontrol reboot '' @ n @ [CHR 0x27] @ '', ''
     @ ''or stop-start the InstanceId from 'scontrol show node '' @ n @ [CHR 0x27] @ ''. And 'scontrol update nodename='' @ n
     @ '' state=resume' after resolving the issue.''"

definition drainSlurmNode_storage :: "'w storageApi \<Rightarrow> objectKey \<Rightarrow> string \<Rightarrow> EphemeralStorageInfo \<Rightarrow> ('w, unit) action" where
  "drainSlurmNode_storage api key slurmNodeName info =
     storagePost api key slurmNodeName ''drain''
       \<lparr>un_Reason = Some (SlurmUserReasonHC @ '' '' @ drainMessage slurmNodeName info), un_State = Some [UpdateDRAIN]\<rparr>"

definition undrainSlurmNode_storage :: "'w storageApi \<Rightarrow> objectKey \<Rightarrow> string \<Rightarrow> ('w, unit) action" where
  "undrainSlurmNode_storage api key slurmNodeName =
     storagePost api key slurmNodeName ''undrain'' \<lparr>un_Reason = None, un_State = Some [UpdateRESUME]\<rparr>"

definition isDrainedByEphemeralStorageCheck :: "Node \<Rightarrow> bool" where
  "isDrainedByEphemeralStorageCheck node =
     (if \<not> IsDrainState node then False
      else case n_Reason node of None \<Rightarrow> False | Some r \<Rightarrow> hasPrefix (nr_Reason r) storageReason)"

text \<open>The error values that handleHighStorageUsage tells apart by their text.\<close>

definition checkSlurmNodeDrainStatus :: "Node \<Rightarrow> storagePod \<Rightarrow> goError option" where
  "checkSlurmNodeDrainStatus slurmNode pod =
     (if n_Name slurmNode = [] then Some (Errorf ''slurm node not found for pod %s/%s'' [om_namespace (sp_meta pod), om_name (sp_meta pod)])
      else if IsIdleDrained slurmNode then None
      else Some (Errorf ''node needs draining'' []))"

definition handleHighStorageUsage :: "'w storageApi \<Rightarrow> PodEphemeralStorageCheck \<Rightarrow> storagePod \<Rightarrow> EphemeralStorageInfo \<Rightarrow> ('w, unit) action" where
  "handleHighStorageUsage api r pod info =
     bindA (createEphemeralStorageEvent api pod info) (\<lambda>_.
     bindA (initSlurmClientAndGetNode api r pod) (\<lambda>(key, slurmNode).
       case checkSlurmNodeDrainStatus slurmNode pod of
         None \<Rightarrow> ret ()
       | Some err \<Rightarrow>
           if err = Errorf ''node needs draining'' []
           then wrapA ''draining Slurm node: %w for pod %s/%s'' [om_namespace (sp_meta pod), om_name (sp_meta pod)]
             (drainSlurmNode_storage api key (n_Name slurmNode) info)
           else raise err))"

definition handleLowStorageUsage :: "'w storageApi \<Rightarrow> PodEphemeralStorageCheck \<Rightarrow> storagePod \<Rightarrow> ('w, unit) action" where
  "handleLowStorageUsage api r pod =
     bindA (initSlurmClientAndGetNode api r pod) (\<lambda>(key, slurmNode).
       if \<not> isDrainedByEphemeralStorageCheck slurmNode then ret ()
       else undrainSlurmNode_storage api key (n_Name slurmNode))"

definition ReconcilePodEphemeralStorageCheckForPod :: "'w storageApi \<Rightarrow> PodEphemeralStorageCheck \<Rightarrow> storagePod \<Rightarrow> ('w, unit) action" where
  "ReconcilePodEphemeralStorageCheckForPod api r pod =
     (if sp_phase pod \<noteq> ''Running'' \<or> sp_nodeName pod = [] then ret ()
      else bindA (wrapA ''getting ephemeral storage stats: %w, pod: %s/%s'' [om_namespace (sp_meta pod), om_name (sp_meta pod)]
          (getEphemeralStorageStatsFromNode api r (sp_nodeName pod) [pod])) (\<lambda>storageInfos.
        forA (\<lambda>info _.
          if ei_UsagePercent info > pe_usageThreshold r then handleHighStorageUsage api r pod info
          else if ei_UsagePercent info < pe_resumeThreshold r then handleLowStorageUsage api r pod
          else ret ()) storageInfos ()))"

definition Reconcile_storage :: "'w storageApi \<Rightarrow> PodEphemeralStorageCheck \<Rightarrow> objectKey \<Rightarrow> ('w, int) action" where
  "Reconcile_storage api r key =
     tryA (se_getPod api key) (\<lambda>res. case res of
       Inl err \<Rightarrow> if IsNotFound err then ret 0 else raise (wrapErr ''getting pod: %w'' [] err)
     | Inr pod \<Rightarrow>
         if \<not> isPodRelevant pod then ret 0
         else bindA (wrapA ''reconciling Pod Ephemeral Storage Check: %w'' [] (ReconcilePodEphemeralStorageCheckForPod api r pod)) (\<lambda>_.
           ret (pe_requeueAfter r)))"
section \<open>A cluster in memory\<close>

text \<open>
  The Slurm node of one pod, the bytes the pod uses and the events: Slurm takes over the state and the reason that it is sent and drops the
  reason when a node is resumed, and the cache has just been refreshed.
\<close>

record storageWorld =
  zw_node :: Node
  zw_used :: int
  zw_events :: "storageEvent list"
  zw_now :: int

definition applyUpdate :: "updateNodeMsg \<Rightarrow> Node \<Rightarrow> Node" where
  "applyUpdate msg n = (case un_State msg of
     Some [UpdateDRAIN] \<Rightarrow> n\<lparr>n_States := setAdd StateDRAIN (n_States n),
       n_Reason := (case un_Reason msg of None \<Rightarrow> n_Reason n | Some r \<Rightarrow> Some \<lparr>nr_Reason = r, nr_OriginalReason = [], nr_ChangedAt = 0\<rparr>)\<rparr>
   | Some [_] \<Rightarrow> n\<lparr>n_States := filter (\<lambda>s. s \<noteq> StateDRAIN) (n_States n), n_Reason := None\<rparr>
   | _ \<Rightarrow> n)"

definition memNodesClient :: "storageWorld nodesClient" where
  "memNodesClient = \<lparr>sl_ListNodes = (\<lambda>w. (Inr [zw_node w], w)), sl_UndrainNode = (\<lambda>name. ret ()), sl_RebootNodes = (\<lambda>req. ret ()),
     nl_GetNode = (\<lambda>name w. (Inr (zw_node w), w)),
     nl_PostNode = (\<lambda>name msg w. (Inr \<lparr>rs_JSON200 = Some (None, ()), rs_StatusCode = 200, rs_Body = []\<rparr>, w\<lparr>zw_node := applyUpdate msg (zw_node w)\<rparr>))\<rparr>"

definition memClientSet :: "objectKey \<Rightarrow> storageWorld \<Rightarrow> storageWorld nodesClient ClientSet" where
  "memClientSet key w = \<lparr>cl_slurmAPIClients = [(key, memNodesClient)],
     cl_nodeCaches = [(key, \<lparr>na_client = memNodesClient, na_refreshInterval = minute,
       na_snapshot = Some \<lparr>sn_nodes = [(n_Name (zw_node w), zw_node w)], sn_at = zw_now w\<rparr>, na_ready = True\<rparr>)]\<rparr>"

definition memStorage :: "string \<Rightarrow> storagePod \<Rightarrow> storageWorld storageApi" where
  "memStorage cluster pod = \<lparr>se_getPod = (\<lambda>key. ret pod),
     se_getNode = (\<lambda>name. ret \<lparr>kb_name = name, kb_addresses = [(''InternalIP'', ''10.0.0.1'')], kb_port = 10250\<rparr>),
     se_newRequest = (\<lambda>url. Inr ()),
     se_get = (\<lambda>url w. (Inr (200, ''200 OK'', itoa (zw_used w)), w)),
     se_decodeStats = (\<lambda>body. Inr [\<lparr>ps_Name = om_name (sp_meta pod), ps_Namespace = om_namespace (sp_meta pod), ps_UID = sp_uid pod, ps_UsedBytes = atoi body\<rparr>]),
     se_listEvents = (\<lambda>ns name uid reason w. (Inr (zw_events w), w)), se_listAllEvents = (\<lambda>ns w. (Inr (zw_events w), w)),
     se_createEvent = (\<lambda>ev w. (Inr (), w\<lparr>zw_events := ev # zw_events w\<rparr>)), se_updateEvent = (\<lambda>ev w. (Inr (), w\<lparr>zw_events := ev # zw_events w\<rparr>)),
     se_listClusters = (\<lambda>ns. ret [cluster]),
     se_clientSet = (\<lambda>w. (Inr (memClientSet (om_namespace (sp_meta pod), cluster) w), w)), se_setClientSet = (\<lambda>cs. ret ()),
     se_newClient = (\<lambda>key server. Inr memNodesClient), se_waitReady = (\<lambda>key. ret ()), se_now = (\<lambda>w. (Inr (zw_now w), w))\<rparr>"

text \<open>What a run does to the Slurm node.\<close>

definition podUsage :: "storagePod \<Rightarrow> storageWorld \<Rightarrow> rat" where
  "podUsage pod w = percent64 (zw_used w) (getEphemeralStorageLimitForPod pod)"

definition checkedPod :: "storagePod \<Rightarrow> bool" where
  "checkedPod pod \<longleftrightarrow> isPodRelevant pod \<and> sp_phase pod = ''Running'' \<and> sp_nodeName pod \<noteq> [] \<and> getEphemeralStorageLimitForPod pod \<noteq> 0"

definition drainedBy :: "storagePod \<Rightarrow> storageWorld \<Rightarrow> Node" where
  "drainedBy pod w = applyUpdate \<lparr>un_Reason = Some (SlurmUserReasonHC @ '' '' @ drainMessage (n_Name (zw_node w))
     \<lparr>ei_PodName = om_name (sp_meta pod), ei_PodNamespace = om_namespace (sp_meta pod), ei_NodeName = sp_nodeName pod, ei_UsedBytes = zw_used w,
       ei_LimitBytes = getEphemeralStorageLimitForPod pod, ei_UsagePercent = podUsage pod w\<rparr>), un_State = Some [UpdateDRAIN]\<rparr> (zw_node w)"

definition resumed :: "Node \<Rightarrow> Node" where
  "resumed n = n\<lparr>n_States := filter (\<lambda>s. s \<noteq> StateDRAIN) (n_States n), n_Reason := None\<rparr>"

definition nodeAfter :: "PodEphemeralStorageCheck \<Rightarrow> storagePod \<Rightarrow> storageWorld \<Rightarrow> Node" where
  "nodeAfter r pod w =
     (if \<not> checkedPod pod then zw_node w
      else if pe_usageThreshold r < podUsage pod w then (if IsIdleDrained (zw_node w) then zw_node w else drainedBy pod w)
      else if podUsage pod w < pe_resumeThreshold r \<and> isDrainedByEphemeralStorageCheck (zw_node w) then resumed (zw_node w)
      else zw_node w)"

lemma mem_initSlurmClient:
  assumes "n_Name (zw_node w) = om_name (sp_meta pod)" "cluster \<noteq> []"
  shows "initSlurmClientAndGetNode (memStorage cluster pod) r pod w = (Inr ((om_namespace (sp_meta pod), cluster), zw_node w), w)"
  using assms by (simp add: initSlurmClientAndGetNode_def getSlurmClusterName_def ensureNodeCache_def memStorage_def bindA_def wrapA_def Let_def
      memClientSet_def GetNodeCache_def GetNode_cache_def)

lemma mem_storagePost:
  "storagePost (memStorage cluster pod) (om_namespace (sp_meta pod), cluster) name what msg w = (Inr (), w\<lparr>zw_node := applyUpdate msg (zw_node w)\<rparr>)"
  by (simp add: storagePost_def memStorage_def bindA_def wrapA_def memClientSet_def GetClient_set_def memNodesClient_def hasErrors_def)

lemma mem_createEvent: "\<exists>evs. createEphemeralStorageEvent (memStorage cluster pod) pod info w = (Inr (), w\<lparr>zw_events := evs\<rparr>)"
  by (simp add: createEphemeralStorageEvent_def memStorage_def bindA_def tryA_def Let_def split: option.split) blast

lemma mem_stats:
  assumes "0 \<le> zw_used w" "zw_used w < 2 ^ 63" "sp_nodeName pod \<noteq> []"
  shows "getEphemeralStorageStatsFromNode (memStorage cluster pod) r (sp_nodeName pod) [pod] w = (Inr (if getEphemeralStorageLimitForPod pod = 0 then []
      else [\<lparr>ei_PodName = om_name (sp_meta pod), ei_PodNamespace = om_namespace (sp_meta pod), ei_NodeName = sp_nodeName pod, ei_UsedBytes = zw_used w,
        ei_LimitBytes = getEphemeralStorageLimitForPod pod, ei_UsagePercent = podUsage pod w\<rparr>]), w)"
  using assms by (simp add: getEphemeralStorageStatsFromNode_def memStorage_def bindA_def wrapA_def kubeletAddressForNode_def GetSummary_def Let_def
      storageInfo_def map_of_mapPut podUsage_def atoi_itoa)

lemma bindA_forA_Nil: "bindA m (forA f []) w = m w"
  by (simp add: bindA_def split: prod.split sum.split)

lemma mem_high:
  assumes "n_Name (zw_node w) = om_name (sp_meta pod)" "om_name (sp_meta pod) \<noteq> []" "cluster \<noteq> []"
  shows "\<exists>evs. handleHighStorageUsage (memStorage cluster pod) r pod info w = (Inr (), w\<lparr>zw_node :=
    (if IsIdleDrained (zw_node w) then zw_node w
     else applyUpdate \<lparr>un_Reason = Some (SlurmUserReasonHC @ '' '' @ drainMessage (n_Name (zw_node w)) info), un_State = Some [UpdateDRAIN]\<rparr> (zw_node w)),
    zw_events := evs\<rparr>)"
proof -
  obtain evs where ev: "createEphemeralStorageEvent (memStorage cluster pod) pod info w = (Inr (), w\<lparr>zw_events := evs\<rparr>)"
    using mem_createEvent by blast
  have init: "initSlurmClientAndGetNode (memStorage cluster pod) r pod (w\<lparr>zw_events := evs\<rparr>)
      = (Inr ((om_namespace (sp_meta pod), cluster), zw_node w), w\<lparr>zw_events := evs\<rparr>)"
    using mem_initSlurmClient [of "w\<lparr>zw_events := evs\<rparr>" pod cluster r] assms by simp
  have same: "w\<lparr>zw_node := zw_node w\<rparr> = w" by simp
  show ?thesis
    unfolding handleHighStorageUsage_def bindA_Inr [where m = "createEphemeralStorageEvent _ _ _", OF ev]
      bindA_Inr [where m = "initSlurmClientAndGetNode _ _ _", OF init] prod.case
    using assms by (intro exI [of _ evs]) (simp add: checkSlurmNodeDrainStatus_def drainSlurmNode_storage_def wrapA_def mem_storagePost same)
qed

lemma mem_low:
  assumes "n_Name (zw_node w) = om_name (sp_meta pod)" "cluster \<noteq> []"
  shows "handleLowStorageUsage (memStorage cluster pod) r pod w = (Inr (), w\<lparr>zw_node :=
    (if isDrainedByEphemeralStorageCheck (zw_node w) then resumed (zw_node w) else zw_node w)\<rparr>)"
  unfolding handleLowStorageUsage_def bindA_Inr [where m = "initSlurmClientAndGetNode _ _ _", OF mem_initSlurmClient [OF assms]] prod.case
  by (simp add: undrainSlurmNode_storage_def mem_storagePost applyUpdate_def resumed_def)

lemma Reconcile_storage_effect_mem:
  assumes "n_Name (zw_node w) = om_name (sp_meta pod)" "om_name (sp_meta pod) \<noteq> []" "cluster \<noteq> []" "0 \<le> zw_used w" "zw_used w < 2 ^ 63"
  shows "\<exists>delay evs. Reconcile_storage (memStorage cluster pod) r key w = (Inr delay, w\<lparr>zw_node := nodeAfter r pod w, zw_events := evs\<rparr>)"
proof -
  have same: "\<exists>evs. w = w\<lparr>zw_events := evs\<rparr>" by (rule exI [of _ "zw_events w"]) simp
  have same_node: "\<exists>evs. w\<lparr>zw_node := n\<rparr> = w\<lparr>zw_node := n, zw_events := evs\<rparr>" for n by (rule exI [of _ "zw_events w"]) simp
  have get: "se_getPod (memStorage cluster pod) key = ret pod" by (simp add: memStorage_def)
  have inner: "\<exists>evs. ReconcilePodEphemeralStorageCheckForPod (memStorage cluster pod) r pod w = (Inr (), w\<lparr>zw_node := nodeAfter r pod w, zw_events := evs\<rparr>)"
    if rel: "isPodRelevant pod"
  proof (cases "sp_phase pod = ''Running'' \<and> sp_nodeName pod \<noteq> []")
    case False
    then show ?thesis using same by (auto simp: ReconcilePodEphemeralStorageCheckForPod_def nodeAfter_def checkedPod_def)
  next
    case True
    let ?info = "\<lparr>ei_PodName = om_name (sp_meta pod), ei_PodNamespace = om_namespace (sp_meta pod), ei_NodeName = sp_nodeName pod, ei_UsedBytes = zw_used w,
        ei_LimitBytes = getEphemeralStorageLimitForPod pod, ei_UsagePercent = podUsage pod w\<rparr>"
    have stats: "wrapA f as (getEphemeralStorageStatsFromNode (memStorage cluster pod) r (sp_nodeName pod) [pod]) w
        = (Inr (if getEphemeralStorageLimitForPod pod = 0 then [] else [?info]), w)" for f as
      using True by (simp add: wrapA_def mem_stats [OF assms(4,5)])
    have run: "ReconcilePodEphemeralStorageCheckForPod (memStorage cluster pod) r pod w = (if getEphemeralStorageLimitForPod pod = 0 then (Inr (), w)
        else if pe_usageThreshold r < podUsage pod w then handleHighStorageUsage (memStorage cluster pod) r pod ?info w
        else if podUsage pod w < pe_resumeThreshold r then handleLowStorageUsage (memStorage cluster pod) r pod w else (Inr (), w))"
      using True unfolding ReconcilePodEphemeralStorageCheckForPod_def
      by (simp add: bindA_Inr [where m = "wrapA _ _ _", OF stats] bindA_forA_Nil)
    have checked: "checkedPod pod \<longleftrightarrow> getEphemeralStorageLimitForPod pod \<noteq> 0" using True rel by (simp add: checkedPod_def)
    show ?thesis
      unfolding run nodeAfter_def checked
      using mem_high [OF assms(1-3), of r ?info] mem_low [OF assms(1,3), of r] same same_node by (auto simp: drainedBy_def)
  qed
  show ?thesis
  proof (cases "isPodRelevant pod")
    case True
    from inner [OF True] show ?thesis using True by (auto simp: Reconcile_storage_def tryA_def get bindA_def wrapA_def)
  next
    case False
    then show ?thesis using same by (auto simp: Reconcile_storage_def tryA_def get nodeAfter_def checkedPod_def)
  qed
qed


text \<open>
  C40: the check takes over the drains of others. A node that was drained for any reason and still runs jobs is drained anew when its
  pod is above the threshold, which replaces the reason; once the usage is below the resume threshold the node is
  resumed, and the drain that somebody else had asked for is gone.
\<close>

theorem foreign_drain_lost:
  assumes name: "n_Name (zw_node w) = om_name (sp_meta pod)" "om_name (sp_meta pod) \<noteq> []" "cluster \<noteq> []"
    and busy: "StateDRAIN \<in> set (n_States (zw_node w))" "StateIDLE \<notin> set (n_States (zw_node w))"
    and pod: "checkedPod pod" "pe_resumeThreshold r \<le> pe_usageThreshold r"
    and high: "0 \<le> zw_used w" "zw_used w < 2 ^ 63" "pe_usageThreshold r < podUsage pod w"
    and low: "0 \<le> used" "used < 2 ^ 63" "percent64 used (getEphemeralStorageLimitForPod pod) < pe_resumeThreshold r"
    and w1: "w1 = snd (Reconcile_storage (memStorage cluster pod) r key w)"
    and w2: "w2 = snd (Reconcile_storage (memStorage cluster pod) r key (w1\<lparr>zw_used := used\<rparr>))"
  shows "StateDRAIN \<notin> set (n_States (zw_node w2))"
proof -
  obtain evs where after1: "w1 = w\<lparr>zw_node := nodeAfter r pod w, zw_events := evs\<rparr>"
    using Reconcile_storage_effect_mem [OF name high(1,2)] unfolding w1 by (metis snd_conv)
  have n1: "nodeAfter r pod w = drainedBy pod w" using pod(1) high(3) busy(2) by (simp add: nodeAfter_def IsIdleDrained_def)
  have own: "isDrainedByEphemeralStorageCheck (drainedBy pod w)"
    by (simp add: drainedBy_def applyUpdate_def isDrainedByEphemeralStorageCheck_def IsDrainState_def setAdd_def drainMessage_def storageReason_def hasPrefix_def)
  have name1: "n_Name (drainedBy pod w) = om_name (sp_meta pod)" using name(1) by (simp add: drainedBy_def applyUpdate_def)
  let ?v = "w1\<lparr>zw_used := used\<rparr>"
  have v: "zw_node ?v = drainedBy pod w" "zw_used ?v = used" by (simp_all add: after1 n1)
  obtain evs' where "w2 = ?v\<lparr>zw_node := nodeAfter r pod ?v, zw_events := evs'\<rparr>"
    using Reconcile_storage_effect_mem [of ?v pod cluster r key] name(2,3) name1 low(1,2) unfolding w2 v by (metis snd_conv)
  moreover have "nodeAfter r pod ?v = resumed (drainedBy pod w)"
    using pod low(3) own by (simp add: nodeAfter_def podUsage_def v)
  ultimately show ?thesis by (simp add: resumed_def)
qed
section \<open>A pod that fills its disk\<close>

definition fullPod :: storagePod where
  "fullPod = \<lparr>sp_meta = \<lparr>om_name = ''w-0'', om_namespace = ''ns'', om_labels = [(LabelWorkerKey, LabelWorkerValue), (LabelManagedByKey, LabelManagedByValue)],
     om_annotations = []\<rparr>, sp_uid = ''u'', sp_resourceVersion = ''1'', sp_owners = [(''StatefulSet'', ''apps.kruise.io/v1beta1'')], sp_phase = ''Running'',
     sp_nodeName = ''n1'', sp_containers = [Some 1000], sp_initContainers = []\<rparr>"

definition storageCheck :: PodEphemeralStorageCheck where
  "storageCheck = \<lparr>pe_requeueAfter = 60, pe_usageThreshold = 85, pe_resumeThreshold = 80, pe_kubeletPort = 10250\<rparr>"

definition busyWorld :: storageWorld where
  "busyWorld = \<lparr>zw_node = cachedNode\<lparr>n_States := [StateALLOCATED, StateDRAIN],
     n_Reason := Some \<lparr>nr_Reason = ''[hardware_problem] ecc'', nr_OriginalReason = [], nr_ChangedAt = 3\<rparr>\<rparr>, zw_used = 900, zw_events = [], zw_now = 0\<rparr>"

lemma bitLength_numeral [simp]: "bitLength (numeral k) = Suc (bitLength (numeral k div 2))" "bitLength 0 = 0" "bitLength (Suc 0) = 1"
  by (simp_all add: bitLength.simps)

lemma floor_numerals [simp]: "\<lfloor>(numeral a / numeral b :: rat)\<rfloor> = numeral a div numeral b" "\<lfloor>(1 / numeral b :: rat)\<rfloor> = 1 div numeral b"
  using floor_divide_of_int_eq [where ?'a = rat, of "numeral a" "numeral b"] floor_divide_of_int_eq [where ?'a = rat, of 1 "numeral b"] by simp_all

lemma round53_09: "round53 (9 / 10) = 8106479329266893 / 2 ^ 53" "round53 (1 / 10) = 7205759403792794 / 2 ^ 56"
  by (simp_all add: round53_def halfEven_def pow2_def Let_def)

lemma example_usage: "percent64 900 1000 = 90" "percent64 100 1000 = 10"
  by (simp_all add: percent64_def float64_def round53_09) (simp_all add: round53_def halfEven_def pow2_def Let_def)

lemma fullPod_limit: "getEphemeralStorageLimitForPod fullPod = 1000"
  by (simp add: getEphemeralStorageLimitForPod_def addLimit_def fullPod_def wrap64_def)

lemma fullPod_checked: "checkedPod fullPod"
proof -
  have "isPodRelevant fullPod" by code_simp
  then show ?thesis unfolding checkedPod_def fullPod_limit by (simp add: fullPod_def)
qed

lemma busyWorld_facts:
  "n_Name (zw_node busyWorld) = om_name (sp_meta fullPod)" "om_name (sp_meta fullPod) \<noteq> []" "''c'' \<noteq> []"
  "StateDRAIN \<in> set (n_States (zw_node busyWorld))" "StateIDLE \<notin> set (n_States (zw_node busyWorld))"
  "0 \<le> zw_used busyWorld" "zw_used busyWorld < 2 ^ 63"
  by (simp_all add: busyWorld_def fullPod_def cachedNode_def)

lemma storageCheck_facts:
  "pe_resumeThreshold storageCheck \<le> pe_usageThreshold storageCheck" "pe_usageThreshold storageCheck < podUsage fullPod busyWorld"
  "percent64 100 (getEphemeralStorageLimitForPod fullPod) < pe_resumeThreshold storageCheck"
  unfolding podUsage_def fullPod_limit by (simp_all add: storageCheck_def busyWorld_def example_usage)


theorem foreign_drain_lost_witness:
  "StateDRAIN \<notin> set (n_States (zw_node (snd (Reconcile_storage (memStorage ''c'' fullPod) storageCheck (''ns'', ''w-0'')
     ((snd (Reconcile_storage (memStorage ''c'' fullPod) storageCheck (''ns'', ''w-0'') busyWorld))\<lparr>zw_used := 100\<rparr>)))))"
  by (rule foreign_drain_lost [OF busyWorld_facts(1,2,3) busyWorld_facts(4,5) fullPod_checked storageCheck_facts(1) busyWorld_facts(6,7)
        storageCheck_facts(2) _ _ storageCheck_facts(3) refl refl]) simp_all

end
