(* ===== verification/Spec2Isabelle.thy ===== *)
theory Spec2Isabelle
  imports Node_Topology Slurm_Job Rolling_Update Rebooter Jailed_Config Node_Lifecycle Storage_Check
begin

text \<open>
  A verification development for soperator, the Kubernetes operator that runs Slurm clusters.

  \<^bold>\<open>The program.\<close> soperator is a set of controllers and agents around a Slurm cluster in Kubernetes. The cluster
  controller renders the objects of a cluster. The topology controllers turn the labels of the
  Kubernetes nodes into Slurm's topology.conf. The controller of JailedConfig resources writes such files into the
  jail, the file system that all Slurm nodes share, and has Slurm reread them. The rolling update
  controller replaces outdated worker pods by reboots that Slurm schedules. The rebooter is an agent on
  every node that drains and reboots it when its conditions ask for that. The power manager is the program
  by which slurmctld resumes and suspends nodes of ephemeral NodeSets. The package slurmapi calls Slurm's REST
  interface and converts what it answers. The soperatorchecks are controllers that watch the health of the nodes: one reads
  from Slurm which nodes are drained and why, and writes conditions on Kubernetes nodes; one turns these conditions into requests
  to drain, reboot or delete a node, which the rebooter carries out; one drains nodes whose pods fill their storage.

  \<^bold>\<open>How Go is modelled.\<close> A struct is a record with the fields the code reads, an error result a value of
  type \<open>goError + 'a\<close> with \<open>Inl\<close> the error. A function that acts on the cluster, the file system or the clock
  is an \<open>action\<close>: it takes the state of the world and returns the result and the new state (Go\_Action).
  Errors keep their format and wrapped cause; a panic is the error \<open>GoPanic\<close>, which no handler catches, and
  not returning is \<open>NoReturn\<close>. Maps are association lists with distinct keys (Go\_Maps); the order in
  which a loop visits a map is a permutation or a parameter, never fixed. Integers are HOL integers with the
  wrap-around to 32 or 64 bits written out where the code can overflow, and machine words in
  SHA-256. Logging, metrics and tracing are left out.

  Code that is not in the repository is a parameter: the Kubernetes client, client-go's retries,
  apimachinery's condition functions, Slurm's REST client, system calls, the clock. What the code relies on
  is stated as a predicate or a locale (\<open>lawfulClient\<close>, \<open>lawfulTopologyApi\<close>, \<open>lawfulNodeApi\<close>, \<open>lawfulPowerApi\<close>,
  \<open>lawfulRebooter\<close>, \<open>os_calls\<close>, \<open>apartFromFs\<close>), and an in-memory instance of each shows that it can hold; the
  witnesses run the code on these instances.

  \<^bold>\<open>The theories.\<close>

  \<^item> Go\_Prelude, Go\_Maps, Go\_Action, Go\_Json, Go\_Sha256, Go\_Path: what the sources use of the Go language and of
    its packages strings, strconv, fmt, errors, encoding/json, crypto/sha256 and path/filepath. Kube\_Client: the
    client as a parameter, the code's read-or-create pattern, and an in-memory store. Call\_Log: recording
    the calls of a controller, for statements on which calls are made and in which order.

  \<^item> Slurm\_Pattern: internal/utils/slurm/pattern. \<open>Merge\<close> writes names as a hostlist expression; the semantics of such
    expressions is a definition of its own (\<open>hostlist\<close>), and Slurm reads back exactly the names given.

  \<^item> Topology\_Graph, Topology\_Blocks: topology\_graph.go, switch\_name.go, topology\_blocks.go of
    internal/controller/topologyconfcontroller. The loops are shown to compute an edge set and a
    membership relation that are defined without loops, whatever the order of the maps (locale \<open>range_loop\<close>); from
    these follow the forest of switches, the completeness and the closed references of the rendered lines.

  \<^item> Worker\_Topology, Node\_Topology: the two controllers of that directory, from the Kubernetes reads to the
    stored ConfigMap, and the distribution of the labels as JSON.

  \<^item> Hostlist\_Reader, Power\_Manager, Slurm\_Job, Slurm\_Node: cmd/powermanager/main.go and internal/slurmapi. The
    locale \<open>hostlist_reader\<close> has the contract of a parser of hostlist terms and the proof that such a parser inverts
    \<open>Merge\<close>; the parsers of the power manager and of the job metrics are its two interpretations.

  \<^item> Rolling\_Update: internal/controller/updatecontroller/statefulset\_controller.go: which pods are deleted,
    the budget of reboots, and progress.

  \<^item> Rebooter: internal/rebooter/reconcile.go. Besides the reconciliation itself, the life of a node is an
    inductive step relation over reconciliations, requests, the clock, reboots and pods, with an
    invariant that bounds the reboots by the requests.

  \<^item> Health\_Reason, Slurm\_Client, Node\_Cache: the parsing of health check reasons, internal/slurmapi/client.go, reboot.go and undrain.go
    over the generated client as a parameter, and node\_cache.go with client\_set.go. The goroutine of a cache is a step relation in
    time, with an invariant on the age of what it serves.

  \<^item> Node\_Checks, Slurm\_Checks, Storage\_Check: k8s\_nodes\_controller.go, slurm\_nodes\_controller.go, pod\_ephemeral\_storage\_check.go and what they
    share, of internal/controller/soperatorchecks. The properties say which nodes are deleted, what must have been
    observed before a condition is written, which drains are lifted, and what a run of the storage check does.

  \<^item> Node\_Lifecycle: the composition of Node\_Checks and Rebooter. Both controllers act on the same node in any order, interleaved with the
    clock, reboots and whoever finds the node degraded; reboots are bounded, a node recovers, and the order in which
    it does not is shown as well.

  \<^item> Go\_Path, Jail\_Fs, Replaced\_Files, Jailed\_Config: internal/controller/sconfigcontroller. The locale \<open>os_calls\<close> states what
    the system calls do to a file system of names, inodes and directories; \<open>jail_fs\<close> is the contract of the
    interface \<open>Fs\<close>, which \<open>PrefixFs\<close> gives (a sublocale); the batch of replaced files and the controller are proved
    over \<open>jail_fs\<close> only. The properties: paths stay in the jail, a batch can be undone, and a request
    that succeeds has written its files and nothing else.

  \<^bold>\<open>Fuel and bounds.\<close> Loops over data are structural or have a termination proof. Five loops can run on: reading the
    pages of the node list (in two controllers), waiting for power states, polling for the restart of Slurm nodes, and the
    expansion of a numeric range up to the largest 64-bit integer. They have fuel, with \<open>NoReturn\<close> (or \<open>None\<close>)
    for running out. For the first three the properties and the lemma \<open>maintenance_fuel\<close> give the fuel that is enough (the number of pages,
    the ticks before the time-out); for the last one no fuel is, which is the lemma \<open>expandNodeRange_diverges\<close>; of the
    polling loop only successful runs are described. The JSON parser's fuel is the length of its input, which is shown to be enough.
    Percentages are float64 values, given by the rational numbers that they are and rounded as the processor does. The steps of a node cache
    have a parameter for the delay with which the runtime schedules it.

  \<^bold>\<open>What is not modelled.\<close> The rendering of Kubernetes objects (internal/render), the cluster and
  NodeSet controllers and their per-kind reconcilers are long sequences of constructor and client
  calls whose correctness lies in the API server's schemas. The mains, the registration of watches, the end-to-end tests, the
  generated deep-copy code and the macOS stubs hold no logic of their own. Concurrency between controllers is modelled only
  where a statement needs it: the steps of a node under two controllers, those of a node cache, and the conflicts that client-go's
  retry handles.
\<close>

end
